(* ===== verification/Codito_Base.thy ===== *)
theory Codito_Base
  imports Main "HOL-Library.Sublist" "HOL-Library.Code_Target_Nat"
begin

text \<open>
  Shared vocabulary of the development: Python text as lists of Unicode code points, the
  UTF-8 codec of CPython with its three error policies, results that carry an \<open>AgentError\<close>,
  and JSON values.  The lemmas declared here (\<open>[simp]\<close> and the collections \<open>res_simps\<close> and
  \<open>text_simps\<close>) are what the component theories rewrite with.
\<close>

section \<open>Collections\<close>

named_theorems res_simps \<open>inversion of results that succeeded or failed\<close>
named_theorems text_simps \<open>laws of the Python text operations\<close>

section \<open>Results and errors\<close>

text \<open>
  JSON values, as they appear in error details, journals and tool results.  An object is an
  association list in insertion order; the code builds objects with distinct keys.
\<close>

type_synonym pystr = "nat list"
type_synonym bytes = "nat list"

definition lit :: "string \<Rightarrow> pystr" where
  "lit s = map of_char s"

datatype json =
    JNull
  | JBool bool
  | JInt int
  | JStr pystr
  | JList "json list"
  | JObj "(pystr \<times> json) list"

text \<open>
  Exceptions.  An \<open>AgentError\<close> carries its stable code, its wire-safe details and the retry
  hint; the human-readable message is not part of the model.  \<open>OSError\<close>, \<open>IntegrityError\<close> and
  \<open>ValueError\<close> are the exceptions of the operating system, of SQLite and of the standard library
  that the code lets pass.
\<close>

datatype exn =
    AgentError (err_code: string) (err_details: "(string \<times> json) list") (err_retryable: bool)
  | OSError
  | IntegrityError
  | ValueError

abbreviation raise :: "string \<Rightarrow> exn" where
  "raise c \<equiv> AgentError c [] False"

type_synonym 'a res = "exn + 'a"

definition bindE :: "'e + 'a \<Rightarrow> ('a \<Rightarrow> 'e + 'b) \<Rightarrow> 'e + 'b" where
  "bindE m f = (case m of Inl e \<Rightarrow> Inl e | Inr x \<Rightarrow> f x)"

definition raise_if :: "bool \<Rightarrow> 'e \<Rightarrow> 'e + unit" where
  "raise_if c e = (if c then Inl e else Inr ())"

lemma bindE_simps [simp]:
  "bindE (Inl e) f = Inl e"
  "bindE (Inr x) f = f x"
  by (simp_all add: bindE_def)

lemma raise_if_simps [simp]:
  "raise_if True e = Inl e"
  "raise_if False e = Inr ()"
  by (simp_all add: raise_if_def)

lemma bindE_eq_Inr [res_simps]:
  "bindE m f = Inr y \<longleftrightarrow> (\<exists>x. m = Inr x \<and> f x = Inr y)"
  by (cases m) auto

lemma bindE_eq_Inl [res_simps]:
  "bindE m f = Inl e \<longleftrightarrow> m = Inl e \<or> (\<exists>x. m = Inr x \<and> f x = Inl e)"
  by (cases m) auto

lemma raise_if_eq_Inr [res_simps]: "raise_if c e = Inr u \<longleftrightarrow> \<not> c"
  by (simp add: raise_if_def)

lemma raise_if_eq_Inl [res_simps]: "raise_if c e = Inl d \<longleftrightarrow> c \<and> d = e"
  by (auto simp: raise_if_def)

definition is_ok :: "'e + 'a \<Rightarrow> bool" where
  "is_ok r = (case r of Inl _ \<Rightarrow> False | Inr _ \<Rightarrow> True)"

lemma is_ok_simps [simp]: "is_ok (Inr x)" "\<not> is_ok (Inl e)"
  by (simp_all add: is_ok_def)

text \<open>A loop that runs a check on every element and stops at the first exception.\<close>

fun foldE :: "('s \<Rightarrow> 'x \<Rightarrow> 'e + 's) \<Rightarrow> 's \<Rightarrow> 'x list \<Rightarrow> 'e + 's" where
  "foldE f s [] = Inr s"
| "foldE f s (x # xs) = bindE (f s x) (\<lambda>s'. foldE f s' xs)"

lemma foldE_append:
  "foldE f s (xs @ ys) = bindE (foldE f s xs) (\<lambda>s'. foldE f s' ys)"
  by (induction xs arbitrary: s) (auto simp: bindE_def split: sum.splits)

lemma foldE_invariant:
  assumes "\<And>s x s'. x \<in> set xs \<Longrightarrow> P s \<Longrightarrow> f s x = Inr s' \<Longrightarrow> P s'"
    and "P s" and "foldE f s xs = Inr s'"
  shows "P s'"
  using assms
proof (induction xs arbitrary: s)
  case Nil
  then show ?case by simp
next
  case (Cons x xs)
  then obtain t where "f s x = Inr t" and "foldE f t xs = Inr s'"
    by (auto simp: res_simps)
  moreover have "P t"
    using Cons.prems(1) [of x s t] Cons.prems(2) calculation(1) by simp
  ultimately show ?case using Cons.IH [of t] Cons.prems(1) by (meson list.set_intros(2))
qed

section \<open>UTF-8\<close>

text \<open>
  Unicode scalar values are the code points a Python string holds when it came from a
  successful decoding: no surrogates, nothing above \<open>0x10FFFF\<close>.
\<close>

definition scalar :: "nat \<Rightarrow> bool" where
  "scalar c \<longleftrightarrow> c < 0xD800 \<or> (0xE000 \<le> c \<and> c < 0x110000)"

definition utf8_char :: "nat \<Rightarrow> bytes" where
  "utf8_char c =
     (if c < 0x80 then [c]
      else if c < 0x800 then [0xC0 + c div 64, 0x80 + c mod 64]
      else if c < 0x10000 then
        [0xE0 + c div 4096, 0x80 + c div 64 mod 64, 0x80 + c mod 64]
      else
        [0xF0 + c div 262144, 0x80 + c div 4096 mod 64, 0x80 + c div 64 mod 64, 0x80 + c mod 64])"

definition utf8_encode :: "pystr \<Rightarrow> bytes" where
  "utf8_encode s = concat (map utf8_char s)"

definition cont :: "nat \<Rightarrow> bool" where
  "cont b \<longleftrightarrow> 0x80 \<le> b \<and> b < 0xC0"

text \<open>
  One step of CPython's decoder on the lead byte \<open>b\<close> and the bytes after it: the character, or
  \<open>None\<close> for one decoding error, and how many of the following bytes belong to it.  The second
  byte of \<open>E0\<close>, \<open>ED\<close>, \<open>F0\<close> and \<open>F4\<close> is restricted, so overlong forms and surrogates are
  errors at their first byte; a sequence cut off by the end of the input is one error that
  covers the rest.
\<close>

definition second_ok :: "nat \<Rightarrow> nat \<Rightarrow> bool" where
  "second_ok b c \<longleftrightarrow> cont c \<and> (b = 0xE0 \<longrightarrow> 0xA0 \<le> c) \<and> (b = 0xED \<longrightarrow> c < 0xA0)
     \<and> (b = 0xF0 \<longrightarrow> 0x90 \<le> c) \<and> (b = 0xF4 \<longrightarrow> c < 0x90)"

definition utf8_next :: "nat \<Rightarrow> bytes \<Rightarrow> nat option \<times> nat" where
  "utf8_next b bs =
     (if b < 0x80 then (Some b, 0)
      else if 0xC2 \<le> b \<and> b < 0xE0 then
        (case bs of
           [] \<Rightarrow> (None, 0)
         | c # _ \<Rightarrow> if cont c then (Some ((b - 0xC0) * 64 + (c - 0x80)), 1) else (None, 0))
      else if 0xE0 \<le> b \<and> b < 0xF0 then
        (case bs of
           [] \<Rightarrow> (None, 0)
         | [c] \<Rightarrow> if second_ok b c then (None, 1) else (None, 0)
         | c # d # _ \<Rightarrow>
             if \<not> second_ok b c then (None, 0)
             else if \<not> cont d then (None, 1)
             else (Some ((b - 0xE0) * 4096 + (c - 0x80) * 64 + (d - 0x80)), 2))
      else if 0xF0 \<le> b \<and> b < 0xF5 then
        (case bs of
           [] \<Rightarrow> (None, 0)
         | [c] \<Rightarrow> if second_ok b c then (None, 1) else (None, 0)
         | [c, d] \<Rightarrow>
             if \<not> second_ok b c then (None, 0)
             else if \<not> cont d then (None, 1) else (None, 2)
         | c # d # e # _ \<Rightarrow>
             if \<not> second_ok b c then (None, 0)
             else if \<not> cont d then (None, 1)
             else if \<not> cont e then (None, 2)
             else (Some ((b - 0xF0) * 262144 + (c - 0x80) * 4096 + (d - 0x80) * 64 + (e - 0x80)), 3))
      else (None, 0))"

fun utf8_items :: "bytes \<Rightarrow> nat option list" where
  "utf8_items [] = []"
| "utf8_items (b # bs) =
     fst (utf8_next b bs) # utf8_items (drop (snd (utf8_next b bs)) bs)"

definition utf8_decode :: "bytes \<Rightarrow> pystr option" where
  "utf8_decode bs =
     (let items = utf8_items bs in if None \<in> set items then None else Some (map the items))"

definition utf8_decode_ignore :: "bytes \<Rightarrow> pystr" where
  "utf8_decode_ignore bs = map the (filter (\<lambda>x. x \<noteq> None) (utf8_items bs))"

definition utf8_decode_replace :: "bytes \<Rightarrow> pystr" where
  "utf8_decode_replace bs = map (\<lambda>x. case x of None \<Rightarrow> 0xFFFD | Some c \<Rightarrow> c) (utf8_items bs)"

lemma utf8_encode_simps [simp]:
  "utf8_encode [] = []"
  "utf8_encode (c # s) = utf8_char c @ utf8_encode s"
  "utf8_encode (s @ t) = utf8_encode s @ utf8_encode t"
  by (simp_all add: utf8_encode_def)

lemma utf8_char_length: "1 \<le> length (utf8_char c)" "length (utf8_char c) \<le> 4"
  by (simp_all add: utf8_char_def)

lemma utf8_char_nonempty [simp]: "utf8_char c \<noteq> []"
  by (simp add: utf8_char_def)

text \<open>Arithmetic of the multi-byte forms: the base-64 digits of a code point.\<close>

lemma base64_digits:
  fixes c :: nat
  defines "q \<equiv> c div 64" and "p \<equiv> c div 4096" and "o' \<equiv> c div 262144"
  shows "c = 64 * q + c mod 64" "q = 64 * p + q mod 64" "p = 64 * o' + p mod 64"
    "c mod 64 < 64" "q mod 64 < 64" "p mod 64 < 64"
proof -
  have p: "p = q div 64" and o: "o' = p div 64"
    by (simp_all add: q_def p_def o'_def div_mult2_eq [symmetric])
  show "c = 64 * q + c mod 64" by (simp add: q_def)
  show "q = 64 * p + q mod 64" unfolding p by simp
  show "p = 64 * o' + p mod 64" unfolding o by simp
qed simp_all

lemma utf8_two:
  assumes "0x80 \<le> c" "c < 0x800"
  shows "0xC2 \<le> 0xC0 + c div 64" "0xC0 + c div 64 < 0xE0"
    "(c div 64) * 64 + c mod 64 = (c::nat)"
  using assms base64_digits(1,4) [of c] by linarith+

lemma utf8_three:
  assumes "0x800 \<le> c" "c < 0x10000"
  shows "0xE0 + c div 4096 < 0xF0"
    "(c div 4096) * 4096 + (c div 64 mod 64) * 64 + c mod 64 = (c::nat)"
  using assms base64_digits [of c] by linarith+

lemma utf8_four:
  assumes "0x10000 \<le> c" "c < 0x110000"
  shows "0xF0 + c div 262144 < 0xF5"
    "(c div 262144) * 262144 + (c div 4096 mod 64) * 4096 + (c div 64 mod 64) * 64 + c mod 64
       = (c::nat)"
  using assms base64_digits [of c] by linarith+

lemma cont_low6 [simp]: "cont (0x80 + c mod 64)"
  by (simp add: cont_def)

lemma second_ok_three:
  assumes "0x800 \<le> c" "c < 0x10000" "scalar c"
  shows "second_ok (0xE0 + c div 4096) (0x80 + c div 64 mod 64)"
proof -
  have a: "c div 4096 = 0 \<Longrightarrow> 32 \<le> c div 64 mod 64"
    using assms(1) base64_digits [of c] by linarith
  have b: "c div 4096 = 13 \<Longrightarrow> c div 64 mod 64 < 32"
    using assms(3) base64_digits [of c] unfolding scalar_def by linarith
  have "c div 4096 < 16" using utf8_three(1) [OF assms(1,2)] by simp
  with a b show ?thesis by (auto simp: second_ok_def)
qed

lemma second_ok_four:
  assumes "0x10000 \<le> c" "c < 0x110000"
  shows "second_ok (0xF0 + c div 262144) (0x80 + c div 4096 mod 64)"
proof -
  have "c div 262144 = 0 \<Longrightarrow> 16 \<le> c div 4096 mod 64"
    using assms(1) base64_digits [of c] by linarith
  moreover have "c div 262144 = 4 \<Longrightarrow> c div 4096 mod 64 < 16"
    using assms(2) base64_digits [of c] by linarith
  ultimately show ?thesis by (auto simp: second_ok_def)
qed

lemma utf8_items_char:
  assumes "scalar c"
  shows "utf8_items (utf8_char c @ rest) = Some c # utf8_items rest"
proof -
  consider "c < 0x80" | "0x80 \<le> c" "c < 0x800" | "0x800 \<le> c" "c < 0x10000"
    | "0x10000 \<le> c" "c < 0x110000"
    using assms by (fastforce simp: scalar_def)
  then show ?thesis
  proof cases
    case 1
    then show ?thesis by (simp add: utf8_char_def utf8_next_def)
  next
    case 2
    then have "utf8_char c = [0xC0 + c div 64, 0x80 + c mod 64]" by (simp add: utf8_char_def)
    moreover have "utf8_next (0xC0 + c div 64) ((0x80 + c mod 64) # rest) = (Some c, 1)"
      using utf8_two [OF 2] unfolding utf8_next_def by auto
    ultimately show ?thesis by simp
  next
    case 3
    then show ?thesis
      using utf8_three [OF 3] second_ok_three [OF 3 assms]
      by (simp add: utf8_char_def utf8_next_def)
  next
    case 4
    then show ?thesis
      using utf8_four [OF 4] second_ok_four [OF 4]
      by (simp add: utf8_char_def utf8_next_def)
  qed
qed

lemma utf8_items_cut:
  assumes "scalar c" "0 < k" "k < length (utf8_char c)"
  shows "utf8_items (take k (utf8_char c)) = [None]"
proof -
  consider "0x80 \<le> c" "c < 0x800" "k = 1"
    | "0x800 \<le> c" "c < 0x10000" "k = 1 \<or> k = 2"
    | "0x10000 \<le> c" "c < 0x110000" "k = 1 \<or> k = 2 \<or> k = 3"
    using assms by (fastforce simp: scalar_def utf8_char_def split: if_splits)
  then show ?thesis
  proof cases
    case 1
    then show ?thesis
      using utf8_two [OF 1(1,2)] by (simp add: utf8_char_def utf8_next_def)
  next
    case 2
    then show ?thesis
      using utf8_three [OF 2(1,2)] second_ok_three [OF 2(1,2) assms(1)]
      by (auto simp: utf8_char_def utf8_next_def numeral_2_eq_2)
  next
    case 3
    then show ?thesis
      using utf8_four [OF 3(1,2)] second_ok_four [OF 3(1,2)]
      by (auto simp: utf8_char_def utf8_next_def numeral_2_eq_2 numeral_3_eq_3)
  qed
qed

lemma utf8_items_encode:
  "list_all scalar s \<Longrightarrow> utf8_items (utf8_encode s @ rest) = map Some s @ utf8_items rest"
  by (induction s) (auto simp: utf8_items_char)

text \<open>Decoding what was encoded gives the text back, under every error policy.\<close>

lemma utf8_decode_encode:
  "list_all scalar s \<Longrightarrow> utf8_decode (utf8_encode s) = Some s"
  using utf8_items_encode [of s "[]"] by (simp add: utf8_decode_def comp_def)

lemma base64_two: "j < 64 \<Longrightarrow> (i * 64 + j) div 64 = (i::nat)" "j < 64 \<Longrightarrow> (i * 64 + j) mod 64 = j"
  by simp_all

lemma base64_three:
  assumes "j < 64" "k < 64"
  shows "(i * 4096 + j * 64 + k) div 4096 = (i::nat)" "(i * 4096 + j * 64 + k) div 64 mod 64 = j"
    "(i * 4096 + j * 64 + k) mod 64 = k"
proof -
  have e: "i * 4096 + j * 64 + k = (i * 64 + j) * 64 + k" by simp
  have d: "(i * 4096 + j * 64 + k) div 64 = i * 64 + j" unfolding e using base64_two assms by blast
  show "(i * 4096 + j * 64 + k) div 64 mod 64 = j" unfolding d using base64_two assms by blast
  show "(i * 4096 + j * 64 + k) mod 64 = k" unfolding e using base64_two assms by blast
  show "(i * 4096 + j * 64 + k) div 4096 = i"
    using d base64_two(1) [OF assms(1), of i] div_mult2_eq [of "i * 4096 + j * 64 + k" 64 64] by simp
qed

lemma base64_four:
  assumes "j < 64" "k < 64" "l < 64"
  shows "(i * 262144 + j * 4096 + k * 64 + l) div 262144 = (i::nat)"
    "(i * 262144 + j * 4096 + k * 64 + l) div 4096 mod 64 = j"
    "(i * 262144 + j * 4096 + k * 64 + l) div 64 mod 64 = k"
    "(i * 262144 + j * 4096 + k * 64 + l) mod 64 = l"
proof -
  let ?c = "i * 262144 + j * 4096 + k * 64 + l"
  have e: "?c = (i * 4096 + j * 64 + k) * 64 + l" by simp
  have d: "?c div 64 = i * 4096 + j * 64 + k" unfolding e using base64_two assms by blast
  show "?c div 64 mod 64 = k" unfolding d e [symmetric]
    using base64_two(2) [of k "i * 64 + j"] assms by (simp add: algebra_simps)
  show "?c mod 64 = l" unfolding e using base64_two assms by blast
  have q: "?c div 4096 = ?c div 64 div 64" "?c div 262144 = ?c div 64 div 64 div 64"
    by (simp_all add: div_mult2_eq [symmetric])
  have f: "?c div 64 div 64 = i * 64 + j"
    unfolding d using base64_two(1) [of k "i * 64 + j"] assms by (simp add: algebra_simps)
  show "?c div 4096 mod 64 = j" "?c div 262144 = i"
    unfolding q f using base64_two assms by blast+
qed

lemma cont_digit: "cont b \<longleftrightarrow> (\<exists>j. b = 0x80 + j \<and> j < 64)"
proof
  assume "cont b"
  then show "\<exists>j. b = 0x80 + j \<and> j < 64"
    unfolding cont_def by (intro exI [of _ "b - 0x80"]) linarith
qed (auto simp: cont_def)

text \<open>What the decoder reads as a character is the encoding of that character.\<close>

lemma utf8_next_sound:
  assumes "utf8_next b bs = (Some c, k)"
  shows "b # bs = utf8_char c @ drop k bs \<and> scalar c"
proof -
  consider (1) "b < 0x80" "c = b" "k = 0"
    | (2) x r where "0xC2 \<le> b" "b < 0xE0" "bs = x # r" "cont x" "k = 1" "c = (b - 0xC0) * 64 + (x - 0x80)"
    | (3) x y r where "0xE0 \<le> b" "b < 0xF0" "bs = x # y # r" "second_ok b x" "cont y" "k = 2"
        "c = (b - 0xE0) * 4096 + (x - 0x80) * 64 + (y - 0x80)"
    | (4) x y z r where "0xF0 \<le> b" "b < 0xF5" "bs = x # y # z # r" "second_ok b x" "cont y" "cont z"
        "k = 3" "c = (b - 0xF0) * 262144 + (x - 0x80) * 4096 + (y - 0x80) * 64 + (z - 0x80)"
    using assms unfolding utf8_next_def by (auto split: if_splits list.splits)
  then show ?thesis
  proof cases
    case 1
    then show ?thesis by (simp add: utf8_char_def scalar_def)
  next
    case 2
    obtain i where i: "b = 0xC0 + i" "2 \<le> i" "i < 32" using 2(1,2) by (auto dest!: le_Suc_ex)
    obtain j where j: "x = 0x80 + j" "j < 64" using 2(4) by (auto simp: cont_digit)
    have c: "c = i * 64 + j" using 2(6) i(1) j(1) by simp
    have "0x80 \<le> c" "c < 0x800" using c i(2,3) j(2) by linarith+
    then show ?thesis using base64_two [OF j(2), of i] 2 c i j
      by (simp add: utf8_char_def scalar_def)
  next
    case 3
    obtain i where i: "b = 0xE0 + i" "i < 16" using 3(1,2) by (auto dest!: le_Suc_ex)
    obtain j where j: "x = 0x80 + j" "j < 64" using 3(4) by (auto simp: cont_digit second_ok_def)
    obtain l where l: "y = 0x80 + l" "l < 64" using 3(5) by (auto simp: cont_digit)
    have c: "c = i * 4096 + j * 64 + l" using 3(7) i(1) j(1) l(1) by simp
    have "i = 0 \<Longrightarrow> 32 \<le> j" "i = 13 \<Longrightarrow> j < 32" using 3(4) i j by (auto simp: second_ok_def)
    then have "0x800 \<le> c" "c < 0x10000" using c i(2) j(2) l(2) by linarith+
    moreover have "c < 0xD800 \<or> 0xE000 \<le> c"
    proof (cases i "13 :: nat" rule: linorder_cases)
      case equal
      then show ?thesis using \<open>i = 13 \<Longrightarrow> j < 32\<close> c l(2) by linarith
    qed (use c j(2) l(2) in linarith)+
    ultimately have "0x800 \<le> c" "c < 0x10000" "c < 0xD800 \<or> 0xE000 \<le> c" by blast+
    then have "utf8_char c = [0xE0 + c div 4096, 0x80 + c div 64 mod 64, 0x80 + c mod 64]" "scalar c"
      by (simp_all add: utf8_char_def scalar_def)
    moreover have "c div 4096 = i" "c div 64 mod 64 = j" "c mod 64 = l"
      unfolding c by (rule base64_three [OF j(2) l(2)])+
    ultimately show ?thesis by (simp add: 3(3,6) i(1) j(1) l(1))
  next
    case 4
    obtain i where i: "b = 0xF0 + i" "i < 5" using 4(1,2) by (auto dest!: le_Suc_ex)
    obtain j where j: "x = 0x80 + j" "j < 64" using 4(4) by (auto simp: cont_digit second_ok_def)
    obtain l where l: "y = 0x80 + l" "l < 64" using 4(5) by (auto simp: cont_digit)
    obtain m where m: "z = 0x80 + m" "m < 64" using 4(6) by (auto simp: cont_digit)
    have c: "c = i * 262144 + j * 4096 + l * 64 + m" using 4(8) i(1) j(1) l(1) m(1) by simp
    have "i = 0 \<Longrightarrow> 16 \<le> j" "i = 4 \<Longrightarrow> j < 16" using 4(4) i j by (auto simp: second_ok_def)
    then have "0x10000 \<le> c" "c < 0x110000" using c i(2) j(2) l(2) m(2) by linarith+
    then have "utf8_char c = [0xF0 + c div 262144, 0x80 + c div 4096 mod 64, 0x80 + c div 64 mod 64,
        0x80 + c mod 64]" "scalar c"
      by (simp_all add: utf8_char_def scalar_def)
    moreover have "c div 262144 = i" "c div 4096 mod 64 = j" "c div 64 mod 64 = l" "c mod 64 = m"
      unfolding c by (rule base64_four [OF j(2) l(2) m(2)])+
    ultimately show ?thesis by (simp add: 4(3,7) i(1) j(1) l(1) m(1))
  qed
qed

lemma utf8_items_sound:
  "None \<notin> set (utf8_items bs) \<Longrightarrow>
     utf8_encode (map the (utf8_items bs)) = bs \<and> list_all scalar (map the (utf8_items bs))"
proof (induction bs rule: utf8_items.induct)
  case 1
  then show ?case by simp
next
  case (2 b bs)
  obtain c k where n: "utf8_next b bs = (Some c, k)"
    using "2.prems" by (cases "utf8_next b bs"; cases "fst (utf8_next b bs)") auto
  with 2 utf8_next_sound [OF n] show ?case by (simp add: utf8_items_char)
qed

lemma utf8_decode_sound:
  "utf8_decode bs = Some s \<Longrightarrow> utf8_encode s = bs \<and> list_all scalar s"
  using utf8_items_sound [of bs] by (auto simp: utf8_decode_def Let_def split: if_splits)
lemma utf8_encode_inj:
  "list_all scalar s \<Longrightarrow> list_all scalar t \<Longrightarrow> utf8_encode s = utf8_encode t \<longleftrightarrow> s = t"
  by (metis option.inject utf8_decode_encode)

text \<open>
  Cutting an encoded text at an arbitrary byte and decoding with \<open>errors="ignore"\<close> keeps exactly
  the characters that fit whole: a prefix whose encoding is at most the cut, and such that the
  next character would not have fitted.
\<close>

fun fit_prefix :: "nat \<Rightarrow> pystr \<Rightarrow> pystr" where
  "fit_prefix n [] = []"
| "fit_prefix n (c # s) =
     (if length (utf8_char c) \<le> n then c # fit_prefix (n - length (utf8_char c)) s else [])"

lemma utf8_items_take:
  "list_all scalar s \<Longrightarrow>
     \<exists>tail. set tail \<subseteq> {None} \<and> utf8_items (take n (utf8_encode s)) = map Some (fit_prefix n s) @ tail"
proof (induction s arbitrary: n)
  case Nil
  then show ?case by simp
next
  case (Cons c s)
  let ?k = "length (utf8_char c)"
  show ?case
  proof (cases "?k \<le> n")
    case True
    then have "take n (utf8_encode (c # s)) = utf8_char c @ take (n - ?k) (utf8_encode s)" by simp
    then show ?thesis
      using Cons.IH [of "n - ?k"] Cons.prems True by (auto simp: utf8_items_char)
  next
    case False
    then have t: "take n (utf8_encode (c # s)) = take n (utf8_char c)" by simp
    show ?thesis
    proof (cases "n = 0")
      case True
      then show ?thesis using False by simp
    next
      case n: False
      then have "utf8_items (take n (utf8_char c)) = [None]"
        using False Cons.prems by (intro utf8_items_cut) auto
      then show ?thesis using False t by simp
    qed
  qed
qed

lemma utf8_decode_ignore_take:
  assumes "list_all scalar s"
  shows "utf8_decode_ignore (take n (utf8_encode s)) = fit_prefix n s"
proof -
  obtain tail where "set tail \<subseteq> {None}"
    and "utf8_items (take n (utf8_encode s)) = map Some (fit_prefix n s) @ tail"
    using utf8_items_take [OF assms] by blast
  moreover from this have "filter (\<lambda>x. x \<noteq> None) tail = []"
    by (auto simp: filter_empty_conv)
  ultimately show ?thesis
    by (simp add: utf8_decode_ignore_def filter_map comp_def)
qed

lemma fit_prefix_prefix: "prefix (fit_prefix n s) s"
  by (induction n s rule: fit_prefix.induct) auto

lemma fit_prefix_length: "length (utf8_encode (fit_prefix n s)) \<le> n"
  by (induction n s rule: fit_prefix.induct) auto

lemma fit_prefix_all: "length (utf8_encode s) \<le> n \<Longrightarrow> fit_prefix n s = s"
  by (induction n s rule: fit_prefix.induct) auto

lemma fit_prefix_maximal:
  "prefix p s \<Longrightarrow> length (utf8_encode p) \<le> n \<Longrightarrow> prefix p (fit_prefix n s)"
proof (induction n s arbitrary: p rule: fit_prefix.induct)
  case (1 n)
  then show ?case by simp
next
  case (2 n c s)
  then show ?case by (cases p) auto
qed

end
