(* ===== verification/Codito_Text.thy ===== *)
theory Codito_Text
  imports Codito_Base
begin

text \<open>
  The Python string methods the agent applies to untrusted text, on lists of code points:
  \<open>str.splitlines\<close> (with and without the line ends), \<open>str.split\<close> on one separator character,
  \<open>str.join\<close>, \<open>str.strip\<close>, \<open>str.startswith\<close>/\<open>endswith\<close>, \<open>in\<close> on substrings and ASCII case
  conversion; and their laws.
\<close>

section \<open>Lines\<close>

text \<open>The line boundaries of \<open>str.splitlines\<close>; \<open>\r\n\<close> counts as one boundary.\<close>

definition is_linebreak :: "nat \<Rightarrow> bool" where
  "is_linebreak c \<longleftrightarrow> c \<in> {10, 11, 12, 13, 28, 29, 30, 0x85, 0x2028, 0x2029}"

fun take_line :: "pystr \<Rightarrow> pystr \<times> pystr \<times> pystr" where
  "take_line [] = ([], [], [])"
| "take_line (c # cs) =
     (if c = 13 \<and> (case cs of d # _ \<Rightarrow> d = 10 | [] \<Rightarrow> False) then ([], [13, 10], tl cs)
      else if is_linebreak c then ([], [c], cs)
      else (case take_line cs of (l, e, r) \<Rightarrow> (c # l, e, r)))"

lemma take_line_append: "take_line s = (l, e, r) \<Longrightarrow> s = l @ e @ r"
  by (induction s arbitrary: l e r) (auto split: if_splits prod.splits list.splits)

lemma take_line_shorter: "take_line (c # cs) = (l, e, r) \<Longrightarrow> length r < Suc (length cs)"
proof -
  assume a: "take_line (c # cs) = (l, e, r)"
  then have "c # cs = l @ e @ r" by (rule take_line_append)
  moreover from a have "l \<noteq> [] \<or> e \<noteq> []" by (auto split: if_splits prod.splits)
  ultimately show ?thesis by (cases l; cases e; auto simp: Cons_eq_append_conv)
qed

function splitlines_ends :: "pystr \<Rightarrow> (pystr \<times> pystr) list" where
  "splitlines_ends [] = []"
| "splitlines_ends (c # cs) =
     (case take_line (c # cs) of (l, e, r) \<Rightarrow> (l, e) # splitlines_ends r)"
  by pat_completeness auto
termination
  by (relation "measure length") (auto simp del: take_line.simps intro: take_line_shorter sym)

definition splitlines :: "pystr \<Rightarrow> pystr list" where
  "splitlines s = map fst (splitlines_ends s)"

definition splitlines_keep :: "pystr \<Rightarrow> pystr list" where
  "splitlines_keep s = map (\<lambda>(l, e). l @ e) (splitlines_ends s)"

lemma concat_splitlines_keep [text_simps]: "concat (splitlines_keep s) = s"
proof (induction s rule: splitlines_ends.induct)
  case 1
  then show ?case by (simp add: splitlines_keep_def)
next
  case (2 c cs)
  obtain l e r where t: "take_line (c # cs) = (l, e, r)" by (metis prod_cases3)
  then have "concat (splitlines_keep r) = r" using 2 by (simp del: take_line.simps)
  moreover have "splitlines_keep (c # cs) = (l @ e) # splitlines_keep r"
    using t by (simp add: splitlines_keep_def del: take_line.simps)
  ultimately show ?case using take_line_append [OF t] by simp
qed

text \<open>A line that holds no boundary is taken whole, up to the boundary that follows it.\<close>

abbreviation plain :: "pystr \<Rightarrow> bool" where
  "plain l \<equiv> list_all (\<lambda>c. \<not> is_linebreak c) l"

definition newline :: "pystr \<Rightarrow> bool" where
  "newline n \<longleftrightarrow> n \<in> {[10], [13, 10], [13]}"

lemma take_line_newline:
  assumes "plain l" "newline n" "n = [13] \<longrightarrow> rest = [] \<or> hd rest \<noteq> 10"
  shows "take_line (l @ n @ rest) = (l, n, rest)"
  using assms
proof (induction l)
  case Nil
  then show ?case
    by (cases rest) (auto simp: newline_def is_linebreak_def)
next
  case (Cons c l)
  then show ?case by (auto simp: is_linebreak_def)
qed

lemma take_line_last: "plain l \<Longrightarrow> take_line l = (l, [], [])"
  by (induction l) (auto simp: is_linebreak_def)

lemma take_line_plain: "take_line s = (l, e, r) \<Longrightarrow> plain l"
  by (induction s arbitrary: l e r) (auto split: if_splits prod.splits)

lemma splitlines_plain: "l \<in> set (splitlines s) \<Longrightarrow> plain l"
proof (induction s rule: splitlines_ends.induct)
  case 1
  then show ?case by (simp add: splitlines_def)
next
  case (2 c cs)
  obtain l' e r where t: "take_line (c # cs) = (l', e, r)" by (metis prod_cases3)
  with 2 show ?case
    by (auto simp: splitlines_def simp del: take_line.simps dest: take_line_plain)
qed

lemma splitlines_chars: "l \<in> set (splitlines s) \<Longrightarrow> set l \<subseteq> set s"
proof (induction s rule: splitlines_ends.induct)
  case 1
  then show ?case by (simp add: splitlines_def)
next
  case (2 c cs)
  obtain l' e r where t: "take_line (c # cs) = (l', e, r)" by (metis prod_cases3)
  then have "set (c # cs) = set l' \<union> set e \<union> set r" using take_line_append [OF t] by (simp only: set_append Un_assoc)
  with 2 t show ?case by (auto simp: splitlines_def simp del: take_line.simps)
qed

lemma splitlines_ends_append:
  assumes "plain l" "newline n" "n = [13] \<longrightarrow> rest = [] \<or> hd rest \<noteq> 10"
  shows "splitlines_ends (l @ n @ rest) = (l, n) # splitlines_ends rest"
proof -
  have "l @ n @ rest \<noteq> []" using assms(2) by (auto simp: newline_def)
  then obtain c cs where "l @ n @ rest = c # cs" by (cases "l @ n @ rest") auto
  with take_line_newline [OF assms] show ?thesis by (simp del: take_line.simps)
qed

lemma splitlines_ends_last:
  "plain l \<Longrightarrow> splitlines_ends l = (if l = [] then [] else [(l, [])])"
  using take_line_last [of l] by (cases l) (simp_all del: take_line.simps)

section \<open>Joining and splitting\<close>

fun join :: "pystr \<Rightarrow> pystr list \<Rightarrow> pystr" where
  "join sep [] = []"
| "join sep [l] = l"
| "join sep (l # m # ls) = l @ sep @ join sep (m # ls)"

lemma join_Cons: "ls \<noteq> [] \<Longrightarrow> join sep (l # ls) = l @ sep @ join sep ls"
  by (cases ls) auto

fun split_on :: "nat \<Rightarrow> pystr \<Rightarrow> pystr list" where
  "split_on c [] = [[]]"
| "split_on c (d # s) =
     (if d = c then [] # split_on c s
      else (case split_on c s of [] \<Rightarrow> [[d]] | l # ls \<Rightarrow> (d # l) # ls))"

lemma split_on_nonempty [simp]: "split_on c s \<noteq> []"
  by (cases s) (auto split: list.splits)

lemma join_split_on [text_simps]: "join [c] (split_on c s) = s"
proof (induction s)
  case Nil
  then show ?case by simp
next
  case (Cons d s)
  obtain l ls where "split_on c s = l # ls" using split_on_nonempty by (metis list.exhaust)
  with Cons show ?case by (cases ls) auto
qed

lemma split_on_inj [simp]: "split_on c s = split_on c t \<longleftrightarrow> s = t"
  by (metis join_split_on)

lemma split_on_parts: "l \<in> set (split_on c s) \<Longrightarrow> c \<notin> set l"
proof (induction s arbitrary: l)
  case Nil
  then show ?case by simp
next
  case (Cons d s)
  obtain m ms where "split_on c s = m # ms" using split_on_nonempty by (metis list.exhaust)
  with Cons show ?case by (fastforce split: if_splits)
qed

lemma split_on_chars:
  "(\<exists>l\<in>set (split_on c s). x \<in> set l) \<longleftrightarrow> x \<in> set s \<and> x \<noteq> c"
proof (induction s)
  case Nil
  then show ?case by simp
next
  case (Cons d s)
  obtain m ms where "split_on c s = m # ms" using split_on_nonempty by (metis list.exhaust)
  with Cons show ?case by auto
qed

lemma split_on_append:
  "c \<notin> set l \<Longrightarrow> split_on c (l @ c # s) = l # split_on c s"
  by (induction l) auto

lemma split_on_whole: "c \<notin> set l \<Longrightarrow> split_on c l = [l]"
  by (induction l) auto

lemma split_on_join [text_simps]:
  "ls \<noteq> [] \<Longrightarrow> \<forall>l\<in>set ls. c \<notin> set l \<Longrightarrow> split_on c (join [c] ls) = ls"
  by (induction "[c]" ls rule: join.induct) (auto simp: split_on_append split_on_whole)

lemma splitlines_join [text_simps]:
  "ls \<noteq> [] \<Longrightarrow> last ls \<noteq> [] \<Longrightarrow> list_all plain ls \<Longrightarrow> splitlines (join [10] ls) = ls"
  by (induction "[10 :: nat]" ls rule: join.induct)
    (simp_all add: splitlines_def splitlines_ends_last splitlines_ends_append [of _ "[10]", simplified]
      newline_def)

lemma set_join: "set (join sep ls) \<subseteq> \<Union> (set ` set ls) \<union> set sep"
  by (induction sep ls rule: join.induct) auto

section \<open>Other methods\<close>

abbreviation startswith :: "pystr \<Rightarrow> pystr \<Rightarrow> bool" where
  "startswith s p \<equiv> prefix p s"

abbreviation endswith :: "pystr \<Rightarrow> pystr \<Rightarrow> bool" where
  "endswith s p \<equiv> suffix p s"

abbreviation contains :: "pystr \<Rightarrow> pystr \<Rightarrow> bool" where
  "contains s p \<equiv> sublist p s"

text \<open>The characters \<open>str.strip\<close> removes.\<close>

definition is_space :: "nat \<Rightarrow> bool" where
  "is_space c \<longleftrightarrow> 9 \<le> c \<and> c \<le> 13 \<or> 28 \<le> c \<and> c \<le> 32 \<or> c \<in> {0x85, 0xA0, 0x1680}
     \<or> 0x2000 \<le> c \<and> c \<le> 0x200A \<or> c \<in> {0x2028, 0x2029, 0x202F, 0x205F, 0x3000}"

definition strip :: "pystr \<Rightarrow> pystr" where
  "strip s = rev (dropWhile is_space (rev (dropWhile is_space s)))"

lemma length_strip: "length (strip s) \<le> length s"
  unfolding strip_def by (metis length_dropWhile_le length_rev le_trans)

lemma strip_strip [simp]: "strip (strip s) = strip s"
proof -
  define t where "t = rev (dropWhile is_space s)"
  have "dropWhile is_space (rev (dropWhile is_space t)) = rev (dropWhile is_space t)"
  proof (cases "dropWhile is_space t")
    case Nil
    then show ?thesis by (simp only: Nil) simp
  next
    case (Cons a u)
    have "suffix (dropWhile is_space t) t" by (rule suffix_dropWhile)
    then obtain z where z: "t = z @ dropWhile is_space t" by (auto simp: suffix_def)
    then have "last t = last (dropWhile is_space t)" using Cons by (metis last_appendR list.distinct(1))
    moreover have "\<not> is_space (last t)"
    proof -
      have "t \<noteq> []" using Cons by auto
      then have "dropWhile is_space s \<noteq> []" unfolding t_def by (metis rev.simps(1))
      then have "\<not> is_space (hd (dropWhile is_space s))" by (rule hd_dropWhile)
      then show ?thesis using \<open>dropWhile is_space s \<noteq> []\<close> by (simp add: t_def last_rev)
    qed
    ultimately have "\<not> is_space (hd (rev (dropWhile is_space t)))"
      by (metis hd_rev)
    then show ?thesis using Cons
      by (metis dropWhile_eq_self_iff)
  qed
  moreover have "dropWhile is_space (dropWhile is_space t) = dropWhile is_space t" by simp
  ultimately show ?thesis by (simp add: strip_def t_def [symmetric])
qed

definition ascii_upper :: "pystr \<Rightarrow> pystr" where
  "ascii_upper s = map (\<lambda>c. if 97 \<le> c \<and> c \<le> 122 then c - 32 else c) s"

definition ascii_lower :: "pystr \<Rightarrow> pystr" where
  "ascii_lower s = map (\<lambda>c. if 65 \<le> c \<and> c \<le> 90 then c + 32 else c) s"

lemma ascii_lower_idem [simp]: "ascii_lower (ascii_lower s) = ascii_lower s"
  by (simp add: ascii_lower_def)

lemma length_ascii_lower [simp]: "length (ascii_lower s) = length s"
  by (simp add: ascii_lower_def)

text \<open>The value of a key of a JSON object, as \<open>dict.get\<close>.\<close>

definition jget :: "string \<Rightarrow> json \<Rightarrow> json option" where
  "jget k j = (case j of JObj kvs \<Rightarrow> map_of kvs (lit k) | _ \<Rightarrow> None)"

end
