(* ===== verification/Paths.thy ===== *)
theory Paths
  imports Codito_Text
begin

text \<open>
  Lexical validation of project-relative Windows paths and their resolution below a
  registered root (\<open>agent/src/codito_agent/paths.py\<close>), with the portable checks of the wire
  contract (\<open>packages/protocol/src/codito_protocol/types.py\<close> and \<open>device_read.py\<close>).  The
  operating system is a parameter: a record of the answers the resolver reads from it.  An
  absolute path is the list of its components, the drive first.
\<close>

section \<open>Lexical validation\<close>

definition reserved_names :: "pystr list" where
  "reserved_names = map lit
     [''CON'', ''PRN'', ''AUX'', ''NUL'',
      ''COM1'', ''COM2'', ''COM3'', ''COM4'', ''COM5'', ''COM6'', ''COM7'', ''COM8'', ''COM9'',
      ''LPT1'', ''LPT2'', ''LPT3'', ''LPT4'', ''LPT5'', ''LPT6'', ''LPT7'', ''LPT8'', ''LPT9'']"

text \<open>The class \<open>[<>:"|?*\x00-\x1f]\<close>.\<close>

definition invalid_char :: "nat \<Rightarrow> bool" where
  "invalid_char c \<longleftrightarrow> c < 32 \<or> c \<in> set (lit ''<>:|?*'') \<or> c = 34"

text \<open>
  \<open>PureWindowsPath(value)\<close> has a drive or a root exactly when the value starts with a separator
  or its second character is a colon.
\<close>

definition windows_anchored :: "pystr \<Rightarrow> bool" where
  "windows_anchored s =
     (case s of
        [] \<Rightarrow> False
      | c # r \<Rightarrow> c = 47 \<or> c = 92 \<or> (case r of d # _ \<Rightarrow> d = 58 | [] \<Rightarrow> False))"

text \<open>
  \<open>component.split(".", 1)[0].upper()\<close>.  No character outside ASCII has an upper-case form made
  of letters of a reserved name, so converting ASCII letters decides membership.
\<close>

definition stem_upper :: "pystr \<Rightarrow> pystr" where
  "stem_upper part = ascii_upper (takeWhile (\<lambda>c. c \<noteq> 46) part)"

definition validate_component :: "pystr \<Rightarrow> unit res" where
  "validate_component part =
     (if part \<in> {[], [46], [46, 46]} then Inl (raise ''invalid_path'')
      else if last part \<in> {46, 32} then Inl (raise ''invalid_path'')
      else if list_ex invalid_char part then Inl (raise ''invalid_path'')
      else if stem_upper part \<in> set reserved_names then Inl (raise ''invalid_path'')
      else Inr ())"

definition slashes :: "pystr \<Rightarrow> pystr" where
  "slashes s = map (\<lambda>c. if c = 92 then 47 else c) s"

fun validate_components :: "pystr list \<Rightarrow> pystr list res" where
  "validate_components [] = Inr []"
| "validate_components (c # cs) =
     bindE (validate_component c) (\<lambda>_. bindE (validate_components cs) (\<lambda>r. Inr (c # r)))"

definition validate_relative_path :: "pystr \<Rightarrow> bool \<Rightarrow> pystr res" where
  "validate_relative_path value allow_root =
     (if 0 \<in> set value then Inl (raise ''invalid_path'')
      else if value \<in> {[], [46]} then
        (if allow_root then Inr [46] else Inl (raise ''invalid_path''))
      else if startswith value [92] \<or> startswith value [47, 47] then Inl (raise ''invalid_path'')
      else if windows_anchored value then Inl (raise ''invalid_path'')
      else bindE (validate_components (split_on 47 (slashes value)))
             (\<lambda>parts. Inr (join [47] parts)))"

text \<open>What the caller may rely on: a component that names one entry of one directory.\<close>

definition safe_component :: "pystr \<Rightarrow> bool" where
  "safe_component c \<longleftrightarrow> c \<noteq> [] \<and> c \<noteq> [46] \<and> c \<noteq> [46, 46] \<and> last c \<noteq> 46 \<and> last c \<noteq> 32
     \<and> (\<forall>x\<in>set c. \<not> invalid_char x) \<and> stem_upper c \<notin> set reserved_names"

lemma validate_component_ok: "validate_component c = Inr u \<longleftrightarrow> safe_component c"
  by (auto simp: validate_component_def safe_component_def list_ex_iff)

lemma validate_components_ok:
  "validate_components cs = Inr r \<longleftrightarrow> r = cs \<and> (\<forall>c\<in>set cs. safe_component c)"
  by (induction cs arbitrary: r) (auto simp: res_simps validate_component_ok)

lemma validate_components_err:
  "validate_components cs = Inl e \<Longrightarrow> e = raise ''invalid_path''"
  by (induction cs)
    (auto simp: res_simps validate_component_def split: if_splits)

lemma slashes_id: "92 \<notin> set s \<Longrightarrow> slashes s = s"
  by (induction s) (auto simp: slashes_def)

lemma slashes_no_backslash: "92 \<notin> set (slashes s)"
  by (auto simp: slashes_def)

lemma invalid_char_zero [simp]: "invalid_char 0"
  by (simp add: invalid_char_def)

lemma safe_component_no_colon: "safe_component c \<Longrightarrow> 58 \<notin> set c"
  by (auto simp: safe_component_def invalid_char_def lit_def)

text \<open>A joined list of safe components is not anchored and does not start with a separator.\<close>

lemma safe_join_relative:
  assumes "cs \<noteq> []" "\<forall>c\<in>set cs. safe_component c \<and> 47 \<notin> set c \<and> 92 \<notin> set c"
  shows "\<not> windows_anchored (join [47] cs)" "\<not> startswith (join [47] cs) [92]"
    "\<not> startswith (join [47] cs) [47, 47]" "join [47] cs \<noteq> []" "0 \<notin> set (join [47] cs)"
    "join [47] cs \<noteq> [46]"
proof -
  obtain c cs' where cs: "cs = c # cs'" using assms(1) by (cases cs) auto
  with assms(2) have c: "safe_component c" "47 \<notin> set c" "92 \<notin> set c" by auto
  then have "c \<noteq> []" by (simp add: safe_component_def)
  then obtain a as where a: "c = a # as" by (cases c) auto
  with c have "a \<noteq> 47" "a \<noteq> 92" "a \<noteq> 58" "58 \<notin> set as"
    using safe_component_no_colon [OF c(1)] by auto
  moreover have j: "join [47] cs = c @ (if cs' = [] then [] else 47 # join [47] cs')"
    by (cases cs') (auto simp: cs)
  ultimately show "\<not> windows_anchored (join [47] cs)" "\<not> startswith (join [47] cs) [92]"
    "\<not> startswith (join [47] cs) [47, 47]" "join [47] cs \<noteq> []"
    by (auto simp: a windows_anchored_def split: list.splits)
  show "0 \<notin> set (join [47] cs)"
    using set_join [of "[47]" cs] assms(2)
    by (fastforce simp: safe_component_def)
  show "join [47] cs \<noteq> [46]"
    using c(1) a j by (auto simp: safe_component_def split: if_splits)
qed

section \<open>The operating system's answers\<close>

type_synonym abspath = "pystr list"

record file_identity =
  volume_serial :: nat
  file_id :: nat
  link_count :: nat

text \<open>
  What \<open>GetFileAttributesW\<close>, \<open>GetFileInformationByHandle\<close> and the \<open>Path\<close> predicates report;
  \<open>None\<close> is an \<open>OSError\<close>.
\<close>

record os_view =
  os_exists :: "abspath \<Rightarrow> bool"
  os_attributes :: "abspath \<Rightarrow> nat option"
  os_identity :: "abspath \<Rightarrow> file_identity option"
  os_is_dir :: "abspath \<Rightarrow> bool"
  os_is_file :: "abspath \<Rightarrow> bool"
  os_drive_type :: "pystr \<Rightarrow> nat"
  os_filesystem :: "pystr \<Rightarrow> pystr option"
  os_resolve :: "abspath \<Rightarrow> abspath option"

definition FILE_ATTRIBUTE_REPARSE_POINT :: nat where
  "FILE_ATTRIBUTE_REPARSE_POINT = 0x400"

definition is_reparse :: "os_view \<Rightarrow> abspath \<Rightarrow> bool res" where
  "is_reparse os p =
     (case os_attributes os p of
        None \<Rightarrow> Inl OSError
      | Some a \<Rightarrow> Inr (odd (a div FILE_ATTRIBUTE_REPARSE_POINT)))"

definition file_identity :: "os_view \<Rightarrow> abspath \<Rightarrow> file_identity res" where
  "file_identity os p = (case os_identity os p of None \<Rightarrow> Inl OSError | Some i \<Rightarrow> Inr i)"

text \<open>\<open>f"{serial:08x}:{file_id:016x}"\<close> and its SHA-256.\<close>

definition hex_digit :: "nat \<Rightarrow> nat" where
  "hex_digit d = (if d < 10 then 48 + d else 87 + d)"

fun hex_digits :: "nat \<Rightarrow> pystr" where
  "hex_digits n = (if n < 16 then [hex_digit n] else hex_digits (n div 16) @ [hex_digit (n mod 16)])"

declare hex_digits.simps [simp del]

definition hex_pad :: "nat \<Rightarrow> nat \<Rightarrow> pystr" where
  "hex_pad w n = (let d = hex_digits n in replicate (w - length d) 48 @ d)"

definition fingerprint :: "(bytes \<Rightarrow> pystr) \<Rightarrow> file_identity \<Rightarrow> pystr" where
  "fingerprint sha i = sha (hex_pad 8 (volume_serial i) @ [58] @ hex_pad 16 (file_id i))"

definition root_fingerprint :: "(bytes \<Rightarrow> pystr) \<Rightarrow> os_view \<Rightarrow> abspath \<Rightarrow> pystr res" where
  "root_fingerprint sha os root = bindE (file_identity os root) (\<lambda>i. Inr (fingerprint sha i))"

definition hex_val :: "pystr \<Rightarrow> nat" where
  "hex_val s = foldl (\<lambda>a c. 16 * a + (if c < 58 then c - 48 else c - 87)) 0 s"

lemma hex_val_append: "hex_val (s @ [c]) = 16 * hex_val s + (if c < 58 then c - 48 else c - 87)"
  by (simp add: hex_val_def)

lemma hex_val_hex_digits: "hex_val (hex_digits n) = n"
proof (induction n rule: hex_digits.induct)
  case (1 n)
  have d: "(if hex_digit k < 58 then hex_digit k - 48 else hex_digit k - 87) = k" for k
    by (simp add: hex_digit_def)
  show ?case
  proof (cases "n < 16")
    case True
    then show ?thesis using d [of n] hex_val_append [of "[]"]
      by (simp add: hex_digits.simps [of n] hex_val_def)
  next
    case False
    then show ?thesis using 1 d [of "n mod 16"]
      by (simp add: hex_digits.simps [of n] hex_val_append)
  qed
qed

lemma hex_val_zeros: "hex_val (replicate k 48 @ s) = hex_val s"
  by (induction k) (simp_all add: hex_val_def)

lemma hex_val_hex_pad: "hex_val (hex_pad w n) = n"
  by (simp add: hex_pad_def Let_def hex_val_zeros hex_val_hex_digits)

lemma hex_digit_not_colon: "n < 16 \<Longrightarrow> hex_digit n \<noteq> 58"
  by (simp add: hex_digit_def)

lemma hex_digits_no_colon: "58 \<notin> set (hex_digits n)"
proof (induction n rule: hex_digits.induct)
  case (1 n)
  then show ?case
    using hex_digit_not_colon [of n] hex_digit_not_colon [of "n mod 16"]
    by (subst hex_digits.simps) auto
qed

lemma hex_pad_no_colon: "58 \<notin> set (hex_pad w n)"
  using hex_digits_no_colon by (auto simp: hex_pad_def Let_def)

section \<open>Resolution below a registered root\<close>

text \<open>The project record of \<open>models.py\<close>.\<close>

datatype project_mode =
    ISOLATED
  | NATIVE_APPROVAL
  | NATIVE_TRUSTED
  | NATIVE_PROJECT
  | FULL_ACCESS

record project =
  project_id :: pystr
  title :: pystr
  root :: abspath
  root_fp :: pystr
  mode :: project_mode
  enabled :: bool

record validated_path =
  relative :: pystr
  absolute :: abspath
  parent_identity :: file_identity
  target_identity :: "file_identity option"

definition verify_project :: "(bytes \<Rightarrow> pystr) \<Rightarrow> os_view \<Rightarrow> project \<Rightarrow> unit res" where
  "verify_project sha os p =
     (case root_fingerprint sha os (root p) of
        Inl _ \<Rightarrow> Inl (raise ''project_unavailable'')
      | Inr current \<Rightarrow>
          if current \<noteq> root_fp p then Inl (raise ''project_identity_changed'')
          else bindE (is_reparse os (root p))
                 (\<lambda>r. raise_if r (raise ''project_identity_changed'')))"

text \<open>The loop over the components: the path walked so far and the identity of the target.\<close>

fun walk :: "os_view \<Rightarrow> bool \<Rightarrow> abspath \<Rightarrow> pystr list \<Rightarrow> (abspath \<times> file_identity option) res" where
  "walk os must_exist current [] = Inr (current, None)"
| "walk os must_exist current (c # cs) =
     (let candidate = current @ [c]; is_last = (cs = []) in
      if os_exists os candidate then
        bindE (is_reparse os candidate) (\<lambda>r.
          if r then Inl (raise ''unsafe_path'')
          else bindE (file_identity os candidate) (\<lambda>i.
            if is_last then Inr (candidate, Some i) else walk os must_exist candidate cs))
      else if \<not> is_last \<or> must_exist then Inl (raise ''path_not_found'')
      else Inr (candidate, None))"

definition resolve ::
  "(bytes \<Rightarrow> pystr) \<Rightarrow> os_view \<Rightarrow> project \<Rightarrow> pystr \<Rightarrow> bool \<Rightarrow> bool option \<Rightarrow> bool \<Rightarrow> bool
     \<Rightarrow> validated_path res" where
  "resolve sha os p rel must_exist directory for_write allow_root =
     bindE (verify_project sha os p) (\<lambda>_.
     bindE (validate_relative_path rel allow_root) (\<lambda>normalized.
       if normalized = [46] then
         bindE (file_identity os (root p)) (\<lambda>i.
           Inr \<lparr>relative = normalized, absolute = root p, parent_identity = i, target_identity = Some i\<rparr>)
       else
         bindE (walk os must_exist (root p) (split_on 47 normalized)) (\<lambda>(current, target).
         let common = longest_common_prefix (root p) current in
         if map ascii_lower common \<noteq> map ascii_lower (root p) then Inl (raise ''unsafe_path'')
         else if directory = Some True \<and> (\<not> os_exists os current \<or> \<not> os_is_dir os current) then
           Inl (raise ''not_a_directory'')
         else if directory = Some False \<and> os_exists os current \<and> \<not> os_is_file os current then
           Inl (raise ''not_a_file'')
         else if for_write \<and> (case target of Some i \<Rightarrow> 1 < link_count i | None \<Rightarrow> False) then
           Inl (raise ''unsafe_hardlink'')
         else bindE (file_identity os (butlast current)) (\<lambda>parent.
           Inr \<lparr>relative = normalized, absolute = current, parent_identity = parent,
                 target_identity = target\<rparr>))))"

definition revalidate_for_mutation ::
  "(bytes \<Rightarrow> pystr) \<Rightarrow> os_view \<Rightarrow> project \<Rightarrow> validated_path \<Rightarrow> unit res" where
  "revalidate_for_mutation sha os p v =
     bindE (resolve sha os p (relative v) (target_identity v \<noteq> None) None True False) (\<lambda>current.
       if parent_identity current \<noteq> parent_identity v then Inl (raise ''path_race'')
       else if target_identity current \<noteq> target_identity v then Inl (raise ''path_race'')
       else Inr ())"

text \<open>
  \<open>validate_project_root\<close>: the first component of an absolute path is its anchor, such as
  \<open>C:\\<close>.  The walk checks every component below the anchor.
\<close>

definition placeholder_bits :: "nat \<Rightarrow> bool" where
  "placeholder_bits a \<longleftrightarrow> odd (a div 0x1000) \<or> odd (a div 0x40000) \<or> odd (a div 0x400000)"

fun walk_root :: "os_view \<Rightarrow> abspath \<Rightarrow> pystr list \<Rightarrow> unit res" where
  "walk_root os current [] = Inr ()"
| "walk_root os current (c # cs) =
     (let here = current @ [c] in
      bindE (is_reparse os here) (\<lambda>r.
        if r then Inl (raise ''invalid_project_root'')
        else case os_attributes os here of
          None \<Rightarrow> Inl OSError
        | Some a \<Rightarrow> if placeholder_bits a then Inl (raise ''invalid_project_root'')
                   else walk_root os here cs))"

definition validate_project_root ::
  "(bytes \<Rightarrow> pystr) \<Rightarrow> os_view \<Rightarrow> abspath \<Rightarrow> (abspath \<times> pystr) res" where
  "validate_project_root sha os p =
     (case p of
        [] \<Rightarrow> Inl (raise ''invalid_project_root'')
      | anchor # parts \<Rightarrow>
          if startswith anchor [92] \<or> startswith anchor [47, 47] then
            Inl (raise ''invalid_project_root'')
          else if \<not> endswith anchor [92] then Inl (raise ''invalid_project_root'')
          else if \<not> os_exists os p \<or> \<not> os_is_dir os p then Inl (raise ''invalid_project_root'')
          else if parts = [] then Inl (raise ''invalid_project_root'')
          else if os_drive_type os anchor \<noteq> 3 then Inl (raise ''invalid_project_root'')
          else case os_filesystem os anchor of
            None \<Rightarrow> Inl OSError
          | Some fs \<Rightarrow>
              if ascii_upper fs \<notin> {lit ''NTFS'', lit ''REFS''} then
                Inl (raise ''invalid_project_root'')
              else
                bindE (walk_root os [anchor] parts) (\<lambda>_.
                case os_resolve os p of
                  None \<Rightarrow> Inl OSError
                | Some resolved \<Rightarrow>
                    bindE (root_fingerprint sha os resolved) (\<lambda>fp. Inr (resolved, fp))))"

section \<open>The wire contract's checks\<close>

definition ascii_letter :: "nat \<Rightarrow> bool" where
  "ascii_letter c \<longleftrightarrow> 65 \<le> c \<and> c \<le> 90 \<or> 97 \<le> c \<and> c \<le> 122"

definition protocol_relative_path :: "pystr \<Rightarrow> pystr res" where
  "protocol_relative_path value =
     (if value \<in> {[], [46]} then Inr []
      else if 1024 < length value then Inl ValueError
      else if 0 \<in> set value \<or> 92 \<in> set value then Inl ValueError
      else if startswith value [47]
           \<or> (case value of c # d # _ \<Rightarrow> ascii_letter c \<and> d = 58 | _ \<Rightarrow> False) then Inl ValueError
      else if 58 \<in> set value then Inl ValueError
      else if \<exists>c\<in>set (split_on 47 value). c \<in> {[], [46], [46, 46]} then Inl ValueError
      else if \<exists>c\<in>set (split_on 47 value). last c \<in> {46, 32} \<or> stem_upper c \<in> set reserved_names
        then Inl ValueError
      else Inr (join [47] (split_on 47 value)))"

text \<open>\<open>(COM|LPT)[\<^sup>1\<^sup>2\<^sup>3](\.|$)\<close>, ignoring case.\<close>

definition superscript_device :: "pystr \<Rightarrow> bool" where
  "superscript_device c \<longleftrightarrow>
     4 \<le> length c \<and> ascii_upper (take 3 c) \<in> {lit ''COM'', lit ''LPT''} \<and> c ! 3 \<in> {0xB9, 0xB2, 0xB3}
     \<and> (length c = 4 \<or> c ! 4 = 46)"

definition check_names :: "pystr \<Rightarrow> unit res" where
  "check_names value =
     (if \<exists>c\<in>set value. c < 32 \<or> c \<in> set (lit ''<>|?*'') \<or> c = 34 then Inl ValueError
      else if \<exists>c\<in>set (split_on 47 value). superscript_device c then Inl ValueError
      else Inr ())"

definition normalize_read_scope :: "pystr \<Rightarrow> pystr res" where
  "normalize_read_scope value0 =
     (let value = slashes value0 in
      case value of
        drive # colon # slash # tail0 \<Rightarrow>
          if \<not> (ascii_letter drive \<and> colon = 58 \<and> slash = 47) \<or> 1024 < length value then Inl ValueError
          else
            let tail = (if endswith tail0 [47] then butlast tail0 else tail0) in
            if tail = [46] then Inl ValueError
            else
              bindE (protocol_relative_path tail) (\<lambda>_.
              bindE (check_names tail) (\<lambda>_. Inr (ascii_upper [drive] @ [58, 47] @ tail)))
      | _ \<Rightarrow> Inl ValueError)"

section \<open>Properties\<close>

lemma validate_relative_path_root:
  "v \<in> {[], [46]} \<Longrightarrow>
     validate_relative_path v ar = (if ar then Inr [46] else Inl (raise ''invalid_path''))"
  by (auto simp: validate_relative_path_def)

text \<open>A value that fails one of the early checks has an unsafe component.\<close>

lemma split_slashes_chars:
  "x \<in> set (slashes v) \<Longrightarrow> x \<noteq> 47 \<Longrightarrow> \<exists>c\<in>set (split_on 47 (slashes v)). x \<in> set c"
  using split_on_chars [of 47 "slashes v" x] by blast

lemma early_checks_unsafe:
  assumes safe: "\<forall>c\<in>set (split_on 47 (slashes v)). safe_component c"
  shows "0 \<notin> set v" "v \<noteq> []" "v \<noteq> [46]" "\<not> startswith v [92]" "\<not> startswith v [47, 47]"
    "\<not> windows_anchored v"
proof -
  have no: "x \<in> set v \<Longrightarrow> x \<noteq> 47 \<Longrightarrow> x \<noteq> 92 \<Longrightarrow> \<not> invalid_char x" for x
  proof
    assume x: "x \<in> set v" "x \<noteq> 47" "x \<noteq> 92" and bad: "invalid_char x"
    then have "x \<in> set (slashes v)" by (auto simp: slashes_def image_iff)
    with split_slashes_chars x(2) safe bad show False
      by (meson safe_component_def)
  qed
  have ne: "[] \<notin> set (split_on 47 (slashes v))" "[46] \<notin> set (split_on 47 (slashes v))"
    using safe by (auto simp: safe_component_def)
  show "0 \<notin> set v" using no [of 0] by auto
  show "v \<noteq> []" "v \<noteq> [46]" using ne by (auto simp: slashes_def)
  have first: "\<not> (v \<noteq> [] \<and> (hd v = 92 \<or> hd v = 47))"
    using ne(1) by (cases v) (auto simp: slashes_def split: if_splits)
  then show "\<not> startswith v [92]" "\<not> startswith v [47, 47]" by (cases v; auto)+
  show "\<not> windows_anchored v"
  proof
    assume "windows_anchored v"
    with first have "58 \<in> set v" by (auto simp: windows_anchored_def split: list.splits)
    then show False using no [of 58] by (auto simp: invalid_char_def lit_def)
  qed
qed

lemma validate_relative_path_eq:
  "validate_relative_path v False =
     (if \<forall>c\<in>set (split_on 47 (slashes v)). safe_component c
      then Inr (slashes v) else Inl (raise ''invalid_path''))"
proof (cases "\<forall>c\<in>set (split_on 47 (slashes v)). safe_component c")
  case True
  then have "validate_components (split_on 47 (slashes v)) = Inr (split_on 47 (slashes v))"
    by (simp add: validate_components_ok)
  with early_checks_unsafe [OF True] True show ?thesis
    by (auto simp: validate_relative_path_def join_split_on)
next
  case False
  then obtain e where "validate_components (split_on 47 (slashes v)) = Inl e"
    by (metis Inl_Inr_False sum.exhaust validate_components_ok)
  with validate_components_err [OF this] False show ?thesis
    by (auto simp: validate_relative_path_def)
qed

lemma validate_allow_root:
  "v \<notin> {[], [46]} \<Longrightarrow> validate_relative_path v True = validate_relative_path v False"
  by (simp add: validate_relative_path_def)

text \<open>
  The path validator accepts exactly the texts all of whose components, after turning
  backslashes into slashes, name one entry of one directory: no empty, dot or parent component,
  no trailing dot or space, no forbidden character, no reserved device name; and, where the
  caller allows it, the root itself.  The accepted value is that text with forward slashes, and
  every rejection is the error \<open>invalid_path\<close>.
\<close>

theorem validate_relative_path_exact:
  "validate_relative_path v allow_root =
     (if allow_root \<and> v \<in> {[], [46]} then Inr [46]
      else if list_all safe_component (split_on 47 (slashes v))
      then Inr (slashes v) else Inl (raise ''invalid_path''))"
proof (cases "v \<in> {[], [46]}")
  case True
  then have "\<not> list_all safe_component (split_on 47 (slashes v))"
    by (auto simp: slashes_def safe_component_def)
  with True show ?thesis by (simp add: validate_relative_path_root)
next
  case False
  then show ?thesis
    using validate_relative_path_eq [of v] validate_allow_root [of v]
    by (cases allow_root) (simp_all add: list_all_iff)
qed

lemma slashes_slashes [simp]: "slashes (slashes v) = slashes v"
  by (simp add: slashes_def)

lemma validate_accepts:
  assumes "validate_relative_path v ar = Inr p"
  shows "p = [46] \<and> ar \<and> v \<in> {[], [46]}
    \<or> p = slashes v \<and> v \<notin> {[], [46]} \<and> (\<forall>c\<in>set (split_on 47 p). safe_component c)"
proof (cases "v \<in> {[], [46]}")
  case True
  then show ?thesis using assms by (auto simp: validate_relative_path_root split: if_splits)
next
  case False
  then have "validate_relative_path v False = Inr p"
    using assms validate_allow_root [of v] by (cases ar) auto
  with False show ?thesis by (auto simp: validate_relative_path_eq split: if_splits)
qed

text \<open>
  Validation is idempotent: a path it produced is accepted again unchanged, so a path that
  was journaled after validation can be validated once more on recovery.
\<close>

theorem validate_relative_path_idempotent:
  assumes "validate_relative_path v allow_root = Inr p"
  shows "validate_relative_path p allow_root = Inr p"
  using validate_accepts [OF assms]
proof
  assume "p = [46] \<and> allow_root \<and> v \<in> {[], [46]}"
  then show ?thesis by (simp add: validate_relative_path_root)
next
  assume p: "p = slashes v \<and> v \<notin> {[], [46]} \<and> (\<forall>c\<in>set (split_on 47 p). safe_component c)"
  then have "validate_relative_path p False = Inr p" by (simp add: validate_relative_path_eq)
  moreover have "p \<notin> {[], [46]}" using p by (auto simp: safe_component_def)
  ultimately show ?thesis using validate_allow_root [of p] by (cases allow_root) auto
qed

theorem validate_relative_path_idempotent_witness:
  "validate_relative_path (lit ''src'' @ [92] @ lit ''a.py'') False = Inr (lit ''src/a.py'')
   \<and> validate_relative_path (lit ''src/a.py'') False = Inr (lit ''src/a.py'')"
proof -
  have h: "validate_relative_path (lit ''src'' @ [92] @ lit ''a.py'') False = Inr (lit ''src/a.py'')"
    by code_simp
  show ?thesis using h validate_relative_path_idempotent [OF h] by simp
qed

text \<open>What a successful walk has seen.\<close>

definition plain_entry :: "os_view \<Rightarrow> abspath \<Rightarrow> bool" where
  "plain_entry os p \<longleftrightarrow> os_exists os p \<and> is_reparse os p = Inr False"

lemma walk_sound:
  assumes "walk os must_exist current cs = Inr (path, target)" "cs \<noteq> []"
  shows "path = current @ cs
    \<and> (\<forall>k. 0 < k \<and> k < length cs \<longrightarrow> plain_entry os (current @ take k cs))
    \<and> (target = None \<longrightarrow> \<not> os_exists os path \<and> \<not> must_exist)
    \<and> (\<forall>i. target = Some i \<longrightarrow> plain_entry os path \<and> os_identity os path = Some i)"
  using assms
proof (induction cs arbitrary: current)
  case Nil
  then show ?case by simp
next
  case (Cons c cs)
  show ?case
  proof (cases "cs = []")
    case True
    with Cons.prems show ?thesis
      by (auto simp: Let_def res_simps plain_entry_def file_identity_def
          split: if_splits option.splits)
  next
    case False
    with Cons.prems(1) have here: "plain_entry os (current @ [c])"
      and rest: "walk os must_exist (current @ [c]) cs = Inr (path, target)"
      by (auto simp: Let_def res_simps plain_entry_def split: if_splits)
    have "plain_entry os (current @ take k (c # cs))"
      if "0 < k" "k < length (c # cs)" for k
    proof (cases "k = 1")
      case True
      then show ?thesis using here by simp
    next
      case k: False
      with that obtain j where "k = Suc j" "0 < j" by (cases k) auto
      with Cons.IH [OF rest False] that show ?thesis by auto
    qed
    with Cons.IH [OF rest False] show ?thesis by auto
  qed
qed

lemma walk_cases:
  assumes "walk os must_exist current cs = Inr (path, target)" "cs \<noteq> []"
  shows walk_path: "path = current @ cs"
    and walk_dirs: "0 < k \<Longrightarrow> k < length cs \<Longrightarrow> plain_entry os (current @ take k cs)"
    and walk_absent: "target = None \<Longrightarrow> \<not> os_exists os path \<and> \<not> must_exist"
    and walk_target: "target = Some i \<Longrightarrow> plain_entry os path \<and> os_identity os path = Some i"
  using walk_sound [OF assms] by blast+

lemma longest_common_prefix_append: "longest_common_prefix xs (xs @ ys) = xs"
  by (induction xs) auto

lemma resolve_sound:
  assumes "resolve sha os p rel must_exist directory for_write allow_root = Inr v"
  shows "verify_project sha os p = Inr ()"
    and "relative v = [46] \<and> absolute v = root p
      \<or> (\<forall>c\<in>set (split_on 47 (relative v)). safe_component c)
        \<and> walk os must_exist (root p) (split_on 47 (relative v)) = Inr (absolute v, target_identity v)
        \<and> (for_write \<longrightarrow> (\<forall>i. target_identity v = Some i \<longrightarrow> link_count i \<le> 1))
        \<and> os_identity os (butlast (absolute v)) = Some (parent_identity v)
        \<and> (directory = Some True \<longrightarrow> os_is_dir os (absolute v))"
proof -
  show "verify_project sha os p = Inr ()"
    using assms by (auto simp: resolve_def res_simps)
  from assms obtain n where n: "validate_relative_path rel allow_root = Inr n"
    by (auto simp: resolve_def res_simps)
  have r: "relative v = n"
    using assms n
    by (auto simp: resolve_def res_simps Let_def split: if_splits prod.splits)
  show "relative v = [46] \<and> absolute v = root p
      \<or> (\<forall>c\<in>set (split_on 47 (relative v)). safe_component c)
        \<and> walk os must_exist (root p) (split_on 47 (relative v)) = Inr (absolute v, target_identity v)
        \<and> (for_write \<longrightarrow> (\<forall>i. target_identity v = Some i \<longrightarrow> link_count i \<le> 1))
        \<and> os_identity os (butlast (absolute v)) = Some (parent_identity v)
        \<and> (directory = Some True \<longrightarrow> os_is_dir os (absolute v))"
  proof (cases "n = [46]")
    case True
    then show ?thesis using assms n r by (auto simp: resolve_def res_simps)
  next
    case False
    then have "\<forall>c\<in>set (split_on 47 n). safe_component c" using validate_accepts [OF n] by auto
    then show ?thesis using assms n r False
      by (auto simp: resolve_def res_simps Let_def file_identity_def
          split: if_splits prod.splits option.splits)
  qed
qed

text \<open>
  C25. Containment: whatever text an untrusted caller supplies, a path the resolver returns is
  the registered root itself or lies below it through components that each name one directory
  entry; the root still has its registered fingerprint; every directory on the way exists and is
  not a reparse point; an existing target is not a reparse point either, and a target resolved
  for writing is not multiply linked.
\<close>

theorem resolve_contained:
  assumes "resolve sha os p rel must_exist directory for_write allow_root = Inr v"
  shows "root_fingerprint sha os (root p) = Inr (root_fp p) \<and> is_reparse os (root p) = Inr False
    \<and> (absolute v = root p \<or>
       (\<exists>cs. cs \<noteq> [] \<and> absolute v = root p @ cs \<and> (\<forall>c\<in>set cs. safe_component c)
         \<and> (\<forall>k. 0 < k \<and> k < length cs \<longrightarrow> plain_entry os (root p @ take k cs))
         \<and> (target_identity v = None \<longrightarrow> \<not> os_exists os (absolute v) \<and> \<not> must_exist)
         \<and> (\<forall>i. target_identity v = Some i \<longrightarrow> plain_entry os (absolute v)
              \<and> os_identity os (absolute v) = Some i \<and> (for_write \<longrightarrow> link_count i \<le> 1))))"
proof -
  have root: "root_fingerprint sha os (root p) = Inr (root_fp p)" "is_reparse os (root p) = Inr False"
    using resolve_sound(1) [OF assms]
    by (auto simp: verify_project_def res_simps split: sum.splits if_splits)
  show ?thesis
  proof (cases "relative v = [46] \<and> absolute v = root p")
    case True
    then show ?thesis using root by simp
  next
    case False
    let ?cs = "split_on 47 (relative v)"
    have w: "walk os must_exist (root p) ?cs = Inr (absolute v, target_identity v)"
      and safe: "\<forall>c\<in>set ?cs. safe_component c"
      and links: "for_write \<longrightarrow> (\<forall>i. target_identity v = Some i \<longrightarrow> link_count i \<le> 1)"
      using resolve_sound(2) [OF assms] False by auto
    have "?cs \<noteq> []" by simp
    note facts = walk_path [OF w this] walk_dirs [OF w this] walk_absent [OF w this]
      walk_target [OF w this]
    show ?thesis
      using root safe links facts(2-4)
      by (intro conjI disjI2 exI [of _ ?cs]) (simp_all add: facts(1) [symmetric])
  qed
qed


definition example_os :: os_view where
  "example_os = \<lparr>os_exists = (\<lambda>p. True), os_attributes = (\<lambda>p. Some 0x20),
     os_identity = (\<lambda>p. Some \<lparr>volume_serial = 7, file_id = length p, link_count = 1\<rparr>),
     os_is_dir = (\<lambda>p. length p \<le> 3), os_is_file = (\<lambda>p. 3 < length p),
     os_drive_type = (\<lambda>_. 3), os_filesystem = (\<lambda>_. Some (lit ''NTFS'')), os_resolve = Some\<rparr>"

definition example_project :: project where
  "example_project = \<lparr>project_id = lit ''p1'', title = lit ''Demo'', root = [lit ''C:'', lit ''w''],
     root_fp = hex_pad 8 7 @ [58] @ hex_pad 16 2, mode = NATIVE_PROJECT, enabled = True\<rparr>"

theorem resolve_contained_witness:
  "\<exists>v. resolve (\<lambda>b. b) example_os example_project (lit ''src/a.py'') True (Some False) True False = Inr v
     \<and> absolute v = root example_project @ [lit ''src'', lit ''a.py'']
     \<and> root_fingerprint (\<lambda>b. b) example_os (root example_project) = Inr (root_fp example_project)"
proof -
  have "\<exists>v. resolve (\<lambda>b. b) example_os example_project (lit ''src/a.py'') True (Some False) True False
      = Inr v \<and> absolute v = root example_project @ [lit ''src'', lit ''a.py'']"
    by (rule exI [of _ "\<lparr>relative = lit ''src/a.py'',
        absolute = root example_project @ [lit ''src'', lit ''a.py''],
        parent_identity = \<lparr>volume_serial = 7, file_id = 3, link_count = 1\<rparr>,
        target_identity = Some \<lparr>volume_serial = 7, file_id = 4, link_count = 1\<rparr>\<rparr>"]) code_simp
  then show ?thesis using resolve_contained by blast
qed

text \<open>
  C26. Race detection: if the check made right before a mutation passes, then the parent directory
  and the target that exist at that moment are the very objects that were validated earlier, and
  the target is still a plain, singly linked entry (or still absent).
\<close>

theorem revalidate_same_objects:
  assumes "revalidate_for_mutation sha os p v = Inr u"
  defines "path \<equiv> root p @ split_on 47 (slashes (relative v))"
  shows "os_identity os (butlast path) = Some (parent_identity v)
    \<and> (case target_identity v of
         None \<Rightarrow> \<not> os_exists os path
       | Some i \<Rightarrow> os_identity os path = Some i \<and> plain_entry os path \<and> link_count i \<le> 1)"
proof -
  obtain c where c: "resolve sha os p (relative v) (target_identity v \<noteq> None) None True False = Inr c"
    and same: "parent_identity c = parent_identity v" "target_identity c = target_identity v"
    using assms(1) by (auto simp: revalidate_for_mutation_def res_simps split: if_splits)
  obtain n where n: "validate_relative_path (relative v) False = Inr n"
    using c by (auto simp: resolve_def res_simps)
  have rel: "relative c = n"
    using c n by (auto simp: resolve_def res_simps Let_def split: if_splits prod.splits)
  have n': "n = slashes (relative v)" "n \<noteq> [46]"
    using validate_accepts [OF n] by (auto simp: safe_component_def)
  then have w: "walk os (target_identity v \<noteq> None) (root p) (split_on 47 n)
      = Inr (absolute c, target_identity c)"
    and links: "\<forall>i. target_identity c = Some i \<longrightarrow> link_count i \<le> 1"
    and parent: "os_identity os (butlast (absolute c)) = Some (parent_identity c)"
    using resolve_sound(2) [OF c] rel by auto
  have ne: "split_on 47 n \<noteq> []" by simp
  have "absolute c = path" using walk_path [OF w ne] n'(1) by (simp add: path_def)
  then show ?thesis
    using parent links same walk_absent [OF w ne] walk_target [OF w ne]
    by (auto split: option.splits)
qed

theorem revalidate_same_objects_witness:
  "os_identity example_os [lit ''C:'', lit ''w''] = Some \<lparr>volume_serial = 7, file_id = 2, link_count = 1\<rparr>
   \<and> os_identity example_os [lit ''C:'', lit ''w'', lit ''a.py'']
      = Some \<lparr>volume_serial = 7, file_id = 3, link_count = 1\<rparr>"
proof -
  define v where "v = \<lparr>relative = lit ''a.py'', absolute = root example_project @ [lit ''a.py''],
    parent_identity = \<lparr>volume_serial = 7, file_id = 2, link_count = 1\<rparr>,
    target_identity = Some \<lparr>volume_serial = 7, file_id = 3, link_count = 1\<rparr>\<rparr>"
  have "revalidate_for_mutation (\<lambda>b. b) example_os example_project v = Inr ()"
    unfolding v_def by code_simp
  moreover have "root example_project @ split_on 47 (slashes (relative v))
      = [lit ''C:'', lit ''w'', lit ''a.py'']"
    unfolding v_def by code_simp
  ultimately show ?thesis
    using revalidate_same_objects [of "\<lambda>b. b" example_os example_project v "()"] by (simp add: v_def)
qed

text \<open>
  Root identity: for a collision-free digest, two directories with the same fingerprint are
  the same file on the same volume, so a registered root cannot be swapped unnoticed.
\<close>

theorem fingerprint_injective:
  assumes "inj sha" and "fingerprint sha i = fingerprint sha j"
  shows "volume_serial i = volume_serial j \<and> file_id i = file_id j"
proof -
  have eq: "hex_pad 8 (volume_serial i) @ 58 # hex_pad 16 (file_id i)
      = hex_pad 8 (volume_serial j) @ 58 # hex_pad 16 (file_id j)"
    using assms by (auto simp: fingerprint_def dest: injD)
  have "split_on 58 (hex_pad 8 (volume_serial k) @ 58 # hex_pad 16 (file_id k))
      = [hex_pad 8 (volume_serial k), hex_pad 16 (file_id k)]" for k :: file_identity
    by (simp add: split_on_append split_on_whole hex_pad_no_colon)
  then have "hex_pad 8 (volume_serial i) = hex_pad 8 (volume_serial j)"
    "hex_pad 16 (file_id i) = hex_pad 16 (file_id j)"
    using eq by (metis list.inject)+
  then show ?thesis by (metis hex_val_hex_pad)
qed

theorem fingerprint_injective_witness:
  "fingerprint (\<lambda>b. b) \<lparr>volume_serial = 3, file_id = 9, link_count = 1\<rparr>
     = fingerprint (\<lambda>b. b) \<lparr>volume_serial = 3, file_id = 9, link_count = 2\<rparr>
   \<and> inj (\<lambda>b :: bytes. b) \<and> (3::nat) = 3 \<and> (9::nat) = 9"
proof -
  have i: "inj (\<lambda>b :: bytes. b)" by (simp add: inj_def)
  have e: "fingerprint (\<lambda>b. b) \<lparr>volume_serial = 3, file_id = 9, link_count = 1\<rparr>
     = fingerprint (\<lambda>b. b) \<lparr>volume_serial = 3, file_id = 9, link_count = 2\<rparr>"
    by (simp add: fingerprint_def)
  show ?thesis using i e fingerprint_injective [OF i e] by simp
qed

lemma protocol_accepts_iff:
  assumes "v \<notin> {[], [46]}"
  shows "protocol_relative_path v = Inr q \<longleftrightarrow>
     q = v \<and> length v \<le> 1024 \<and> 0 \<notin> set v \<and> 92 \<notin> set v \<and> 58 \<notin> set v
     \<and> (\<forall>c\<in>set (split_on 47 v). c \<notin> {[], [46], [46, 46]} \<and> last c \<notin> {46, 32}
          \<and> stem_upper c \<notin> set reserved_names)"
proof -
  have "startswith v [47] \<Longrightarrow> [] \<in> set (split_on 47 v)" by (cases v) auto
  moreover have "(case v of c # d # _ \<Rightarrow> ascii_letter c \<and> d = 58 | _ \<Rightarrow> False) \<Longrightarrow> 58 \<in> set v"
    by (auto split: list.splits)
  ultimately show ?thesis
    using assms by (auto simp: protocol_relative_path_def join_split_on)
qed

text \<open>
  The two layers agree: on a forward-slash text of at most 1024 characters that is not the
  root, the device's validator accepts exactly what the wire contract accepts and that holds no
  character Windows forbids, and both produce the same path.  The relay's check therefore never
  rejects what the device would take, and the device adds only the character check.
\<close>

theorem wire_and_device_paths_agree:
  assumes "v \<notin> {[], [46]}" and "92 \<notin> set v" and "length v \<le> 1024"
  shows "validate_relative_path v False = Inr p \<longleftrightarrow>
    protocol_relative_path v = Inr p \<and> list_all (\<lambda>x. \<not> invalid_char x) v"
proof -
  have id: "slashes v = v" using assms(2) by (rule slashes_id)
  have slash: "\<not> invalid_char 47" by (simp add: invalid_char_def lit_def)
  have chars: "list_all (\<lambda>x. \<not> invalid_char x) v \<longleftrightarrow>
      (\<forall>c\<in>set (split_on 47 v). \<forall>x\<in>set c. \<not> invalid_char x)"
    using split_on_chars [of 47 v] slash by (auto simp: list_all_iff)
  have colon: "invalid_char 58" by (simp add: invalid_char_def lit_def)
  show ?thesis
  proof (cases "list_all (\<lambda>x. \<not> invalid_char x) v")
    case False
    then show ?thesis
      using chars id by (auto simp: validate_relative_path_eq safe_component_def)
  next
    case True
    then have "0 \<notin> set v" "58 \<notin> set v" using colon by (auto simp: list_all_iff)
    with True show ?thesis
      using chars id assms protocol_accepts_iff [OF assms(1)]
      by (auto simp: validate_relative_path_eq safe_component_def)
  qed
qed

theorem wire_and_device_paths_agree_witness:
  "validate_relative_path (lit ''src/a.py'') False = Inr (lit ''src/a.py'')
   \<and> protocol_relative_path (lit ''src/a.py'') = Inr (lit ''src/a.py'')"
proof -
  have h: "lit ''src/a.py'' \<notin> {[], [46]}" "92 \<notin> set (lit ''src/a.py'')" "length (lit ''src/a.py'') \<le> 1024"
    by code_simp+
  have "validate_relative_path (lit ''src/a.py'') False = Inr (lit ''src/a.py'')" by code_simp
  then show ?thesis using wire_and_device_paths_agree [OF h] by blast
qed

text \<open>
  The scope check of \<open>device_read.py\<close> knows that Windows also reserves the device names with a
  superscript digit; the reserved-name check of \<open>paths.py\<close> (and of \<open>types.py\<close>) does not.
\<close>

lemma superscript_device_gap:
  "normalize_read_scope (lit ''C:/COM'' @ [0xB9]) = Inl ValueError"
  "validate_relative_path (lit ''COM'' @ [0xB9]) False = Inr (lit ''COM'' @ [0xB9])"
  by code_simp+

end
