(* ===== verification/Patch_Text.thy ===== *)
theory Patch_Text
  imports Paths
begin

text \<open>
  The text side of the patch engine (\<open>agent/src/codito_agent/patching.py\<close>): decoding a file
  into lines and encoding it again, the anchored patch grammar and its parser, and the exact
  application of hunks to a file.
\<close>

section \<open>Text files\<close>

record text_file =
  tf_lines :: "pystr list"
  tf_newline :: pystr
  tf_final :: bool
  tf_bom :: bool

definition BOM :: bytes where
  "BOM = [0xEF, 0xBB, 0xBF]"

text \<open>\<open>os.linesep\<close> on Windows.\<close>

definition linesep :: pystr where
  "linesep = [13, 10]"

definition detect_newline :: "pystr \<Rightarrow> pystr" where
  "detect_newline text =
     (if contains text [13, 10] then [13, 10]
      else if contains text [10] then [10]
      else if contains text [13] then [13]
      else linesep)"

definition textfile_decode :: "bytes \<Rightarrow> text_file res" where
  "textfile_decode raw =
     (let bom = startswith raw BOM; body = (if bom then drop 3 raw else raw) in
      case utf8_decode body of
        None \<Rightarrow> Inl (raise ''unsupported_encoding'')
      | Some text \<Rightarrow>
          Inr \<lparr>tf_lines = splitlines text, tf_newline = detect_newline text,
               tf_final = endswith text [13, 10] \<or> endswith text [10] \<or> endswith text [13],
               tf_bom = bom\<rparr>)"

definition textfile_encode :: "text_file \<Rightarrow> bytes" where
  "textfile_encode f =
     (let text = join (tf_newline f) (tf_lines f);
          text = (if tf_final f \<and> tf_lines f \<noteq> [] then text @ tf_newline f else text);
          raw = utf8_encode text
      in if tf_bom f then BOM @ raw else raw)"

section \<open>Patch documents\<close>

datatype hunk_prefix = Keep | Plus | Minus

type_synonym hunk_line = "hunk_prefix \<times> pystr"

datatype hunk = Hunk (hunk_lines: "hunk_line list")

datatype patch_action = AddFile | UpdateFile | DeleteFile | MoveFile

record patch_section =
  action :: patch_action
  path :: pystr
  destination :: "pystr option"
  add_lines :: "pystr list"
  hunks :: "hunk list"

definition expected :: "hunk \<Rightarrow> pystr list" where
  "expected h = map snd (filter (\<lambda>(p, t). p \<noteq> Plus) (hunk_lines h))"

definition replacement :: "hunk \<Rightarrow> pystr list" where
  "replacement h = map snd (filter (\<lambda>(p, t). p \<noteq> Minus) (hunk_lines h))"

definition MAX_PATCH_BYTES :: nat where
  "MAX_PATCH_BYTES = 2097152"

definition header_of :: "patch_action \<Rightarrow> pystr" where
  "header_of a =
     (case a of
        AddFile \<Rightarrow> lit ''*** Add File: ''
      | DeleteFile \<Rightarrow> lit ''*** Delete File: ''
      | _ \<Rightarrow> lit ''*** Update File: '')"

definition MOVE_TO :: pystr where
  "MOVE_TO = lit ''*** Move to: ''"

text \<open>\<open>_SECTION_RE.fullmatch(line)\<close>: the action and the non-empty rest of the line.\<close>

definition section_header :: "pystr \<Rightarrow> (patch_action \<times> pystr) option" where
  "section_header l =
     (let rest = (\<lambda>a. drop (length (header_of a)) l);
          ok = (\<lambda>a. startswith l (header_of a) \<and> rest a \<noteq> []) in
      if ok AddFile then Some (AddFile, rest AddFile)
      else if ok UpdateFile then Some (UpdateFile, rest UpdateFile)
      else if ok DeleteFile then Some (DeleteFile, rest DeleteFile)
      else None)"

abbreviation invalid_patch :: exn where
  "invalid_patch \<equiv> raise ''invalid_patch''"

definition hunk_mark :: pystr where
  "hunk_mark = lit ''@@''"

definition hunk_line_of :: "pystr \<Rightarrow> hunk_line res" where
  "hunk_line_of l =
     (case l of
        [] \<Rightarrow> Inl invalid_patch
      | c # t \<Rightarrow> if c = 32 then Inr (Keep, t) else if c = 43 then Inr (Plus, t)
                else if c = 45 then Inr (Minus, t) else Inl invalid_patch)"

fun hunk_lines_of :: "pystr list \<Rightarrow> hunk_line list res" where
  "hunk_lines_of [] = Inr []"
| "hunk_lines_of (l # ls) =
     bindE (hunk_line_of l) (\<lambda>x. bindE (hunk_lines_of ls) (\<lambda>xs. Inr (x # xs)))"

definition check_hunk :: "hunk \<Rightarrow> hunk res" where
  "check_hunk h =
     (if expected h = [] then Inl invalid_patch
      else if \<not> (\<exists>(p, t)\<in>set (hunk_lines h). p \<in> {Plus, Minus}) then
        Inl (AgentError ''invalid_patch''
          [(''resolution'', JStr (lit ''reread_and_build_a_changing_hunk''))] False)
      else Inr h)"

function parse_hunks :: "pystr list \<Rightarrow> hunk list res" where
  "parse_hunks [] = Inr []"
| "parse_hunks (l # ls) =
     (if l \<noteq> hunk_mark then Inl invalid_patch
      else
        bindE (hunk_lines_of (takeWhile (\<lambda>x. x \<noteq> hunk_mark) ls)) (\<lambda>hl.
        bindE (check_hunk (Hunk hl)) (\<lambda>h.
        bindE (parse_hunks (dropWhile (\<lambda>x. x \<noteq> hunk_mark) ls)) (\<lambda>hs. Inr (h # hs)))))"
  by pat_completeness auto
termination
  by (relation "measure length") (auto simp: le_imp_less_Suc length_dropWhile_le)

definition build_section ::
  "patch_action \<Rightarrow> pystr \<Rightarrow> pystr option \<Rightarrow> pystr list \<Rightarrow> patch_section res" where
  "build_section a p dest content =
     (case a of
        AddFile \<Rightarrow>
          if content = [] \<or> list_ex (\<lambda>l. \<not> startswith l [43]) content then Inl invalid_patch
          else Inr \<lparr>action = AddFile, path = p, destination = None, add_lines = map tl content, hunks = []\<rparr>
      | DeleteFile \<Rightarrow>
          if content \<noteq> [] then Inl invalid_patch
          else Inr \<lparr>action = DeleteFile, path = p, destination = None, add_lines = [], hunks = []\<rparr>
      | _ \<Rightarrow>
          bindE (parse_hunks content) (\<lambda>hs.
            if hs = [] then Inl invalid_patch
            else Inr \<lparr>action = a, path = p, destination = dest, add_lines = [], hunks = hs\<rparr>))"

text \<open>The move directive is read only right after an update header.\<close>

definition parse_move ::
  "patch_action \<Rightarrow> pystr list \<Rightarrow> (patch_action \<times> pystr option \<times> pystr list) res" where
  "parse_move a ls =
     (case ls of
        l # rest \<Rightarrow>
          if a = UpdateFile \<and> startswith l MOVE_TO then
            bindE (validate_relative_path (drop 13 l) False) (\<lambda>d. Inr (MoveFile, Some d, rest))
          else Inr (a, None, ls)
      | [] \<Rightarrow> Inr (a, None, ls))"

lemma parse_move_length: "parse_move a ls = Inr (b, d, r) \<Longrightarrow> length r \<le> length ls"
  by (auto simp: parse_move_def res_simps split: list.splits if_splits)

function parse_sections :: "pystr list \<Rightarrow> patch_section list res" where
  "parse_sections [] = Inr []"
| "parse_sections (l # ls) =
     (case section_header l of
        None \<Rightarrow> Inl invalid_patch
      | Some (a, raw) \<Rightarrow>
          (case validate_relative_path raw False of
             Inl e \<Rightarrow> Inl e
           | Inr p \<Rightarrow>
               (case parse_move a ls of
                  Inl e \<Rightarrow> Inl e
                | Inr (b, dest, rest) \<Rightarrow>
                    bindE (build_section b p dest (takeWhile (\<lambda>x. section_header x = None) rest)) (\<lambda>s.
                    bindE (parse_sections (dropWhile (\<lambda>x. section_header x = None) rest)) (\<lambda>ss.
                      Inr (s # ss))))))"
  by pat_completeness auto
termination
  by (relation "measure length")
    (auto dest!: parse_move_length intro: le_imp_less_Suc le_trans [OF length_dropWhile_le])

definition BEGIN_PATCH :: pystr where
  "BEGIN_PATCH = lit ''*** Begin Patch''"

definition END_PATCH :: pystr where
  "END_PATCH = lit ''*** End Patch''"

definition parse_patch :: "pystr \<Rightarrow> patch_section list res" where
  "parse_patch document =
     (if \<not> list_all scalar document then Inl ValueError
      else if MAX_PATCH_BYTES < length (utf8_encode document) then Inl invalid_patch
      else
        let lines = splitlines document in
        if lines = [] \<or> hd lines \<noteq> BEGIN_PATCH \<or> last lines \<noteq> END_PATCH then Inl invalid_patch
        else
          bindE (parse_sections (butlast (tl lines))) (\<lambda>ss.
            if ss = [] then Inl invalid_patch else Inr ss))"

section \<open>Exact application of hunks\<close>

definition candidates :: "nat \<Rightarrow> pystr list \<Rightarrow> pystr list \<Rightarrow> nat list" where
  "candidates minimum_index lines ex =
     filter (\<lambda>i. take (length ex) (drop i lines) = ex)
       [minimum_index ..< Suc (length lines) - length ex]"

definition hunk_conflict :: "pystr \<Rightarrow> nat \<Rightarrow> bool \<Rightarrow> exn" where
  "hunk_conflict p n ambiguous =
     (let c = JList [JObj [(lit ''path'', JStr p), (lit ''hunk'', JInt (int n)),
                 (lit ''reason'', JStr (if ambiguous then lit ''ambiguous'' else lit ''not_found''))]] in
      AgentError ''patch_conflict''
        (if ambiguous
         then [(''resolution'', JStr (lit ''reread_and_expand_context'')), (''conflicts'', c)]
         else [(''conflicts'', c)]) False)"

fun apply_hunks_from ::
  "nat \<Rightarrow> nat \<Rightarrow> pystr list \<Rightarrow> hunk list \<Rightarrow> pystr \<Rightarrow> pystr list res" where
  "apply_hunks_from minimum_index n lines [] p = Inr lines"
| "apply_hunks_from minimum_index n lines (h # hs) p =
     (case candidates minimum_index lines (expected h) of
        [] \<Rightarrow> Inl (hunk_conflict p n False)
      | [i] \<Rightarrow>
          apply_hunks_from (i + length (replacement h)) (Suc n)
            (take i lines @ replacement h @ drop (i + length (expected h)) lines) hs p
      | _ \<Rightarrow> Inl (hunk_conflict p n True))"

definition apply_hunks :: "text_file \<Rightarrow> hunk list \<Rightarrow> pystr \<Rightarrow> text_file res" where
  "apply_hunks doc hs p =
     bindE (apply_hunks_from 0 1 (tf_lines doc) hs p) (\<lambda>lines. Inr (doc\<lparr>tf_lines := lines\<rparr>))"

section \<open>Properties of hunk application\<close>

lemma candidates_iff:
  "i \<in> set (candidates m lines ex) \<longleftrightarrow>
     m \<le> i \<and> (\<exists>pre post. lines = pre @ ex @ post \<and> length pre = i)"
proof
  assume "i \<in> set (candidates m lines ex)"
  then have i: "m \<le> i" "i + length ex \<le> length lines" "take (length ex) (drop i lines) = ex"
    by (auto simp: candidates_def)
  have "lines = take i lines @ ex @ drop (i + length ex) lines"
    using i(3) by (metis add.commute append_take_drop_id drop_drop)
  with i show "m \<le> i \<and> (\<exists>pre post. lines = pre @ ex @ post \<and> length pre = i)"
    by (intro conjI exI [of _ "take i lines"] exI [of _ "drop (i + length ex) lines"]) auto
next
  assume "m \<le> i \<and> (\<exists>pre post. lines = pre @ ex @ post \<and> length pre = i)"
  then show "i \<in> set (candidates m lines ex)" by (auto simp: candidates_def)
qed

lemma candidates_distinct: "distinct (candidates m lines ex)"
  by (simp add: candidates_def)

lemma distinct_singleton: "distinct xs \<Longrightarrow> set xs = {i} \<Longrightarrow> xs = [i]"
  using distinct_card [of xs] by (cases xs; cases "tl xs") auto

lemma candidates_single:
  "candidates m lines ex = [i] \<longleftrightarrow> set (candidates m lines ex) = {i}"
  using distinct_singleton [OF candidates_distinct] by fastforce

text \<open>
  The declarative meaning of a hunk list: each hunk's context and removed lines occur at exactly
  one place at or after the end of the previous replacement, and that place is replaced.
\<close>

definition only_place ::
  "nat \<Rightarrow> pystr list \<Rightarrow> pystr list \<Rightarrow> pystr list \<Rightarrow> pystr list \<Rightarrow> bool" where
  "only_place m lines ex pre post \<longleftrightarrow> lines = pre @ ex @ post \<and> m \<le> length pre
     \<and> (\<forall>pre' post'. lines = pre' @ ex @ post' \<and> m \<le> length pre' \<longrightarrow> pre' = pre)"

inductive applies :: "nat \<Rightarrow> pystr list \<Rightarrow> hunk list \<Rightarrow> pystr list \<Rightarrow> bool" where
  finish: "applies m lines [] lines"
| hunk: "only_place m lines (expected h) pre post \<Longrightarrow>
    applies (length pre + length (replacement h)) (pre @ replacement h @ post) hs out \<Longrightarrow>
    applies m lines (h # hs) out"

lemma only_place_candidates:
  assumes "only_place m lines ex pre post"
  shows "candidates m lines ex = [length pre]"
proof -
  have "i \<in> set (candidates m lines ex) \<longleftrightarrow> i = length pre" for i
    unfolding candidates_iff using assms unfolding only_place_def by metis
  then show ?thesis unfolding candidates_single by blast
qed

lemma candidates_only_place:
  assumes "candidates m lines ex = [i]"
  shows "\<exists>pre post. only_place m lines ex pre post \<and> length pre = i"
proof -
  have c: "j \<in> set (candidates m lines ex) \<longleftrightarrow> j = i" for j using assms by simp
  then obtain pre post where l: "lines = pre @ ex @ post" "length pre = i" "m \<le> i"
    using candidates_iff [of i m lines ex] by auto
  have "pre' = pre" if "lines = pre' @ ex @ post'" "m \<le> length pre'" for pre' post'
  proof -
    have "length pre' \<in> set (candidates m lines ex)"
      unfolding candidates_iff using that by (intro conjI exI) (assumption | rule refl)+
    then have "length pre' = length pre" using c l(2) by simp
    then show ?thesis using that(1) l(1) by (simp add: append_eq_append_conv)
  qed
  then have "only_place m lines ex pre post" using l by (simp only: only_place_def) blast
  with l(2) show ?thesis by blast
qed

lemma apply_hunks_from_place:
  assumes "only_place m lines (expected h) pre post"
  shows "apply_hunks_from m n lines (h # hs) p =
    apply_hunks_from (length pre + length (replacement h)) (Suc n) (pre @ replacement h @ post) hs p"
proof -
  have "lines = pre @ expected h @ post" using assms by (simp only: only_place_def)
  then have "take (length pre) lines = pre"
    and "drop (length pre + length (expected h)) lines = post" by simp_all
  then show ?thesis
    by (simp only: apply_hunks_from.simps only_place_candidates [OF assms] list.case)
qed

lemma apply_hunks_from_sound:
  "apply_hunks_from m n lines hs p = Inr out \<Longrightarrow> applies m lines hs out"
proof (induction hs arbitrary: m n lines)
  case Nil
  then show ?case by (auto intro: applies.finish)
next
  case (Cons h hs)
  then obtain i where "candidates m lines (expected h) = [i]" by (auto split: list.splits)
  then obtain pre post where place: "only_place m lines (expected h) pre post"
    using candidates_only_place by blast
  from Cons.prems have "apply_hunks_from (length pre + length (replacement h)) (Suc n)
      (pre @ replacement h @ post) hs p = Inr out"
    unfolding apply_hunks_from_place [OF place] .
  then show ?case by (rule applies.hunk [OF place Cons.IH])
qed

lemma apply_hunks_from_complete:
  "applies m lines hs out \<Longrightarrow> apply_hunks_from m n lines hs p = Inr out"
proof (induction arbitrary: n rule: applies.induct)
  case (finish m lines)
  then show ?case by simp
next
  case (hunk m lines h pre post hs out)
  then show ?case by (simp only: apply_hunks_from_place)
qed

text \<open>
  C28. Hunk application implements its specification: it returns a text exactly when every hunk's
  context and removed lines occur at one and only one place at or after the end of the previous
  replacement, and the text it returns is the one obtained by replacing at those places; in every
  other case it raises (it never guesses a position).
\<close>

theorem apply_hunks_refines:
  "apply_hunks_from m n lines hs p = Inr out \<longleftrightarrow> applies m lines hs out"
  using apply_hunks_from_sound apply_hunks_from_complete by blast

text \<open>Interleaving the untouched segments of a file with the hunks' texts.\<close>

fun weave :: "'a list list \<Rightarrow> 'a list list \<Rightarrow> 'a list" where
  "weave [] xs = []"
| "weave (s # ss) [] = s"
| "weave (s # ss) (x # xs) = s @ x @ weave ss xs"

lemma append_prefix_length: "length a \<le> length s \<Longrightarrow> a @ b = s @ c \<Longrightarrow> \<exists>t. s = a @ t"
  by (metis append_eq_append_conv_if append_take_drop_id)

lemma weave_Cons: "weave (a # ss) xs = a @ weave ([] # ss) xs"
  by (cases xs) auto

lemma applies_weave:
  "applies m lines hs out \<Longrightarrow> m \<le> length lines \<Longrightarrow>
     \<exists>s ss. length ss = length hs \<and> m \<le> length s
       \<and> lines = weave (s # ss) (map expected hs) \<and> out = weave (s # ss) (map replacement hs)"
proof (induction rule: applies.induct)
  case (finish m lines)
  then show ?case by (intro exI [of _ lines] exI [of _ "[]"]) simp
next
  case (hunk m lines h pre post hs out)
  have place: "lines = pre @ expected h @ post" "m \<le> length pre"
    using hunk.hyps(1) by (simp_all only: only_place_def)
  have "length pre + length (replacement h) \<le> length (pre @ replacement h @ post)" by simp
  from hunk.IH [OF this] obtain s ss where ih: "length ss = length hs"
    "length (pre @ replacement h) \<le> length s"
    "(pre @ replacement h) @ post = weave (s # ss) (map expected hs)"
    "out = weave (s # ss) (map replacement hs)"
    by (metis append.assoc length_append)
  note ih(3,4) [unfolded weave_Cons [of s]]
  then obtain t where t: "s = (pre @ replacement h) @ t"
    using append_prefix_length [OF ih(2)] by blast
  then have "post = weave (t # ss) (map expected hs)"
    "out = pre @ replacement h @ weave (t # ss) (map replacement hs)"
    using ih(3,4) weave_Cons [of t ss] weave_Cons [of s ss] by simp_all
  with place ih(1) show ?case
    by (intro exI [of _ pre] exI [of _ "t # ss"]) simp
qed

text \<open>
  Patching changes nothing but the hunks: the lines of the file before and after are the
  same untouched segments, in the same order, interleaved with the hunks' expected lines before
  and with their replacement lines after.
\<close>

theorem apply_hunks_frame:
  assumes "apply_hunks doc hs p = Inr doc'"
  shows "\<exists>segs. length segs = Suc (length hs)
    \<and> tf_lines doc = weave segs (map expected hs) \<and> tf_lines doc' = weave segs (map replacement hs)
    \<and> tf_newline doc' = tf_newline doc \<and> tf_final doc' = tf_final doc \<and> tf_bom doc' = tf_bom doc"
proof -
  obtain out where "apply_hunks_from 0 1 (tf_lines doc) hs p = Inr out"
    and d: "doc' = doc\<lparr>tf_lines := out\<rparr>"
    using assms by (auto simp: apply_hunks_def res_simps)
  then have "applies 0 (tf_lines doc) hs out" by (blast intro: apply_hunks_from_sound)
  from applies_weave [OF this] obtain s ss where "length ss = length hs"
    "tf_lines doc = weave (s # ss) (map expected hs)" "out = weave (s # ss) (map replacement hs)"
    by auto
  with d show ?thesis by (intro exI [of _ "s # ss"]) simp
qed

theorem apply_hunks_frame_witness:
  "\<exists>segs. length segs = 2
    \<and> [lit ''a'', lit ''b'', lit ''c''] = weave segs [[lit ''b'']]
    \<and> [lit ''a'', lit ''B'', lit ''c''] = weave segs [[lit ''B'']]"
proof -
  let ?doc = "\<lparr>tf_lines = [lit ''a'', lit ''b'', lit ''c''], tf_newline = [10], tf_final = True,
    tf_bom = False\<rparr>"
  let ?h = "Hunk [(Minus, lit ''b''), (Plus, lit ''B'')]"
  have "apply_hunks ?doc [?h] (lit ''f'')
      = Inr (?doc\<lparr>tf_lines := [lit ''a'', lit ''B'', lit ''c'']\<rparr>)"
    by code_simp
  from apply_hunks_frame [OF this] show ?thesis
    by (simp add: expected_def replacement_def numeral_2_eq_2)
qed

end
