(* ===== verification/Agent_Db.thy ===== *)
theory Agent_Db
  imports Paths "HOL-Library.List_Lexorder" "HOL-Library.Product_Lexorder"
begin

text \<open>
  The agent's SQLite store (\<open>agent/src/codito_agent/db.py\<close>): projects, operation receipts,
  idempotency records, settings, saved permissions and project registration requests.  A table
  is the list of its rows in insertion order; the uniqueness and foreign-key constraints of the
  schema are checked by the statements that can violate them, as SQLite does.  Instants are
  numbers of microseconds: the code compares and orders ISO timestamps of one time zone only.  An operation
  maps the store to its result and the store after it; the instant and the fresh identifiers it
  draws are arguments.
\<close>

section \<open>Rows\<close>

datatype operation_state =
    RECEIVED
  | RUNNING
  | WAITING_APPROVAL
  | SUCCEEDED
  | FAILED
  | DENIED
  | CANCELLED
  | OUTCOME_UNKNOWN

definition terminal :: "operation_state \<Rightarrow> bool" where
  "terminal s \<longleftrightarrow> s \<in> {SUCCEEDED, FAILED, DENIED, CANCELLED, OUTCOME_UNKNOWN}"

text \<open>The authorization a request was made under: account, OAuth grant, link and device.\<close>

record binding =
  account_id :: pystr
  grant_id :: pystr
  link_id :: pystr
  device_id :: pystr

record project_row =
  p_project :: project
  p_created :: nat
  p_updated :: nat

record receipt =
  r_correlation :: pystr
  r_binding :: binding
  r_project :: "pystr option"
  r_capability :: pystr
  r_action_digest :: pystr
  r_idem_key :: "pystr option"
  r_request_digest :: pystr
  r_deadline :: pystr

record op_row =
  op_id :: pystr
  op_receipt :: receipt
  op_request :: "json option"
  op_state :: operation_state
  op_result :: "json option"
  op_acked :: bool
  op_epoch :: int
  op_received :: nat
  op_updated :: nat

record idem_row =
  i_project :: pystr
  i_capability :: pystr
  i_key :: pystr
  i_binding :: binding
  i_digest :: pystr
  i_state :: operation_state
  i_result :: "json option"
  i_job :: "pystr option"
  i_created :: nat
  i_updated :: nat

record perm_row =
  pm_key :: pystr
  pm_scope :: pystr
  pm_identity :: pystr
  pm_label :: pystr
  pm_account :: pystr
  pm_link :: pystr
  pm_created :: nat

datatype request_status = Pending | Completed | Dismissed | Expired

record reg_row =
  rq_id :: pystr
  rq_title :: pystr
  rq_binding :: binding
  rq_epoch :: int
  rq_status :: request_status
  rq_expires :: nat
  rq_created :: nat
  rq_updated :: nat

record db =
  projects :: "project_row list"
  operations :: "op_row list"
  idempotency :: "idem_row list"
  settings :: "pystr \<rightharpoonup> pystr"
  read_permissions :: "perm_row list"
  shell_permissions :: "perm_row list"
  screen_permissions :: "perm_row list"
  registrations :: "reg_row list"

definition empty_db :: db where
  "empty_db = \<lparr>projects = [], operations = [], idempotency = [], settings = Map.empty,
     read_permissions = [], shell_permissions = [], screen_permissions = [], registrations = []\<rparr>"

abbreviation row_pid :: "project_row \<Rightarrow> pystr" where
  "row_pid r \<equiv> project_id (p_project r)"

section \<open>What may be logged\<close>

text \<open>
  \<open>str.casefold\<close> on the characters that decide membership in a set of ASCII names: ASCII
  letters, and the few other characters that fold to ASCII.  Every other character folds to a
  text that holds a non-ASCII character, and stands for itself here.
\<close>

definition casefold_char :: "nat \<Rightarrow> pystr" where
  "casefold_char c =
     (if 65 \<le> c \<and> c \<le> 90 then [c + 32]
      else if c = 0x212A then [107]
      else if c = 0x17F then [115]
      else if c = 0xDF \<or> c = 0x1E9E then [115, 115]
      else if c = 0xFB00 then [102, 102]
      else if c = 0xFB01 then [102, 105]
      else if c = 0xFB02 then [102, 108]
      else if c = 0xFB03 then [102, 102, 105]
      else if c = 0xFB04 then [102, 102, 108]
      else if c = 0xFB05 \<or> c = 0xFB06 then [115, 116]
      else [c])"

definition casefold :: "pystr \<Rightarrow> pystr" where
  "casefold s = concat (map casefold_char s)"

definition activity_secret_keys :: "pystr list" where
  "activity_secret_keys =
     map lit [''access_token'', ''authorization'', ''client_secret'', ''cookie'', ''id_token'', ''password'',
       ''private_key'', ''refresh_token'', ''secret'', ''token'']"

definition secret_key :: "pystr \<Rightarrow> bool" where
  "secret_key k \<longleftrightarrow> map (\<lambda>c. if c = 45 then 95 else c) (casefold k) \<in> set activity_secret_keys"

definition REDACTED :: json where
  "REDACTED = JStr (lit ''[redacted]'')"

fun activity_safe_value :: "nat \<Rightarrow> json \<Rightarrow> json" where
  "activity_safe_value depth (JObj kvs) =
     (if 12 < depth then JStr (lit ''[maximum nesting reached]'')
      else JObj (map (\<lambda>(k, v). (k, if secret_key k then REDACTED else activity_safe_value (Suc depth) v)) kvs))"
| "activity_safe_value depth (JList vs) =
     (if 12 < depth then JStr (lit ''[maximum nesting reached]'')
      else JList (map (activity_safe_value (Suc depth)) vs))"
| "activity_safe_value depth v =
     (if 12 < depth then JStr (lit ''[maximum nesting reached]'') else v)"

text \<open>The text shown as the target of a request in the local activity list.\<close>

definition text_of :: "string \<Rightarrow> json \<Rightarrow> pystr option" where
  "text_of k r = (case jget k r of Some (JStr s) \<Rightarrow> Some s | _ \<Rightarrow> None)"

fun first_target :: "string list \<Rightarrow> json \<Rightarrow> pystr option" where
  "first_target [] r = None"
| "first_target (k # ks) r =
     (case text_of k r of
        Some v \<Rightarrow> if strip v \<noteq> [] then Some (take 240 (strip v)) else first_target ks r
      | None \<Rightarrow> first_target ks r)"

definition after_colon :: "pystr \<Rightarrow> pystr" where
  "after_colon l = tl (dropWhile (\<lambda>c. c \<noteq> 58) l)"

definition patch_paths :: "pystr \<Rightarrow> pystr list" where
  "patch_paths patch =
     map (\<lambda>l. strip (after_colon l))
       (filter (\<lambda>l. \<exists>h\<in>set [''*** Add File:'', ''*** Update File:'', ''*** Delete File:'', ''*** Move to:''].
                     startswith l (lit h)) (splitlines patch))"

definition command_target :: "json \<Rightarrow> pystr option" where
  "command_target r =
     (case text_of ''command'' r of
        Some c \<Rightarrow> if strip c \<noteq> [] then
            Some (take 240 (map (\<lambda>x. if x = 13 \<or> x = 10 then 32 else x) (strip c))) else None
      | None \<Rightarrow> None)"

definition activity_target :: "json option \<Rightarrow> pystr option" where
  "activity_target request =
     (case request of
        None \<Rightarrow> None
      | Some r \<Rightarrow>
          (case first_target [''path'', ''working_directory'', ''scope_path'', ''display_id'', ''title'', ''query''] r of
             Some t \<Rightarrow> Some t
           | None \<Rightarrow>
               (case text_of ''patch'' r of
                  Some p \<Rightarrow> if patch_paths p \<noteq> [] then
                      Some (take 240 (join (lit '', '') (take 3 (patch_paths p)) @
                        (if 3 < length (patch_paths p) then [32, 0x2026] else [])))
                    else command_target r
                | None \<Rightarrow> command_target r)))"

section \<open>Projects\<close>

type_synonym 'a dbop = "db \<Rightarrow> 'a res \<times> db"

definition clean_title :: "pystr \<Rightarrow> pystr res" where
  "clean_title t =
     (let t = strip t in if t = [] \<or> 120 < length t then Inl (raise ''invalid_project'') else Inr t)"

definition register_project ::
  "(bytes \<Rightarrow> pystr) \<Rightarrow> os_view \<Rightarrow> nat \<Rightarrow> pystr \<Rightarrow> pystr \<Rightarrow> abspath \<Rightarrow> project_mode \<Rightarrow> project dbop" where
  "register_project sha os now uuid t r m d =
     (case clean_title t of
        Inl e \<Rightarrow> (Inl e, d)
      | Inr t \<Rightarrow>
          (case validate_project_root sha os r of
             Inl e \<Rightarrow> (Inl e, d)
           | Inr (vroot, fp) \<Rightarrow>
               let p = \<lparr>project_id = uuid, title = t, root = vroot, root_fp = fp, mode = m, enabled = True\<rparr> in
               if \<exists>row\<in>set (projects d). row_pid row = uuid \<or> root (p_project row) = vroot
               then (Inl (raise ''project_exists''), d)
               else (Inr p, d\<lparr>projects := projects d @ [\<lparr>p_project = p, p_created = now, p_updated = now\<rparr>]\<rparr>)))"

definition get_project :: "pystr \<Rightarrow> db \<Rightarrow> project res" where
  "get_project pid d =
     (case find (\<lambda>r. row_pid r = pid) (projects d) of
        None \<Rightarrow> Inl (raise ''project_not_found'')
      | Some r \<Rightarrow> Inr (p_project r))"

definition list_projects :: "bool \<Rightarrow> db \<Rightarrow> project list" where
  "list_projects enabled_only d =
     sort_key (\<lambda>p. (ascii_lower (title p), project_id p))
       (filter (\<lambda>p. enabled_only \<longrightarrow> enabled p) (map p_project (projects d)))"

text \<open>\<open>UPDATE projects SET ... WHERE project_id=?\<close> and the row count check after it.\<close>

definition update_project :: "nat \<Rightarrow> pystr \<Rightarrow> (project \<Rightarrow> project) \<Rightarrow> unit dbop" where
  "update_project now pid f d =
     (let hit = (\<lambda>r. row_pid r = pid);
          rows = map (\<lambda>r. if hit r then r\<lparr>p_project := f (p_project r), p_updated := now\<rparr> else r) (projects d) in
      (if length (filter hit (projects d)) \<noteq> 1 then Inl (raise ''project_not_found'') else Inr (),
       d\<lparr>projects := rows\<rparr>))"

definition set_project_mode :: "nat \<Rightarrow> pystr \<Rightarrow> project_mode \<Rightarrow> unit dbop" where
  "set_project_mode now pid m d = update_project now pid (mode_update (\<lambda>_. m)) d"

definition set_project_title :: "nat \<Rightarrow> pystr \<Rightarrow> pystr \<Rightarrow> unit dbop" where
  "set_project_title now pid t d =
     (case clean_title t of
        Inl e \<Rightarrow> (Inl e, d)
      | Inr t \<Rightarrow> update_project now pid (title_update (\<lambda>_. t)) d)"

definition set_project_enabled :: "nat \<Rightarrow> pystr \<Rightarrow> bool \<Rightarrow> unit dbop" where
  "set_project_enabled now pid e d = update_project now pid (enabled_update (\<lambda>_. e)) d"

definition disable_project :: "nat \<Rightarrow> pystr \<Rightarrow> unit dbop" where
  "disable_project now pid d = set_project_enabled now pid False d"

text \<open>The foreign keys of \<open>operations\<close> and \<open>idempotency\<close>.\<close>

definition fk_ok :: "db \<Rightarrow> bool" where
  "fk_ok d \<longleftrightarrow>
     (\<forall>r\<in>set (operations d). case r_project (op_receipt r) of
        None \<Rightarrow> True | Some p \<Rightarrow> p \<in> row_pid ` set (projects d))
     \<and> (\<forall>r\<in>set (idempotency d). i_project r \<in> row_pid ` set (projects d))"

definition rename_project :: "pystr \<Rightarrow> pystr \<Rightarrow> op_row \<Rightarrow> op_row" where
  "rename_project previous current r =
     (if r_project (op_receipt r) = Some previous
      then r\<lparr>op_receipt := (op_receipt r)\<lparr>r_project := Some current\<rparr>\<rparr> else r)"

text \<open>
  One turn of the loop of \<open>rotate_project_ids\<close>.  The new identifier replaces the primary key, so
  an identifier already in use is an integrity error.
\<close>

definition rotate_one :: "nat \<Rightarrow> db \<Rightarrow> pystr \<times> pystr \<Rightarrow> db res" where
  "rotate_one now d = (\<lambda>(previous, current).
     if \<exists>r\<in>set (projects d). row_pid r = current \<and> row_pid r \<noteq> previous then Inl IntegrityError
     else Inr (d\<lparr>operations := map (rename_project previous current) (operations d),
                 projects := map (\<lambda>r. if row_pid r = previous
                   then r\<lparr>p_project := (p_project r)\<lparr>project_id := current\<rparr>, p_updated := now\<rparr> else r) (projects d)\<rparr>))"

definition rotate_project_ids :: "nat \<Rightarrow> (nat \<Rightarrow> pystr) \<Rightarrow> (pystr \<times> pystr) list dbop" where
  "rotate_project_ids now uuid d =
     (let mapping = zip (map row_pid (projects d)) (map uuid [0..<length (projects d)]) in
      if mapping = [] then (Inr mapping, d)
      else
        case foldE (rotate_one now) d mapping of
          Inl e \<Rightarrow> (Inl e, d)
        | Inr d' \<Rightarrow>
            let d' = d'\<lparr>idempotency := []\<rparr> in
            if fk_ok d' then (Inr mapping, d') else (Inl IntegrityError, d))"

section \<open>Settings and the connection epoch\<close>

definition get_setting :: "pystr \<Rightarrow> pystr option \<Rightarrow> db \<Rightarrow> pystr option" where
  "get_setting k dflt d = (case settings d k of Some v \<Rightarrow> Some v | None \<Rightarrow> dflt)"

definition set_setting :: "pystr \<Rightarrow> pystr \<Rightarrow> unit dbop" where
  "set_setting k v d =
     (if k = [] \<or> 100 < length k \<or> 4096 < length v then (Inl (raise ''invalid_setting''), d)
      else (Inr (), d\<lparr>settings := (settings d)(k \<mapsto> v)\<rparr>))"

text \<open>\<open>str\<close> of a non-negative integer and \<open>int\<close> of a text, on ASCII digits.\<close>

fun py_str_nat :: "nat \<Rightarrow> pystr" where
  "py_str_nat n = (if n < 10 then [48 + n] else py_str_nat (n div 10) @ [48 + n mod 10])"

declare py_str_nat.simps [simp del]

definition py_str :: "int \<Rightarrow> pystr" where
  "py_str i = (if i < 0 then 45 # py_str_nat (nat (- i)) else py_str_nat (nat i))"

fun digits_val :: "nat \<Rightarrow> bool \<Rightarrow> pystr \<Rightarrow> nat option" where
  "digits_val acc after_digit [] = (if after_digit then Some acc else None)"
| "digits_val acc after_digit (c # cs) =
     (if 48 \<le> c \<and> c \<le> 57 then digits_val (10 * acc + (c - 48)) True cs
      else if c = 95 \<and> after_digit then digits_val acc False cs
      else None)"

definition py_int :: "pystr \<Rightarrow> int option" where
  "py_int s =
     (case strip s of
        [] \<Rightarrow> None
      | c # cs \<Rightarrow>
          if c = 45 then map_option (\<lambda>n. - int n) (digits_val 0 False cs)
          else if c = 43 then map_option int (digits_val 0 False cs)
          else map_option int (digits_val 0 False (c # cs)))"

definition EPOCH_KEY :: pystr where
  "EPOCH_KEY = lit ''connection_epoch''"

definition next_connection_epoch :: "int dbop" where
  "next_connection_epoch d =
     (case settings d EPOCH_KEY of
        None \<Rightarrow> (Inr 1, d\<lparr>settings := (settings d)(EPOCH_KEY \<mapsto> py_str 1)\<rparr>)
      | Some v \<Rightarrow>
          (case py_int v of
             None \<Rightarrow> (Inl ValueError, d)
           | Some n \<Rightarrow> (Inr (n + 1), d\<lparr>settings := (settings d)(EPOCH_KEY \<mapsto> py_str (n + 1))\<rparr>)))"

definition set_connection_epoch :: "int \<Rightarrow> unit dbop" where
  "set_connection_epoch v d =
     (if v < 1 then (Inl (raise ''protocol_error''), d)
      else (Inr (), d\<lparr>settings := (settings d)(EPOCH_KEY \<mapsto> py_str v)\<rparr>))"

section \<open>Saved permissions\<close>

definition has_permission :: "perm_row list \<Rightarrow> pystr \<Rightarrow> pystr \<Rightarrow> bool" where
  "has_permission rows key identity \<longleftrightarrow>
     (\<exists>r\<in>set rows. pm_key r = key \<and> pm_identity r = identity)"

definition insert_or_replace :: "perm_row \<Rightarrow> perm_row list \<Rightarrow> perm_row list" where
  "insert_or_replace row rows = filter (\<lambda>r. pm_key r \<noteq> pm_key row) rows @ [row]"

definition list_permissions :: "perm_row list \<Rightarrow> perm_row list" where
  "list_permissions rows = rev (sort_key pm_created rows)"

definition has_read_permission :: "pystr \<Rightarrow> pystr \<Rightarrow> db \<Rightarrow> bool" where
  "has_read_permission key identity d = has_permission (read_permissions d) key identity"

definition save_read_permission ::
  "nat \<Rightarrow> pystr \<Rightarrow> pystr \<Rightarrow> pystr \<Rightarrow> pystr \<Rightarrow> pystr \<Rightarrow> unit dbop" where
  "save_read_permission now key scope identity account link d =
     (Inr (), d\<lparr>read_permissions := insert_or_replace
        \<lparr>pm_key = key, pm_scope = scope, pm_identity = identity, pm_label = [], pm_account = account,
         pm_link = link, pm_created = now\<rparr> (read_permissions d)\<rparr>)"

definition revoke_read_permissions :: "nat dbop" where
  "revoke_read_permissions d = (Inr (length (read_permissions d)), d\<lparr>read_permissions := []\<rparr>)"

definition has_shell_permission :: "pystr \<Rightarrow> pystr \<Rightarrow> db \<Rightarrow> bool" where
  "has_shell_permission key identity d = has_permission (shell_permissions d) key identity"

definition save_shell_permission ::
  "nat \<Rightarrow> pystr \<Rightarrow> pystr \<Rightarrow> pystr \<Rightarrow> pystr \<Rightarrow> pystr \<Rightarrow> unit dbop" where
  "save_shell_permission now key scope identity account link d =
     (Inr (), d\<lparr>shell_permissions := insert_or_replace
        \<lparr>pm_key = key, pm_scope = scope, pm_identity = identity, pm_label = [], pm_account = account,
         pm_link = link, pm_created = now\<rparr> (shell_permissions d)\<rparr>)"

definition revoke_shell_permissions :: "nat dbop" where
  "revoke_shell_permissions d = (Inr (length (shell_permissions d)), d\<lparr>shell_permissions := []\<rparr>)"

definition has_screen_permission :: "pystr \<Rightarrow> pystr \<Rightarrow> db \<Rightarrow> bool" where
  "has_screen_permission key identity d = has_permission (screen_permissions d) key identity"

definition save_screen_permission ::
  "nat \<Rightarrow> pystr \<Rightarrow> pystr \<Rightarrow> pystr \<Rightarrow> pystr \<Rightarrow> pystr \<Rightarrow> pystr \<Rightarrow> unit dbop" where
  "save_screen_permission now key display_id identity label account link d =
     (Inr (), d\<lparr>screen_permissions := insert_or_replace
        \<lparr>pm_key = key, pm_scope = display_id, pm_identity = identity, pm_label = label, pm_account = account,
         pm_link = link, pm_created = now\<rparr> (screen_permissions d)\<rparr>)"

definition revoke_screen_permissions :: "nat dbop" where
  "revoke_screen_permissions d = (Inr (length (screen_permissions d)), d\<lparr>screen_permissions := []\<rparr>)"

definition revoke_permission :: "pystr \<Rightarrow> pystr \<Rightarrow> bool dbop" where
  "revoke_permission category key d =
     (let keep = filter (\<lambda>r. pm_key r \<noteq> key);
          one = (\<lambda>rows. length (filter (\<lambda>r. pm_key r = key) rows) = 1) in
      if category = lit ''read'' then
        (Inr (one (read_permissions d)), d\<lparr>read_permissions := keep (read_permissions d)\<rparr>)
      else if category = lit ''shell'' then
        (Inr (one (shell_permissions d)), d\<lparr>shell_permissions := keep (shell_permissions d)\<rparr>)
      else if category = lit ''screen'' then
        (Inr (one (screen_permissions d)), d\<lparr>screen_permissions := keep (screen_permissions d)\<rparr>)
      else (Inl (raise ''invalid_permission''), d))"

section \<open>Project registration requests\<close>

definition create_registration_request ::
  "nat \<Rightarrow> pystr \<Rightarrow> pystr \<Rightarrow> binding \<Rightarrow> int \<Rightarrow> pystr dbop" where
  "create_registration_request now uuid t b epoch d =
     (case clean_title t of
        Inl e \<Rightarrow> (Inl e, d)
      | Inr t \<Rightarrow>
          let rid = lit ''project_request_'' @ uuid in
          if rid \<in> rq_id ` set (registrations d) then (Inl IntegrityError, d)
          else (Inr rid, d\<lparr>registrations := registrations d @
            [\<lparr>rq_id = rid, rq_title = t, rq_binding = b, rq_epoch = epoch, rq_status = Pending,
              rq_expires = now + 900000000, rq_created = now, rq_updated = now\<rparr>]\<rparr>))"

definition set_status :: "nat \<Rightarrow> request_status \<Rightarrow> (reg_row \<Rightarrow> bool) \<Rightarrow> reg_row list \<Rightarrow> reg_row list" where
  "set_status now st hit rows =
     map (\<lambda>r. if rq_status r = Pending \<and> hit r then r\<lparr>rq_status := st, rq_updated := now\<rparr> else r) rows"

definition next_registration_request :: "nat \<Rightarrow> reg_row option dbop" where
  "next_registration_request now d =
     (let rows = set_status now Expired (\<lambda>r. rq_expires r \<le> now) (registrations d);
          pending = sort_key rq_created (filter (\<lambda>r. rq_status r = Pending) rows) in
      (Inr (case pending of [] \<Rightarrow> None | r # _ \<Rightarrow> Some r), d\<lparr>registrations := rows\<rparr>))"

definition dismiss_registration_request :: "nat \<Rightarrow> pystr \<Rightarrow> bool \<Rightarrow> unit dbop" where
  "dismiss_registration_request now rid expired d =
     (let hit = (\<lambda>r. rq_id r = rid) in
      (if length (filter (\<lambda>r. rq_status r = Pending \<and> hit r) (registrations d)) \<noteq> 1
       then Inl (raise ''request_not_found'') else Inr (),
       d\<lparr>registrations := set_status now (if expired then Expired else Dismissed) hit (registrations d)\<rparr>))"

definition complete_registration_request ::
  "(bytes \<Rightarrow> pystr) \<Rightarrow> os_view \<Rightarrow> nat \<Rightarrow> pystr \<Rightarrow> pystr \<Rightarrow> abspath \<Rightarrow> project dbop" where
  "complete_registration_request sha os now uuid rid r d =
     (case find (\<lambda>q. rq_id q = rid \<and> rq_status q = Pending) (registrations d) of
        None \<Rightarrow> (Inl (raise ''request_not_found''), d)
      | Some q \<Rightarrow>
          if rq_expires q \<le> now then
            (case dismiss_registration_request now rid True d of
               (Inl e, d') \<Rightarrow> (Inl e, d')
             | (Inr _, d') \<Rightarrow> (Inl (raise ''request_expired''), d'))
          else
            (case register_project sha os now uuid (rq_title q) r ISOLATED d of
               (Inl e, d') \<Rightarrow> (Inl e, d')
             | (Inr p, d') \<Rightarrow>
                 (Inr p, d'\<lparr>registrations := set_status now Completed (\<lambda>q. rq_id q = rid) (registrations d')\<rparr>)))"

section \<open>Operation receipts\<close>

abbreviation operation_conflict :: exn where
  "operation_conflict \<equiv> raise ''operation_conflict''"

definition find_op :: "pystr \<Rightarrow> db \<Rightarrow> op_row option" where
  "find_op oid d = find (\<lambda>r. op_id r = oid) (operations d)"

definition update_op :: "pystr \<Rightarrow> (op_row \<Rightarrow> op_row) \<Rightarrow> db \<Rightarrow> db" where
  "update_op oid f d = d\<lparr>operations := map (\<lambda>r. if op_id r = oid then f r else r) (operations d)\<rparr>"

definition known_project :: "pystr option \<Rightarrow> db \<Rightarrow> bool" where
  "known_project p d \<longleftrightarrow> (case p of None \<Rightarrow> True | Some q \<Rightarrow> q \<in> row_pid ` set (projects d))"

definition record_received ::
  "nat \<Rightarrow> pystr \<Rightarrow> receipt \<Rightarrow> json option \<Rightarrow> int \<Rightarrow> bool dbop" where
  "record_received now oid rc request epoch d =
     (if find_op oid d = None \<and> known_project (r_project rc) d then
        (Inr True, d\<lparr>operations := operations d @
           [\<lparr>op_id = oid, op_receipt = rc, op_request = map_option (activity_safe_value 0) request,
             op_state = RECEIVED, op_result = None, op_acked = False, op_epoch = epoch,
             op_received = now, op_updated = now\<rparr>]\<rparr>)
      else
        (case find_op oid d of
           None \<Rightarrow> (Inl operation_conflict, d)
         | Some row \<Rightarrow>
             if op_receipt row \<noteq> rc \<or> epoch < op_epoch row then (Inl operation_conflict, d)
             else (Inr False,
               if op_epoch row < epoch
               then update_op oid (\<lambda>r. r\<lparr>op_epoch := epoch, op_updated := now\<rparr>) d else d)))"

definition transition_operation ::
  "nat \<Rightarrow> pystr \<Rightarrow> operation_state \<Rightarrow> json option \<Rightarrow> unit dbop" where
  "transition_operation now oid st result d =
     (case find_op oid d of
        None \<Rightarrow> (Inl (raise ''operation_not_found''), d)
      | Some row \<Rightarrow>
          if terminal (op_state row) \<and> op_state row \<noteq> st then (Inl (raise ''invalid_state''), d)
          else (Inr (), update_op oid (\<lambda>r. r\<lparr>op_state := st, op_result := result,
                   op_acked := (if terminal st then False else op_acked r), op_updated := now\<rparr>) d))"

definition list_unacknowledged_terminals :: "db \<Rightarrow> op_row list" where
  "list_unacknowledged_terminals d =
     sort_key (\<lambda>r. (op_updated r, op_id r))
       (filter (\<lambda>r. \<not> op_acked r \<and> op_result r \<noteq> None \<and> terminal (op_state r)) (operations d))"

definition ack_matches :: "pystr \<Rightarrow> pystr \<Rightarrow> binding \<Rightarrow> pystr option \<Rightarrow> op_row \<Rightarrow> bool" where
  "ack_matches corr digest b pid r \<longleftrightarrow>
     r_correlation (op_receipt r) = corr \<and> r_action_digest (op_receipt r) = digest
     \<and> r_binding (op_receipt r) = b \<and> r_project (op_receipt r) = pid \<and> terminal (op_state r)"

definition acknowledge_terminal ::
  "nat \<Rightarrow> pystr \<Rightarrow> pystr \<Rightarrow> binding \<Rightarrow> pystr option \<Rightarrow> bool dbop" where
  "acknowledge_terminal now corr digest b pid d =
     (let hit = ack_matches corr digest b pid in
      (Inr (filter hit (operations d) \<noteq> []),
       d\<lparr>operations := map (\<lambda>r. if hit r then r\<lparr>op_acked := True, op_updated := now\<rparr> else r) (operations d)\<rparr>))"

section \<open>The activity list\<close>

definition project_title_of :: "pystr option \<Rightarrow> db \<Rightarrow> pystr" where
  "project_title_of pid d =
     (let t = (case pid of None \<Rightarrow> None
                | Some p \<Rightarrow> map_option (title \<circ> p_project) (find (\<lambda>r. row_pid r = p) (projects d))) in
      case t of Some (c # s) \<Rightarrow> c # s | _ \<Rightarrow> lit ''Device'')"

text \<open>Values the activity list shows when they are truthy; the sources are texts.\<close>

definition shown :: "json option \<Rightarrow> pystr option" where
  "shown j = (case j of Some (JStr (c # s)) \<Rightarrow> Some (c # s) | _ \<Rightarrow> None)"

definition get_or :: "string \<Rightarrow> string \<Rightarrow> json \<Rightarrow> json option" where
  "get_or k k' j = (case jget k j of Some v \<Rightarrow> Some v | None \<Rightarrow> jget k' j)"

record activity =
  a_id :: pystr
  a_project :: "pystr option"
  a_project_title :: pystr
  a_capability :: pystr
  a_state :: operation_state
  a_error_code :: "pystr option"
  a_error_message :: "pystr option"
  a_operation :: "pystr option"
  a_purpose :: "pystr option"
  a_target :: "pystr option"
  a_acked :: bool
  a_received :: nat
  a_updated :: nat

definition is_obj :: "json option \<Rightarrow> bool" where
  "is_obj j = (case j of Some (JObj _) \<Rightarrow> True | _ \<Rightarrow> False)"

definition json_object :: "json option \<Rightarrow> json option" where
  "json_object j = (if is_obj j then j else None)"

definition activity_of :: "db \<Rightarrow> op_row \<Rightarrow> activity" where
  "activity_of d r =
     (let request = json_object (op_request r); result = json_object (op_result r);
          error = json_object (Option.bind result (jget ''error''));
          op1 = shown (Option.bind request (get_or ''operation'' ''action''));
          op2 = shown (Option.bind (json_object (Option.bind result (jget ''result'')))
                         (get_or ''operation'' ''action'')) in
      \<lparr>a_id = op_id r, a_project = r_project (op_receipt r),
       a_project_title = project_title_of (r_project (op_receipt r)) d,
       a_capability = r_capability (op_receipt r), a_state = op_state r,
       a_error_code = shown (Option.bind error (jget ''code'')),
       a_error_message = shown (Option.bind error (jget ''message'')),
       a_operation = (if op1 = None then op2 else op1),
       a_purpose = shown (Option.bind request (jget ''purpose'')),
       a_target = activity_target request, a_acked = op_acked r, a_received = op_received r,
       a_updated = op_updated r\<rparr>)"

definition list_recent_operations :: "int \<Rightarrow> db \<Rightarrow> activity list res" where
  "list_recent_operations limit d =
     (if \<not> (1 \<le> limit \<and> limit \<le> 200) then Inl (raise ''invalid_request'')
      else Inr (map (activity_of d)
             (take (nat limit) (rev (sort_key (\<lambda>r. (op_updated r, op_id r)) (operations d))))))"

section \<open>Idempotency records\<close>

abbreviation idempotency_conflict :: exn where
  "idempotency_conflict \<equiv> raise ''idempotency_conflict''"

definition idem_key_of :: "idem_row \<Rightarrow> pystr \<times> pystr \<times> pystr" where
  "idem_key_of r = (i_project r, i_capability r, i_key r)"

definition find_idem :: "pystr \<times> pystr \<times> pystr \<Rightarrow> db \<Rightarrow> idem_row option" where
  "find_idem k d = find (\<lambda>r. idem_key_of r = k) (idempotency d)"

definition get_idempotency ::
  "pystr \<Rightarrow> pystr \<Rightarrow> pystr \<Rightarrow> binding \<Rightarrow> db \<Rightarrow> (pystr \<times> operation_state \<times> json option) option res" where
  "get_idempotency pid cap key b d =
     (case find_idem (pid, cap, key) d of
        None \<Rightarrow> Inr None
      | Some r \<Rightarrow> if i_binding r \<noteq> b then Inl idempotency_conflict
                 else Inr (Some (i_digest r, i_state r, i_result r)))"

definition SHELL :: pystr where
  "SHELL = lit ''project_shell''"

text \<open>\<open>if result\<close> is false for a missing and for an empty object.\<close>

definition truthy_obj :: "json option \<Rightarrow> json option" where
  "truthy_obj j = (case j of Some (JObj []) \<Rightarrow> None | _ \<Rightarrow> j)"

definition put_idempotency ::
  "nat \<Rightarrow> pystr \<Rightarrow> pystr \<Rightarrow> pystr \<Rightarrow> pystr \<Rightarrow> operation_state \<Rightarrow> json option \<Rightarrow> binding \<Rightarrow> unit dbop" where
  "put_idempotency now pid cap key digest st result b d =
     (let enc = truthy_obj result;
          job = (if cap = SHELL then shown (Option.bind enc (jget ''job_id'')) else None);
          k = (pid, cap, key) in
      case find_idem k d of
        Some r \<Rightarrow>
          if i_digest r \<noteq> digest \<or> i_binding r \<noteq> b then (Inl idempotency_conflict, d)
          else (Inr (), d\<lparr>idempotency := map (\<lambda>r. if idem_key_of r = k
                  then r\<lparr>i_state := st, i_result := enc, i_job := job, i_updated := now\<rparr> else r) (idempotency d)\<rparr>)
      | None \<Rightarrow>
          if pid \<notin> row_pid ` set (projects d) then (Inl IntegrityError, d)
          else (Inr (), d\<lparr>idempotency := idempotency d @
                  [\<lparr>i_project = pid, i_capability = cap, i_key = key, i_binding = b, i_digest = digest,
                    i_state = st, i_result = enc, i_job = job, i_created = now, i_updated = now\<rparr>]\<rparr>))"

definition get_shell_job ::
  "pystr \<Rightarrow> pystr \<Rightarrow> binding \<Rightarrow> db \<Rightarrow> (operation_state \<times> json option) option res" where
  "get_shell_job pid job b d =
     (case find (\<lambda>r. i_project r = pid \<and> i_capability r = SHELL \<and> i_job r = Some job) (idempotency d) of
        None \<Rightarrow> Inr None
      | Some r \<Rightarrow> if i_binding r \<noteq> b then Inl (raise ''binding_mismatch'')
                 else Inr (Some (i_state r, i_result r)))"

definition delete_idempotency :: "pystr \<Rightarrow> pystr \<Rightarrow> pystr \<Rightarrow> unit dbop" where
  "delete_idempotency pid cap key d =
     (Inr (), d\<lparr>idempotency := filter (\<lambda>r. idem_key_of r \<noteq> (pid, cap, key)) (idempotency d)\<rparr>)"

end
