(* ===== verification/Operation_Gate.thy ===== *)
theory Operation_Gate
  imports Codito_Text
begin

text \<open>
  The mutation gate of \<open>agent/src/codito_agent/operation_gate.py\<close>: one owner per physical
  workspace.  Its contract is the locale \<open>gate\<close>; mutual exclusion of the tasks that go through
  it is proved once from that contract, for every interleaving of reservations and releases,
  including the late second release a cancelled shell job performs.
\<close>

section \<open>The gate\<close>

record operation_gate =
  owners :: "pystr \<rightharpoonup> pystr"

definition new_gate :: operation_gate where
  "new_gate = \<lparr>owners = Map.empty\<rparr>"

definition project_busy :: exn where
  "project_busy = AgentError ''project_busy''
     [(''reason'', JStr (lit ''mutation_conflict'')), (''retry_after_ms'', JInt 250)] True"

definition reserve :: "pystr \<Rightarrow> pystr \<Rightarrow> operation_gate \<Rightarrow> operation_gate res" where
  "reserve resource_key owner g =
     (case owners g resource_key of
        Some _ \<Rightarrow> Inl project_busy
      | None \<Rightarrow> Inr (g\<lparr>owners := (owners g)(resource_key \<mapsto> owner)\<rparr>))"

definition release :: "pystr \<Rightarrow> pystr \<Rightarrow> operation_gate \<Rightarrow> operation_gate" where
  "release resource_key owner g =
     (if owners g resource_key = Some owner
      then g\<lparr>owners := (owners g)(resource_key := None)\<rparr> else g)"

text \<open>
  \<open>hold\<close> as a context manager: the body runs on the outer state only when the reservation
  succeeded, and the gate is released whether the body returned or raised.
\<close>

definition hold ::
  "pystr \<Rightarrow> pystr \<Rightarrow> operation_gate \<Rightarrow> ('s \<Rightarrow> 's \<times> 'a res) \<Rightarrow> 's \<Rightarrow> operation_gate \<times> 's \<times> 'a res" where
  "hold resource_key owner g body s =
     (case reserve resource_key owner g of
        Inl e \<Rightarrow> (g, s, Inl e)
      | Inr g' \<Rightarrow> (case body s of (s', r) \<Rightarrow> (release resource_key owner g', s', r)))"

section \<open>The contract\<close>

locale gate =
  fixes acquire :: "'k \<Rightarrow> 'o \<Rightarrow> 'g \<Rightarrow> 'e + 'g"
    and free :: "'k \<Rightarrow> 'o \<Rightarrow> 'g \<Rightarrow> 'g"
    and holder :: "'g \<Rightarrow> 'k \<Rightarrow> 'o option"
  assumes acquire_busy: "holder g k = Some w \<Longrightarrow> \<exists>e. acquire k v g = Inl e"
    and acquire_idle: "holder g k = None \<Longrightarrow> \<exists>g'. acquire k v g = Inr g' \<and> holder g' = (holder g)(k \<mapsto> v)"
    and free_holder: "holder (free k v g) = (if holder g k = Some v then (holder g)(k := None) else holder g)"
begin

lemma acquired:
  "acquire k v g = Inr g' \<Longrightarrow> holder g k = None \<and> holder g' = (holder g)(k \<mapsto> v)"
  using acquire_busy [of g k _ v] acquire_idle [of g k v]
  by (cases "holder g k") auto

lemma acquire_free_restores:
  "acquire k v g = Inr g' \<Longrightarrow> holder (free k v g') = holder g"
  using acquired [of k v g g'] by (auto simp: free_holder)

lemma free_foreign: "holder g k = Some w \<Longrightarrow> v \<noteq> w \<Longrightarrow> holder (free k v g) = holder g"
  by (simp add: free_holder)

text \<open>
  Tasks that share one gate.  \<open>held t\<close> is what task \<open>t\<close> has reserved and not yet given up.  The
  last rule is a release by a task that no longer holds the resource; nobody who does hold it
  uses the same owner name.
\<close>

inductive reach :: "'g \<Rightarrow> 'g \<Rightarrow> ('t \<Rightarrow> ('k \<times> 'o) option) \<Rightarrow> bool" for g0 where
  start: "reach g0 g0 (\<lambda>_. None)"
| enter: "reach g0 g held \<Longrightarrow> held t = None \<Longrightarrow> acquire k v g = Inr g' \<Longrightarrow>
    reach g0 g' (held(t \<mapsto> (k, v)))"
| leave: "reach g0 g held \<Longrightarrow> held t = Some (k, v) \<Longrightarrow> reach g0 (free k v g) (held(t := None))"
| stale: "reach g0 g held \<Longrightarrow> (\<forall>t. held t \<noteq> Some (k, v)) \<Longrightarrow> reach g0 (free k v g) held"

lemma reach_holder:
  assumes "reach g0 g held" and "holder g0 = Map.empty"
  shows "(\<forall>t k v. held t = Some (k, v) \<longrightarrow> holder g k = Some v)
    \<and> (\<forall>t t' k v v'. held t = Some (k, v) \<longrightarrow> held t' = Some (k, v') \<longrightarrow> t = t')
    \<and> (\<forall>k v. holder g k = Some v \<longrightarrow> (\<exists>t. held t = Some (k, v)))"
  using assms
proof (induction rule: reach.induct)
  case start
  then show ?case by simp
next
  case (enter g held t k v g')
  note IH = enter.IH [OF enter.prems]
  have a: "holder g k = None" "holder g' = (holder g)(k \<mapsto> v)"
    using acquired [OF enter.hyps(3)] by auto
  then have free: "held t' \<noteq> Some (k, w)" for t' w using IH by fastforce
  show ?case
  proof (intro conjI allI impI)
    fix t' k' w
    show "(held(t \<mapsto> (k, v))) t' = Some (k', w) \<Longrightarrow> holder g' k' = Some w"
      using IH a free by (auto split: if_splits)
    fix t'' w'
    show "(held(t \<mapsto> (k, v))) t' = Some (k', w) \<Longrightarrow> (held(t \<mapsto> (k, v))) t'' = Some (k', w') \<Longrightarrow> t' = t''"
      using IH free by (fastforce split: if_splits)
  next
    fix k' w
    assume "holder g' k' = Some w"
    then show "\<exists>t'. (held(t \<mapsto> (k, v))) t' = Some (k', w)"
    proof (cases "k' = k")
      case True
      then show ?thesis using a \<open>holder g' k' = Some w\<close> by (intro exI [of _ t]) auto
    next
      case False
      then have "holder g k' = Some w" using a \<open>holder g' k' = Some w\<close> by simp
      then obtain t' where "held t' = Some (k', w)" using IH by blast
      moreover have "t' \<noteq> t" using calculation enter.hyps(2) by auto
      ultimately show ?thesis by (intro exI [of _ t']) simp
    qed
  qed
next
  case (leave g held t k v)
  note IH = leave.IH [OF leave.prems]
  have h: "holder g k = Some v" using IH leave.hyps(2) by blast
  have sole: "held t' = Some (k, w) \<Longrightarrow> t' = t" for t' w using IH leave.hyps(2) by blast
  show ?case
  proof (intro conjI allI impI)
    fix t' k' w
    show "(held(t := None)) t' = Some (k', w) \<Longrightarrow> holder (free k v g) k' = Some w"
      using IH h sole by (auto simp: free_holder split: if_splits)
    fix t'' w'
    show "(held(t := None)) t' = Some (k', w) \<Longrightarrow> (held(t := None)) t'' = Some (k', w') \<Longrightarrow> t' = t''"
      using IH by (auto split: if_splits)
  next
    fix k' w
    assume "holder (free k v g) k' = Some w"
    then have k': "k' \<noteq> k" "holder g k' = Some w" using h by (auto simp: free_holder split: if_splits)
    then obtain t' where "held t' = Some (k', w)" using IH by blast
    moreover have "t' \<noteq> t" using calculation leave.hyps(2) k'(1) by auto
    ultimately show "\<exists>t'. (held(t := None)) t' = Some (k', w)" by (intro exI [of _ t']) simp
  qed
next
  case (stale g held k v)
  note IH = stale.IH [OF stale.prems]
  have "holder g k \<noteq> Some v" using IH stale.hyps(2) by blast
  then have "holder (free k v g) = holder g" by (simp add: free_holder)
  with IH show ?case by simp
qed

lemma exclusive:
  assumes "reach g0 g held" "holder g0 = Map.empty" "held t = Some (k, v)" "held t' = Some (k, v')"
  shows "t = t'"
  using reach_holder [OF assms(1,2)] assms(3,4) by blast

lemma quiescent:
  assumes "reach g0 g held" "holder g0 = Map.empty" "\<forall>t. held t = None"
  shows "holder g = Map.empty"
  using reach_holder [OF assms(1,2)] assms(3) by (auto simp: fun_eq_iff)

end

interpretation pg: gate reserve release owners
  by unfold_locales (auto simp: reserve_def release_def)

section \<open>Properties\<close>



text \<open>
  The context manager never leaks the reservation: whether the body returns or raises, the
  owners after \<open>hold\<close> are the owners before it; a busy root runs nothing and is reported as a
  retryable \<open>project_busy\<close>.
\<close>

theorem hold_releases:
  "hold k v g body s = (g', s', r) \<Longrightarrow>
     owners g' = owners g \<and>
     (case owners g k of
        Some _ \<Rightarrow> s' = s \<and> r = Inl project_busy
      | None \<Rightarrow> (s', r) = body s)"
  by (auto simp: hold_def reserve_def release_def split: option.splits prod.splits)

theorem hold_releases_witness:
  "hold (lit ''root'') (lit ''o'') new_gate (\<lambda>n :: nat. (n + 1, Inl OSError :: unit res)) 3
     = (new_gate, 4, Inl OSError) \<and> owners new_gate = owners new_gate"
proof -
  have h: "hold (lit ''root'') (lit ''o'') new_gate (\<lambda>n :: nat. (n + 1, Inl OSError :: unit res)) 3
     = (new_gate, 4, Inl OSError)"
    by (simp add: hold_def reserve_def release_def new_gate_def)
  show ?thesis using h hold_releases [OF h] by simp
qed

end
