(* ===== verification/Disk.thy ===== *)
theory Disk
  imports Paths
begin

text \<open>
  A file system as the agent sees it through the standard library: regular files with their
  bytes, identity and attributes, directories, and the primitive mutations \<open>os.replace\<close> and
  \<open>Path.unlink\<close>, each of which happens entirely or not at all.  Names are compared exactly; a
  file that comes into being by a replacement is a new object with one link.  The environment's
  faults are a plan: at every named point an exception may be raised, and every attempt to
  replace a file may meet a sharing violation.
\<close>

record file_entry =
  f_bytes :: bytes
  f_identity :: file_identity
  f_attrs :: nat

record dir_entry =
  d_identity :: file_identity
  d_attrs :: nat

record filesystem =
  fs_files :: "abspath \<rightharpoonup> file_entry"
  fs_dirs :: "abspath \<rightharpoonup> dir_entry"
  fs_volume :: nat
  fs_next :: nat

definition view :: "filesystem \<Rightarrow> os_view" where
  "view D =
     \<lparr>os_exists = (\<lambda>p. fs_files D p \<noteq> None \<or> fs_dirs D p \<noteq> None),
      os_attributes = (\<lambda>p. case fs_files D p of Some f \<Rightarrow> Some (f_attrs f)
                          | None \<Rightarrow> map_option d_attrs (fs_dirs D p)),
      os_identity = (\<lambda>p. case fs_files D p of Some f \<Rightarrow> Some (f_identity f)
                        | None \<Rightarrow> map_option d_identity (fs_dirs D p)),
      os_is_dir = (\<lambda>p. fs_dirs D p \<noteq> None),
      os_is_file = (\<lambda>p. fs_files D p \<noteq> None),
      os_drive_type = (\<lambda>_. 3), os_filesystem = (\<lambda>_. Some (lit ''NTFS'')), os_resolve = Some\<rparr>"

definition content :: "filesystem \<Rightarrow> abspath \<Rightarrow> bytes option" where
  "content D p = map_option f_bytes (fs_files D p)"

definition unlink :: "abspath \<Rightarrow> filesystem \<Rightarrow> filesystem res" where
  "unlink p D =
     (if fs_files D p = None then Inl OSError else Inr (D\<lparr>fs_files := (fs_files D)(p := None)\<rparr>))"

definition os_replace :: "abspath \<Rightarrow> bytes \<Rightarrow> filesystem \<Rightarrow> filesystem res" where
  "os_replace p raw D =
     (if fs_dirs D (butlast p) = None \<or> fs_dirs D p \<noteq> None then Inl OSError
      else Inr (D\<lparr>fs_files := (fs_files D)(p \<mapsto>
               \<lparr>f_bytes = raw,
                f_identity = \<lparr>volume_serial = fs_volume D, file_id = fs_next D, link_count = 1\<rparr>,
                f_attrs = 0x20\<rparr>),
             fs_next := Suc (fs_next D)\<rparr>))"

section \<open>Faults\<close>

type_synonym point = "string \<times> pystr"

text \<open>The answer of the operating system to one attempt to replace a file.\<close>

datatype replace_try = Replaced | Sharing_violation | Other_error

record plan =
  fails :: "point \<Rightarrow> exn option"
  tries :: "point \<Rightarrow> nat \<Rightarrow> replace_try"

definition at_point :: "plan \<Rightarrow> string \<Rightarrow> pystr \<Rightarrow> unit res" where
  "at_point pl w p = (case fails pl (w, p) of None \<Rightarrow> Inr () | Some e \<Rightarrow> Inl e)"

definition no_faults :: plan where
  "no_faults = \<lparr>fails = (\<lambda>_. None), tries = (\<lambda>_ _. Replaced)\<rparr>"

text \<open>The retry loop of \<open>_atomic_replace\<close>: four delays, so at most five attempts.\<close>

definition MAX_RETRIES :: nat where
  "MAX_RETRIES = 4"

function replace_loop :: "(nat \<Rightarrow> replace_try) \<Rightarrow> nat \<Rightarrow> abspath \<Rightarrow> bytes \<Rightarrow> filesystem \<Rightarrow> filesystem res" where
  "replace_loop outcome attempt p raw D =
     (case outcome attempt of
        Replaced \<Rightarrow> os_replace p raw D
      | Sharing_violation \<Rightarrow>
          if MAX_RETRIES \<le> attempt then Inl OSError else replace_loop outcome (Suc attempt) p raw D
      | Other_error \<Rightarrow> Inl OSError)"
  by pat_completeness auto
termination
  by (relation "measure (\<lambda>(outcome, attempt, p, raw, D). Suc MAX_RETRIES - attempt)") auto

declare replace_loop.simps [simp del]

definition atomic_replace ::
  "plan \<Rightarrow> string \<Rightarrow> pystr \<Rightarrow> abspath \<Rightarrow> bytes \<Rightarrow> filesystem \<Rightarrow> filesystem res" where
  "atomic_replace pl w rel p raw D =
     bindE (at_point pl w rel) (\<lambda>_. replace_loop (tries pl (w, rel)) 0 p raw D)"

definition open_read :: "(bytes \<Rightarrow> pystr) \<Rightarrow> project \<Rightarrow> pystr \<Rightarrow> filesystem \<Rightarrow> bytes res" where
  "open_read sha pr rel D =
     bindE (resolve sha (view D) pr rel True (Some False) False False) (\<lambda>v.
       case fs_files D (absolute v) of
         None \<Rightarrow> Inl (raise ''read_failed'')
       | Some f \<Rightarrow>
           if Some (f_identity f) \<noteq> target_identity v then Inl (raise ''path_race'')
           else bindE (is_reparse (view D) (absolute v)) (\<lambda>r.
             if r then Inl (raise ''path_race'') else Inr (f_bytes f)))"

section \<open>Laws\<close>

lemma view_simps [simp]:
  "os_exists (view D) p \<longleftrightarrow> fs_files D p \<noteq> None \<or> fs_dirs D p \<noteq> None"
  "os_is_dir (view D) p \<longleftrightarrow> fs_dirs D p \<noteq> None"
  "os_is_file (view D) p \<longleftrightarrow> fs_files D p \<noteq> None"
  by (simp_all add: view_def)

lemma content_None: "content D p = None \<longleftrightarrow> fs_files D p = None"
  by (simp add: content_def)

lemma unlink_content:
  "unlink p D = Inr D' \<Longrightarrow> content D' = (content D)(p := None) \<and> fs_dirs D' = fs_dirs D \<and> fs_files D' p = None
     \<and> (\<forall>q. q \<noteq> p \<longrightarrow> fs_files D' q = fs_files D q)"
  by (auto simp: unlink_def content_def split: if_splits)

definition fresh_file :: "file_entry \<Rightarrow> bool" where
  "fresh_file f \<longleftrightarrow> link_count (f_identity f) = 1 \<and> f_attrs f = 0x20"

lemma os_replace_content:
  "os_replace p raw D = Inr D' \<Longrightarrow> content D' = (content D)(p \<mapsto> raw) \<and> fs_dirs D' = fs_dirs D
     \<and> (\<forall>q. q \<noteq> p \<longrightarrow> fs_files D' q = fs_files D q)
     \<and> (\<exists>f. fs_files D' p = Some f \<and> fresh_file f)"
  by (auto simp: os_replace_def content_def fresh_file_def split: if_splits)

lemma replace_loop_result:
  "replace_loop outcome n p raw D = os_replace p raw D \<or> replace_loop outcome n p raw D = Inl OSError"
proof (induction outcome n p raw D rule: replace_loop.induct)
  case (1 outcome attempt p raw D)
  then show ?case by (subst (1 2) replace_loop.simps) (auto split: replace_try.splits)
qed

lemma replace_loop_retries:
  assumes "\<forall>i\<in>{n..<k}. outcome i = Sharing_violation" "outcome k = Replaced" "n \<le> k" "k \<le> MAX_RETRIES"
  shows "replace_loop outcome n p raw D = os_replace p raw D"
  using assms
proof (induction outcome n p raw D rule: replace_loop.induct)
  case (1 outcome attempt p raw D)
  show ?case
  proof (cases "attempt = k")
    case True
    then show ?thesis using "1.prems" by (subst replace_loop.simps) simp
  next
    case False
    then have "outcome attempt = Sharing_violation" "attempt < MAX_RETRIES" using "1.prems" by auto
    moreover have "replace_loop outcome (Suc attempt) p raw D = os_replace p raw D"
      using "1.IH" calculation "1.prems" False by (intro "1.IH") auto
    ultimately show ?thesis by (subst replace_loop.simps) simp
  qed
qed

lemma atomic_replace_content:
  "atomic_replace pl w rel p raw D = Inr D' \<Longrightarrow> os_replace p raw D = Inr D'"
  using replace_loop_result [of "tries pl (w, rel)" 0 p raw D] by (auto simp: atomic_replace_def res_simps)

end
