(* ===== verification/Patch_Service.thy ===== *)
theory Patch_Service
  imports Patch_Text Agent_Db Operation_Gate Disk
begin

text \<open>
  The transactional side of the patch engine (\<open>PatchService\<close> in
  \<open>agent/src/codito_agent/patching.py\<close>): preflight of a parsed patch against the project's
  files, the journalled commit with its rollback, recovery of interrupted transactions, and the
  public operation \<open>apply\<close> with its idempotency record and the operation gate.  The hash is the
  parameter \<open>sha\<close>, the canonical JSON text the parameter \<open>dumps\<close>, and the faults of the
  environment (the caller's \<open>check\<close>, reading, writing, replacing) are a plan.
\<close>

section \<open>Data\<close>

record change =
  c_action :: patch_action
  c_source :: pystr
  c_destination :: "pystr option"
  c_old :: "pystr option"
  c_new :: "pystr option"

record preflight =
  pf_desired :: "(pystr \<times> bytes option) list"
  pf_validated :: "(pystr \<times> validated_path) list"
  pf_changes :: "change list"

definition empty_preflight :: preflight where
  "empty_preflight = \<lparr>pf_desired = [], pf_validated = [], pf_changes = []\<rparr>"

record journal_record =
  jr_path :: pystr
  jr_existed :: bool
  jr_backup :: "pystr option"
  jr_original :: "pystr option"
  jr_desired :: "pystr option option"

datatype tx_state = Prepared | Committing | Committed | RolledBack

record manifest =
  m_project :: pystr
  m_root_fp :: pystr
  m_key :: pystr
  m_digest :: pystr
  m_result :: json
  m_binding :: binding
  m_state :: tx_state
  m_records :: "journal_record list"
  m_scope :: "abspath option"

record tx =
  tx_backups :: "(pystr \<times> bytes) list"
  tx_manifest :: "manifest option"

record world =
  w_disk :: filesystem
  w_journal :: "(pystr \<times> tx) list"
  w_db :: db
  w_gate :: operation_gate

text \<open>\<open>d[k] = v\<close> on a dictionary kept in insertion order.\<close>

fun dict_set :: "'k \<Rightarrow> 'v \<Rightarrow> ('k \<times> 'v) list \<Rightarrow> ('k \<times> 'v) list" where
  "dict_set k v [] = [(k, v)]"
| "dict_set k v ((k', v') # xs) = (if k' = k then (k, v) # xs else (k', v') # dict_set k v xs)"

definition MAX_PATCH_FILE_BYTES :: nat where
  "MAX_PATCH_FILE_BYTES = 8388608"

section \<open>Preflight\<close>

definition hex64 :: "pystr \<Rightarrow> bool" where
  "hex64 h \<longleftrightarrow> length h = 64
     \<and> list_all (\<lambda>c. 48 \<le> c \<and> c \<le> 57 \<or> 97 \<le> c \<and> c \<le> 102 \<or> 65 \<le> c \<and> c \<le> 70) h"

definition normalize_base_hashes ::
  "(pystr \<times> pystr option) list \<Rightarrow> (pystr \<times> pystr option) list res" where
  "normalize_base_hashes base =
     foldE (\<lambda>acc (p, v). bindE (validate_relative_path p False) (\<lambda>n.
         case v of
           None \<Rightarrow> Inr (dict_set n None acc)
         | Some h \<Rightarrow> if \<not> hex64 h then Inl (raise ''invalid_request'')
                     else Inr (dict_set n (Some (ascii_lower h)) acc))) [] base"

definition conflict_at :: "pystr \<Rightarrow> string \<Rightarrow> (string \<times> json) list \<Rightarrow> json" where
  "conflict_at p reason extra =
     JObj ([(lit ''path'', JStr p), (lit ''reason'', JStr (lit reason))] @ map (\<lambda>(k, v). (lit k, v)) extra)"

definition already_exists :: "pystr \<Rightarrow> exn" where
  "already_exists p = AgentError ''patch_conflict'' [(''conflicts'', JList [conflict_at p ''already_exists'' []])] False"

definition section_paths :: "patch_section \<Rightarrow> pystr list" where
  "section_paths s = path s # (case destination s of None \<Rightarrow> [] | Some d \<Rightarrow> [d])"

definition add_desired :: "pystr \<Rightarrow> bytes option \<Rightarrow> preflight \<Rightarrow> preflight" where
  "add_desired p raw pf = pf\<lparr>pf_desired := dict_set p raw (pf_desired pf)\<rparr>"

definition add_validated :: "pystr \<Rightarrow> validated_path \<Rightarrow> preflight \<Rightarrow> preflight" where
  "add_validated p v pf = pf\<lparr>pf_validated := dict_set p v (pf_validated pf)\<rparr>"

definition add_change :: "change \<Rightarrow> preflight \<Rightarrow> preflight" where
  "add_change c pf = pf\<lparr>pf_changes := pf_changes pf @ [c]\<rparr>"

definition preflight_add ::
  "(bytes \<Rightarrow> pystr) \<Rightarrow> filesystem \<Rightarrow> project \<Rightarrow> pystr option \<Rightarrow> patch_section \<Rightarrow> preflight \<Rightarrow> preflight res" where
  "preflight_add sha D pr expected_hash s pf =
     (if expected_hash \<noteq> None then Inl (raise ''invalid_request'')
      else bindE (resolve sha (view D) pr (path s) False (Some False) True False) (\<lambda>v.
        if target_identity v \<noteq> None then Inl (already_exists (path s))
        else
          let raw = textfile_encode \<lparr>tf_lines = add_lines s, tf_newline = linesep, tf_final = True, tf_bom = False\<rparr> in
          Inr (add_change \<lparr>c_action = AddFile, c_source = path s, c_destination = None, c_old = None,
                 c_new = Some (sha raw)\<rparr> (add_validated (path s) v (add_desired (path s) (Some raw) pf)))))"

definition preflight_move ::
  "(bytes \<Rightarrow> pystr) \<Rightarrow> filesystem \<Rightarrow> project \<Rightarrow> (pystr \<times> pystr option) list \<Rightarrow> patch_section \<Rightarrow> pystr
     \<Rightarrow> bytes \<Rightarrow> preflight \<Rightarrow> preflight res" where
  "preflight_move sha D pr base s old_hash updated pf =
     (case destination s of
        None \<Rightarrow> Inl ValueError
      | Some d \<Rightarrow>
          if map_of base d \<noteq> Some None then Inl (raise ''invalid_request'')
          else bindE (resolve sha (view D) pr d False (Some False) True False) (\<lambda>v.
            if target_identity v \<noteq> None then Inl (already_exists d)
            else Inr (add_change \<lparr>c_action = MoveFile, c_source = path s, c_destination = Some d,
                        c_old = Some old_hash, c_new = Some (sha updated)\<rparr>
                   (add_desired d (Some updated) (add_desired (path s) None (add_validated d v pf))))))"

definition preflight_existing ::
  "(bytes \<Rightarrow> pystr) \<Rightarrow> filesystem \<Rightarrow> project \<Rightarrow> (pystr \<times> pystr option) list \<Rightarrow> pystr option \<Rightarrow> patch_section
     \<Rightarrow> preflight \<Rightarrow> preflight res" where
  "preflight_existing sha D pr base expected_hash s pf =
     bindE (resolve sha (view D) pr (path s) True (Some False) True False) (\<lambda>v.
     bindE (open_read sha pr (path s) D) (\<lambda>old_raw.
       if MAX_PATCH_FILE_BYTES < length old_raw then Inl (raise ''file_too_large'')
       else
         let old_hash = sha old_raw in
         if expected_hash \<noteq> Some old_hash then
           Inl (AgentError ''patch_conflict''
             [(''resolution'', JStr (lit ''reread_and_rebase'')),
              (''conflicts'', JList [conflict_at (path s) ''base_hash_mismatch''
                 [(''actual_sha256'', JStr old_hash)]])] False)
         else
           let pf = add_validated (path s) v pf in
           if action s = DeleteFile then
             Inr (add_change \<lparr>c_action = DeleteFile, c_source = path s, c_destination = None,
                    c_old = Some old_hash, c_new = None\<rparr> (add_desired (path s) None pf))
           else
             bindE (textfile_decode old_raw) (\<lambda>doc.
             bindE (apply_hunks doc (hunks s) (path s)) (\<lambda>doc'.
               let updated = textfile_encode doc' in
               if action s = UpdateFile then
                 Inr (add_change \<lparr>c_action = UpdateFile, c_source = path s, c_destination = None,
                        c_old = Some old_hash, c_new = Some (sha updated)\<rparr>
                      (add_desired (path s) (Some updated) pf))
               else preflight_move sha D pr base s old_hash updated pf))))"

fun preflight_sections ::
  "(bytes \<Rightarrow> pystr) \<Rightarrow> plan \<Rightarrow> filesystem \<Rightarrow> project \<Rightarrow> (pystr \<times> pystr option) list \<Rightarrow> pystr list
     \<Rightarrow> patch_section list \<Rightarrow> preflight \<Rightarrow> preflight res" where
  "preflight_sections sha pl D pr base touched [] pf = Inr pf"
| "preflight_sections sha pl D pr base touched (s # ss) pf =
     bindE (at_point pl ''check_section'' (path s)) (\<lambda>_.
     let overlap = filter (\<lambda>p. p \<in> set touched) (remdups (section_paths s)) in
     if overlap \<noteq> [] then
       Inl (AgentError ''invalid_patch'' [(''paths'', JList (map JStr (sort overlap)))] False)
     else
       let expected_hash = (case map_of base (path s) of Some h \<Rightarrow> h | None \<Rightarrow> None) in
       bindE (if action s = AddFile then preflight_add sha D pr expected_hash s pf
              else preflight_existing sha D pr base expected_hash s pf)
         (preflight_sections sha pl D pr base (section_paths s @ touched) ss))"

definition run_preflight ::
  "(bytes \<Rightarrow> pystr) \<Rightarrow> plan \<Rightarrow> filesystem \<Rightarrow> project \<Rightarrow> patch_section list \<Rightarrow> (pystr \<times> pystr option) list
     \<Rightarrow> preflight res" where
  "run_preflight sha pl D pr ss base =
     (let required = remdups (concat (map section_paths ss)); given = map fst base in
      if set required \<noteq> set given then
        Inl (AgentError ''invalid_request''
          [(''missing'', JList (map JStr (sort (filter (\<lambda>p. p \<notin> set given) required)))),
           (''unexpected'', JList (map JStr (sort (filter (\<lambda>p. p \<notin> set required) given))))] False)
      else preflight_sections sha pl D pr base [] ss empty_preflight)"

section \<open>Commit\<close>

definition expected_hashes :: "change list \<Rightarrow> (pystr \<times> pystr option) list" where
  "expected_hashes cs =
     foldl (\<lambda>acc c. let acc = dict_set (c_source c) (c_old c) acc in
              case c_destination c of None \<Rightarrow> acc | Some d \<Rightarrow> dict_set d None acc) [] cs"

definition the_validated :: "preflight \<Rightarrow> pystr \<Rightarrow> validated_path" where
  "the_validated pf p = the (map_of (pf_validated pf) p)"

text \<open>The conflict one path of the batch shows right before the commit, if any.\<close>

definition precondition ::
  "(bytes \<Rightarrow> pystr) \<Rightarrow> filesystem \<Rightarrow> project \<Rightarrow> preflight \<Rightarrow> pystr \<Rightarrow> pystr option \<Rightarrow> json list res" where
  "precondition sha D pr pf p expected_hash =
     (let v = the_validated pf p in
      case revalidate_for_mutation sha (view D) pr v of
        Inl (AgentError _ _ _) \<Rightarrow> Inr [conflict_at p ''path_changed'' []]
      | Inl e \<Rightarrow> Inl e
      | Inr _ \<Rightarrow>
          (case expected_hash of
             None \<Rightarrow> Inr (if os_exists (view D) (absolute v) then [conflict_at p ''already_exists'' []] else [])
           | Some h \<Rightarrow>
               (case open_read sha pr p D of
                  Inl ValueError \<Rightarrow> Inl ValueError
                | Inl _ \<Rightarrow> Inr [conflict_at p ''path_changed'' []]
                | Inr raw \<Rightarrow>
                    Inr (if sha raw \<noteq> h
                         then [conflict_at p ''base_hash_mismatch'' [(''actual_sha256'', JStr (sha raw))]] else []))))"

definition verify_commit_preconditions ::
  "(bytes \<Rightarrow> pystr) \<Rightarrow> filesystem \<Rightarrow> project \<Rightarrow> preflight \<Rightarrow> unit res" where
  "verify_commit_preconditions sha D pr pf =
     bindE (foldE (\<lambda>acc p. bindE (precondition sha D pr pf p (the (map_of (expected_hashes (pf_changes pf)) p)))
                  (\<lambda>c. Inr (acc @ c))) [] (sort (map fst (expected_hashes (pf_changes pf)))))
       (\<lambda>conflicts.
         if conflicts = [] then Inr ()
         else Inl (AgentError ''patch_conflict''
           [(''resolution'', JStr (lit ''reread_and_rebase'')), (''conflicts'', JList conflicts)] False))"

text \<open>\<open>f"{index:04d}.bak"\<close>.\<close>

definition backup_name :: "nat \<Rightarrow> pystr" where
  "backup_name i = (let d = py_str_nat i in replicate (4 - length d) 48 @ d @ lit ''.bak'')"

definition old_hash_of :: "preflight \<Rightarrow> pystr \<Rightarrow> pystr option" where
  "old_hash_of pf p = Option.bind (find (\<lambda>c. c_source c = p) (pf_changes pf)) c_old"

definition backup_one ::
  "(bytes \<Rightarrow> pystr) \<Rightarrow> plan \<Rightarrow> filesystem \<Rightarrow> project \<Rightarrow> preflight \<Rightarrow> nat \<Rightarrow> pystr
     \<Rightarrow> ((pystr \<times> bytes) list \<times> journal_record) res" where
  "backup_one sha pl D pr pf index rel =
     (let v = the_validated pf rel; existed = target_identity v \<noteq> None;
          desired = the (map_of (pf_desired pf) rel) in
      bindE (at_point pl ''check_backup'' rel) (\<lambda>_.
      bindE (revalidate_for_mutation sha (view D) pr v) (\<lambda>_.
      bindE (if existed then
               bindE (open_read sha pr rel D) (\<lambda>raw.
                 if Some (sha raw) \<noteq> old_hash_of pf rel then Inl (raise ''patch_conflict'')
                 else bindE (at_point pl ''backup'' rel) (\<lambda>_. Inr [(backup_name index, raw)]))
             else Inr [])
        (\<lambda>baks. Inr (baks, \<lparr>jr_path = rel, jr_existed = existed,
            jr_backup = (if existed then Some (backup_name index) else None),
            jr_original = (if existed then old_hash_of pf rel else None),
            jr_desired = Some (map_option sha desired)\<rparr>)))))"

fun backup_files ::
  "(bytes \<Rightarrow> pystr) \<Rightarrow> plan \<Rightarrow> filesystem \<Rightarrow> project \<Rightarrow> preflight \<Rightarrow> nat \<Rightarrow> pystr list
     \<Rightarrow> ((pystr \<times> bytes) list \<times> journal_record list) res" where
  "backup_files sha pl D pr pf index [] = Inr ([], [])"
| "backup_files sha pl D pr pf index (p # ps) =
     bindE (backup_one sha pl D pr pf index p) (\<lambda>(b, r).
     bindE (backup_files sha pl D pr pf (Suc index) ps) (\<lambda>(bs, rs). Inr (b @ bs, r # rs)))"

text \<open>One mutation, and the loop over them: whether any was attempted, and the disk.\<close>

definition mutate_one ::
  "plan \<Rightarrow> string \<Rightarrow> validated_path \<Rightarrow> pystr \<Rightarrow> bytes option \<Rightarrow> filesystem \<Rightarrow> filesystem res" where
  "mutate_one pl w v rel desired D =
     (case desired of
        None \<Rightarrow> bindE (at_point pl w rel) (\<lambda>_. unlink (absolute v) D)
      | Some raw \<Rightarrow> atomic_replace pl w rel (absolute v) raw D)"

fun mutate ::
  "(bytes \<Rightarrow> pystr) \<Rightarrow> plan \<Rightarrow> project \<Rightarrow> preflight \<Rightarrow> (pystr \<times> bytes option) list \<Rightarrow> bool \<Rightarrow> filesystem
     \<Rightarrow> unit res \<times> bool \<times> filesystem" where
  "mutate sha pl pr pf [] m D = (Inr (), m, D)"
| "mutate sha pl pr pf ((rel, desired) # ps) m D =
     (case bindE (at_point pl ''check_mutate'' rel)
             (\<lambda>_. revalidate_for_mutation sha (view D) pr (the_validated pf rel)) of
        Inl e \<Rightarrow> (Inl e, m, D)
      | Inr _ \<Rightarrow>
          (case mutate_one pl ''mutate'' (the_validated pf rel) rel desired D of
             Inl e \<Rightarrow> (Inl e, True, D)
           | Inr D' \<Rightarrow> mutate sha pl pr pf ps True D'))"

section \<open>Rollback\<close>

text \<open>\<open>_desired_hashes\<close>: the hashes of a result, for journals written before records held them.\<close>

definition desired_hashes :: "json \<Rightarrow> (pystr \<times> json) list" where
  "desired_hashes result =
     (case jget ''files'' result of
        Some (JList files) \<Rightarrow>
          foldl (\<lambda>acc ch.
            let op = jget ''operation'' ch; new = (case jget ''new_sha256'' ch of Some h \<Rightarrow> h | None \<Rightarrow> JNull);
                gone = op \<in> {Some (JStr (lit ''delete'')), Some (JStr (lit ''move''))};
                acc = (case jget ''path'' ch of Some (JStr p) \<Rightarrow> dict_set p (if gone then JNull else new) acc
                       | _ \<Rightarrow> acc) in
            case jget ''destination'' ch of
              Some (JStr d) \<Rightarrow> if op = Some (JStr (lit ''move'')) then dict_set d new acc else acc
            | _ \<Rightarrow> acc) [] (filter (\<lambda>ch. is_obj (Some ch)) files)
      | _ \<Rightarrow> [])"

definition hash_json :: "pystr option \<Rightarrow> json" where
  "hash_json h = (case h of None \<Rightarrow> JNull | Some s \<Rightarrow> JStr s)"

definition record_desired :: "json \<Rightarrow> journal_record \<Rightarrow> json" where
  "record_desired result r =
     (case jr_desired r of
        Some h \<Rightarrow> hash_json h
      | None \<Rightarrow> (case map_of (desired_hashes result) (jr_path r) of Some j \<Rightarrow> j | None \<Rightarrow> JNull))"

definition path_hash :: "(bytes \<Rightarrow> pystr) \<Rightarrow> abspath \<Rightarrow> filesystem \<Rightarrow> pystr option" where
  "path_hash sha p D = map_option sha (content D p)"

definition restore_one ::
  "(bytes \<Rightarrow> pystr) \<Rightarrow> plan \<Rightarrow> project \<Rightarrow> tx \<Rightarrow> json \<Rightarrow> journal_record \<Rightarrow> filesystem \<Rightarrow> filesystem res" where
  "restore_one sha pl pr t result r D =
     (let rel = jr_path r in
      bindE (resolve sha (view D) pr rel False (Some False) True False) (\<lambda>v.
      bindE (at_point pl ''restore_read'' rel) (\<lambda>_.
      let current = path_hash sha (absolute v) D; desired = record_desired result r in
      if jr_existed r then
        case Option.bind (jr_backup r) (map_of (tx_backups t)) of
          None \<Rightarrow> Inl OSError
        | Some raw \<Rightarrow>
            let original = (case jr_original r of Some (c # cs) \<Rightarrow> c # cs | _ \<Rightarrow> sha raw) in
            if current = Some original then Inr D
            else if current \<noteq> None \<and> hash_json current \<noteq> desired then Inl OSError
            else atomic_replace pl ''restore'' rel (absolute v) raw D
      else
        case current of
          None \<Rightarrow> Inr D
        | Some _ \<Rightarrow>
            if hash_json current \<noteq> desired then Inl OSError
            else bindE (at_point pl ''restore'' rel) (\<lambda>_. unlink (absolute v) D))))"

fun restore_loop ::
  "(bytes \<Rightarrow> pystr) \<Rightarrow> plan \<Rightarrow> project \<Rightarrow> tx \<Rightarrow> json \<Rightarrow> journal_record list \<Rightarrow> filesystem
     \<Rightarrow> pystr list \<times> filesystem" where
  "restore_loop sha pl pr t result [] D = ([], D)"
| "restore_loop sha pl pr t result (r # rs) D =
     (case restore_one sha pl pr t result r D of
        Inl e \<Rightarrow> (let (errors, D') = restore_loop sha pl pr t result rs D in (jr_path r # errors, D'))
      | Inr D' \<Rightarrow> restore_loop sha pl pr t result rs D')"

definition recovery_failed :: "(string \<times> json) list \<Rightarrow> exn" where
  "recovery_failed details = AgentError ''recovery_failed'' details False"

definition write_manifest :: "plan \<Rightarrow> string \<Rightarrow> manifest \<Rightarrow> tx \<Rightarrow> tx res" where
  "write_manifest pl w m t = bindE (at_point pl w []) (\<lambda>_. Inr (t\<lparr>tx_manifest := Some m\<rparr>))"

definition restore ::
  "(bytes \<Rightarrow> pystr) \<Rightarrow> plan \<Rightarrow> project \<Rightarrow> journal_record list \<Rightarrow> json \<Rightarrow> tx \<times> filesystem
     \<Rightarrow> unit res \<times> tx \<times> filesystem" where
  "restore sha pl pr records result = (\<lambda>(t, D).
     let (errors, D') = restore_loop sha pl pr t result (rev records) D in
     if errors \<noteq> [] then (Inl (recovery_failed [(''paths'', JList (map JStr errors))]), t, D')
     else case tx_manifest t of
       None \<Rightarrow> (Inr (), t, D')
     | Some m \<Rightarrow>
         (case write_manifest pl ''manifest_rolled_back'' (m\<lparr>m_state := RolledBack\<rparr>) t of
            Inl e \<Rightarrow> (Inl e, t, D')
          | Inr t' \<Rightarrow> (Inr (), t', D')))"

text \<open>\<open>shutil.rmtree(..., ignore_errors=True)\<close>: the directory is gone, or it is left as it was.\<close>

definition rmtree :: "plan \<Rightarrow> pystr \<Rightarrow> (pystr \<times> tx) list \<Rightarrow> (pystr \<times> tx) list" where
  "rmtree pl jid j =
     (case fails pl (''rmtree'', jid) of None \<Rightarrow> filter (\<lambda>(i, t). i \<noteq> jid) j | Some _ \<Rightarrow> j)"

text \<open>
  The body of the commit's \<open>try\<close>: its outcome, whether a mutation was attempted, the records,
  the transaction directory and the disk.
\<close>

definition commit_body ::
  "(bytes \<Rightarrow> pystr) \<Rightarrow> plan \<Rightarrow> project \<Rightarrow> preflight \<Rightarrow> db \<Rightarrow> pystr \<Rightarrow> pystr \<Rightarrow> json \<Rightarrow> binding \<Rightarrow> filesystem
     \<Rightarrow> unit res \<times> bool \<times> journal_record list \<times> tx \<times> filesystem" where
  "commit_body sha pl pr pf d key dg result b D =
     (case backup_files sha pl D pr pf 0 (sort (map fst (pf_desired pf))) of
        Inl e \<Rightarrow> (Inl e, False, [], \<lparr>tx_backups = [], tx_manifest = None\<rparr>, D)
      | Inr (baks, records) \<Rightarrow>
          let t = \<lparr>tx_backups = baks, tx_manifest = None\<rparr> in
          (case get_project (project_id pr) d of
             Inl e \<Rightarrow> (Inl e, False, records, t, D)
           | Inr registered \<Rightarrow>
               let m = \<lparr>m_project = project_id pr, m_root_fp = root_fp pr, m_key = key, m_digest = dg,
                     m_result = result, m_binding = b, m_state = Prepared, m_records = records,
                     m_scope = (if root pr \<noteq> root registered then Some (root pr) else None)\<rparr> in
               (case write_manifest pl ''manifest_prepared'' m t of
                  Inl e \<Rightarrow> (Inl e, False, records, t, D)
                | Inr t1 \<Rightarrow>
                    (case write_manifest pl ''manifest_committing'' (m\<lparr>m_state := Committing\<rparr>) t1 of
                       Inl e \<Rightarrow> (Inl e, False, records, t1, D)
                     | Inr t2 \<Rightarrow>
                         (case mutate sha pl pr pf (pf_desired pf) False D of
                            (Inl e, mutated, D') \<Rightarrow> (Inl e, mutated, records, t2, D')
                          | (Inr _, mutated, D') \<Rightarrow>
                              (case bindE (at_point pl ''check_commit'' [])
                                      (\<lambda>_. write_manifest pl ''manifest_committed'' (m\<lparr>m_state := Committed\<rparr>) t2) of
                                 Inl e \<Rightarrow> (Inl e, mutated, records, t2, D')
                               | Inr t3 \<Rightarrow> (Inr (), mutated, records, t3, D')))))))"

definition journal_put :: "pystr \<Rightarrow> tx \<Rightarrow> (pystr \<times> tx) list \<Rightarrow> (pystr \<times> tx) list" where
  "journal_put jid t j = dict_set jid t j"

text \<open>The \<open>except\<close> and \<open>finally\<close> clauses of \<open>_commit\<close>.\<close>

definition commit_cleanup ::
  "(bytes \<Rightarrow> pystr) \<Rightarrow> plan \<Rightarrow> project \<Rightarrow> pystr \<Rightarrow> json
     \<Rightarrow> unit res \<times> bool \<times> journal_record list \<times> tx \<times> filesystem \<Rightarrow> world \<Rightarrow> unit res \<times> world" where
  "commit_cleanup sha pl pr jid result outcome W =
     (case outcome of
        (Inr _, mutated, records, t, D) \<Rightarrow>
          (Inr (), W\<lparr>w_disk := D, w_journal := journal_put jid t (w_journal W)\<rparr>)
      | (Inl e, mutated, records, t, D) \<Rightarrow>
          if \<not> mutated then
            (Inl e, W\<lparr>w_disk := D, w_journal := rmtree pl jid (journal_put jid t (w_journal W))\<rparr>)
          else
            (case restore sha pl pr records result (t, D) of
               (res, t', D') \<Rightarrow>
                 let j = journal_put jid t' (w_journal W);
                     j = (if map_option m_state (tx_manifest t') = Some RolledBack then rmtree pl jid j else j) in
                 (case res of Inl e' \<Rightarrow> Inl e' | Inr _ \<Rightarrow> Inl e, W\<lparr>w_disk := D', w_journal := j\<rparr>)))"

definition commit ::
  "(bytes \<Rightarrow> pystr) \<Rightarrow> plan \<Rightarrow> project \<Rightarrow> preflight \<Rightarrow> pystr \<Rightarrow> pystr \<Rightarrow> pystr \<Rightarrow> json \<Rightarrow> binding \<Rightarrow> world
     \<Rightarrow> unit res \<times> world" where
  "commit sha pl pr pf jid key dg result b W =
     (case bindE (at_point pl ''check_start'' []) (\<lambda>_.
           bindE (verify_commit_preconditions sha (w_disk W) pr pf) (\<lambda>_.
           bindE (at_point pl ''check_verified'' []) (\<lambda>_. at_point pl ''mkdir'' jid))) of
        Inl e \<Rightarrow> (Inl e, W)
      | Inr _ \<Rightarrow>
          commit_cleanup sha pl pr jid result
            (commit_body sha pl pr pf (w_db W) key dg result b (w_disk W)) W)"

section \<open>Recovery\<close>

definition PATCH :: pystr where
  "PATCH = lit ''project_apply_patch''"

text \<open>
  \<open>resolve_file_target\<close>: the project itself, or an explicitly named external directory, which the
  parameter \<open>ext\<close> opens.
\<close>

definition file_target ::
  "(bytes \<Rightarrow> pystr) \<Rightarrow> (project \<Rightarrow> abspath \<Rightarrow> project res) \<Rightarrow> filesystem \<Rightarrow> project \<Rightarrow> abspath option
     \<Rightarrow> project res" where
  "file_target sha ext D pr scope =
     (if \<not> enabled pr then Inl (raise ''project_disabled'')
      else bindE (verify_project sha (view D) pr) (\<lambda>_.
        case scope of None \<Rightarrow> Inr pr | Some r \<Rightarrow> ext pr r))"

definition forget_tx :: "plan \<Rightarrow> pystr \<Rightarrow> manifest \<Rightarrow> world \<Rightarrow> world" where
  "forget_tx pl jid m W =
     W\<lparr>w_db := snd (delete_idempotency (m_project m) PATCH (m_key m) (w_db W)),
       w_journal := rmtree pl jid (w_journal W)\<rparr>"

definition recover_transaction ::
  "(bytes \<Rightarrow> pystr) \<Rightarrow> (project \<Rightarrow> abspath \<Rightarrow> project res) \<Rightarrow> plan \<Rightarrow> nat \<Rightarrow> pystr \<Rightarrow> tx \<Rightarrow> manifest \<Rightarrow> world
     \<Rightarrow> unit res \<times> world" where
  "recover_transaction sha ext pl now jid t m W =
     (if m_state m = Committed then
        (case put_idempotency now (m_project m) PATCH (m_key m) (m_digest m) SUCCEEDED (Some (m_result m))
               (m_binding m) (w_db W) of
           (Inl e, d) \<Rightarrow> (Inl e, W\<lparr>w_db := d\<rparr>)
         | (Inr _, d) \<Rightarrow> (Inr (), W\<lparr>w_db := d, w_journal := rmtree pl jid (w_journal W)\<rparr>))
      else if m_state m = RolledBack then (Inr (), forget_tx pl jid m W)
      else
        case bindE (get_project (m_project m) (w_db W)) (\<lambda>pr. file_target sha ext (w_disk W) pr (m_scope m)) of
          Inl e \<Rightarrow> (Inl e, W)
        | Inr target \<Rightarrow>
            if root_fp target \<noteq> m_root_fp m then (Inl (recovery_failed []), W)
            else
              (case restore sha pl target (m_records m) (m_result m) (t, w_disk W) of
                 (Inl e, t', D) \<Rightarrow> (Inl e, W\<lparr>w_disk := D, w_journal := journal_put jid t' (w_journal W)\<rparr>)
               | (Inr _, t', D) \<Rightarrow>
                   (Inr (), forget_tx pl jid m (W\<lparr>w_disk := D, w_journal := journal_put jid t' (w_journal W)\<rparr>))))"

text \<open>The daemon's start-up recovery: the journal directories in the order the system lists them.\<close>

fun recover_list ::
  "(bytes \<Rightarrow> pystr) \<Rightarrow> (project \<Rightarrow> abspath \<Rightarrow> project res) \<Rightarrow> plan \<Rightarrow> nat \<Rightarrow> (pystr \<times> tx) list \<Rightarrow> pystr list \<Rightarrow> world
     \<Rightarrow> pystr list res \<times> world" where
  "recover_list sha ext pl now [] acc W = (Inr acc, W)"
| "recover_list sha ext pl now ((jid, t) # js) acc W =
     (case tx_manifest t of
        None \<Rightarrow> recover_list sha ext pl now js acc W
      | Some m \<Rightarrow>
          (case recover_transaction sha ext pl now jid t m W of
             (Inl e, W') \<Rightarrow> (Inl (recovery_failed [(''journal_id'', JStr jid)]), W')
           | (Inr _, W') \<Rightarrow> recover_list sha ext pl now js (acc @ [jid]) W'))"

definition recover ::
  "(bytes \<Rightarrow> pystr) \<Rightarrow> (project \<Rightarrow> abspath \<Rightarrow> project res) \<Rightarrow> plan \<Rightarrow> nat \<Rightarrow> world \<Rightarrow> pystr list res \<times> world" where
  "recover sha ext pl now W = recover_list sha ext pl now (w_journal W) [] W"

section \<open>The idempotent operation\<close>

definition matching :: "pystr \<Rightarrow> pystr \<Rightarrow> (pystr \<times> tx) list \<Rightarrow> (pystr \<times> tx \<times> manifest) list" where
  "matching pid key j =
     concat (map (\<lambda>(jid, t). case tx_manifest t of
         Some m \<Rightarrow> if m_project m = pid \<and> m_key m = key then [(jid, t, m)] else [] | None \<Rightarrow> []) j)"

fun reconcile_list ::
  "(bytes \<Rightarrow> pystr) \<Rightarrow> (project \<Rightarrow> abspath \<Rightarrow> project res) \<Rightarrow> plan \<Rightarrow> nat \<Rightarrow> pystr \<Rightarrow> binding
     \<Rightarrow> (pystr \<times> tx \<times> manifest) list \<Rightarrow> world \<Rightarrow> unit res \<times> world" where
  "reconcile_list sha ext pl now dg b [] W = (Inr (), W)"
| "reconcile_list sha ext pl now dg b ((jid, t, m) # js) W =
     (if m_digest m \<noteq> dg \<or> m_binding m \<noteq> b then (Inl (recovery_failed [(''journal_id'', JStr jid)]), W)
      else
        case recover_transaction sha ext pl now jid t m W of
          (Inl e, W') \<Rightarrow> (Inl e, W')
        | (Inr _, W') \<Rightarrow> reconcile_list sha ext pl now dg b js W')"

definition patch_owner :: "pystr \<Rightarrow> pystr" where
  "patch_owner key = lit ''patch:'' @ key"

definition reconcile_body ::
  "(bytes \<Rightarrow> pystr) \<Rightarrow> (project \<Rightarrow> abspath \<Rightarrow> project res) \<Rightarrow> plan \<Rightarrow> nat \<Rightarrow> pystr \<Rightarrow> pystr \<Rightarrow> pystr \<Rightarrow> binding
     \<Rightarrow> world \<Rightarrow> unit res \<times> world" where
  "reconcile_body sha ext pl now pid key dg b W =
     (let js = matching pid key (w_journal W) in
      case reconcile_list sha ext pl now dg b js W of
        (Inl e, W') \<Rightarrow> (Inl e, W')
      | (Inr _, W') \<Rightarrow>
          (case get_idempotency pid PATCH key b (w_db W') of
             Inl e \<Rightarrow> (Inl e, W')
           | Inr (Some (_, st, _)) \<Rightarrow>
               if st = SUCCEEDED then (Inr (), W')
               else if js \<noteq> [] then (Inl (recovery_failed []), W')
               else (Inr (), W'\<lparr>w_db := snd (delete_idempotency pid PATCH key (w_db W'))\<rparr>)
           | Inr None \<Rightarrow> (Inr (), W')))"

definition with_gate ::
  "pystr \<Rightarrow> pystr \<Rightarrow> (world \<Rightarrow> 'a res \<times> world) \<Rightarrow> world \<Rightarrow> 'a res \<times> world" where
  "with_gate resource owner body W =
     (case reserve resource owner (w_gate W) of
        Inl e \<Rightarrow> (Inl e, W)
      | Inr g \<Rightarrow>
          (case body (W\<lparr>w_gate := g\<rparr>) of
             (r, W') \<Rightarrow> (r, W'\<lparr>w_gate := release resource owner (w_gate W')\<rparr>)))"

definition reconcile_incomplete ::
  "(bytes \<Rightarrow> pystr) \<Rightarrow> (project \<Rightarrow> abspath \<Rightarrow> project res) \<Rightarrow> plan \<Rightarrow> nat \<Rightarrow> pystr \<Rightarrow> pystr \<Rightarrow> pystr \<Rightarrow> binding
     \<Rightarrow> world \<Rightarrow> unit res \<times> world" where
  "reconcile_incomplete sha ext pl now pid key dg b W =
     (case get_project pid (w_db W) of
        Inl e \<Rightarrow> (Inl e, W)
      | Inr pr \<Rightarrow>
          let resource = (case matching pid key (w_journal W) of (_, _, m) # _ \<Rightarrow> m_root_fp m | [] \<Rightarrow> root_fp pr) in
          with_gate resource (patch_owner key) (reconcile_body sha ext pl now pid key dg b) W)"

definition action_name :: "patch_action \<Rightarrow> pystr" where
  "action_name a = (case a of AddFile \<Rightarrow> lit ''add'' | UpdateFile \<Rightarrow> lit ''update''
     | DeleteFile \<Rightarrow> lit ''delete'' | MoveFile \<Rightarrow> lit ''move'')"

definition change_json :: "change \<Rightarrow> json" where
  "change_json c = JObj [(lit ''operation'', JStr (action_name (c_action c))), (lit ''path'', JStr (c_source c)),
     (lit ''destination'', hash_json (c_destination c)), (lit ''old_sha256'', hash_json (c_old c)),
     (lit ''new_sha256'', hash_json (c_new c))]"

definition patch_result :: "pystr \<Rightarrow> pystr \<Rightarrow> bool \<Rightarrow> change list \<Rightarrow> pystr option \<Rightarrow> json" where
  "patch_result pid key dry_run cs jid =
     JObj ([(lit ''project_id'', JStr pid), (lit ''idempotency_key'', JStr key), (lit ''dry_run'', JBool dry_run),
        (lit ''applied'', JBool (\<not> dry_run)), (lit ''files'', JList (map change_json cs)),
        (lit ''conflicts'', JList [])]
       @ (case jid of None \<Rightarrow> [] | Some j \<Rightarrow> [(lit ''journal_id'', JStr j)]))"

record patch_request =
  pq_project :: pystr
  pq_patch :: pystr
  pq_base :: "(pystr \<times> pystr option) list"
  pq_key :: pystr
  pq_dry :: bool
  pq_binding :: binding
  pq_scope :: "abspath option"
  pq_scope_text :: "pystr option"

definition request_digest ::
  "(bytes \<Rightarrow> pystr) \<Rightarrow> (json \<Rightarrow> bytes) \<Rightarrow> patch_request \<Rightarrow> (pystr \<times> pystr option) list \<Rightarrow> pystr" where
  "request_digest sha dumps q base =
     sha (dumps (JObj ([(lit ''patch'', JStr (pq_patch q)),
        (lit ''base_hashes'', JObj (map (\<lambda>(p, h). (p, hash_json h)) base)), (lit ''dry_run'', JBool (pq_dry q))]
       @ (case pq_scope_text q of None \<Rightarrow> [] | Some s \<Rightarrow> [(lit ''scope_path'', JStr s)]))))"

text \<open>The part of \<open>apply\<close> that runs under the gate and the project's lock.\<close>

definition apply_locked ::
  "(bytes \<Rightarrow> pystr) \<Rightarrow> plan \<Rightarrow> nat \<Rightarrow> pystr \<Rightarrow> patch_request \<Rightarrow> pystr \<Rightarrow> (pystr \<times> pystr option) list
     \<Rightarrow> patch_section list \<Rightarrow> project \<Rightarrow> world \<Rightarrow> json res \<times> world" where
  "apply_locked sha pl now jid q dg base ss pr W =
     (case bindE (at_point pl ''check_gate'' []) (\<lambda>_.
           bindE (run_preflight sha pl (w_disk W) pr ss base) (\<lambda>pf.
           bindE (at_point pl ''check_preflight'' []) (\<lambda>_. Inr pf))) of
        Inl e \<Rightarrow> (Inl e, W)
      | Inr pf \<Rightarrow>
          if pq_dry q then (Inr (patch_result (pq_project q) (pq_key q) True (pf_changes pf) None), W)
          else
            let result = patch_result (pq_project q) (pq_key q) False (pf_changes pf) (Some jid) in
            (case put_idempotency now (pq_project q) PATCH (pq_key q) dg RUNNING None (pq_binding q) (w_db W) of
               (Inl e, d) \<Rightarrow> (Inl e, W\<lparr>w_db := d\<rparr>)
             | (Inr _, d) \<Rightarrow>
                 (case commit sha pl pr pf jid (pq_key q) dg result (pq_binding q) (W\<lparr>w_db := d\<rparr>) of
                    (Inl e, W') \<Rightarrow>
                      (Inl e, if (case e of AgentError c _ _ \<Rightarrow> c = ''recovery_failed'' | _ \<Rightarrow> False) then W'
                              else W'\<lparr>w_db := snd (delete_idempotency (pq_project q) PATCH (pq_key q) (w_db W'))\<rparr>)
                  | (Inr _, W') \<Rightarrow>
                      (case put_idempotency now (pq_project q) PATCH (pq_key q) dg SUCCEEDED (Some result)
                             (pq_binding q) (w_db W') of
                         (Inl e, d') \<Rightarrow> (Inl e, W'\<lparr>w_db := d'\<rparr>)
                       | (Inr _, d') \<Rightarrow>
                           (Inr result, W'\<lparr>w_db := d', w_journal := rmtree pl jid (w_journal W')\<rparr>)))))"

text \<open>A prior attempt with the same key: its stored result, or nothing once it is reconciled.\<close>

definition prior_result ::
  "(bytes \<Rightarrow> pystr) \<Rightarrow> (project \<Rightarrow> abspath \<Rightarrow> project res) \<Rightarrow> plan \<Rightarrow> nat \<Rightarrow> bool \<Rightarrow> patch_request \<Rightarrow> pystr \<Rightarrow> world
     \<Rightarrow> json option res \<times> world" where
  "prior_result sha ext pl now reconcile q dg W =
     (case get_idempotency (pq_project q) PATCH (pq_key q) (pq_binding q) (w_db W) of
        Inl e \<Rightarrow> (Inl e, W)
      | Inr None \<Rightarrow> (Inr None, W)
      | Inr (Some (dg', st, res)) \<Rightarrow>
          if dg' \<noteq> dg then (Inl idempotency_conflict, W)
          else if st = SUCCEEDED \<and> res \<noteq> None then (Inr res, W)
          else if \<not> reconcile then (Inl (raise ''outcome_unknown''), W)
          else
            case reconcile_incomplete sha ext pl now (pq_project q) (pq_key q) dg (pq_binding q) W of
              (Inl e, W') \<Rightarrow> (Inl e, W')
            | (Inr _, W') \<Rightarrow>
                (case get_idempotency (pq_project q) PATCH (pq_key q) (pq_binding q) (w_db W') of
                   Inl e \<Rightarrow> (Inl e, W')
                 | Inr None \<Rightarrow> (Inr None, W')
                 | Inr (Some (_, st, res)) \<Rightarrow>
                     if st = SUCCEEDED \<and> res \<noteq> None then (Inr res, W')
                     else (Inl (raise ''outcome_unknown''), W')))"

definition usable_project :: "pystr \<Rightarrow> db \<Rightarrow> project res" where
  "usable_project pid d =
     bindE (get_project pid d) (\<lambda>pr. if enabled pr then Inr pr else Inl (raise ''project_disabled''))"

definition reconcile_duplicate ::
  "(bytes \<Rightarrow> pystr) \<Rightarrow> (json \<Rightarrow> bytes) \<Rightarrow> (project \<Rightarrow> abspath \<Rightarrow> project res) \<Rightarrow> plan \<Rightarrow> nat \<Rightarrow> patch_request \<Rightarrow> world
     \<Rightarrow> json option res \<times> world" where
  "reconcile_duplicate sha dumps ext pl now q W =
     (case normalize_base_hashes (pq_base q) of
        Inl e \<Rightarrow> (Inl e, W)
      | Inr base \<Rightarrow>
          (case usable_project (pq_project q) (w_db W) of
             Inl e \<Rightarrow> (Inl e, W)
           | Inr _ \<Rightarrow> prior_result sha ext pl now True q (request_digest sha dumps q base) W))"

definition apply_patch ::
  "(bytes \<Rightarrow> pystr) \<Rightarrow> (json \<Rightarrow> bytes) \<Rightarrow> (project \<Rightarrow> abspath \<Rightarrow> project res) \<Rightarrow> plan \<Rightarrow> nat \<Rightarrow> pystr \<Rightarrow> bool
     \<Rightarrow> project option \<Rightarrow> patch_request \<Rightarrow> world \<Rightarrow> json res \<times> world" where
  "apply_patch sha dumps ext pl now jid reconcile target q W =
     (case bindE (at_point pl ''check_enter'' []) (\<lambda>_.
           if \<not> (8 \<le> length (pq_key q) \<and> length (pq_key q) \<le> 200) then Inl (raise ''invalid_request'')
           else bindE (normalize_base_hashes (pq_base q)) (\<lambda>base.
             bindE (usable_project (pq_project q) (w_db W)) (\<lambda>registered.
               case pq_scope q of
                 None \<Rightarrow> Inr (base, registered)
               | Some r \<Rightarrow> (case target of
                     None \<Rightarrow> Inl (raise ''invalid_request'')
                   | Some tp \<Rightarrow> if root tp \<noteq> r then Inl (raise ''invalid_request'') else Inr (base, tp))))) of
        Inl e \<Rightarrow> (Inl e, W)
      | Inr (base, pr) \<Rightarrow>
          let dg = request_digest sha dumps q base in
          (case prior_result sha ext pl now reconcile q dg W of
             (Inl e, W1) \<Rightarrow> (Inl e, W1)
           | (Inr (Some res), W1) \<Rightarrow> (Inr res, W1)
           | (Inr None, W1) \<Rightarrow>
               (case parse_patch (pq_patch q) of
                  Inl e \<Rightarrow> (Inl e, W1)
                | Inr ss \<Rightarrow>
                    with_gate (root_fp pr) (patch_owner (pq_key q))
                      (apply_locked sha pl now jid q dg base ss pr) W1)))"

end
