(* ===== verification/Patch_Grammar.thy ===== *)
theory Patch_Grammar
  imports Patch_Text
begin

text \<open>
  The patch grammar against a reference printer: the parser accepts every printed list of
  well-formed sections and returns it, and everything it accepts is well formed.  The second
  part is the round trip of a text file through \<open>_TextFile.decode\<close> and \<open>_TextFile.encode\<close>.
\<close>

section \<open>The printer\<close>

definition prefix_char :: "hunk_prefix \<Rightarrow> nat" where
  "prefix_char p = (case p of Keep \<Rightarrow> 32 | Plus \<Rightarrow> 43 | Minus \<Rightarrow> 45)"

definition print_hunk :: "hunk \<Rightarrow> pystr list" where
  "print_hunk h = hunk_mark # map (\<lambda>(p, t). prefix_char p # t) (hunk_lines h)"

definition print_content :: "patch_section \<Rightarrow> pystr list" where
  "print_content s =
     (if action s = AddFile then map (\<lambda>l. 43 # l) (add_lines s) else concat (map print_hunk (hunks s)))"

definition print_move :: "patch_section \<Rightarrow> pystr list" where
  "print_move s = (case destination s of None \<Rightarrow> [] | Some d \<Rightarrow> [MOVE_TO @ d])"

definition print_section :: "patch_section \<Rightarrow> pystr list" where
  "print_section s = (header_of (action s) @ path s) # print_move s @ print_content s"

definition print_patch :: "patch_section list \<Rightarrow> pystr" where
  "print_patch ss = join [10] (BEGIN_PATCH # concat (map print_section ss) @ [END_PATCH])"

section \<open>Well-formed sections\<close>

definition text_line :: "pystr \<Rightarrow> bool" where
  "text_line l \<longleftrightarrow> plain l \<and> list_all scalar l"

definition wf_hunk :: "hunk \<Rightarrow> bool" where
  "wf_hunk h \<longleftrightarrow> check_hunk h = Inr h \<and> list_all (\<lambda>(p, t). text_line t) (hunk_lines h)"

definition wf_path :: "pystr \<Rightarrow> bool" where
  "wf_path p \<longleftrightarrow> validate_relative_path p False = Inr p \<and> text_line p"

definition wf_section :: "patch_section \<Rightarrow> bool" where
  "wf_section s \<longleftrightarrow> wf_path (path s) \<and>
     (case action s of
        AddFile \<Rightarrow> destination s = None \<and> hunks s = [] \<and> add_lines s \<noteq> [] \<and> list_all text_line (add_lines s)
      | DeleteFile \<Rightarrow> destination s = None \<and> hunks s = [] \<and> add_lines s = []
      | UpdateFile \<Rightarrow> destination s = None \<and> add_lines s = [] \<and> hunks s \<noteq> [] \<and> list_all wf_hunk (hunks s)
      | MoveFile \<Rightarrow> (case destination s of Some d \<Rightarrow> wf_path d | None \<Rightarrow> False) \<and> add_lines s = [] \<and> hunks s \<noteq> []
          \<and> list_all wf_hunk (hunks s))"

section \<open>Parsing what was printed\<close>

lemma takeWhile_stop:
  assumes "list_all P xs" "ys = [] \<or> \<not> P (hd ys)"
  shows "takeWhile P (xs @ ys) = xs" "dropWhile P (xs @ ys) = ys"
  using assms by (induction xs) (auto simp: takeWhile_eq_Nil_iff dropWhile_eq_self_iff)

lemma hunk_line_of_print [simp]: "hunk_line_of (prefix_char p # t) = Inr (p, t)"
  by (cases p) (simp_all add: hunk_line_of_def prefix_char_def)

lemma hunk_lines_of_print [simp]: "hunk_lines_of (map (\<lambda>(p, t). prefix_char p # t) xs) = Inr xs"
  by (induction xs) auto

lemma prefix_not_mark [simp]: "prefix_char p # t \<noteq> hunk_mark"
  by (cases p) (simp_all add: hunk_mark_def prefix_char_def lit_def)

lemma parse_hunks_print:
  "list_all wf_hunk hs \<Longrightarrow> parse_hunks (concat (map print_hunk hs)) = Inr hs"
proof (induction hs)
  case Nil
  then show ?case by simp
next
  case (Cons h hs)
  let ?ls = "map (\<lambda>(p, t). prefix_char p # t) (hunk_lines h)"
  let ?rest = "concat (map print_hunk hs)"
  have "list_all (\<lambda>x. x \<noteq> hunk_mark) ?ls" by (auto simp: list_all_iff)
  moreover have "?rest = [] \<or> \<not> (hd ?rest \<noteq> hunk_mark)" by (cases hs) (auto simp: print_hunk_def)
  ultimately have "takeWhile (\<lambda>x. x \<noteq> hunk_mark) (?ls @ ?rest) = ?ls"
    "dropWhile (\<lambda>x. x \<noteq> hunk_mark) (?ls @ ?rest) = ?rest"
    by (rule takeWhile_stop)+
  with Cons show ?case by (simp add: print_hunk_def [of h] wf_hunk_def [of h])
qed

lemma headers_differ:
  "length (header_of AddFile) = 14" "length (header_of UpdateFile) = 17"
  "length (header_of DeleteFile) = 17" "header_of MoveFile = header_of UpdateFile"
  "header_of a \<noteq> [] \<and> hd (header_of a) = 42 \<and> list_all (\<lambda>c. 32 \<le> c \<and> c < 127) (header_of a)"
  "length MOVE_TO = 13" "MOVE_TO \<noteq> [] \<and> hd MOVE_TO = 42 \<and> list_all (\<lambda>c. 32 \<le> c \<and> c < 127) MOVE_TO"
  by (simp_all add: header_of_def MOVE_TO_def lit_def split: patch_action.split)

lemma section_header_star:
  assumes "section_header l = Some x" shows "l \<noteq> [] \<and> hd l = 42"
proof -
  obtain a where "startswith l (header_of a)"
    using assms by (auto simp: section_header_def Let_def split: if_splits)
  with headers_differ(5) [of a] show ?thesis by (auto simp: prefix_def)
qed

lemma section_header_print:
  assumes "p \<noteq> []"
  shows "section_header (header_of a @ p) = Some (if a = MoveFile then UpdateFile else a, p)"
  using assms by (cases a) (simp_all add: section_header_def header_of_def lit_def)

lemma section_header_move: "section_header (MOVE_TO @ d) = None"
  by (simp add: section_header_def header_of_def MOVE_TO_def lit_def)

lemma content_no_header: "list_all (\<lambda>l. section_header l = None) (print_content s)"
proof -
  have "l \<noteq> [] \<Longrightarrow> hd l \<noteq> 42 \<Longrightarrow> section_header l = None" for l
    using section_header_star [of l] by (cases "section_header l") auto
  moreover have "l \<noteq> [] \<and> hd l \<noteq> 42" if "l \<in> set (print_content s)" for l
    using that by (auto simp: print_content_def print_hunk_def hunk_mark_def lit_def prefix_char_def
        split: if_splits hunk_prefix.splits)
  ultimately show ?thesis by (auto simp: list_all_iff)
qed

lemma content_not_move: "l \<in> set (print_content s) \<Longrightarrow> \<not> startswith l MOVE_TO"
  using headers_differ(7)
  by (auto simp: print_content_def print_hunk_def hunk_mark_def lit_def prefix_char_def prefix_def
      MOVE_TO_def split: if_splits hunk_prefix.splits)

lemma wf_path_nonempty: "wf_path p \<Longrightarrow> p \<noteq> []"
  by (auto simp: wf_path_def validate_relative_path_def)

lemma parse_move_print:
  assumes "wf_section s" "rest = [] \<or> section_header (hd rest) \<noteq> None"
  shows "parse_move (if action s = MoveFile then UpdateFile else action s)
      (print_move s @ print_content s @ rest)
    = Inr (action s, destination s, print_content s @ rest)"
proof (cases "destination s")
  case (Some d)
  then have "action s = MoveFile" "wf_path d"
    using assms(1) by (auto simp: wf_section_def split: patch_action.splits)
  with Some show ?thesis by (simp add: print_move_def parse_move_def headers_differ wf_path_def)
next
  case None
  then have a: "action s \<noteq> MoveFile" using assms(1) by (auto simp: wf_section_def)
  have "\<not> startswith l MOVE_TO" if "print_content s @ rest = l # ls" for l ls
  proof (cases "print_content s")
    case Nil
    with that assms(2) have "section_header l \<noteq> None" by auto
    then show ?thesis using section_header_move by (auto simp: prefix_def)
  next
    case (Cons x xs)
    with that show ?thesis using content_not_move [of l s] by simp
  qed
  with None a show ?thesis by (auto simp: print_move_def parse_move_def split: list.splits)
qed

lemma build_section_print:
  assumes "wf_section s"
  shows "build_section (action s) (path s) (destination s) (print_content s) = Inr s"
proof (cases "action s")
  case AddFile
  with assms show ?thesis
    by (auto simp: wf_section_def build_section_def print_content_def list_ex_iff comp_def)
next
  case DeleteFile
  with assms show ?thesis by (auto simp: wf_section_def build_section_def print_content_def)
next
  case UpdateFile
  with assms show ?thesis
    by (auto simp: wf_section_def build_section_def print_content_def parse_hunks_print)
next
  case MoveFile
  with assms show ?thesis
    by (auto simp: wf_section_def build_section_def print_content_def parse_hunks_print)
qed

lemma printed_starts_with_header:
  assumes "list_all wf_section ss"
  shows "concat (map print_section ss) = []
    \<or> section_header (hd (concat (map print_section ss))) \<noteq> None"
  using assms section_header_print [OF wf_path_nonempty]
  by (cases ss) (auto simp: print_section_def wf_section_def)

lemma parse_sections_print:
  "list_all wf_section ss \<Longrightarrow> parse_sections (concat (map print_section ss)) = Inr ss"
proof (induction ss)
  case Nil
  then show ?case by simp
next
  case (Cons s ss)
  let ?rest = "concat (map print_section ss)"
  have wf: "wf_section s" "list_all wf_section ss" using Cons.prems by auto
  note rest = printed_starts_with_header [OF wf(2)]
  have p: "validate_relative_path (path s) False = Inr (path s)" "path s \<noteq> []"
    using wf(1) wf_path_nonempty by (auto simp: wf_section_def wf_path_def)
  have "takeWhile (\<lambda>x. section_header x = None) (print_content s @ ?rest) = print_content s"
    "dropWhile (\<lambda>x. section_header x = None) (print_content s @ ?rest) = ?rest"
    using takeWhile_stop [OF content_no_header rest] by auto
  with Cons.IH [OF wf(2)] show ?case
    using parse_move_print [OF wf(1) rest] build_section_print [OF wf(1)] p
    by (simp add: print_section_def [of s] section_header_print)
qed

section \<open>Everything accepted is well formed\<close>

lemma hunk_lines_of_sound:
  "hunk_lines_of ls = Inr xs \<Longrightarrow> ls = map (\<lambda>(p, t). prefix_char p # t) xs"
proof (induction ls arbitrary: xs)
  case Nil
  then show ?case by simp
next
  case (Cons l ls)
  then show ?case
    by (auto simp: res_simps hunk_line_of_def prefix_char_def split: list.splits if_splits)
qed

lemma check_hunk_same: "check_hunk h = Inr h' \<Longrightarrow> h' = h"
  by (simp add: check_hunk_def split: if_splits)

lemma parse_hunks_sound:
  "parse_hunks ls = Inr hs \<Longrightarrow> list_all text_line ls \<Longrightarrow>
     list_all wf_hunk hs \<and> ls = concat (map print_hunk hs)"
proof (induction ls arbitrary: hs rule: parse_hunks.induct)
  case 1
  then show ?case by simp
next
  case (2 l ls)
  let ?P = "\<lambda>x. x \<noteq> hunk_mark"
  obtain hl h hs' where l: "l = hunk_mark" and hl: "hunk_lines_of (takeWhile ?P ls) = Inr hl"
    and h: "check_hunk (Hunk hl) = Inr h" and r: "parse_hunks (dropWhile ?P ls) = Inr hs'"
    and hs: "hs = h # hs'"
    using "2.prems"(1) by (auto simp: res_simps split: if_splits)
  have d: "h = Hunk hl" using h by (rule check_hunk_same)
  have "list_all text_line (dropWhile ?P ls)" "list_all text_line (takeWhile ?P ls)"
    using "2.prems"(2) by (auto simp: list_all_iff dest: set_dropWhileD set_takeWhileD)
  moreover note hunk_lines_of_sound [OF hl]
  ultimately have "wf_hunk h" "list_all wf_hunk hs' \<and> dropWhile ?P ls = concat (map print_hunk hs')"
    using "2.IH" [OF _ r] l h d by (auto simp: wf_hunk_def list_all_iff text_line_def)
  moreover have "l # ls = print_hunk h @ dropWhile ?P ls"
    using l d hunk_lines_of_sound [OF hl, symmetric] by (simp add: print_hunk_def)
  ultimately show ?case using hs by simp
qed

lemma section_header_sound:
  "section_header l = Some (a, raw) \<Longrightarrow> a \<noteq> MoveFile \<and> l = header_of a @ raw"
  by (auto simp: section_header_def Let_def prefix_def split: if_splits)

lemma list_all_slashes: "P 47 \<Longrightarrow> list_all P v \<Longrightarrow> list_all P (slashes v)"
  by (auto simp: slashes_def list_all_iff)

lemma text_line_slashes: "text_line v \<Longrightarrow> text_line (slashes v)"
  unfolding text_line_def
  by (intro conjI list_all_slashes) (simp_all add: is_linebreak_def scalar_def)

lemma validate_wf_path:
  assumes "validate_relative_path v False = Inr p" "text_line v" shows "wf_path p"
  using validate_accepts [OF assms(1)] text_line_slashes [OF assms(2)]
  by (auto simp: wf_path_def validate_relative_path_eq)

lemma text_line_append: "text_line (a @ b) \<longleftrightarrow> text_line a \<and> text_line b"
  by (auto simp: text_line_def)

lemma parse_move_sound:
  assumes "parse_move a ls = Inr (b, dest, rest)" "list_all text_line ls" "a \<noteq> MoveFile"
  shows "list_all text_line rest"
    and "b = a \<and> dest = None \<or> a = UpdateFile \<and> b = MoveFile \<and> (\<exists>d. dest = Some d \<and> wf_path d)"
proof -
  have "list_all text_line rest \<and>
    (b = a \<and> dest = None \<or> a = UpdateFile \<and> b = MoveFile \<and> (\<exists>d. dest = Some d \<and> wf_path d))"
  proof (cases "\<exists>l ls'. ls = l # ls' \<and> a = UpdateFile \<and> startswith l MOVE_TO")
    case True
    then obtain l ls' where l: "ls = l # ls'" "a = UpdateFile" "startswith l MOVE_TO" by blast
    then obtain v where v: "l = MOVE_TO @ v" by (auto simp: prefix_def)
    with assms(2) l(1) have "text_line v" by (simp add: text_line_append)
    moreover obtain d where "validate_relative_path v False = Inr d" "dest = Some d" "b = MoveFile"
      "rest = ls'"
      using assms(1) l v by (auto simp: parse_move_def res_simps headers_differ)
    ultimately show ?thesis using validate_wf_path l(1,2) assms(2) by simp
  next
    case False
    then have "parse_move a ls = Inr (a, None, ls)" by (auto simp: parse_move_def split: list.split)
    then have "rest = ls" "b = a" "dest = None" using assms(1) by simp_all
    then show ?thesis using assms(2) by (intro conjI disjI1) (simp_all only: list_all_iff)
  qed
  then show "list_all text_line rest"
    and "b = a \<and> dest = None \<or> a = UpdateFile \<and> b = MoveFile \<and> (\<exists>d. dest = Some d \<and> wf_path d)"
    by simp_all
qed

lemma build_section_sound:
  assumes "build_section b p dest content = Inr s" "wf_path p" "list_all text_line content"
    "dest = None \<and> b \<noteq> MoveFile \<or> b = MoveFile \<and> (\<exists>d. dest = Some d \<and> wf_path d)"
  shows "wf_section s"
proof (cases b)
  case AddFile
  with assms have "\<forall>l\<in>set content. text_line l \<and> startswith l [43]"
    by (auto simp: build_section_def list_ex_iff list_all_iff split: if_splits)
  then have "list_all text_line (map tl content)"
    by (auto simp: list_all_iff prefix_def text_line_def)
  with AddFile assms show ?thesis by (auto simp: build_section_def wf_section_def split: if_splits)
next
  case DeleteFile
  with assms show ?thesis by (auto simp: build_section_def wf_section_def split: if_splits)
next
  case UpdateFile
  with assms parse_hunks_sound [of content] show ?thesis
    by (auto simp: build_section_def wf_section_def res_simps split: if_splits)
next
  case MoveFile
  with assms parse_hunks_sound [of content] show ?thesis
    by (auto simp: build_section_def wf_section_def res_simps split: if_splits)
qed

lemma parse_sections_sound:
  "parse_sections ls = Inr ss \<Longrightarrow> list_all text_line ls \<Longrightarrow> list_all wf_section ss"
proof (induction ls arbitrary: ss rule: parse_sections.induct)
  case 1
  then show ?case by simp
next
  case (2 l ls)
  let ?P = "\<lambda>x. section_header x = None"
  obtain a raw p b dest rest s ss' where h: "section_header l = Some (a, raw)"
    and p: "validate_relative_path raw False = Inr p" and m: "parse_move a ls = Inr (b, dest, rest)"
    and s: "build_section b p dest (takeWhile ?P rest) = Inr s"
    and r: "parse_sections (dropWhile ?P rest) = Inr ss'" and ss: "ss = s # ss'"
    using "2.prems"(1) by (auto simp: res_simps split: option.splits sum.splits)
  note hd = section_header_sound [OF h]
  have "wf_path p" using validate_wf_path [OF p] "2.prems"(2) hd by (simp add: text_line_append)
  moreover note mv = parse_move_sound [OF m]
  have rest: "list_all text_line rest" using mv(1) "2.prems"(2) hd by simp
  then have "list_all text_line (takeWhile ?P rest)" "list_all text_line (dropWhile ?P rest)"
    by (auto simp: list_all_iff dest: set_dropWhileD set_takeWhileD)
  moreover have "dest = None \<and> b \<noteq> MoveFile \<or> b = MoveFile \<and> (\<exists>d. dest = Some d \<and> wf_path d)"
    using mv(2) "2.prems"(2) hd by auto
  ultimately have "wf_section s" "list_all wf_section ss'"
    using build_section_sound [OF s] "2.IH" [OF h refl p m refl refl r] by auto
  then show ?case using ss by simp
qed

lemma splitlines_text_lines: "list_all scalar s \<Longrightarrow> list_all text_line (splitlines s)"
  using splitlines_plain [of _ s] splitlines_chars [of _ s]
  by (fastforce simp: list_all_iff text_line_def)

lemma parse_patch_sound:
  assumes "parse_patch document = Inr ss"
  shows "list_all wf_section ss \<and> ss \<noteq> []"
proof -
  have s: "list_all scalar document" "parse_sections (butlast (tl (splitlines document))) = Inr ss"
    "ss \<noteq> []"
    using assms by (auto simp: parse_patch_def Let_def res_simps split: if_splits)
  have "list_all text_line (butlast (tl (splitlines document)))"
    using splitlines_text_lines [OF s(1)]
    by (cases "splitlines document") (auto simp: list_all_iff dest: in_set_butlastD)
  with parse_sections_sound [OF s(2)] s(3) show ?thesis by simp
qed


definition example_patch :: "patch_section list" where
  "example_patch =
     [\<lparr>action = AddFile, path = lit ''docs/new.md'', destination = None,
       add_lines = [lit ''# New'', []], hunks = []\<rparr>,
      \<lparr>action = MoveFile, path = lit ''a.py'', destination = Some (lit ''b.py''), add_lines = [],
       hunks = [Hunk [(Keep, lit ''x = 1''), (Minus, lit ''y''), (Plus, lit ''z'')]]\<rparr>,
      \<lparr>action = DeleteFile, path = lit ''old.txt'', destination = None, add_lines = [], hunks = []\<rparr>]"


lemma text_line_ascii: "list_all (\<lambda>c. 32 \<le> c \<and> c < 127) l \<Longrightarrow> text_line l"
  by (auto simp: text_line_def list_all_iff is_linebreak_def scalar_def)

lemma text_line_Cons: "32 \<le> c \<Longrightarrow> c < 127 \<Longrightarrow> text_line (c # l) \<longleftrightarrow> text_line l"
  by (simp add: text_line_def is_linebreak_def scalar_def)

lemma prefix_char_ascii: "32 \<le> prefix_char p" "prefix_char p < 127"
  by (simp_all add: prefix_char_def split: hunk_prefix.split)

lemma print_hunk_text: "wf_hunk h \<Longrightarrow> list_all text_line (print_hunk h)"
proof -
  assume "wf_hunk h"
  then have "text_line t" if "(p, t) \<in> set (hunk_lines h)" for p t
    using that by (auto simp: wf_hunk_def list_all_iff)
  moreover have "text_line hunk_mark" by (rule text_line_ascii) (simp add: hunk_mark_def lit_def)
  ultimately show ?thesis
    by (auto simp: print_hunk_def list_all_iff text_line_Cons [OF prefix_char_ascii])
qed

lemma print_content_text: "wf_section s \<Longrightarrow> list_all text_line (print_content s)"
  using print_hunk_text
  by (cases "action s")
    (auto simp: wf_section_def print_content_def list_all_iff text_line_Cons)

lemma print_section_text: "wf_section s \<Longrightarrow> list_all text_line (print_section s)"
  using text_line_ascii [of "header_of (action s)"] text_line_ascii [of MOVE_TO] headers_differ(5,7)
    print_content_text [of s]
  by (auto simp: print_section_def print_move_def wf_section_def wf_path_def text_line_append
      split: option.splits patch_action.splits)

lemma markers: "text_line BEGIN_PATCH" "text_line END_PATCH" "END_PATCH \<noteq> []"
  by (simp_all add: BEGIN_PATCH_def END_PATCH_def lit_def text_line_def is_linebreak_def scalar_def)

lemma print_patch_lines:
  assumes "list_all wf_section ss"
  shows "splitlines (print_patch ss) = BEGIN_PATCH # concat (map print_section ss) @ [END_PATCH]"
    and "list_all scalar (print_patch ss)"
proof -
  let ?ls = "BEGIN_PATCH # concat (map print_section ss) @ [END_PATCH]"
  have t: "\<forall>l\<in>set ?ls. text_line l"
    using assms print_section_text markers by (fastforce simp: list_all_iff)
  then show "splitlines (print_patch ss) = ?ls"
    unfolding print_patch_def using markers(3)
    by (intro splitlines_join) (auto simp: list_all_iff text_line_def)
  show "list_all scalar (print_patch ss)"
    using t set_join [of "[10]" ?ls]
    by (fastforce simp: print_patch_def list_all_iff text_line_def scalar_def)
qed

text \<open>
  C30. Parsing is the inverse of printing: the document written for a list of well-formed
  sections, if it is within the size limit, parses to exactly that list, whatever paths, context
  and added lines the sections hold (also lines that look like patch syntax).
\<close>

theorem parse_print_roundtrip:
  assumes "list_all wf_section ss" "ss \<noteq> []"
    and "length (utf8_encode (print_patch ss)) \<le> MAX_PATCH_BYTES"
  shows "parse_patch (print_patch ss) = Inr ss"
  using assms print_patch_lines [OF assms(1)] parse_sections_print [OF assms(1)]
  by (simp add: parse_patch_def Let_def)

theorem parse_print_roundtrip_witness:
  "parse_patch (print_patch example_patch) = Inr example_patch"
proof -
  have "list_all wf_section example_patch" by code_simp
  moreover have "length (utf8_encode (print_patch example_patch)) \<le> MAX_PATCH_BYTES" by code_simp
  ultimately show ?thesis
    using parse_print_roundtrip [of example_patch] by (simp add: example_patch_def)
qed

text \<open>An anchor after the hunk marker, which the documented grammar allows, is rejected.\<close>

lemma anchored_hunk_rejected:
  "parse_patch (join [10] [BEGIN_PATCH, lit ''*** Update File: a'', lit ''@@ def f'', lit ''-x'', lit ''+y'',
      END_PATCH]) = Inl invalid_patch"
  by code_simp

section \<open>Text files\<close>

text \<open>
  The text of a file is determined by its lines and their ends; the engine keeps the lines, one
  newline and whether the text ends in a newline.
\<close>

definition file_text :: "bytes \<Rightarrow> pystr" where
  "file_text raw = the (utf8_decode (if startswith raw BOM then drop 3 raw else raw))"

definition uniform_newlines :: "pystr \<Rightarrow> bool" where
  "uniform_newlines s \<longleftrightarrow> list_all (\<lambda>(l, e). e \<in> {[], detect_newline s}) (splitlines_ends s)"

definition line_end :: "pystr \<Rightarrow> pystr" where
  "line_end s = (if s = [] then [] else snd (last (splitlines_ends s)))"

definition rejoin :: "pystr \<Rightarrow> pystr list \<Rightarrow> bool \<Rightarrow> pystr" where
  "rejoin n ls final = join n ls @ (if final \<and> ls \<noteq> [] then n else [])"

lemma take_line_end:
  "take_line s = (l, e, r) \<Longrightarrow> e = [] \<Longrightarrow> r = []"
  by (induction s arbitrary: l e r) (auto split: if_splits prod.splits list.splits)

lemma splitlines_ends_Nil: "splitlines_ends s = [] \<longleftrightarrow> s = []"
  by (cases s) (auto simp del: take_line.simps split: prod.split)

lemma rejoin_uniform:
  assumes "list_all (\<lambda>(l, e). e \<in> {[], n}) (splitlines_ends s)" "n \<noteq> []"
  shows "rejoin n (splitlines s) (line_end s = n) = s"
  using assms(1)
proof (induction s rule: splitlines_ends.induct)
  case 1
  then show ?case by (simp add: rejoin_def splitlines_def)
next
  case (2 c cs)
  obtain l e r where t: "take_line (c # cs) = (l, e, r)" by (metis prod_cases3)
  then have s: "splitlines_ends (c # cs) = (l, e) # splitlines_ends r" by simp
  have cs: "c # cs = l @ e @ r" by (rule take_line_append [OF t])
  show ?case
  proof (cases "r = []")
    case True
    with s have "splitlines_ends (c # cs) = [(l, e)]" by simp
    with "2.prems" cs True show ?thesis
      by (auto simp: rejoin_def splitlines_def line_end_def)
  next
    case False
    then have ne: "splitlines_ends r \<noteq> []" by (simp add: splitlines_ends_Nil)
    have e: "e = n" using "2.prems" s take_line_end [OF t] False by auto
    have "list_all (\<lambda>(l, e). e \<in> {[], n}) (splitlines_ends r)" using "2.prems" s by simp
    with "2.IH" [OF t [symmetric]] have "rejoin n (splitlines r) (line_end r = n) = r" by simp
    moreover have "line_end (c # cs) = line_end r" "splitlines (c # cs) = l # splitlines r"
      "splitlines r \<noteq> []"
      using s ne False by (simp_all add: line_end_def splitlines_def)
    ultimately show ?thesis using cs e by (simp add: rejoin_def join_Cons)
  qed
qed

lemma splitlines_ends_rejoin:
  assumes "newline n" "list_all plain ls"
  shows "list_all (\<lambda>(l, e). e \<in> {[], n}) (splitlines_ends (rejoin n ls final))"
  using assms
proof (induction n ls rule: join.induct)
  case (1 n)
  then show ?case by (simp add: rejoin_def)
next
  case (2 n l)
  then show ?case
    using splitlines_ends_append [of l n "[]"]
    by (simp add: rejoin_def splitlines_ends_last)
next
  case (3 n l m ls)
  let ?r = "rejoin n (m # ls) final"
  have "rejoin n (l # m # ls) final = l @ n @ ?r" by (simp add: rejoin_def)
  moreover have "?r = [] \<or> hd ?r \<noteq> 10" if "n = [13]"
    using that "3.prems"(2) by (cases m; cases ls) (auto simp: rejoin_def is_linebreak_def)
  ultimately show ?case
    using 3 splitlines_ends_append [of l n ?r] by simp
qed

lemma detect_newline_newline: "newline (detect_newline s)"
  by (simp add: newline_def detect_newline_def linesep_def)

lemma line_end_suffix:
  "s \<noteq> [] \<Longrightarrow> \<exists>u l. s = u @ l @ line_end s \<and> plain l \<and> l @ line_end s \<noteq> []"
proof (induction s rule: splitlines_ends.induct)
  case 1
  then show ?case by simp
next
  case (2 c cs)
  obtain l e r where t: "take_line (c # cs) = (l, e, r)" by (metis prod_cases3)
  then have s: "splitlines_ends (c # cs) = (l, e) # splitlines_ends r" by simp
  have cs: "c # cs = l @ e @ r" by (rule take_line_append [OF t])
  show ?case
  proof (cases "r = []")
    case True
    then have "line_end (c # cs) = e" using s by (simp add: line_end_def)
    then show ?thesis using True cs take_line_plain [OF t]
      by (intro exI [of _ "[]"] exI [of _ l]) auto
  next
    case False
    then have "line_end (c # cs) = line_end r" using s by (simp add: line_end_def splitlines_ends_Nil)
    moreover obtain u k where "r = u @ k @ line_end r" "plain k" "k @ line_end r \<noteq> []"
      using "2.IH" [OF t [symmetric]] False by auto
    ultimately show ?thesis using cs by (intro exI [of _ "l @ e @ u"] exI [of _ k]) auto
  qed
qed

lemma ends_in_newline:
  "endswith s [13, 10] \<or> endswith s [10] \<or> endswith s [13] \<longleftrightarrow> s \<noteq> [] \<and> last s \<in> {10, 13}"
proof -
  have "endswith s [c] \<longleftrightarrow> s \<noteq> [] \<and> last s = c" for c
    by (cases s rule: rev_cases) auto
  moreover have "endswith s [13, 10] \<Longrightarrow> endswith s [10]" by (auto simp: suffix_def)
  ultimately show ?thesis by auto
qed

lemma final_newline_uniform:
  assumes "line_end s \<in> {[], n}" "newline n" "s \<noteq> []"
  shows "last s \<in> {10, 13} \<longleftrightarrow> line_end s = n"
proof -
  obtain u l where s: "s = u @ l @ line_end s" "plain l" "l @ line_end s \<noteq> []"
    using line_end_suffix [OF assms(3)] by blast
  show ?thesis
  proof (cases "line_end s = []")
    case True
    with s have "last s = last l" "l \<noteq> []" by (metis append_Nil2 last_appendR)+
    then have "last s \<in> set l" by simp
    with s(2) have "\<not> is_linebreak (last s)" by (simp add: list_all_iff)
    moreover have "n \<noteq> []" using assms(2) by (auto simp: newline_def)
    ultimately show ?thesis using True by (auto simp: is_linebreak_def)
  next
    case False
    then have n: "line_end s = n" using assms(1) by simp
    have "last s = last (u @ l @ line_end s)" using s(1) by (rule arg_cong)
    then have "last s = last (line_end s)" using False by simp
    moreover have "last n \<in> {10, 13}" using assms(2) by (auto simp: newline_def)
    ultimately show ?thesis using n by (simp only: simp_thms)
  qed
qed

lemma line_end_uniform:
  "list_all (\<lambda>(l, e). e \<in> {[], n}) (splitlines_ends s) \<Longrightarrow> line_end s \<in> {[], n}"
proof (cases "s = []")
  case False
  assume "list_all (\<lambda>(l, e). e \<in> {[], n}) (splitlines_ends s)"
  moreover have "last (splitlines_ends s) \<in> set (splitlines_ends s)"
    using False by (simp add: splitlines_ends_Nil)
  ultimately have "(\<lambda>(l, e). e \<in> {[], n}) (last (splitlines_ends s))" by (simp only: list_all_iff)
  then show ?thesis using False by (simp add: line_end_def case_prod_beta)
qed (simp add: line_end_def)

lemma rejoin_scalar:
  assumes "list_all scalar s" "newline n"
  shows "list_all scalar (rejoin n (splitlines s) final)"
proof -
  have "set (join n (splitlines s)) \<subseteq> set s \<union> set n"
    using set_join [of n "splitlines s"] splitlines_chars [of _ s] by blast
  moreover have "\<forall>c\<in>set n. scalar c" using assms(2) by (auto simp: newline_def scalar_def)
  ultimately show ?thesis using assms(1) by (auto simp: rejoin_def list_all_iff)
qed

lemma rejoin_text_iff:
  assumes "newline n"
  shows "rejoin n (splitlines s) (s \<noteq> [] \<and> last s \<in> {10, 13}) = s
    \<longleftrightarrow> list_all (\<lambda>(l, e). e \<in> {[], n}) (splitlines_ends s)" (is "?l = s \<longleftrightarrow> ?u")
proof
  have "list_all plain (splitlines s)" using splitlines_plain by (auto simp: list_all_iff)
  then have "list_all (\<lambda>(l, e). e \<in> {[], n}) (splitlines_ends ?l)"
    by (rule splitlines_ends_rejoin [OF assms])
  then show "?u" if "?l = s" using that by simp
next
  assume u: ?u
  have "n \<noteq> []" using assms by (auto simp: newline_def)
  then have "rejoin n (splitlines s) (line_end s = n) = s" using u by (intro rejoin_uniform)
  moreover have "(s \<noteq> [] \<and> last s \<in> {10, 13}) = (line_end s = n)" if "s \<noteq> []"
    using that final_newline_uniform [OF line_end_uniform [OF u] assms] by simp
  ultimately show "?l = s" by (cases "s = []") (auto simp: rejoin_def splitlines_def)
qed

text \<open>
  A file survives decoding and encoding unchanged, byte for byte, exactly when its line
  ends are uniform: every line boundary that Python's \<open>splitlines\<close> sees is the newline that the
  engine detected (the last line may have none).  Byte order mark, missing final newline and
  any characters within the lines are kept.
\<close>

theorem textfile_roundtrip_exact:
  assumes "textfile_decode raw = Inr f"
  shows "textfile_encode f = raw \<longleftrightarrow> uniform_newlines (file_text raw)"
proof -
  let ?s = "file_text raw" and ?n = "detect_newline (file_text raw)"
  let ?final = "?s \<noteq> [] \<and> last ?s \<in> {10, 13}"
  let ?body = "if startswith raw BOM then drop 3 raw else raw"
  have d: "utf8_decode ?body = Some ?s"
    and f: "f = \<lparr>tf_lines = splitlines ?s, tf_newline = ?n, tf_final = ?final, tf_bom = startswith raw BOM\<rparr>"
    using assms by (auto simp: textfile_decode_def Let_def file_text_def ends_in_newline
        split: option.splits)
  have body: "utf8_encode ?s = ?body" using utf8_decode_sound [OF d] by simp
  have raw: "raw = (if tf_bom f then BOM else []) @ utf8_encode ?s"
    unfolding body using f by (auto simp: prefix_def BOM_def)
  have "textfile_encode f = (if tf_bom f then BOM else []) @ utf8_encode (rejoin ?n (splitlines ?s) ?final)"
    by (simp add: textfile_encode_def Let_def f rejoin_def)
  from arg_cong2 [OF this raw, of "(=)"]
  have "textfile_encode f = raw \<longleftrightarrow> utf8_encode (rejoin ?n (splitlines ?s) ?final) = utf8_encode ?s"
    by (simp only: same_append_eq)
  moreover have "list_all scalar ?s" using utf8_decode_sound [OF d] by simp
  ultimately have enc: "textfile_encode f = raw \<longleftrightarrow> rejoin ?n (splitlines ?s) ?final = ?s"
    by (simp only: utf8_encode_inj rejoin_scalar detect_newline_newline)
  show ?thesis
    unfolding enc uniform_newlines_def by (rule rejoin_text_iff [OF detect_newline_newline])
qed

theorem textfile_roundtrip_exact_witness:
  "\<exists>f. textfile_decode (BOM @ lit ''a'' @ [13, 10] @ lit ''b'') = Inr f
     \<and> textfile_encode f = BOM @ lit ''a'' @ [13, 10] @ lit ''b''"
proof -
  let ?raw = "BOM @ lit ''a'' @ [13, 10] @ lit ''b''"
  have d: "textfile_decode ?raw = Inr \<lparr>tf_lines = [lit ''a'', lit ''b''], tf_newline = [13, 10],
      tf_final = False, tf_bom = True\<rparr>"
    by code_simp
  have "uniform_newlines (file_text ?raw)" by code_simp
  with textfile_roundtrip_exact [OF d] d show ?thesis by blast
qed

text \<open>
  A form feed is a line boundary for \<open>splitlines\<close>: patching a file that holds one rewrites it to
  a newline, although no hunk mentions it.
\<close>

lemma form_feed_rewritten:
  "(case textfile_decode (lit ''a'' @ [12] @ lit ''b'' @ [10] @ lit ''c'' @ [10]) of
      Inr f \<Rightarrow> (case apply_hunks f [Hunk [(Minus, lit ''c''), (Plus, lit ''d'')]] (lit ''f'') of
                  Inr g \<Rightarrow> textfile_encode g | Inl _ \<Rightarrow> [])
    | Inl _ \<Rightarrow> [])
   = lit ''a'' @ [10] @ lit ''b'' @ [10] @ lit ''d'' @ [10]"
  by code_simp

end
