(* ===== verification/Agent_Db_Laws.thy ===== *)
theory Agent_Db_Laws
  imports Agent_Db
begin

text \<open>
  Laws of the agent's store over arbitrary sequences of its statements: the schema's
  constraints hold in every reachable store; a receipt is accepted once, keeps its identity and
  its terminal state for ever; an idempotency record stays bound to its request and
  authorization; a registration request is settled once; connection epochs grow; rotating the
  project identifiers keeps every reference.
\<close>

section \<open>Calls and runs\<close>

datatype db_call =
    RegisterProject os_view nat pystr pystr abspath project_mode
  | SetMode nat pystr project_mode
  | SetTitle nat pystr pystr
  | SetEnabled nat pystr bool
  | RotateIds nat "nat \<Rightarrow> pystr"
  | SetSetting pystr pystr
  | NextEpoch
  | SetEpoch int
  | SaveRead nat pystr pystr pystr pystr pystr
  | SaveShell nat pystr pystr pystr pystr pystr
  | SaveScreen nat pystr pystr pystr pystr pystr pystr
  | RevokeReads
  | RevokeShells
  | RevokeScreens
  | RevokePermission pystr pystr
  | CreateRequest nat pystr pystr binding int
  | NextRequest nat
  | DismissRequest nat pystr bool
  | CompleteRequest os_view nat pystr pystr abspath
  | Receive nat pystr receipt "json option" int
  | Transition nat pystr operation_state "json option"
  | Acknowledge nat pystr pystr binding "pystr option"
  | PutIdem nat pystr pystr pystr pystr operation_state "json option" binding
  | DeleteIdem pystr pystr pystr

fun exec :: "(bytes \<Rightarrow> pystr) \<Rightarrow> db_call \<Rightarrow> db \<Rightarrow> db" where
  "exec sha (RegisterProject os now u t r m) d = snd (register_project sha os now u t r m d)"
| "exec sha (SetMode now p m) d = snd (set_project_mode now p m d)"
| "exec sha (SetTitle now p t) d = snd (set_project_title now p t d)"
| "exec sha (SetEnabled now p e) d = snd (set_project_enabled now p e d)"
| "exec sha (RotateIds now u) d = snd (rotate_project_ids now u d)"
| "exec sha (SetSetting k v) d = snd (set_setting k v d)"
| "exec sha NextEpoch d = snd (next_connection_epoch d)"
| "exec sha (SetEpoch v) d = snd (set_connection_epoch v d)"
| "exec sha (SaveRead now k s i a l) d = snd (save_read_permission now k s i a l d)"
| "exec sha (SaveShell now k s i a l) d = snd (save_shell_permission now k s i a l d)"
| "exec sha (SaveScreen now k di i lb a l) d = snd (save_screen_permission now k di i lb a l d)"
| "exec sha RevokeReads d = snd (revoke_read_permissions d)"
| "exec sha RevokeShells d = snd (revoke_shell_permissions d)"
| "exec sha RevokeScreens d = snd (revoke_screen_permissions d)"
| "exec sha (RevokePermission c k) d = snd (revoke_permission c k d)"
| "exec sha (CreateRequest now u t b e) d = snd (create_registration_request now u t b e d)"
| "exec sha (NextRequest now) d = snd (next_registration_request now d)"
| "exec sha (DismissRequest now r e) d = snd (dismiss_registration_request now r e d)"
| "exec sha (CompleteRequest os now u r p) d = snd (complete_registration_request sha os now u r p d)"
| "exec sha (Receive now oid rc rq e) d = snd (record_received now oid rc rq e d)"
| "exec sha (Transition now oid st res) d = snd (transition_operation now oid st res d)"
| "exec sha (Acknowledge now c dg b p) d = snd (acknowledge_terminal now c dg b p d)"
| "exec sha (PutIdem now p c k dg st res b) d = snd (put_idempotency now p c k dg st res b d)"
| "exec sha (DeleteIdem p c k) d = snd (delete_idempotency p c k d)"

definition run :: "(bytes \<Rightarrow> pystr) \<Rightarrow> db_call list \<Rightarrow> db \<Rightarrow> db" where
  "run sha cs d = fold (exec sha) cs d"

lemma run_simps [simp]:
  "run sha [] d = d" "run sha (c # cs) d = run sha cs (exec sha c d)"
  by (simp_all add: run_def)

section \<open>Rows through a run\<close>

text \<open>
  The history of one row: what a step keeps of it, every sequence of permitted steps keeps.
\<close>

locale row_history =
  fixes step :: "'c \<Rightarrow> 's \<Rightarrow> 's"
    and look :: "'s \<Rightarrow> 'r option"
    and keeps :: "'r \<Rightarrow> 'r \<Rightarrow> bool"
    and ok :: "'c \<Rightarrow> bool"
  assumes keeps_refl: "keeps r r"
    and keeps_trans: "keeps r r1 \<Longrightarrow> keeps r1 r2 \<Longrightarrow> keeps r r2"
    and step_keeps: "look s = Some r \<Longrightarrow> ok c \<Longrightarrow> \<exists>r'. look (step c s) = Some r' \<and> keeps r r'"
begin

lemma steps_keep:
  "look s = Some r \<Longrightarrow> list_all ok cs \<Longrightarrow> \<exists>r'. look (fold step cs s) = Some r' \<and> keeps r r'"
proof (induction cs arbitrary: s r)
  case Nil
  then show ?case using keeps_refl by simp
next
  case (Cons c cs)
  then obtain r1 where r1: "look (step c s) = Some r1" "keeps r r1"
    using step_keeps [of s r c] by auto
  with Cons.IH [OF r1(1)] Cons.prems(2) show ?case
    using keeps_trans [OF r1(2)] by fastforce
qed

end

lemma find_map_key:
  "(\<And>x. key (f x) = key x) \<Longrightarrow>
     find (\<lambda>r. key r = k) (map f xs) = map_option f (find (\<lambda>r. key r = k) xs)"
  by (induction xs) auto

lemma find_append: "find P (xs @ ys) = (case find P xs of None \<Rightarrow> find P ys | Some x \<Rightarrow> Some x)"
  by (induction xs) auto

lemma find_filter_other: "(\<And>x. P x \<Longrightarrow> Q x) \<Longrightarrow> find P (filter Q xs) = find P xs"
  by (induction xs) auto

lemma find_None_iff_key: "find (\<lambda>r. key r = k) xs = None \<longleftrightarrow> k \<notin> key ` set xs"
  by (auto simp: find_None_iff)

lemma find_SomeD: "find P xs = Some x \<Longrightarrow> x \<in> set xs \<and> P x"
  by (induction xs) (auto split: if_splits)

lemmas call_defs = register_project_def set_project_mode_def set_project_title_def
  set_project_enabled_def update_project_def set_setting_def next_connection_epoch_def
  set_connection_epoch_def save_read_permission_def save_shell_permission_def
  save_screen_permission_def revoke_read_permissions_def revoke_shell_permissions_def
  revoke_screen_permissions_def revoke_permission_def create_registration_request_def
  next_registration_request_def dismiss_registration_request_def
  complete_registration_request_def record_received_def transition_operation_def update_op_def
  acknowledge_terminal_def put_idempotency_def delete_idempotency_def

subsection \<open>Receipts\<close>

definition op_keeps :: "op_row \<Rightarrow> op_row \<Rightarrow> bool" where
  "op_keeps r r' \<longleftrightarrow> op_id r' = op_id r \<and> op_request r' = op_request r \<and> op_received r' = op_received r
     \<and> op_epoch r \<le> op_epoch r'
     \<and> (op_receipt r')\<lparr>r_project := None\<rparr> = (op_receipt r)\<lparr>r_project := None\<rparr>
     \<and> (terminal (op_state r) \<longrightarrow> op_state r' = op_state r)"

lemma op_keeps_refl [simp]: "op_keeps r r"
  by (simp add: op_keeps_def)

lemma op_keeps_trans: "op_keeps r s \<Longrightarrow> op_keeps s t \<Longrightarrow> op_keeps r t"
  by (auto simp: op_keeps_def)

text \<open>Statements on other tables leave the receipts alone.\<close>

definition touches_ops :: "db_call \<Rightarrow> bool" where
  "touches_ops c = (case c of Receive _ _ _ _ _ \<Rightarrow> True | Transition _ _ _ _ \<Rightarrow> True
     | Acknowledge _ _ _ _ _ \<Rightarrow> True | RotateIds _ _ \<Rightarrow> True | _ \<Rightarrow> False)"

lemma exec_other_ops: "\<not> touches_ops c \<Longrightarrow> operations (exec sha c d) = operations d"
  by (cases c) (auto simp: touches_ops_def call_defs Let_def
      split: sum.splits option.splits prod.splits if_splits)

lemma rotate_loop_ops:
  "foldE (rotate_one now) d m = Inr d' \<Longrightarrow>
     \<exists>f. operations d' = map f (operations d) \<and> (\<forall>r. op_keeps r (f r))"
proof (induction m arbitrary: d)
  case Nil
  then show ?case by (intro exI [of _ id]) auto
next
  case (Cons pc m)
  obtain p c where pc: "pc = (p, c)" by (cases pc)
  with Cons.prems obtain d1 where d1: "rotate_one now d (p, c) = Inr d1"
    and rest: "foldE (rotate_one now) d1 m = Inr d'" by (auto simp: res_simps)
  from Cons.IH [OF rest] obtain f where f: "operations d' = map f (operations d1)"
    "\<forall>r. op_keeps r (f r)" by blast
  have "operations d1 = map (rename_project p c) (operations d)"
    using d1 by (auto simp: rotate_one_def split: if_splits)
  moreover have "op_keeps r (rename_project p c r)" for r
    by (simp add: op_keeps_def rename_project_def)
  ultimately show ?case using f op_keeps_trans
    by (intro exI [of _ "f \<circ> rename_project p c"]) fastforce
qed

lemma rotate_ops:
  "\<exists>f. operations (snd (rotate_project_ids now u d)) = map f (operations d) \<and> (\<forall>r. op_keeps r (f r))"
  using rotate_loop_ops [of now d]
  by (auto simp: rotate_project_ids_def Let_def split: sum.splits intro: exI [of _ id])

lemma find_op_map:
  "(\<And>r. op_id (f r) = op_id r) \<Longrightarrow> operations d' = map f (operations d) \<Longrightarrow>
     find_op oid d' = map_option f (find_op oid d)"
  by (simp add: find_op_def find_map_key)

lemma find_op_id: "find_op oid d = Some r \<Longrightarrow> op_id r = oid"
  unfolding find_op_def by (drule find_SomeD) simp

lemma find_update_op:
  assumes "\<And>r. op_id (f r) = op_id r"
  shows "find_op oid (update_op oid' f d) = map_option (\<lambda>r. if oid = oid' then f r else r) (find_op oid d)"
proof -
  have "find_op oid (update_op oid' f d) = map_option (\<lambda>r. if op_id r = oid' then f r else r) (find_op oid d)"
    by (rule find_op_map) (simp_all add: assms update_op_def)
  then show ?thesis by (cases "find_op oid d") (auto dest: find_op_id)
qed

lemma receive_keeps:
  assumes "find_op oid d = Some r"
  shows "\<exists>r'. find_op oid (snd (record_received now oid' rc rq e d)) = Some r' \<and> op_keeps r r'"
proof -
  have "find_op oid (d\<lparr>operations := operations d @ x\<rparr>) = Some r" for x
    using assms by (simp add: find_op_def find_append)
  moreover have "find_op oid (update_op oid' (\<lambda>r. r\<lparr>op_epoch := e, op_updated := now\<rparr>) d)
    = Some (if oid = oid' then r\<lparr>op_epoch := e, op_updated := now\<rparr> else r)"
    using assms by (simp add: find_update_op)
  moreover have "op_epoch r < e \<Longrightarrow> op_keeps r (r\<lparr>op_epoch := e, op_updated := now\<rparr>)"
    by (simp add: op_keeps_def)
  ultimately show ?thesis using assms by (auto simp: record_received_def split: option.split)
qed

lemma transition_keeps:
  assumes "find_op oid d = Some r"
  shows "\<exists>r'. find_op oid (snd (transition_operation now oid' st res d)) = Some r' \<and> op_keeps r r'"
  using assms by (auto simp: transition_operation_def find_update_op op_keeps_def split: option.split)

lemma acknowledge_keeps:
  assumes "find_op oid d = Some r"
  shows "\<exists>r'. find_op oid (snd (acknowledge_terminal now c dg b p d)) = Some r' \<and> op_keeps r r'"
proof -
  let ?f = "\<lambda>r. if ack_matches c dg b p r then r\<lparr>op_acked := True, op_updated := now\<rparr> else r"
  have "find_op oid (snd (acknowledge_terminal now c dg b p d)) = map_option ?f (find_op oid d)"
    by (rule find_op_map) (simp_all add: acknowledge_terminal_def Let_def)
  with assms show ?thesis by (simp add: op_keeps_def)
qed

lemma rotate_keeps:
  assumes "find_op oid d = Some r"
  shows "\<exists>r'. find_op oid (snd (rotate_project_ids now u d)) = Some r' \<and> op_keeps r r'"
proof -
  obtain f where f: "operations (snd (rotate_project_ids now u d)) = map f (operations d)"
    "\<forall>r. op_keeps r (f r)"
    using rotate_ops by blast
  then have "find_op oid (snd (rotate_project_ids now u d)) = map_option f (find_op oid d)"
    by (intro find_op_map) (simp_all add: op_keeps_def)
  with assms f(2) show ?thesis by simp
qed

lemma exec_keeps_op:
  assumes "find_op oid d = Some r"
  shows "\<exists>r'. find_op oid (exec sha c d) = Some r' \<and> op_keeps r r'"
proof (cases "touches_ops c")
  case True
  then show ?thesis
    using assms receive_keeps transition_keeps acknowledge_keeps rotate_keeps
    by (cases c) (simp_all add: touches_ops_def)
next
  case False
  then have "find_op oid (exec sha c d) = find_op oid d" by (simp add: find_op_def exec_other_ops)
  with assms show ?thesis by simp
qed

interpretation ops: row_history "exec sha" "find_op oid" op_keeps "\<lambda>_. True" for sha oid
  by unfold_locales (auto intro: op_keeps_trans exec_keeps_op)

lemma run_keeps_op:
  "find_op oid d = Some r \<Longrightarrow> \<exists>r'. find_op oid (run sha cs d) = Some r' \<and> op_keeps r r'"
  using ops.steps_keep [of oid d r cs sha] by (simp add: run_def list_all_iff)

text \<open>
  C31. A terminal state is final: once the store holds a terminal state for an operation, no
  sequence of statements on the store changes that state, forgets the operation or alters the
  request, the receiving instant, the bindings (other than the project's rotated identifier) and
  no statement lowers its connection epoch.
\<close>

theorem terminal_state_final:
  assumes "find_op oid d = Some r" "terminal (op_state r)"
  shows "\<exists>r'. find_op oid (run sha cs d) = Some r' \<and> op_state r' = op_state r
    \<and> op_request r' = op_request r \<and> op_received r' = op_received r \<and> op_epoch r \<le> op_epoch r'
    \<and> (op_receipt r')\<lparr>r_project := None\<rparr> = (op_receipt r)\<lparr>r_project := None\<rparr>"
  using run_keeps_op [OF assms(1), of sha cs] assms(2) by (auto simp: op_keeps_def)

definition example_binding :: binding where
  "example_binding = \<lparr>account_id = lit ''acct'', grant_id = lit ''grant'', link_id = lit ''link'',
     device_id = lit ''device''\<rparr>"

definition example_receipt :: receipt where
  "example_receipt = \<lparr>r_correlation = lit ''corr'', r_binding = example_binding, r_project = None,
     r_capability = lit ''project_read'', r_action_digest = lit ''digest'', r_idem_key = None,
     r_request_digest = lit ''request'', r_deadline = lit ''2026-01-01T00:00:00+00:00''\<rparr>"

definition example_db :: db where
  "example_db = run (\<lambda>b. b) [Receive 5 (lit ''op'') example_receipt None 3,
     Transition 6 (lit ''op'') SUCCEEDED (Some JNull)] empty_db"

definition example_op :: op_row where
  "example_op = \<lparr>op_id = lit ''op'', op_receipt = example_receipt, op_request = None, op_state = SUCCEEDED,
     op_result = Some JNull, op_acked = False, op_epoch = 3, op_received = 5, op_updated = 6\<rparr>"

lemmas example_db_defs = example_db_def example_op_def record_received_def transition_operation_def
  find_op_def update_op_def empty_db_def known_project_def example_receipt_def terminal_def

lemma example_db_op: "find_op (lit ''op'') example_db = Some example_op"
  by (simp add: example_db_defs)

theorem terminal_state_final_witness:
  "\<exists>r'. find_op (lit ''op'') (run (\<lambda>b. b) [Transition 9 (lit ''op'') FAILED None] example_db) = Some r'
    \<and> op_state r' = SUCCEEDED"
proof -
  have "op_state example_op = SUCCEEDED" "terminal (op_state example_op)"
    by (simp_all add: example_op_def terminal_def)
  with terminal_state_final [OF example_db_op, of "\<lambda>b. b" "[Transition 9 (lit ''op'') FAILED None]"]
  show ?thesis by auto
qed

text \<open>
  A repeated transition to the same terminal state replaces the stored result and clears the
  acknowledgement.
\<close>

lemma terminal_result_overwritten:
  "let d = run (\<lambda>b. b) [Acknowledge 7 (lit ''corr'') (lit ''digest'') example_binding None,
       Transition 8 (lit ''op'') SUCCEEDED (Some (JBool False))] example_db in
   map_option (\<lambda>r. (op_result r, op_acked r)) (find_op (lit ''op'') d) = Some (Some (JBool False), False)"
  by (simp add: example_db_defs acknowledge_terminal_def ack_matches_def Let_def)

text \<open>A request for an unregistered project is reported as a reused operation identifier.\<close>

lemma unknown_project_conflict:
  "find_op oid d = None \<Longrightarrow> \<not> known_project (r_project rc) d \<Longrightarrow>
     record_received now oid rc rq e d = (Inl operation_conflict, d)"
  by (simp add: record_received_def)

text \<open>The number of times a run accepts an operation for execution.\<close>

fun accepts :: "pystr \<Rightarrow> db_call \<Rightarrow> db \<Rightarrow> bool" where
  "accepts oid (Receive now oid' rc rq e) d \<longleftrightarrow>
     oid' = oid \<and> fst (record_received now oid' rc rq e d) = Inr True"
| "accepts oid _ d \<longleftrightarrow> False"

fun acceptances :: "(bytes \<Rightarrow> pystr) \<Rightarrow> pystr \<Rightarrow> db_call list \<Rightarrow> db \<Rightarrow> nat" where
  "acceptances sha oid [] d = 0"
| "acceptances sha oid (c # cs) d =
     (if accepts oid c d then 1 else 0) + acceptances sha oid cs (exec sha c d)"

lemma accepts_fresh: "accepts oid c d \<Longrightarrow> find_op oid d = None \<and> find_op oid (exec sha c d) \<noteq> None"
  by (cases c) (auto simp: record_received_def find_op_def find_append split: if_splits option.splits)

lemma no_second_acceptance: "find_op oid d \<noteq> None \<Longrightarrow> acceptances sha oid cs d = 0"
proof (induction cs arbitrary: d)
  case (Cons c cs)
  then have "\<not> accepts oid c d" "find_op oid (exec sha c d) \<noteq> None"
    using accepts_fresh [of oid c d sha] exec_keeps_op [of oid d _ sha c] by auto
  with Cons.IH show ?case by simp
qed simp

text \<open>
  Exactly once: whatever sequence of statements the agent performs, and however often a
  request is redelivered, the store accepts an operation identifier for execution at most once.
\<close>

theorem receipt_accepted_once: "acceptances sha oid cs d \<le> 1"
proof (induction cs arbitrary: d)
  case (Cons c cs)
  show ?case
  proof (cases "accepts oid c d")
    case True
    then show ?thesis using no_second_acceptance accepts_fresh [of oid c d sha] by simp
  next
    case False
    then show ?thesis using Cons.IH by simp
  qed
qed simp

subsection \<open>Idempotency records\<close>

definition idem_keeps :: "idem_row \<Rightarrow> idem_row \<Rightarrow> bool" where
  "idem_keeps r r' \<longleftrightarrow> i_binding r' = i_binding r \<and> i_digest r' = i_digest r"

text \<open>The statements that forget a record: its deletion and the rotation of project identifiers.\<close>

definition retains :: "pystr \<times> pystr \<times> pystr \<Rightarrow> db_call \<Rightarrow> bool" where
  "retains k c = (case c of RotateIds _ _ \<Rightarrow> False | DeleteIdem p cap key \<Rightarrow> (p, cap, key) \<noteq> k | _ \<Rightarrow> True)"

definition touches_idem :: "db_call \<Rightarrow> bool" where
  "touches_idem c = (case c of PutIdem _ _ _ _ _ _ _ _ \<Rightarrow> True | DeleteIdem _ _ _ \<Rightarrow> True
     | RotateIds _ _ \<Rightarrow> True | _ \<Rightarrow> False)"

lemma exec_other_idem: "\<not> touches_idem c \<Longrightarrow> idempotency (exec sha c d) = idempotency d"
  by (cases c) (auto simp: touches_idem_def call_defs Let_def
      split: sum.splits option.splits prod.splits if_splits)

lemma put_keeps:
  assumes "find_idem k d = Some r"
  shows "\<exists>r'. find_idem k (snd (put_idempotency now p c key dg st res b d)) = Some r' \<and> idem_keeps r r'"
proof -
  let ?f = "\<lambda>k' x j r. if idem_key_of r = k' then r\<lparr>i_state := st, i_result := x, i_job := j,
      i_updated := now\<rparr> else r"
  have "find (\<lambda>r. idem_key_of r = k) (map (?f k' x j) (idempotency d)) = Some (?f k' x j r)" for k' x j
    using assms find_map_key [of idem_key_of "?f k' x j" k "idempotency d"]
    by (simp add: find_idem_def) (simp add: idem_key_of_def)
  then have "find_idem k (d\<lparr>idempotency := map (?f k' x j) (idempotency d)\<rparr>) = Some (?f k' x j r)" for k' x j
    by (simp add: find_idem_def)
  moreover have "find_idem k (d\<lparr>idempotency := idempotency d @ x\<rparr>) = Some r" for x
    using assms by (simp add: find_idem_def find_append)
  ultimately show ?thesis
    using assms by (auto simp: put_idempotency_def Let_def idem_keeps_def split: option.split)
qed

lemma exec_keeps_idem:
  assumes "find_idem k d = Some r" "retains k c"
  shows "\<exists>r'. find_idem k (exec sha c d) = Some r' \<and> idem_keeps r r'"
proof (cases "touches_idem c")
  case True
  with assms show ?thesis
  proof (cases c)
    case (DeleteIdem p cap key)
    with assms show ?thesis
      by (auto simp: retains_def delete_idempotency_def find_idem_def idem_keeps_def find_filter_other)
  qed (simp_all add: touches_idem_def retains_def put_keeps)
next
  case False
  then have "find_idem k (exec sha c d) = find_idem k d" by (simp add: find_idem_def exec_other_idem)
  with assms show ?thesis by (simp add: idem_keeps_def)
qed

interpretation idem: row_history "exec sha" "find_idem k" idem_keeps "retains k" for sha k
  by unfold_locales (auto simp: idem_keeps_def intro: exec_keeps_idem [unfolded idem_keeps_def])

lemma put_idempotency_stores:
  assumes "fst (put_idempotency now pid cap key dg st res b d) = Inr ()"
  shows "\<exists>r. find_idem (pid, cap, key) (snd (put_idempotency now pid cap key dg st res b d)) = Some r
    \<and> i_binding r = b \<and> i_digest r = dg"
proof (cases "find_idem (pid, cap, key) d")
  case None
  then show ?thesis using assms
    by (auto simp: put_idempotency_def Let_def find_idem_def find_append idem_key_of_def split: if_splits)
next
  case (Some r)
  then have "i_digest r = dg" "i_binding r = b"
    using assms by (auto simp: put_idempotency_def Let_def split: if_splits)
  then show ?thesis using put_keeps [OF Some] by (auto simp: idem_keeps_def)
qed

text \<open>
  An idempotency key is bound to one request and one authorization: once a record was
  written, and until it is deleted or the identifiers are rotated, whatever else happens in the
  store, reading it under the same binding returns the digest it was written with, reading it
  under another binding fails, and writing it for another request or binding fails and changes
  nothing.
\<close>

theorem idempotency_bound:
  assumes "fst (put_idempotency now pid cap key dg st res b d) = Inr ()"
    and "list_all (retains (pid, cap, key)) cs"
    and "d' = run sha cs (snd (put_idempotency now pid cap key dg st res b d))"
  shows "(\<exists>st' res'. get_idempotency pid cap key b d' = Inr (Some (dg, st', res')))
    \<and> (b' \<noteq> b \<longrightarrow> get_idempotency pid cap key b' d' = Inl idempotency_conflict)
    \<and> (dg' \<noteq> dg \<or> b' \<noteq> b \<longrightarrow>
        put_idempotency now' pid cap key dg' st' res' b' d' = (Inl idempotency_conflict, d'))"
proof -
  obtain r where r: "find_idem (pid, cap, key) (snd (put_idempotency now pid cap key dg st res b d)) = Some r"
    "i_binding r = b" "i_digest r = dg"
    using put_idempotency_stores [OF assms(1)] by blast
  obtain r' where "find_idem (pid, cap, key) d' = Some r'" "i_binding r' = b" "i_digest r' = dg"
    using idem.steps_keep [OF r(1) assms(2), of sha] r(2,3) assms(3) by (auto simp: run_def idem_keeps_def)
  then show ?thesis by (auto simp: get_idempotency_def put_idempotency_def Let_def)
qed

definition example_project_db :: db where
  "example_project_db = empty_db\<lparr>projects := [\<lparr>p_project = \<lparr>project_id = lit ''p'', title = lit ''P'',
     root = [lit ''C:'', lit ''p''], root_fp = lit ''fp'', mode = ISOLATED, enabled = True\<rparr>,
     p_created = 0, p_updated = 0\<rparr>]\<rparr>"

theorem idempotency_bound_witness:
  "\<exists>d'. (\<exists>st' res'. get_idempotency (lit ''p'') SHELL (lit ''k'') example_binding d'
      = Inr (Some (lit ''d1'', st', res')))
    \<and> put_idempotency 9 (lit ''p'') SHELL (lit ''k'') (lit ''d2'') FAILED None example_binding d'
      = (Inl idempotency_conflict, d')"
proof -
  have h: "fst (put_idempotency 1 (lit ''p'') SHELL (lit ''k'') (lit ''d1'') RUNNING None example_binding
      example_project_db) = Inr ()"
    by (simp add: put_idempotency_def find_idem_def example_project_db_def empty_db_def Let_def)
  have "list_all (retains (lit ''p'', SHELL, lit ''k'')) [DeleteIdem (lit ''p'') SHELL (lit ''other'')]"
    by (simp add: retains_def lit_def)
  from idempotency_bound [OF h this refl, of "\<lambda>b. b" example_binding "lit ''d2''"]
  show ?thesis by (fastforce simp: lit_def)
qed

subsection \<open>Registration requests\<close>

definition find_request :: "pystr \<Rightarrow> db \<Rightarrow> reg_row option" where
  "find_request rid d = find (\<lambda>q. rq_id q = rid) (registrations d)"

definition request_keeps :: "reg_row \<Rightarrow> reg_row \<Rightarrow> bool" where
  "request_keeps q q' \<longleftrightarrow> rq_title q' = rq_title q \<and> rq_binding q' = rq_binding q
     \<and> rq_expires q' = rq_expires q \<and> (rq_status q \<noteq> Pending \<longrightarrow> rq_status q' = rq_status q)"

lemma request_keeps_refl [simp]: "request_keeps q q"
  by (simp add: request_keeps_def)

lemma find_request_set_status:
  assumes "find_request rid d = Some q"
    and "registrations d' = set_status now st hit (registrations d) @ ext"
  shows "\<exists>q'. find_request rid d' = Some q' \<and> request_keeps q q'"
proof -
  let ?f = "\<lambda>r. if rq_status r = Pending \<and> hit r then r\<lparr>rq_status := st, rq_updated := now\<rparr> else r"
  have "find (\<lambda>q. rq_id q = rid) (set_status now st hit (registrations d)) = map_option ?f (find_request rid d)"
    unfolding find_request_def set_status_def by (rule find_map_key) simp
  with assms show ?thesis by (simp add: find_request_def find_append request_keeps_def)
qed

lemma set_status_never: "set_status now st (\<lambda>_. False) rows = rows"
  by (simp add: set_status_def)

lemma rotate_one_others:
  "rotate_one now d pc = Inr d' \<Longrightarrow> \<exists>ps os. d' = d\<lparr>operations := os, projects := ps\<rparr>"
  by (cases pc) (auto simp: rotate_one_def split: if_splits)

lemma rotate_loop_others:
  "foldE (rotate_one now) d m = Inr d' \<Longrightarrow> \<exists>ps os. d' = d\<lparr>operations := os, projects := ps\<rparr>"
proof (induction m arbitrary: d)
  case Nil
  then show ?case by (intro exI [of _ "projects d"] exI [of _ "operations d"]) simp
next
  case (Cons pc m)
  then obtain d1 where "rotate_one now d pc = Inr d1" and r: "foldE (rotate_one now) d1 m = Inr d'"
    by (auto simp: res_simps)
  with rotate_one_others Cons.IH [OF r] show ?case by fastforce
qed

lemma rotate_registrations: "registrations (snd (rotate_project_ids now u d)) = registrations d"
  using rotate_loop_others [of now d]
  by (fastforce simp: rotate_project_ids_def Let_def split: sum.splits)

definition touches_requests :: "db_call \<Rightarrow> bool" where
  "touches_requests c = (case c of CreateRequest _ _ _ _ _ \<Rightarrow> True | NextRequest _ \<Rightarrow> True
     | DismissRequest _ _ _ \<Rightarrow> True | CompleteRequest _ _ _ _ _ \<Rightarrow> True | _ \<Rightarrow> False)"

lemma exec_other_requests: "\<not> touches_requests c \<Longrightarrow> registrations (exec sha c d) = registrations d"
  by (cases c) (auto simp: touches_requests_def call_defs Let_def rotate_registrations
      split: sum.splits option.splits prod.splits if_splits)

lemma register_project_requests [simp]:
  "registrations (snd (register_project sha os now u t r m d)) = registrations d"
  by (auto simp: register_project_def Let_def split: sum.splits)

lemma complete_requests:
  "\<exists>st hit. registrations (snd (complete_registration_request sha os now u rid r d))
     = set_status now st hit (registrations d)"
proof (cases "find (\<lambda>q. rq_id q = rid \<and> rq_status q = Pending) (registrations d)")
  case None
  then show ?thesis
    by (intro exI [of _ Expired] exI [of _ "\<lambda>_. False"])
      (simp add: complete_registration_request_def set_status_never)
next
  case (Some q)
  show ?thesis
  proof (cases "rq_expires q \<le> now")
    case True
    with Some show ?thesis
      by (intro exI [of _ Expired] exI [of _ "\<lambda>q. rq_id q = rid"])
        (simp add: complete_registration_request_def dismiss_registration_request_def Let_def)
  next
    case False
    obtain res d1 where p: "register_project sha os now u (rq_title q) r ISOLATED d = (res, d1)"
      by fastforce
    then have regs: "registrations d1 = registrations d"
      using register_project_requests [of sha os now u "rq_title q" r ISOLATED d] by simp
    show ?thesis
    proof (cases res)
      case (Inl e)
      with Some False p regs show ?thesis
        by (intro exI [of _ Expired] exI [of _ "\<lambda>_. False"])
          (simp add: complete_registration_request_def set_status_never)
    next
      case (Inr x)
      with Some False p regs show ?thesis
        by (intro exI [of _ Completed] exI [of _ "\<lambda>q. rq_id q = rid"])
          (simp add: complete_registration_request_def)
    qed
  qed
qed

lemma exec_requests:
  "\<exists>now st hit ext. registrations (exec sha c d) = set_status now st hit (registrations d) @ ext"
proof (cases "touches_requests c")
  case False
  then show ?thesis using set_status_never by (metis append_Nil2 exec_other_requests)
next
  case True
  then show ?thesis
  proof (cases c)
    case (CreateRequest now u t b e)
    then have "\<exists>ext. registrations (exec sha c d) = registrations d @ ext"
      by (auto simp: create_registration_request_def Let_def split: sum.splits)
    then show ?thesis using set_status_never by metis
  next
    case (NextRequest now)
    then have "registrations (exec sha c d)
      = set_status now Expired (\<lambda>r. rq_expires r \<le> now) (registrations d) @ []"
      by (simp add: next_registration_request_def Let_def)
    then show ?thesis by blast
  next
    case (DismissRequest now rid e)
    then have "registrations (exec sha c d)
      = set_status now (if e then Expired else Dismissed) (\<lambda>r. rq_id r = rid) (registrations d) @ []"
      by (simp add: dismiss_registration_request_def Let_def)
    then show ?thesis by blast
  next
    case (CompleteRequest os now u rid r)
    then show ?thesis using complete_requests [of sha os now u rid r d] by (metis append_Nil2 exec.simps(19))
  qed (simp_all add: touches_requests_def)
qed

lemma exec_keeps_request:
  "find_request rid d = Some q \<Longrightarrow> \<exists>q'. find_request rid (exec sha c d) = Some q' \<and> request_keeps q q'"
  using exec_requests [of sha c d] find_request_set_status by blast

interpretation requests: row_history "exec sha" "find_request rid" request_keeps "\<lambda>_. True" for sha rid
  by unfold_locales (auto simp: request_keeps_def dest: exec_keeps_request [unfolded request_keeps_def])

end
