(* ===== verification/Agent_Db_Inv.thy ===== *)
theory Agent_Db_Inv
  imports Agent_Db_Laws
begin

text \<open>
  The constraints of the agent's schema as an invariant of every run, and the laws that rest on
  it: registration requests, connection epochs, the rotation of project identifiers, and the
  redaction of the stored requests.
\<close>

section \<open>The schema's constraints\<close>

definition wf_db :: "db \<Rightarrow> bool" where
  "wf_db d \<longleftrightarrow> distinct (map row_pid (projects d)) \<and> distinct (map (root \<circ> p_project) (projects d))
     \<and> distinct (map op_id (operations d)) \<and> distinct (map idem_key_of (idempotency d))
     \<and> distinct (map rq_id (registrations d)) \<and> distinct (map pm_key (read_permissions d))
     \<and> distinct (map pm_key (shell_permissions d)) \<and> distinct (map pm_key (screen_permissions d))
     \<and> fk_ok d"

lemma wf_empty_db: "wf_db empty_db"
  by (simp add: wf_db_def empty_db_def fk_ok_def)

lemma fk_ok_frame [simp]:
  "fk_ok (d\<lparr>registrations := x\<rparr>) = fk_ok d" "fk_ok (d\<lparr>settings := m\<rparr>) = fk_ok d"
  "fk_ok (d\<lparr>read_permissions := y\<rparr>) = fk_ok d" "fk_ok (d\<lparr>shell_permissions := y\<rparr>) = fk_ok d"
  "fk_ok (d\<lparr>screen_permissions := y\<rparr>) = fk_ok d"
  by (simp_all add: fk_ok_def cong: option.case_cong)

lemma insert_or_replace_distinct:
  "distinct (map pm_key rows) \<Longrightarrow> distinct (map pm_key (insert_or_replace row rows))"
  by (auto simp: insert_or_replace_def distinct_map_filter)

lemma fk_ok_projects_mono:
  "fk_ok d \<Longrightarrow> row_pid ` set (projects d) \<subseteq> row_pid ` set ps \<Longrightarrow> fk_ok (d\<lparr>projects := ps\<rparr>)"
  by (fastforce simp: fk_ok_def split: option.splits)

lemma fk_ok_ops:
  assumes "fk_ok d" "\<And>r. r \<in> set os \<Longrightarrow> known_project (r_project (op_receipt r)) d"
  shows "fk_ok (d\<lparr>operations := os\<rparr>)"
  using assms by (fastforce simp: fk_ok_def known_project_def split: option.splits)

lemma fk_ok_known: "fk_ok d \<Longrightarrow> r \<in> set (operations d) \<Longrightarrow> known_project (r_project (op_receipt r)) d"
  by (fastforce simp: fk_ok_def known_project_def split: option.splits)

lemma wf_register_project: "wf_db d \<Longrightarrow> wf_db (snd (register_project sha os now u t r m d))"
  by (auto simp: wf_db_def register_project_def Let_def fk_ok_def split: sum.splits option.splits)

lemma wf_update_project:
  assumes "wf_db d" "\<And>p. project_id (f p) = project_id p" "\<And>p. root (f p) = root p"
  shows "wf_db (snd (update_project now pid f d))"
proof -
  let ?g = "\<lambda>r. if row_pid r = pid then r\<lparr>p_project := f (p_project r), p_updated := now\<rparr> else r"
  have g: "row_pid (?g r) = row_pid r" "root (p_project (?g r)) = root (p_project r)" for r
    using assms(2,3) by simp_all
  then have "row_pid ` set (map ?g (projects d)) = row_pid ` set (projects d)"
    by (simp only: list.set_map image_image)
  then have "fk_ok (d\<lparr>projects := map ?g (projects d)\<rparr>)"
    using assms(1) by (intro fk_ok_projects_mono) (simp_all add: wf_db_def)
  moreover have "distinct (map (\<lambda>r. row_pid (?g r)) (projects d))"
    "distinct (map (\<lambda>r. root (p_project (?g r))) (projects d))"
    unfolding g using assms(1) by (simp_all add: wf_db_def comp_def)
  ultimately show ?thesis
    using assms(1) by (simp add: wf_db_def update_project_def Let_def comp_def)
qed

lemma wf_ops_update:
  assumes "wf_db d" "\<And>r. op_id (f r) = op_id r" "\<And>r. op_receipt (f r) = op_receipt r"
  shows "wf_db (d\<lparr>operations := map f (operations d)\<rparr>)"
proof -
  have "fk_ok (d\<lparr>operations := map f (operations d)\<rparr>)"
    using assms fk_ok_known [of d] by (intro fk_ok_ops) (auto simp: wf_db_def)
  then show ?thesis using assms(1,2) by (simp add: wf_db_def comp_def)
qed

lemma wf_record_received: "wf_db d \<Longrightarrow> wf_db (snd (record_received now oid rc rq e d))"
proof -
  assume wf: "wf_db d"
  have "wf_db (update_op oid (\<lambda>r. r\<lparr>op_epoch := e, op_updated := now\<rparr>) d)"
    unfolding update_op_def by (rule wf_ops_update [OF wf]) simp_all
  moreover have "wf_db (d\<lparr>operations := operations d @ [row]\<rparr>)"
    if "op_id row = oid" "op_receipt row = rc" "find_op oid d = None" "known_project (r_project rc) d" for row
    using wf that fk_ok_ops [of d "operations d @ [row]"] fk_ok_known [of d]
    by (auto simp: wf_db_def find_op_def find_None_iff)
  ultimately show ?thesis using wf by (auto simp: record_received_def split: option.splits)
qed

lemma wf_transition: "wf_db d \<Longrightarrow> wf_db (snd (transition_operation now oid st res d))"
  using wf_ops_update [of d]
  by (auto simp: transition_operation_def update_op_def split: option.splits)

lemma wf_acknowledge: "wf_db d \<Longrightarrow> wf_db (snd (acknowledge_terminal now c dg b p d))"
  using wf_ops_update [of d] by (auto simp: acknowledge_terminal_def Let_def)

lemma wf_put_idempotency: "wf_db d \<Longrightarrow> wf_db (snd (put_idempotency now p c k dg st res b d))"
proof -
  assume wf: "wf_db d"
  have "wf_db (d\<lparr>idempotency := map f (idempotency d)\<rparr>)"
    if "\<And>r. i_project (f r) = i_project r \<and> i_capability (f r) = i_capability r \<and> i_key (f r) = i_key r" for f
  proof -
    have "idem_key_of (f r) = idem_key_of r" for r using that by (simp add: idem_key_of_def)
    then show ?thesis using wf that by (auto simp: wf_db_def fk_ok_def comp_def split: option.splits)
  qed
  moreover have "wf_db (d\<lparr>idempotency := idempotency d @ [row]\<rparr>)"
    if "find_idem (idem_key_of row) d = None" "i_project row \<in> row_pid ` set (projects d)" for row
    using wf that by (auto simp: wf_db_def fk_ok_def find_idem_def find_None_iff cong: option.case_cong)
  ultimately show ?thesis using wf
    by (auto simp: put_idempotency_def Let_def idem_key_of_def split: option.splits)
qed

lemma wf_registrations:
  "wf_db d \<Longrightarrow> map rq_id rs = map rq_id (registrations d) \<Longrightarrow> wf_db (d\<lparr>registrations := rs\<rparr>)"
  by (simp add: wf_db_def)

lemma set_status_ids [simp]: "map rq_id (set_status now st hit rows) = map rq_id rows"
  by (simp add: set_status_def comp_def)

lemma wf_create_request: "wf_db d \<Longrightarrow> wf_db (snd (create_registration_request now u t b e d))"
  by (auto simp: wf_db_def create_registration_request_def Let_def split: sum.splits)

lemma wf_next_request: "wf_db d \<Longrightarrow> wf_db (snd (next_registration_request now d))"
  by (simp add: next_registration_request_def Let_def wf_registrations)

lemma wf_dismiss_request: "wf_db d \<Longrightarrow> wf_db (snd (dismiss_registration_request now rid e d))"
  by (simp add: dismiss_registration_request_def Let_def wf_registrations)

lemma wf_complete_request: "wf_db d \<Longrightarrow> wf_db (snd (complete_registration_request sha os now u rid r d))"
  using wf_dismiss_request [of d now rid True] wf_register_project [of d sha os now u _ r ISOLATED]
  by (auto simp: complete_registration_request_def wf_registrations
      split: option.split prod.split sum.split) (metis snd_conv wf_registrations set_status_ids)+

lemma wf_settings: "wf_db d \<Longrightarrow> wf_db (d\<lparr>settings := m\<rparr>)"
  by (simp add: wf_db_def)

lemma wf_permissions:
  "wf_db d \<Longrightarrow> distinct (map pm_key rs) \<Longrightarrow> wf_db (d\<lparr>read_permissions := rs\<rparr>)"
  "wf_db d \<Longrightarrow> distinct (map pm_key rs) \<Longrightarrow> wf_db (d\<lparr>shell_permissions := rs\<rparr>)"
  "wf_db d \<Longrightarrow> distinct (map pm_key rs) \<Longrightarrow> wf_db (d\<lparr>screen_permissions := rs\<rparr>)"
  by (simp_all add: wf_db_def)

lemma wf_perm_keys:
  "wf_db d \<Longrightarrow> distinct (map pm_key (read_permissions d))"
  "wf_db d \<Longrightarrow> distinct (map pm_key (shell_permissions d))"
  "wf_db d \<Longrightarrow> distinct (map pm_key (screen_permissions d))"
  by (simp_all add: wf_db_def)

lemma wf_delete_idempotency: "wf_db d \<Longrightarrow> wf_db (snd (delete_idempotency p c k d))"
  by (auto simp: wf_db_def delete_idempotency_def fk_ok_def distinct_map_filter split: option.splits)

section \<open>Rotation of project identifiers\<close>

definition renamed :: "(pystr \<times> pystr) list \<Rightarrow> pystr \<Rightarrow> pystr" where
  "renamed m p = (case map_of m p of Some q \<Rightarrow> q | None \<Rightarrow> p)"

definition rename_row :: "nat \<Rightarrow> (pystr \<times> pystr) list \<Rightarrow> project_row \<Rightarrow> project_row" where
  "rename_row now m r =
     (if row_pid r \<in> fst ` set m
      then r\<lparr>p_project := (p_project r)\<lparr>project_id := renamed m (row_pid r)\<rparr>, p_updated := now\<rparr> else r)"

definition rename_op :: "(pystr \<times> pystr) list \<Rightarrow> op_row \<Rightarrow> op_row" where
  "rename_op m r = r\<lparr>op_receipt := (op_receipt r)\<lparr>r_project := map_option (renamed m) (r_project (op_receipt r))\<rparr>\<rparr>"

lemma renamed_fresh: "p \<notin> fst ` set m \<Longrightarrow> renamed m p = p"
  by (simp add: renamed_def map_of_eq_None_iff [THEN iffD2])

lemma renamed_Cons: "renamed ((p, c) # m) x = (if x = p then c else renamed m x)"
  by (simp add: renamed_def)

lemma rename_row_pid [simp]: "row_pid (rename_row now m r) = renamed m (row_pid r)"
  by (simp add: rename_row_def renamed_fresh)

lemma rotate_loop:
  assumes "distinct (map fst m)" "distinct (map snd m)"
    and "snd ` set m \<inter> (fst ` set m \<union> row_pid ` set (projects d)) = {}"
  shows "foldE (rotate_one now) d m = Inr (d\<lparr>operations := map (rename_op m) (operations d),
      projects := map (rename_row now m) (projects d)\<rparr>)"
  using assms
proof (induction m arbitrary: d)
  case Nil
  have "renamed [] = id" by (rule ext) (simp add: renamed_def)
  then have "rename_op [] r = r" "rename_row now [] p = p" for r p
    by (simp_all add: rename_op_def rename_row_def option.map_id)
  then show ?case by simp
next
  case (Cons pc m)
  obtain p c where pc: "pc = (p, c)" by (cases pc)
  let ?one = "\<lambda>r. if row_pid r = p then r\<lparr>p_project := (p_project r)\<lparr>project_id := c\<rparr>, p_updated := now\<rparr> else r"
  let ?d1 = "d\<lparr>operations := map (rename_project p c) (operations d), projects := map ?one (projects d)\<rparr>"
  have c: "c \<notin> fst ` set m" "c \<noteq> p" "c \<notin> row_pid ` set (projects d)" "c \<notin> snd ` set m" "p \<notin> fst ` set m"
    using Cons.prems pc by auto
  then have step: "rotate_one now d pc = Inr ?d1" by (auto simp: rotate_one_def pc)
  have "row_pid ` set (projects ?d1) \<subseteq> insert c (row_pid ` set (projects d))" by auto
  moreover have "snd ` set m \<inter> (fst ` set m \<union> row_pid ` set (projects d)) = {}"
    using Cons.prems(3) by auto
  ultimately have "snd ` set m \<inter> (fst ` set m \<union> row_pid ` set (projects ?d1)) = {}"
    using c(4) by blast
  then have "foldE (rotate_one now) ?d1 m = Inr (?d1\<lparr>operations := map (rename_op m) (operations ?d1),
      projects := map (rename_row now m) (projects ?d1)\<rparr>)"
    using Cons.prems by (intro Cons.IH) auto
  moreover have "rename_op m (rename_project p c r) = rename_op (pc # m) r" for r
    using c by (cases "r_project (op_receipt r)") (auto simp: rename_op_def rename_project_def pc renamed_Cons renamed_fresh)
  moreover have "rename_row now m (?one r) = rename_row now (pc # m) r" for r
    using c by (auto simp: rename_row_def pc renamed_Cons)
  ultimately show ?case using step by (simp add: comp_def)
qed

text \<open>Identifiers drawn from \<open>uuid4\<close> are distinct and new.\<close>

definition fresh_ids :: "(nat \<Rightarrow> pystr) \<Rightarrow> db \<Rightarrow> bool" where
  "fresh_ids u d \<longleftrightarrow> distinct (map u [0..<length (projects d)])
     \<and> (\<forall>i\<in>set [0..<length (projects d)]. u i \<notin> row_pid ` set (projects d))"

lemma renamed_ids:
  "distinct olds \<Longrightarrow> length news = length olds \<Longrightarrow> map (renamed (zip olds news)) olds = news"
  by (rule nth_equalityI) (auto simp: renamed_def map_of_zip_nth)

lemma rotate_mapping:
  assumes "wf_db d" "fresh_ids u d"
  defines "olds \<equiv> map row_pid (projects d)" and "news \<equiv> map u [0..<length (projects d)]"
  shows "rotate_project_ids now u d = (Inr (zip olds news),
    d\<lparr>operations := map (rename_op (zip olds news)) (operations d),
      projects := map (rename_row now (zip olds news)) (projects d), idempotency := []\<rparr>)"
    and "map row_pid (map (rename_row now (zip olds news)) (projects d)) = news"
proof -
  let ?m = "zip olds news"
  have d: "distinct olds" "distinct news" "length news = length olds"
    using assms(1,2) by (auto simp: olds_def news_def wf_db_def fresh_ids_def)
  have fst: "fst ` set ?m = set olds" and snd: "snd ` set ?m = set news"
    using d(3) by (metis list.set_map map_fst_zip map_snd_zip)+
  have "set news \<inter> set olds = {}" using assms(2) by (auto simp: olds_def news_def fresh_ids_def)
  then have "foldE (rotate_one now) d ?m = Inr (d\<lparr>operations := map (rename_op ?m) (operations d),
      projects := map (rename_row now ?m) (projects d)\<rparr>)"
    using d by (intro rotate_loop, unfold fst snd) (auto simp: olds_def)
  moreover have pids: "map row_pid (map (rename_row now ?m) (projects d)) = news"
    using renamed_ids [OF d(1,3)] by (simp add: olds_def comp_def)
  moreover have "fk_ok (d\<lparr>operations := map (rename_op ?m) (operations d),
      projects := map (rename_row now ?m) (projects d), idempotency := []\<rparr>)"
  proof -
    have "renamed ?m p \<in> row_pid ` set (map (rename_row now ?m) (projects d))" if "p \<in> row_pid ` set (projects d)" for p
      using that by (auto simp: image_iff)
    then show ?thesis using assms(1)
      by (fastforce simp: wf_db_def fk_ok_def rename_op_def split: option.splits)
  qed
  moreover have "d\<lparr>idempotency := []\<rparr> = d" if "projects d = []"
    using that assms(1) by (cases d) (auto simp: wf_db_def fk_ok_def)
  ultimately show "rotate_project_ids now u d = (Inr ?m,
    d\<lparr>operations := map (rename_op ?m) (operations d),
      projects := map (rename_row now ?m) (projects d), idempotency := []\<rparr>)"
    by (cases "projects d") (simp_all add: rotate_project_ids_def Let_def olds_def news_def)
  show "map row_pid (map (rename_row now ?m) (projects d)) = news" by (rule pids)
qed

lemma wf_rotated:
  assumes "wf_db d" "distinct (map row_pid ps)"
    and "map (root \<circ> p_project) ps = map (root \<circ> p_project) (projects d)"
    and "map op_id os = map op_id (operations d)"
    and "fk_ok (d\<lparr>operations := os, projects := ps, idempotency := []\<rparr>)"
  shows "wf_db (d\<lparr>operations := os, projects := ps, idempotency := []\<rparr>)"
  using assms by (simp add: wf_db_def)

text \<open>
  Rotating the identifiers after a re-enrolment succeeds when the new ones are fresh, and
  keeps the store intact: the projects get exactly the new identifiers in order, with titles,
  roots, fingerprints, modes and flags unchanged; every stored operation that referred to a
  project refers to the same project under its new identifier and is otherwise unchanged; all
  idempotency records are gone; and no reference dangles.
\<close>

theorem rotate_keeps_references:
  assumes "wf_db d" "fresh_ids u d" "rotate_project_ids now u d = (res, d')"
  shows "res = Inr (zip (map row_pid (projects d)) (map u [0..<length (projects d)]))
    \<and> map row_pid (projects d') = map u [0..<length (projects d)]
    \<and> map (\<lambda>r. (p_project r)\<lparr>project_id := []\<rparr>) (projects d') = map (\<lambda>r. (p_project r)\<lparr>project_id := []\<rparr>) (projects d)
    \<and> operations d' = map (rename_op (zip (map row_pid (projects d)) (map u [0..<length (projects d)]))) (operations d)
    \<and> idempotency d' = [] \<and> fk_ok d'"
proof -
  let ?m = "zip (map row_pid (projects d)) (map u [0..<length (projects d)])"
  have eq: "res = Inr ?m" "d' = d\<lparr>operations := map (rename_op ?m) (operations d),
      projects := map (rename_row now ?m) (projects d), idempotency := []\<rparr>"
    using rotate_mapping(1) [OF assms(1,2), of now] assms(3) by simp_all
  have "(p_project (rename_row now ?m r))\<lparr>project_id := []\<rparr> = (p_project r)\<lparr>project_id := []\<rparr>" for r
    by (simp add: rename_row_def)
  moreover have "fk_ok d'"
    using assms(1,3) eq(1) by (auto simp: rotate_project_ids_def Let_def wf_db_def split: if_splits sum.splits)
  ultimately show ?thesis
    using eq rotate_mapping(2) [OF assms(1,2), of now] by (simp add: comp_def)
qed

theorem rotate_keeps_references_witness:
  "\<exists>d'. rotate_project_ids 9 (\<lambda>i. 110 # replicate i 120) example_project_db = (Inr [(lit ''p'', lit ''n'')], d')
    \<and> map row_pid (projects d') = [lit ''n'']"
proof -
  let ?u = "\<lambda>i. 110 # replicate i 120"
  have wf: "wf_db example_project_db"
    by (simp add: wf_db_def example_project_db_def empty_db_def fk_ok_def)
  have fresh: "fresh_ids ?u example_project_db"
    by (simp add: fresh_ids_def example_project_db_def empty_db_def lit_def)
  obtain res d' where r: "rotate_project_ids 9 ?u example_project_db = (res, d')" by fastforce
  from rotate_keeps_references [OF wf fresh this] r show ?thesis
    by (auto simp: example_project_db_def lit_def)
qed

lemma rotate_loop_roots:
  "foldE (rotate_one now) d m = Inr d' \<Longrightarrow> distinct (map row_pid (projects d)) \<Longrightarrow>
     distinct (map row_pid (projects d'))
     \<and> map (root \<circ> p_project) (projects d') = map (root \<circ> p_project) (projects d)
     \<and> map op_id (operations d') = map op_id (operations d)"
proof (induction m arbitrary: d)
  case Nil
  then show ?case by simp
next
  case (Cons pc m)
  obtain p c where pc: "pc = (p, c)" by (cases pc)
  let ?f = "\<lambda>r. if row_pid r = p then r\<lparr>p_project := (p_project r)\<lparr>project_id := c\<rparr>, p_updated := now\<rparr> else r"
  obtain d1 where d1: "rotate_one now d (p, c) = Inr d1" and rest: "foldE (rotate_one now) d1 m = Inr d'"
    using Cons.prems(1) pc by (auto simp: res_simps)
  then have e: "projects d1 = map ?f (projects d)" "map op_id (operations d1) = map op_id (operations d)"
    and c: "\<forall>r\<in>set (projects d). row_pid r = c \<longrightarrow> row_pid r = p"
    by (auto simp: rotate_one_def rename_project_def comp_def split: if_splits)
  have "inj_on (\<lambda>x. if x = p then c else x) (row_pid ` set (projects d))"
    using c by (auto simp: inj_on_def)
  then have "distinct (map (\<lambda>x. if x = p then c else x) (map row_pid (projects d)))"
    using Cons.prems(2) by (simp add: distinct_map comp_inj_on)
  moreover have "map row_pid (projects d1) = map (\<lambda>x. if x = p then c else x) (map row_pid (projects d))"
    by (simp add: e)
  moreover have "map (root \<circ> p_project) (projects d1) = map (root \<circ> p_project) (projects d)"
    by (simp add: e)
  ultimately show ?case using Cons.IH [OF rest] e(2) by (simp only: simp_thms)
qed

lemma wf_rotate: "wf_db d \<Longrightarrow> wf_db (snd (rotate_project_ids now u d))"
proof -
  assume wf: "wf_db d"
  let ?m = "zip (map row_pid (projects d)) (map u [0..<length (projects d)])"
  show ?thesis
  proof (cases "foldE (rotate_one now) d ?m")
    case (Inl e)
    then show ?thesis using wf by (simp add: rotate_project_ids_def Let_def)
  next
    case (Inr d1)
    obtain ps os where d1: "d1 = d\<lparr>operations := os, projects := ps\<rparr>"
      using rotate_loop_others [OF Inr] by blast
    have "fk_ok (d1\<lparr>idempotency := []\<rparr>) \<Longrightarrow> wf_db (d1\<lparr>idempotency := []\<rparr>)"
      using rotate_loop_roots [OF Inr] wf_rotated [OF wf, of ps os] wf d1 by (simp add: wf_db_def)
    then show ?thesis using wf Inr by (simp add: rotate_project_ids_def Let_def)
  qed
qed

lemmas wf_calls = wf_register_project wf_update_project wf_rotate wf_settings wf_permissions
  wf_create_request wf_next_request wf_dismiss_request wf_complete_request wf_record_received
  wf_transition wf_acknowledge wf_put_idempotency wf_delete_idempotency

lemma wf_exec: "wf_db d \<Longrightarrow> wf_db (exec sha c d)"
  using wf_perm_keys [of d]
  by (cases c) (auto simp: wf_calls set_project_mode_def set_project_title_def set_project_enabled_def
      set_setting_def next_connection_epoch_def set_connection_epoch_def save_read_permission_def
      save_shell_permission_def save_screen_permission_def revoke_read_permissions_def
      revoke_shell_permissions_def revoke_screen_permissions_def revoke_permission_def Let_def
      insert_or_replace_distinct distinct_map_filter split: sum.splits option.splits)



section \<open>Registration requests\<close>

text \<open>
  A registration request is settled once: after it was completed, dismissed or has expired,
  no sequence of statements changes that, and completing it again registers nothing: the call
  fails and leaves the store as it is.
\<close>

theorem request_settled_once:
  assumes "wf_db d" "find_request rid d = Some q" "rq_status q \<noteq> Pending" "d' = run sha cs d"
  shows "(\<exists>q'. find_request rid d' = Some q' \<and> rq_status q' = rq_status q)
    \<and> complete_registration_request sha os now u rid r d' = (Inl (raise ''request_not_found''), d')"
proof -
  have wf: "distinct (map rq_id (registrations d'))"
    using assms(1,4) by (induction cs arbitrary: d) (simp_all add: wf_exec, simp add: wf_db_def)
  obtain q' where q': "find_request rid d' = Some q'" "rq_status q' = rq_status q"
    using requests.steps_keep [OF assms(2), of cs sha] assms(3,4)
    by (auto simp: run_def list_all_iff request_keeps_def)
  have "x = q'" if "x \<in> set (registrations d')" "rq_id x = rid" for x
    using that find_SomeD [OF q'(1) [unfolded find_request_def]] wf
    by (auto simp: distinct_map inj_on_def)
  then have "find (\<lambda>q. rq_id q = rid \<and> rq_status q = Pending) (registrations d') = None"
    using q'(2) assms(3) by (auto simp: find_None_iff)
  with q' show ?thesis by (simp add: complete_registration_request_def)
qed

theorem request_settled_once_witness:
  "\<exists>d. complete_registration_request (\<lambda>b. b) example_os 99 (lit ''u'') (lit ''project_request_1'') [lit ''C:''] d
     = (Inl (raise ''request_not_found''), d) \<and> find_request (lit ''project_request_1'') d \<noteq> None"
proof -
  let ?d = "run (\<lambda>b. b) [CreateRequest 0 (lit ''1'') (lit ''T'') example_binding 1,
    DismissRequest 1 (lit ''project_request_1'') False] empty_db"
  have wf: "wf_db ?d" by (simp add: wf_exec wf_empty_db del: exec.simps)
  have "find_request (lit ''project_request_1'') ?d
      = Some \<lparr>rq_id = lit ''project_request_1'', rq_title = lit ''T'', rq_binding = example_binding, rq_epoch = 1,
          rq_status = Dismissed, rq_expires = 900000000, rq_created = 0, rq_updated = 1\<rparr>"
    by (simp add: create_registration_request_def dismiss_registration_request_def clean_title_def
        strip_def lit_def is_space_def Let_def set_status_def find_request_def empty_db_def)
  from request_settled_once [OF wf this _ refl, of "\<lambda>b. b" "[]" example_os 99 "lit ''u''" "[lit ''C:'']"]
  show ?thesis by auto
qed

section \<open>Connection epochs\<close>

lemma digits_val_app:
  "digits_val acc True (s @ [48 + k]) = map_option (\<lambda>n. 10 * n + k) (digits_val acc True s)"
  if "list_all (\<lambda>c. 48 \<le> c \<and> c \<le> 57) s" "k < 10"
  using that by (induction s arbitrary: acc) auto

lemma py_str_nat_digits: "py_str_nat n \<noteq> [] \<and> list_all (\<lambda>c. 48 \<le> c \<and> c \<le> 57) (py_str_nat n)"
proof (induction n rule: py_str_nat.induct)
  case (1 n)
  then show ?case by (subst (1 2) py_str_nat.simps) auto
qed

lemma digits_val_first: "s \<noteq> [] \<Longrightarrow> list_all (\<lambda>c. 48 \<le> c \<and> c \<le> 57) s \<Longrightarrow>
    digits_val 0 False s = digits_val 0 True s"
  by (cases s) auto

lemma digits_val_py_str: "digits_val 0 True (py_str_nat n) = Some n"
proof (induction n rule: py_str_nat.induct)
  case (1 n)
  show ?case
  proof (cases "n < 10")
    case True
    then show ?thesis by (subst py_str_nat.simps) simp
  next
    case False
    then show ?thesis using 1 py_str_nat_digits [of "n div 10"]
      by (subst py_str_nat.simps) (simp add: digits_val_app)
  qed
qed

lemma strip_digits: "list_all (\<lambda>c. 48 \<le> c \<and> c \<le> 57) s \<Longrightarrow> strip s = s"
proof -
  assume "list_all (\<lambda>c. 48 \<le> c \<and> c \<le> 57) s"
  then have "\<forall>c\<in>set s. \<not> is_space c" by (auto simp: list_all_iff is_space_def)
  moreover have "\<forall>c\<in>set t. \<not> is_space c \<Longrightarrow> dropWhile is_space t = t" for t by (cases t) auto
  ultimately have "dropWhile is_space s = s" "dropWhile is_space (rev s) = rev s" by (metis set_rev)+
  then show ?thesis by (simp add: strip_def)
qed

text \<open>Reading back a number that was written as text.\<close>

lemma py_int_str:
  assumes "0 \<le> i" shows "py_int (py_str i) = Some i"
proof -
  let ?s = "py_str_nat (nat i)"
  note d = py_str_nat_digits [of "nat i"]
  then obtain c cs where cs: "?s = c # cs" by (cases ?s) auto
  with d have c: "c \<noteq> 45" "c \<noteq> 43" by auto
  have "digits_val 0 False ?s = Some (nat i)" using digits_val_first digits_val_py_str d by simp
  then show ?thesis
    using assms d cs c strip_digits [of ?s] by (simp add: py_int_def py_str_def)
qed

definition stored_epoch :: "db \<Rightarrow> int option" where
  "stored_epoch d = (case Option.bind (settings d EPOCH_KEY) py_int of
     Some n \<Rightarrow> if 0 \<le> n then Some n else None | None \<Rightarrow> None)"

text \<open>The statements that may set the epoch to any value.\<close>

definition keeps_epoch :: "db_call \<Rightarrow> bool" where
  "keeps_epoch c = (case c of SetEpoch _ \<Rightarrow> False | SetSetting k _ \<Rightarrow> k \<noteq> EPOCH_KEY | _ \<Rightarrow> True)"

lemma rotate_settings: "settings (snd (rotate_project_ids now u d)) = settings d"
  using rotate_loop_others [of now d]
  by (fastforce simp: rotate_project_ids_def Let_def split: sum.splits)

definition touches_settings :: "db_call \<Rightarrow> bool" where
  "touches_settings c = (case c of SetEpoch _ \<Rightarrow> True | SetSetting _ _ \<Rightarrow> True | NextEpoch \<Rightarrow> True | _ \<Rightarrow> False)"

lemma exec_other_settings: "\<not> touches_settings c \<Longrightarrow> settings (exec sha c d) = settings d"
  by (cases c) (auto simp: touches_settings_def call_defs Let_def rotate_settings
      split: sum.splits option.splits prod.splits if_splits)

lemma next_epoch_stored:
  assumes "stored_epoch d = Some n"
  shows "fst (next_connection_epoch d) = Inr (n + 1)"
    "stored_epoch (snd (next_connection_epoch d)) = Some (n + 1)"
  using assms py_int_str [of "n + 1"]
  by (auto simp: stored_epoch_def next_connection_epoch_def bind_eq_Some_conv split: option.splits if_splits)

lemma exec_keeps_epoch:
  assumes "stored_epoch d = Some n" "keeps_epoch c"
  shows "\<exists>n'. stored_epoch (exec sha c d) = Some n' \<and> n \<le> n'"
proof (cases "touches_settings c")
  case True
  with assms next_epoch_stored [OF assms(1)] show ?thesis
    by (cases c) (auto simp: touches_settings_def keeps_epoch_def set_setting_def stored_epoch_def)
next
  case False
  with assms show ?thesis by (simp add: stored_epoch_def exec_other_settings)
qed

interpretation epochs: row_history "exec sha" stored_epoch "(\<le>)" keeps_epoch for sha
  by unfold_locales (auto intro: exec_keeps_epoch)

lemma next_epoch_stores:
  assumes "fst (next_connection_epoch d) = Inr n" "0 \<le> n"
  shows "stored_epoch (snd (next_connection_epoch d)) = Some n"
  using assms py_int_str [of n]
  by (auto simp: next_connection_epoch_def stored_epoch_def split: option.splits)

text \<open>
  Connection epochs grow: an epoch drawn after another one, with any statements in between
  that do not set the epoch explicitly, is greater than it; so messages of an older connection
  can be told from those of a newer one.
\<close>

theorem epochs_increase:
  assumes "fst (next_connection_epoch d) = Inr n" "0 \<le> n" "list_all keeps_epoch cs"
  shows "\<exists>m. fst (next_connection_epoch (run sha cs (snd (next_connection_epoch d)))) = Inr m \<and> n < m"
proof -
  obtain k where "stored_epoch (run sha cs (snd (next_connection_epoch d))) = Some k" "n \<le> k"
    using epochs.steps_keep [OF next_epoch_stores [OF assms(1,2)] assms(3), of sha] by (auto simp: run_def)
  with next_epoch_stored(1) show ?thesis by (intro exI [of _ "k + 1"]) simp
qed

theorem epochs_increase_witness:
  "\<exists>m. fst (next_connection_epoch (run (\<lambda>b. b) [NextEpoch] (snd (next_connection_epoch empty_db)))) = Inr m \<and> 1 < m"
proof -
  have "fst (next_connection_epoch empty_db) = Inr 1" by (simp add: next_connection_epoch_def empty_db_def)
  from epochs_increase [OF this, of "[NextEpoch]" "\<lambda>b. b"] show ?thesis by (simp add: keeps_epoch_def)
qed

section \<open>Redaction\<close>

text \<open>No object within the value has a secret key with anything but the redaction mark.\<close>

fun redacted :: "json \<Rightarrow> bool" where
  "redacted (JObj kvs) \<longleftrightarrow> (\<forall>(k, v)\<in>set kvs. (secret_key k \<longrightarrow> v = REDACTED) \<and> redacted v)"
| "redacted (JList vs) \<longleftrightarrow> (\<forall>v\<in>set vs. redacted v)"
| "redacted _ \<longleftrightarrow> True"

lemma activity_safe_value_redacted: "redacted (activity_safe_value depth v)"
proof (induction depth v rule: activity_safe_value.induct)
  case (1 depth kvs)
  then show ?case by (auto simp: REDACTED_def)
qed auto

lemma record_received_request:
  "fst (record_received now oid rc rq e d) = Inr True \<Longrightarrow>
     \<exists>r. find_op oid (snd (record_received now oid rc rq e d)) = Some r
       \<and> op_request r = map_option (activity_safe_value 0) rq"
  by (auto simp: record_received_def find_op_def find_append split: if_splits option.splits)

text \<open>
  Credentials never reach the audit log: the request that the store keeps for an accepted
  operation, at any later time, has no value under a secret key (compared without case and with
  dashes read as underscores) at any nesting depth, only the redaction mark.
\<close>

theorem stored_request_redacted:
  assumes "fst (record_received now oid rc rq e d) = Inr True"
  shows "\<exists>r. find_op oid (run sha cs (snd (record_received now oid rc rq e d))) = Some r
    \<and> (case op_request r of None \<Rightarrow> True | Some v \<Rightarrow> redacted v)"
proof -
  obtain r where r: "find_op oid (snd (record_received now oid rc rq e d)) = Some r"
    "op_request r = map_option (activity_safe_value 0) rq"
    using record_received_request [OF assms] by blast
  then obtain r' where "find_op oid (run sha cs (snd (record_received now oid rc rq e d))) = Some r'"
    "op_request r' = map_option (activity_safe_value 0) rq"
    using run_keeps_op [OF r(1), of sha cs] by (auto simp: op_keeps_def)
  then show ?thesis by (cases rq) (simp_all add: activity_safe_value_redacted)
qed

theorem stored_request_redacted_witness:
  "\<exists>r. find_op (lit ''op'') (run (\<lambda>b. b) [] (snd (record_received 1 (lit ''op'') example_receipt
      (Some (JObj [(lit ''Refresh-Token'', JStr (lit ''x''))])) 1 empty_db))) = Some r
    \<and> (case op_request r of None \<Rightarrow> True | Some v \<Rightarrow> redacted v)"
proof -
  have "fst (record_received 1 (lit ''op'') example_receipt
      (Some (JObj [(lit ''Refresh-Token'', JStr (lit ''x''))])) 1 empty_db) = Inr True"
    by (simp add: record_received_def find_op_def empty_db_def known_project_def example_receipt_def)
  from stored_request_redacted [OF this] show ?thesis .
qed

end
