(* ===== verification/Patch_Atomic.thy ===== *)
theory Patch_Atomic
  imports Patch_Service Patch_Grammar Agent_Db_Inv
begin

text \<open>
  Atomicity of the patch transaction: whatever fault interrupts a commit, every file of the
  project either has its new content in all of the patch or its old content in all of it; a
  crash in the middle is undone by recovery; and a rollback that cannot be completed is reported
  and leaves the journal in place.
\<close>

section \<open>Paths that can be written\<close>

abbreviation abs_of :: "project \<Rightarrow> pystr \<Rightarrow> abspath" where
  "abs_of pr p \<equiv> root pr @ split_on 47 p"

definition wf_disk :: "filesystem \<Rightarrow> bool" where
  "wf_disk D \<longleftrightarrow> (\<forall>p. fs_files D p \<noteq> None \<longrightarrow> fs_dirs D p = None \<and> fs_dirs D (butlast p) \<noteq> None)"

text \<open>What \<open>resolve\<close> needs to accept a path as the target of a write.\<close>

definition target_ok :: "filesystem \<Rightarrow> abspath \<Rightarrow> bool" where
  "target_ok D q \<longleftrightarrow> fs_dirs D q = None \<and>
     (case fs_files D q of None \<Rightarrow> True
      | Some f \<Rightarrow> \<not> odd (f_attrs f div FILE_ATTRIBUTE_REPARSE_POINT) \<and> link_count (f_identity f) \<le> 1)"

definition writable :: "(bytes \<Rightarrow> pystr) \<Rightarrow> filesystem \<Rightarrow> project \<Rightarrow> pystr \<Rightarrow> bool" where
  "writable sha D pr p \<longleftrightarrow> validate_relative_path p False = Inr p \<and> verify_project sha (view D) pr = Inr ()
     \<and> (\<forall>k. 0 < k \<and> k < length (split_on 47 p) \<longrightarrow> plain_entry (view D) (root pr @ take k (split_on 47 p)))
     \<and> target_ok D (abs_of pr p) \<and> os_exists (view D) (butlast (abs_of pr p))"

lemma identity_exists: "os_exists (view D) q \<longleftrightarrow> os_identity (view D) q \<noteq> None"
  by (auto simp: view_def split: option.splits)

lemma attributes_exists: "os_exists (view D) q \<longleftrightarrow> os_attributes (view D) q \<noteq> None"
  by (auto simp: view_def split: option.splits)

lemma target_ok_plain:
  "target_ok D q \<Longrightarrow> os_exists (view D) q \<Longrightarrow> is_reparse (view D) q = Inr False
     \<and> (\<exists>f. fs_files D q = Some f \<and> os_identity (view D) q = Some (f_identity f) \<and> link_count (f_identity f) \<le> 1)"
  by (auto simp: target_ok_def is_reparse_def view_def split: option.splits)

lemma walk_writable:
  assumes "cs \<noteq> []" "\<forall>k. 0 < k \<and> k < length cs \<longrightarrow> plain_entry (view D) (current @ take k cs)"
    and "target_ok D (current @ cs)"
  shows "walk (view D) False current cs
    = Inr (current @ cs, map_option f_identity (fs_files D (current @ cs)))"
  using assms
proof (induction cs arbitrary: current)
  case Nil
  then show ?case by simp
next
  case (Cons c cs)
  show ?case
  proof (cases "cs = []")
    case True
    then show ?thesis using Cons.prems(3) target_ok_plain [of D "current @ [c]"]
      by (cases "os_exists (view D) (current @ [c])")
        (auto simp: Let_def file_identity_def target_ok_def split: option.splits)
  next
    case False
    have "plain_entry (view D) (current @ take 1 (c # cs))"
      using Cons.prems(2) False by (metis One_nat_def length_Cons length_greater_0_conv not_less_eq zero_less_one)
    then have here: "os_exists (view D) (current @ [c])" "is_reparse (view D) (current @ [c]) = Inr False"
      by (simp_all add: plain_entry_def)
    have "plain_entry (view D) ((current @ [c]) @ take k cs)" if "0 < k" "k < length cs" for k
      using Cons.prems(2) [rule_format, of "Suc k"] that by simp
    then have "walk (view D) False (current @ [c]) cs
        = Inr ((current @ [c]) @ cs, map_option f_identity (fs_files D ((current @ [c]) @ cs)))"
      using Cons.prems(3) False by (intro Cons.IH) auto
    moreover obtain i where "os_identity (view D) (current @ [c]) = Some i"
      using here(1) identity_exists by blast
    ultimately show ?thesis using here False by (simp add: Let_def file_identity_def)
  qed
qed

lemma writable_resolve:
  assumes "writable sha D pr p"
  shows "\<exists>v. resolve sha (view D) pr p False (Some False) True False = Inr v \<and> absolute v = abs_of pr p"
proof -
  let ?cs = "split_on 47 p" and ?q = "abs_of pr p"
  have w: "walk (view D) False (root pr) ?cs = Inr (?q, map_option f_identity (fs_files D ?q))"
    using assms by (intro walk_writable) (auto simp: writable_def)
  have p: "validate_relative_path p False = Inr p" "p \<noteq> [46]" "verify_project sha (view D) pr = Inr ()"
    using assms by (auto simp: writable_def validate_relative_path_root)
  obtain i where "os_identity (view D) (butlast ?q) = Some i"
    using assms identity_exists by (auto simp: writable_def)
  moreover have "fs_dirs D ?q = None"
    using assms by (auto simp: writable_def target_ok_def)
  moreover have "link_count j \<le> 1" if "map_option f_identity (fs_files D ?q) = Some j" for j
    using assms that by (auto simp: writable_def target_ok_def)
  ultimately show ?thesis
    using w p by (auto simp: resolve_def Let_def file_identity_def longest_common_prefix_append not_less
        split: option.splits)
qed

lemma resolve_relative:
  assumes "resolve sha os pr p me dir fw False = Inr v" "validate_relative_path p False = Inr p"
  shows "relative v = p \<and> absolute v = abs_of pr p
    \<and> walk os me (root pr) (split_on 47 p) = Inr (absolute v, target_identity v)"
proof -
  have "p \<noteq> [46]" using assms(2) by (auto simp: validate_relative_path_root)
  moreover have "relative v = p" using assms
    by (auto simp: resolve_def res_simps Let_def split: if_splits prod.splits)
  ultimately have "walk os me (root pr) (split_on 47 p) = Inr (absolute v, target_identity v)"
    using resolve_sound(2) [OF assms(1)] by auto
  with \<open>relative v = p\<close> show ?thesis using walk_path [of os me "root pr" "split_on 47 p"] by auto
qed

lemma revalidate_writable:
  assumes "revalidate_for_mutation sha (view D) pr v = Inr ()" "relative v = p"
    and "validate_relative_path p False = Inr p" "wf_disk D"
    and "target_identity v \<noteq> None \<longrightarrow> fs_files D (abs_of pr p) \<noteq> None"
  shows "writable sha D pr p" "target_identity v \<noteq> None \<longleftrightarrow> fs_files D (abs_of pr p) \<noteq> None"
proof -
  obtain c where c: "resolve sha (view D) pr p (target_identity v \<noteq> None) None True False = Inr c"
    and t: "target_identity c = target_identity v"
    using assms(1,2) by (auto simp: revalidate_for_mutation_def res_simps split: if_splits)
  note r = resolve_relative [OF c assms(3)]
  then have w: "walk (view D) (target_identity v \<noteq> None) (root pr) (split_on 47 p) = Inr (abs_of pr p, target_identity c)"
    by simp
  note walked = walk_dirs [OF w] walk_absent [OF w] walk_target [OF w]
  have absent: "target_identity v = None \<Longrightarrow> fs_files D (abs_of pr p) = None \<and> fs_dirs D (abs_of pr p) = None"
    using walked(2) t by simp
  then show "target_identity v \<noteq> None \<longleftrightarrow> fs_files D (abs_of pr p) \<noteq> None"
    using assms(5) by (cases "target_identity v = None") simp_all
  have p46: "relative c \<noteq> [46]" using r assms(3) by (auto simp: validate_relative_path_root)
  have "target_ok D (abs_of pr p)"
  proof (cases "fs_files D (abs_of pr p)")
    case None
    then show ?thesis using absent assms(5) by (cases "target_identity v") (auto simp: target_ok_def)
  next
    case (Some f)
    then obtain i where i: "target_identity c = Some i" using absent t by (cases "target_identity v") auto
    have "link_count i \<le> 1" using resolve_sound(2) [OF c] p46 i by auto
    moreover have "is_reparse (view D) (abs_of pr p) = Inr False" "os_identity (view D) (abs_of pr p) = Some i"
      using walked(3) [OF _ i] by (simp_all add: plain_entry_def)
    ultimately show ?thesis using Some assms(4)
      by (auto simp: target_ok_def is_reparse_def view_def wf_disk_def)
  qed
  moreover have "os_identity (view D) (butlast (absolute c)) = Some (parent_identity c)"
    using resolve_sound(2) [OF c] p46 by blast
  then have "os_exists (view D) (butlast (abs_of pr p))" unfolding identity_exists using r by simp
  ultimately show "writable sha D pr p"
    using resolve_sound(1) [OF c] assms(3) walked(1) by (simp add: writable_def)
qed

section \<open>Disks between the old and the new state\<close>

text \<open>
  Every file is the object it was, or it is a file of the patch that was written or removed: then
  its content is the desired one or again the old one, and it is a fresh file.
\<close>

definition between :: "project \<Rightarrow> filesystem \<Rightarrow> (pystr \<times> bytes option) list \<Rightarrow> filesystem \<Rightarrow> bool" where
  "between pr D0 ps D \<longleftrightarrow> fs_dirs D = fs_dirs D0 \<and>
     (\<forall>q. fs_files D q = fs_files D0 q \<or>
        (\<exists>(p, d)\<in>set ps. q = abs_of pr p \<and> (content D q = d \<or> content D q = content D0 q)
           \<and> (\<forall>f. fs_files D q = Some f \<longrightarrow> fresh_file f)))"

lemma between_refl [simp]: "between pr D ps D"
  by (simp add: between_def)

lemma between_cases:
  assumes "between pr D0 ps D"
  shows "fs_files D q = fs_files D0 q \<or> (\<exists>p d. (p, d) \<in> set ps \<and> q = abs_of pr p
    \<and> (content D q = d \<or> content D q = content D0 q) \<and> (\<forall>f. fs_files D q = Some f \<longrightarrow> fresh_file f))"
  using assms unfolding between_def by blast

lemma between_step:
  assumes "between pr D0 ps D" "(p, d) \<in> set ps" "fs_dirs D' = fs_dirs D"
    and "\<And>q. q \<noteq> abs_of pr p \<Longrightarrow> fs_files D' q = fs_files D q"
    and "content D' (abs_of pr p) = d \<or> content D' (abs_of pr p) = content D0 (abs_of pr p)"
    and "\<And>f. fs_files D' (abs_of pr p) = Some f \<Longrightarrow> fresh_file f"
  shows "between pr D0 ps D'"
  unfolding between_def
proof (intro conjI allI)
  show "fs_dirs D' = fs_dirs D0" using assms(1,3) by (simp add: between_def)
  fix q
  show "fs_files D' q = fs_files D0 q \<or>
        (\<exists>(p, d)\<in>set ps. q = abs_of pr p \<and> (content D' q = d \<or> content D' q = content D0 q)
           \<and> (\<forall>f. fs_files D' q = Some f \<longrightarrow> fresh_file f))"
  proof (cases "q = abs_of pr p")
    case True
    then show ?thesis using assms(2,5,6) by blast
  next
    case False
    then have "fs_files D' q = fs_files D q" by (rule assms(4))
    moreover from this have "content D' q = content D q" by (simp add: content_def)
    ultimately show ?thesis using assms(1) by (simp add: between_def)
  qed
qed

text \<open>No path of the patch lies below another one.\<close>

definition unnested :: "pystr list \<Rightarrow> bool" where
  "unnested ps \<longleftrightarrow> (\<forall>p\<in>set ps. \<forall>q\<in>set ps. \<not> strict_prefix (split_on 47 p) (split_on 47 q))"

lemma fresh_target_ok: "fs_dirs D q = None \<Longrightarrow> (\<And>f. fs_files D q = Some f \<Longrightarrow> fresh_file f) \<Longrightarrow> target_ok D q"
  by (auto simp: target_ok_def fresh_file_def FILE_ATTRIBUTE_REPARSE_POINT_def split: option.splits)

lemma view_same:
  assumes "fs_files D q = fs_files D0 q" "fs_dirs D q = fs_dirs D0 q"
  shows "os_exists (view D) q = os_exists (view D0) q" "is_reparse (view D) q = is_reparse (view D0) q"
    "os_identity (view D) q = os_identity (view D0) q"
  using assms by (simp_all add: view_def is_reparse_def cong: option.case_cong)

lemma writable_between:
  assumes "writable sha D0 pr p" "between pr D0 ps D" "unnested (map fst ps)" "p \<in> fst ` set ps"
  shows "writable sha D pr p"
proof -
  have dirs: "fs_dirs D = fs_dirs D0" using assms(2) by (simp add: between_def)
  have same: "fs_files D q = fs_files D0 q" if "\<And>x. x \<in> fst ` set ps \<Longrightarrow> q \<noteq> abs_of pr x" for q
    using between_cases [OF assms(2), of q] that by (metis fst_conv imageI)
  have inner: "fs_files D (root pr @ cs) = fs_files D0 (root pr @ cs)" if "strict_prefix cs (split_on 47 p)" for cs
  proof (rule same)
    fix x assume x: "x \<in> fst ` set ps"
    show "root pr @ cs \<noteq> abs_of pr x"
      using that x assms(3,4) by (auto simp: unnested_def)
  qed
  have pre: "strict_prefix (take k (split_on 47 p)) (split_on 47 p)" if "k < length (split_on 47 p)" for k
    using that by (simp add: strict_prefix_def take_is_prefix)
  have "strict_prefix [] (split_on 47 p)" by (metis Nil_prefix split_on_nonempty strict_prefix_def)
  from inner [OF this] have root: "fs_files D (root pr) = fs_files D0 (root pr)" by simp
  have "verify_project sha (view D) pr = verify_project sha (view D0) pr"
    by (simp only: verify_project_def root_fingerprint_def file_identity_def view_same [OF root fun_cong [OF dirs]])
  moreover have "plain_entry (view D) (root pr @ take k (split_on 47 p))" if "0 < k" "k < length (split_on 47 p)" for k
    using assms(1) that inner [OF pre [OF that(2)]] view_same [of D "root pr @ take k (split_on 47 p)" D0] dirs
    by (simp add: writable_def plain_entry_def)
  moreover have "os_exists (view D) (butlast (abs_of pr p))"
  proof -
    have b: "butlast (abs_of pr p) = root pr @ take (length (split_on 47 p) - 1) (split_on 47 p)"
      by (simp only: butlast_append split_on_nonempty if_False) (simp only: butlast_conv_take)
    have "length (split_on 47 p) - 1 < length (split_on 47 p)" by (simp add: length_greater_0_conv)
    from inner [OF pre [OF this]] show ?thesis
      using assms(1) view_same(1) [of D "butlast (abs_of pr p)" D0] dirs b by (simp add: writable_def)
  qed
  moreover have "target_ok D (abs_of pr p)"
  proof (cases "fs_files D (abs_of pr p) = fs_files D0 (abs_of pr p)")
    case True
    then show ?thesis using assms(1) dirs by (simp add: writable_def target_ok_def)
  next
    case False
    then have "\<And>f. fs_files D (abs_of pr p) = Some f \<Longrightarrow> fresh_file f"
      using between_cases [OF assms(2), of "abs_of pr p"] by blast
    moreover have "fs_dirs D (abs_of pr p) = None" using assms(1) dirs by (simp add: writable_def target_ok_def)
    ultimately show ?thesis by (intro fresh_target_ok)
  qed
  ultimately show ?thesis using assms(1) by (simp add: writable_def)
qed

section \<open>The steps of a commit\<close>

text \<open>What preflight establishes and the commit relies on.\<close>

definition wf_preflight :: "project \<Rightarrow> preflight \<Rightarrow> bool" where
  "wf_preflight pr pf \<longleftrightarrow> distinct (map fst (pf_desired pf)) \<and>
     (\<forall>p\<in>set (map fst (pf_desired pf)). validate_relative_path p False = Inr p \<and>
        (case map_of (pf_validated pf) p of None \<Rightarrow> False
         | Some v \<Rightarrow> relative v = p \<and> absolute v = abs_of pr p))"

lemma wf_preflight_path:
  assumes "wf_preflight pr pf" "(p, d) \<in> set (pf_desired pf)"
  shows "validate_relative_path p False = Inr p" "relative (the_validated pf p) = p"
    "absolute (the_validated pf p) = abs_of pr p" "map_of (pf_desired pf) p = Some d"
proof -
  have "p \<in> set (map fst (pf_desired pf))" using assms(2) by force
  with assms(1) show "validate_relative_path p False = Inr p" "relative (the_validated pf p) = p"
    "absolute (the_validated pf p) = abs_of pr p"
    by (auto simp: wf_preflight_def the_validated_def split: option.splits)
  show "map_of (pf_desired pf) p = Some d" using assms by (simp add: wf_preflight_def)
qed

lemma mutate_one_effect:
  assumes "mutate_one pl w v p d D = Inr D'"
  shows "fs_dirs D' = fs_dirs D" "q \<noteq> absolute v \<Longrightarrow> fs_files D' q = fs_files D q"
    "content D' (absolute v) = d" "fs_files D' (absolute v) = Some f \<Longrightarrow> fresh_file f"
  using assms
  by (auto simp: mutate_one_def res_simps split: option.splits
      dest!: unlink_content atomic_replace_content os_replace_content)

lemma mutate_effect:
  assumes "mutate sha pl pr pf ps m D = (r, m', D')" "wf_preflight pr pf" "set ps \<subseteq> set (pf_desired pf)"
    and "between pr D0 (pf_desired pf) D" "distinct (map fst ps)"
  shows "between pr D0 (pf_desired pf) D' \<and> (\<not> m' \<longrightarrow> D' = D \<and> \<not> m)
    \<and> (r = Inr () \<longrightarrow> (\<forall>(p, d)\<in>set ps. content D' (abs_of pr p) = d))
    \<and> (\<forall>q. q \<notin> abs_of pr ` fst ` set ps \<longrightarrow> fs_files D' q = fs_files D q)"
  using assms
proof (induction ps arbitrary: m D)
  case Nil
  then show ?case by simp
next
  case (Cons pd ps)
  obtain p d where pd: "pd = (p, d)" by (cases pd)
  then have mem: "(p, d) \<in> set (pf_desired pf)" using Cons.prems(3) by simp
  let ?v = "the_validated pf p"
  note path = wf_preflight_path [OF Cons.prems(2) mem]
  show ?case
  proof (cases "bindE (at_point pl ''check_mutate'' p) (\<lambda>_. revalidate_for_mutation sha (view D) pr ?v)")
    case (Inl e)
    then show ?thesis using Cons.prems pd by auto
  next
    case (Inr u)
    show ?thesis
    proof (cases "mutate_one pl ''mutate'' ?v p d D")
      case (Inl e)
      then show ?thesis using Cons.prems pd Inr by auto
    next
      case D1: (Inr D1)
      note eff = mutate_one_effect [OF D1, unfolded path(3)]
      have "between pr D0 (pf_desired pf) D1"
        using between_step [OF Cons.prems(4) mem eff(1,2)] eff(3,4) by blast
      moreover have "mutate sha pl pr pf ps True D1 = (r, m', D')"
        using Cons.prems(1) pd Inr D1 by simp
      ultimately have ih: "between pr D0 (pf_desired pf) D'" "m'"
        "r = Inr () \<longrightarrow> (\<forall>(p, d)\<in>set ps. content D' (abs_of pr p) = d)"
        "\<forall>q. q \<notin> abs_of pr ` fst ` set ps \<longrightarrow> fs_files D' q = fs_files D1 q"
        using Cons.IH [of True D1] Cons.prems(2,3,5) by auto
      have "abs_of pr p \<notin> abs_of pr ` fst ` set ps"
        using Cons.prems(5) pd by force
      then have "fs_files D' (abs_of pr p) = fs_files D1 (abs_of pr p)" using ih(4) by blast
      then have "content D' (abs_of pr p) = d" using eff(3) by (simp add: content_def)
      with ih pd eff(2) show ?thesis by auto
    qed
  qed
qed

text \<open>A record of the journal describes the file as it was before the commit.\<close>

definition describes ::
  "(bytes \<Rightarrow> pystr) \<Rightarrow> project \<Rightarrow> filesystem \<Rightarrow> preflight \<Rightarrow> (pystr \<times> bytes) list \<Rightarrow> journal_record \<Rightarrow> bool" where
  "describes sha pr D0 pf baks r \<longleftrightarrow>
     (let p = jr_path r; old = content D0 (abs_of pr p) in
      writable sha D0 pr p \<and> jr_existed r = (old \<noteq> None)
      \<and> (\<exists>d. map_of (pf_desired pf) p = Some d \<and> jr_desired r = Some (map_option sha d))
      \<and> (\<forall>raw. old = Some raw \<longrightarrow> jr_original r = Some (sha raw)
           \<and> Option.bind (jr_backup r) (map_of baks) = Some raw))"

lemma backup_one_sound:
  assumes "backup_one sha pl D pr pf i p = Inr (b, r)" "wf_preflight pr pf" "(p, d) \<in> set (pf_desired pf)"
    and "wf_disk D"
  shows "describes sha pr D pf b r \<and> jr_path r = p \<and> set (map fst b) \<subseteq> {backup_name i}
    \<and> (jr_backup r \<noteq> None \<longrightarrow> jr_backup r = Some (backup_name i) \<and> b \<noteq> [])"
proof -
  let ?v = "the_validated pf p"
  note path = wf_preflight_path [OF assms(2,3)]
  have rv: "revalidate_for_mutation sha (view D) pr ?v = Inr ()"
    and r: "jr_path r = p" "jr_existed r = (target_identity ?v \<noteq> None)" "jr_desired r = Some (map_option sha d)"
    using assms(1) path(4) by (auto simp: backup_one_def Let_def res_simps)
  show ?thesis
  proof (cases "target_identity ?v")
    case None
    then have "b = []" "jr_backup r = None"
      using assms(1) by (auto simp: backup_one_def Let_def res_simps)
    then show ?thesis
      using revalidate_writable [OF rv path(2,1) assms(4)] None r path(4) by (simp add: describes_def Let_def content_def)
  next
    case (Some ti)
    obtain raw where raw: "open_read sha pr p D = Inr raw" "old_hash_of pf p = Some (sha raw)"
      "b = [(backup_name i, raw)]" "jr_backup r = Some (backup_name i)" "jr_original r = Some (sha raw)"
      using assms(1) Some by (auto simp: backup_one_def Let_def res_simps split: if_splits)
    then obtain v f where v: "resolve sha (view D) pr p True (Some False) False False = Inr v"
      "fs_files D (absolute v) = Some f" "f_bytes f = raw"
      by (auto simp: open_read_def res_simps split: option.splits if_splits)
    then have f: "fs_files D (abs_of pr p) = Some f" using resolve_relative [OF v(1) path(1)] by simp
    then have "content D (abs_of pr p) = Some raw" using v(3) by (simp add: content_def)
    then show ?thesis
      using revalidate_writable [OF rv path(2,1) assms(4)] Some r raw f path(4) by (simp add: describes_def Let_def)
  qed
qed

text \<open>The names of the backups differ.\<close>

lemma digits_val_zeros: "digits_val 0 True (replicate k 48 @ s) = digits_val 0 True s"
  by (induction k) simp_all

lemma backup_name_inj: "backup_name i = backup_name j \<longleftrightarrow> i = j"
proof
  assume "backup_name i = backup_name j"
  then have "replicate (4 - length (py_str_nat i)) 48 @ py_str_nat i
      = replicate (4 - length (py_str_nat j)) 48 @ py_str_nat j"
    unfolding backup_name_def Let_def append_assoc [symmetric] append_same_eq .
  then have "digits_val 0 True (py_str_nat i) = digits_val 0 True (py_str_nat j)"
    by (metis digits_val_zeros)
  then show "i = j" by (simp add: digits_val_py_str)
qed simp

lemma describes_mono:
  assumes "describes sha pr D pf b r" "\<And>n x. map_of b n = Some x \<Longrightarrow> map_of b' n = Some x"
  shows "describes sha pr D pf b' r"
  using assms by (auto simp: describes_def Let_def bind_eq_Some_conv)

lemma backup_files_sound:
  assumes "backup_files sha pl D pr pf i ps = Inr (baks, records)" "wf_preflight pr pf" "wf_disk D"
    and "set ps \<subseteq> fst ` set (pf_desired pf)"
  shows "map jr_path records = ps \<and> (\<forall>r\<in>set records. describes sha pr D pf baks r)
    \<and> fst ` set baks \<subseteq> backup_name ` {i..}"
  using assms
proof (induction ps arbitrary: i baks records)
  case Nil
  then show ?case by simp
next
  case (Cons p ps)
  obtain b r bs rs where one: "backup_one sha pl D pr pf i p = Inr (b, r)"
    and rest: "backup_files sha pl D pr pf (Suc i) ps = Inr (bs, rs)"
    and out: "baks = b @ bs" "records = r # rs"
    using Cons.prems(1) by (auto simp: res_simps split: prod.splits)
  obtain d where "(p, d) \<in> set (pf_desired pf)" using Cons.prems(4) by auto
  note r = backup_one_sound [OF one Cons.prems(2) this Cons.prems(3)]
  have ih: "map jr_path rs = ps" "\<forall>r\<in>set rs. describes sha pr D pf bs r" "fst ` set bs \<subseteq> backup_name ` {Suc i..}"
    using Cons.IH [OF rest] Cons.prems(2-4) by auto
  have "map_of b n = None" if "map_of bs n = Some x" for n x
  proof -
    have "n \<in> backup_name ` {Suc i..}" using ih(3) map_of_SomeD [OF that] by force
    then have "n \<noteq> backup_name i" using backup_name_inj by fastforce
    then show ?thesis using r by (auto simp: map_of_eq_None_iff)
  qed
  then have later: "map_of baks n = Some x" if "map_of bs n = Some x" for n x
    using that by (simp add: out(1) map_add_def)
  have first: "map_of baks n = Some x" if "map_of b n = Some x" for n x
    using that by (simp add: out(1))
  have rs: "describes sha pr D pf baks x" if "x \<in> set rs" for x
    by (rule describes_mono [OF bspec [OF ih(2) that] later])
  have one: "describes sha pr D pf baks r"
    by (rule describes_mono [OF conjunct1 [OF r] first])
  have "{backup_name i} \<subseteq> backup_name ` {i..}" by simp
  then have b: "fst ` set b \<subseteq> backup_name ` {i..}" using r by (metis list.set_map order_trans)
  have "backup_name ` {Suc i..} \<subseteq> backup_name ` {i..}" by (rule image_mono) auto
  then have bs: "fst ` set bs \<subseteq> backup_name ` {i..}" by (rule subset_trans [OF ih(3)])
  have "fst ` set baks \<subseteq> backup_name ` {i..}"
    unfolding out(1) set_append image_Un by (rule Un_least [OF b bs])
  then show ?case using ih(1) conjunct1 [OF conjunct2 [OF r]] rs one by (simp add: out(2))
qed

section \<open>Rolling back\<close>

text \<open>A plan under which the operations of a rollback are carried out.\<close>

definition restorable :: "plan \<Rightarrow> bool" where
  "restorable pl \<longleftrightarrow> (\<forall>p. fails pl (''restore_read'', p) = None \<and> fails pl (''restore'', p) = None
     \<and> (\<exists>k\<le>MAX_RETRIES. (\<forall>i<k. tries pl (''restore'', p) i = Sharing_violation)
          \<and> tries pl (''restore'', p) k = Replaced))"

lemma restorable_replace:
  "restorable pl \<Longrightarrow> atomic_replace pl ''restore'' rel p raw D = os_replace p raw D"
proof -
  assume r: "restorable pl"
  then obtain k where k: "k \<le> MAX_RETRIES" "\<forall>i<k. tries pl (''restore'', rel) i = Sharing_violation"
    "tries pl (''restore'', rel) k = Replaced"
    unfolding restorable_def by blast
  then have "replace_loop (tries pl (''restore'', rel)) 0 p raw D = os_replace p raw D"
    by (intro replace_loop_retries [of 0 k]) auto
  with r show ?thesis by (simp add: restorable_def atomic_replace_def at_point_def)
qed

lemma hash_json_inj [simp]: "hash_json a = hash_json b \<longleftrightarrow> a = b"
  by (auto simp: hash_json_def split: option.splits)

lemma between_content:
  assumes "between pr D0 ps D" "map_of ps p = Some d" "distinct (map fst ps)"
  shows "content D (abs_of pr p) = content D0 (abs_of pr p) \<or> content D (abs_of pr p) = d"
proof -
  have "d' = d" if "(p, d') \<in> set ps" for d' using that assms(2,3) by simp
  then show ?thesis using between_cases [OF assms(1), of "abs_of pr p"] by (auto simp: content_def)
qed

text \<open>
  One record: a rollback step that succeeds gives the file its old content back and touches
  nothing else; and it succeeds on every disk between the old and the new state.
\<close>

lemma describes_cases:
  assumes "describes sha pr D0 pf (tx_backups t) r"
  obtains (old) raw where "jr_existed r" "content D0 (abs_of pr (jr_path r)) = Some raw"
      "jr_original r = Some (sha raw)" "Option.bind (jr_backup r) (map_of (tx_backups t)) = Some raw"
    | (new) "\<not> jr_existed r" "content D0 (abs_of pr (jr_path r)) = None"
  using assms by (cases "content D0 (abs_of pr (jr_path r))") (auto simp: describes_def Let_def)

lemma restore_one_cases:
  assumes "restore_one sha pl pr t result r D = Inr D'" "describes sha pr D0 pf (tx_backups t) r"
    and "inj sha"
  shows "D' = D \<and> content D (abs_of pr (jr_path r)) = content D0 (abs_of pr (jr_path r))
    \<or> (\<exists>raw. content D0 (abs_of pr (jr_path r)) = Some raw \<and> os_replace (abs_of pr (jr_path r)) raw D = Inr D')
    \<or> content D0 (abs_of pr (jr_path r)) = None \<and> unlink (abs_of pr (jr_path r)) D = Inr D'"
proof -
  let ?q = "abs_of pr (jr_path r)"
  have val: "validate_relative_path (jr_path r) False = Inr (jr_path r)"
    using assms(2) by (simp add: describes_def writable_def Let_def)
  obtain v where v: "resolve sha (view D) pr (jr_path r) False (Some False) True False = Inr v"
    using assms(1) by (auto simp: restore_one_def Let_def res_simps)
  then have q: "absolute v = ?q" using resolve_relative val by blast
  from assms(2) show ?thesis
  proof (cases rule: describes_cases)
    case (old raw)
    have orig: "(case jr_original r of Some (c # cs) \<Rightarrow> c # cs | _ \<Rightarrow> sha raw) = sha raw"
      using old(3) by (simp split: list.split)
    have "D' = D \<and> map_option sha (content D ?q) = Some (sha raw)
      \<or> atomic_replace pl ''restore'' (jr_path r) ?q raw D = Inr D'"
      using assms(1) old v q orig
      by (auto simp: restore_one_def Let_def res_simps path_hash_def split: if_splits)
    then show ?thesis using old(2) assms(3) atomic_replace_content by (fastforce simp: inj_eq)
  next
    case new
    then have "D' = D \<and> content D ?q = None \<or> unlink ?q D = Inr D'"
      using assms(1) v q
      by (auto simp: restore_one_def Let_def res_simps path_hash_def split: if_splits option.splits)
    then show ?thesis using new by auto
  qed
qed

lemma restore_one_effect:
  assumes "restore_one sha pl pr t result r D = Inr D'" "describes sha pr D0 pf (tx_backups t) r" "inj sha"
  shows "content D' (abs_of pr (jr_path r)) = content D0 (abs_of pr (jr_path r))"
    "q \<noteq> abs_of pr (jr_path r) \<Longrightarrow> fs_files D' q = fs_files D q"
    "between pr D0 (pf_desired pf) D \<Longrightarrow> between pr D0 (pf_desired pf) D'"
proof -
  let ?q = "abs_of pr (jr_path r)"
  have eff: "D' = D \<and> content D ?q = content D0 ?q
    \<or> content D' ?q = content D0 ?q \<and> fs_dirs D' = fs_dirs D \<and> (\<forall>q. q \<noteq> ?q \<longrightarrow> fs_files D' q = fs_files D q)
      \<and> (\<forall>f. fs_files D' ?q = Some f \<longrightarrow> fresh_file f)"
    using restore_one_cases [OF assms] by (auto dest!: unlink_content os_replace_content)
  then show "content D' ?q = content D0 ?q" by auto
  show "q \<noteq> ?q \<Longrightarrow> fs_files D' q = fs_files D q" using eff by auto
  obtain d where d: "map_of (pf_desired pf) (jr_path r) = Some d"
    using assms(2) by (auto simp: describes_def Let_def)
  show "between pr D0 (pf_desired pf) D'" if "between pr D0 (pf_desired pf) D"
    using eff between_step [OF that map_of_SomeD [OF d], of D'] that by blast
qed

lemma restore_one_succeeds:
  assumes "describes sha pr D0 pf (tx_backups t) r" "between pr D0 (pf_desired pf) D" "restorable pl"
    and "unnested (map fst (pf_desired pf))" "wf_disk D0" "wf_preflight pr pf"
  shows "\<exists>D'. restore_one sha pl pr t result r D = Inr D'"
proof -
  let ?q = "abs_of pr (jr_path r)"
  obtain d where d: "map_of (pf_desired pf) (jr_path r) = Some d" "jr_desired r = Some (map_option sha d)"
    and w0: "writable sha D0 pr (jr_path r)"
    using assms(1) by (auto simp: describes_def Let_def)
  have mem: "jr_path r \<in> fst ` set (pf_desired pf)" using map_of_SomeD [OF d(1)] by force
  obtain v where v: "resolve sha (view D) pr (jr_path r) False (Some False) True False = Inr v" "absolute v = ?q"
    using writable_resolve [OF writable_between [OF w0 assms(2,4) mem]] by blast
  have same: "content D ?q = content D0 ?q \<or> content D ?q = d"
    using between_content [OF assms(2) d(1)] assms(6) by (simp add: wf_preflight_def)
  have dirs: "fs_dirs D = fs_dirs D0" using assms(2) by (simp add: between_def)
  have faults: "at_point pl ''restore_read'' p = Inr ()" "at_point pl ''restore'' p = Inr ()" for p
    using assms(3) by (simp_all add: restorable_def at_point_def)
  have rd: "record_desired result r = hash_json (map_option sha d)" using d(2) by (simp add: record_desired_def)
  from assms(1) show ?thesis
  proof (cases rule: describes_cases)
    case (old raw)
    have "fs_dirs D (butlast ?q) \<noteq> None" "fs_dirs D ?q = None"
      using assms(5) old(2) dirs by (auto simp: wf_disk_def content_def)
    then have "\<exists>D'. os_replace ?q raw D = Inr D'" by (simp add: os_replace_def)
    moreover have "(case jr_original r of Some (c # cs) \<Rightarrow> c # cs | _ \<Rightarrow> sha raw) = sha raw"
      using old(3) by (simp split: list.split)
    ultimately show ?thesis
      using old(1,2,4) v same faults rd restorable_replace [OF assms(3)]
      by (auto simp: restore_one_def Let_def path_hash_def)
  next
    case new
    show ?thesis
    proof (cases "content D ?q")
      case None
      then show ?thesis using new v faults by (simp add: restore_one_def Let_def path_hash_def)
    next
      case (Some x)
      then have "d = Some x" "\<exists>D'. unlink ?q D = Inr D'" using same new by (auto simp: unlink_def content_def)
      with Some show ?thesis using new v faults rd by (auto simp: restore_one_def Let_def path_hash_def)
    qed
  qed
qed

lemma restore_loop_effect:
  assumes "restore_loop sha pl pr t result rs D = (errors, D')"
    and "\<forall>r\<in>set rs. describes sha pr D0 pf (tx_backups t) r" "inj sha" "distinct (map jr_path rs)"
    and "between pr D0 (pf_desired pf) D"
  shows "between pr D0 (pf_desired pf) D'
    \<and> (\<forall>q. q \<notin> abs_of pr ` jr_path ` set rs \<longrightarrow> fs_files D' q = fs_files D q)
    \<and> (\<forall>r\<in>set rs. jr_path r \<notin> set errors \<longrightarrow> content D' (abs_of pr (jr_path r)) = content D0 (abs_of pr (jr_path r)))"
  using assms
proof (induction rs arbitrary: D errors)
  case Nil
  then show ?case by simp
next
  case (Cons r rs)
  have desc: "describes sha pr D0 pf (tx_backups t) r" using Cons.prems(2) by simp
  have notin: "abs_of pr (jr_path r) \<notin> abs_of pr ` jr_path ` set rs" using Cons.prems(4) by auto
  show ?case
  proof (cases "restore_one sha pl pr t result r D")
    case (Inl e)
    then obtain es where es: "restore_loop sha pl pr t result rs D = (es, D')" "errors = jr_path r # es"
      using Cons.prems(1) by (auto split: prod.splits)
    from Cons.IH [OF es(1)] Cons.prems(2-5) show ?thesis using es(2) by auto
  next
    case (Inr D1)
    then have rest: "restore_loop sha pl pr t result rs D1 = (errors, D')" using Cons.prems(1) by simp
    note eff = restore_one_effect [OF Inr desc Cons.prems(3)]
    have ih: "between pr D0 (pf_desired pf) D'"
      "\<forall>q. q \<notin> abs_of pr ` jr_path ` set rs \<longrightarrow> fs_files D' q = fs_files D1 q"
      "\<forall>r\<in>set rs. jr_path r \<notin> set errors \<longrightarrow> content D' (abs_of pr (jr_path r)) = content D0 (abs_of pr (jr_path r))"
      using Cons.IH [OF rest] Cons.prems(2-5) eff(3) by auto
    have "content D' (abs_of pr (jr_path r)) = content D0 (abs_of pr (jr_path r))"
      using ih(2) notin eff(1) by (simp add: content_def)
    with ih eff(2) show ?thesis by auto
  qed
qed

lemma restore_loop_succeeds:
  assumes "\<forall>r\<in>set rs. describes sha pr D0 pf (tx_backups t) r" "inj sha"
    and "between pr D0 (pf_desired pf) D" "restorable pl"
    and "unnested (map fst (pf_desired pf))" "wf_disk D0" "wf_preflight pr pf"
  shows "fst (restore_loop sha pl pr t result rs D) = []"
  using assms
proof (induction rs arbitrary: D)
  case Nil
  then show ?case by simp
next
  case (Cons r rs)
  then obtain D1 where D1: "restore_one sha pl pr t result r D = Inr D1"
    using restore_one_succeeds [of sha pr D0 pf t r D pl result] by auto
  have "between pr D0 (pf_desired pf) D1"
    using restore_one_effect(3) [OF D1 _ Cons.prems(2) Cons.prems(3)] Cons.prems(1) by simp
  then show ?case using Cons.IH [of D1] Cons.prems D1 by simp
qed

text \<open>All records of a journal: the old content of every file is back.\<close>

definition journal_ok ::
  "(bytes \<Rightarrow> pystr) \<Rightarrow> project \<Rightarrow> filesystem \<Rightarrow> preflight \<Rightarrow> tx \<Rightarrow> journal_record list \<Rightarrow> bool" where
  "journal_ok sha pr D0 pf t rs \<longleftrightarrow> (\<forall>r\<in>set rs. describes sha pr D0 pf (tx_backups t) r)
     \<and> distinct (map jr_path rs) \<and> set (map jr_path rs) = fst ` set (pf_desired pf)"

lemma restore_loop_content:
  assumes "restore_loop sha pl pr t result (rev rs) D = ([], D')" "journal_ok sha pr D0 pf t rs" "inj sha"
    and "between pr D0 (pf_desired pf) D"
  shows "content D' = content D0"
proof
  fix q
  note eff = restore_loop_effect [OF assms(1), of D0 pf]
  have e: "between pr D0 (pf_desired pf) D'"
    "\<forall>r\<in>set rs. content D' (abs_of pr (jr_path r)) = content D0 (abs_of pr (jr_path r))"
    using eff assms(2-4) by (auto simp: journal_ok_def rev_map [symmetric])
  show "content D' q = content D0 q"
  proof (cases "q \<in> abs_of pr ` jr_path ` set rs")
    case True
    then show ?thesis using e(2) by auto
  next
    case False
    then have "q \<notin> abs_of pr ` fst ` set (pf_desired pf)"
      using assms(2) by (auto simp: journal_ok_def)
    then have "fs_files D' q = fs_files D0 q" using between_cases [OF e(1), of q] by force
    then show ?thesis by (simp add: content_def)
  qed
qed

lemma restore_content:
  assumes "restore sha pl pr rs result (t, D) = (Inr (), t', D')" "journal_ok sha pr D0 pf t rs" "inj sha"
    and "between pr D0 (pf_desired pf) D"
  shows "content D' = content D0"
proof -
  obtain errors D1 where l: "restore_loop sha pl pr t result (rev rs) D = (errors, D1)" by fastforce
  with assms(1) have "errors = []" "D' = D1"
    by (auto simp: restore_def Let_def split: if_splits option.splits sum.splits)
  then show ?thesis using restore_loop_content [of sha pl pr t result rs D D1] l assms(2-4) by simp
qed

lemma restore_succeeds:
  assumes "journal_ok sha pr D0 pf t rs" "inj sha" "between pr D0 (pf_desired pf) D" "restorable pl"
    and "unnested (map fst (pf_desired pf))" "wf_disk D0" "wf_preflight pr pf"
    and "restore sha pl pr rs result (t, D) = (res, t', D')"
  shows "content D' = content D0" "fails pl (''manifest_rolled_back'', []) = None \<Longrightarrow> res = Inr ()"
    "res = Inl e \<Longrightarrow> fails pl (''manifest_rolled_back'', []) = Some e"
proof -
  obtain errors D1 where l: "restore_loop sha pl pr t result (rev rs) D = (errors, D1)" by fastforce
  have "errors = []"
    using restore_loop_succeeds [OF _ assms(2-7), of "rev rs" t result] assms(1) l by (simp add: journal_ok_def)
  moreover from this have "D' = D1" "res = Inl e \<Longrightarrow> fails pl (''manifest_rolled_back'', []) = Some e"
    "fails pl (''manifest_rolled_back'', []) = None \<Longrightarrow> res = Inr ()"
    using assms(8) l by (auto simp: restore_def Let_def write_manifest_def at_point_def bindE_def
        split: option.splits sum.splits)
  ultimately show "content D' = content D0" "fails pl (''manifest_rolled_back'', []) = None \<Longrightarrow> res = Inr ()"
    "res = Inl e \<Longrightarrow> fails pl (''manifest_rolled_back'', []) = Some e"
    using restore_loop_content [of sha pl pr t result rs D D1] l assms(1-3) by simp_all
qed

section \<open>Atomicity\<close>

lemma backups_journal_ok:
  assumes "backup_files sha pl D pr pf 0 (sort (map fst (pf_desired pf))) = Inr (baks, records)"
    and "wf_preflight pr pf" "wf_disk D" "tx_backups t = baks"
  shows "journal_ok sha pr D pf t records"
proof -
  have "distinct (map fst (pf_desired pf))" using assms(2) by (simp add: wf_preflight_def)
  then show ?thesis
    using backup_files_sound [OF assms(1,2,3)] assms(4) unfolding journal_ok_def by simp
qed

text \<open>What every exit of the commit's \<open>try\<close> block has done.\<close>

lemma commit_body_exit:
  assumes "commit_body sha pl pr pf d key dg result b D0 = (r, mutated, records, t, D)"
    and "wf_preflight pr pf" "wf_disk D0"
  shows "(\<not> mutated \<longrightarrow> D = D0)
    \<and> (mutated \<longrightarrow> between pr D0 (pf_desired pf) D \<and> journal_ok sha pr D0 pf t records
      \<and> (r \<noteq> Inr () \<longrightarrow> map_option m_state (tx_manifest t) = Some Committing))
    \<and> (r = Inr () \<longrightarrow> (\<forall>(p, c)\<in>set (pf_desired pf). content D (abs_of pr p) = c)
      \<and> (\<forall>q. q \<notin> abs_of pr ` fst ` set (pf_desired pf) \<longrightarrow> content D q = content D0 q))"
proof -
  have dist: "distinct (map fst (pf_desired pf))" using assms(2) by (simp add: wf_preflight_def)
  have "(\<not> mutated \<and> D = D0 \<and> r \<noteq> Inr ()) \<or> (\<exists>baks r'.
      backup_files sha pl D0 pr pf 0 (sort (map fst (pf_desired pf))) = Inr (baks, records)
      \<and> mutate sha pl pr pf (pf_desired pf) False D0 = (r', mutated, D) \<and> tx_backups t = baks
      \<and> (r = Inr () \<longrightarrow> r' = Inr ())
      \<and> (r \<noteq> Inr () \<longrightarrow> map_option m_state (tx_manifest t) = Some Committing))"
    using assms(1)
    by (auto simp: commit_body_def Let_def write_manifest_def res_simps bindE_def
        split: sum.splits prod.splits)
  then consider (quiet) "\<not> mutated" "D = D0" "r \<noteq> Inr ()"
    | (ran) baks r' where "backup_files sha pl D0 pr pf 0 (sort (map fst (pf_desired pf))) = Inr (baks, records)"
      "mutate sha pl pr pf (pf_desired pf) False D0 = (r', mutated, D)" "tx_backups t = baks"
      "r = Inr () \<longrightarrow> r' = Inr ()"
      "r \<noteq> Inr () \<longrightarrow> map_option m_state (tx_manifest t) = Some Committing"
    by blast
  then show ?thesis
  proof cases
    case quiet
    then show ?thesis by simp
  next
    case ran
    note eff = mutate_effect [OF ran(2) assms(2) order_refl between_refl dist]
    note jok = backups_journal_ok [OF ran(1) assms(2,3) ran(3)]
    have others: "\<forall>q. q \<notin> abs_of pr ` fst ` set (pf_desired pf) \<longrightarrow> content D q = content D0 q"
      using eff by (simp add: content_def)
    note parts = conjunct1 [OF eff] conjunct1 [OF conjunct2 [OF eff]]
      conjunct1 [OF conjunct2 [OF conjunct2 [OF eff]]]
    show ?thesis
    proof (intro conjI impI)
      show "\<not> mutated \<Longrightarrow> D = D0" using parts(2) by simp
      show "r = Inr () \<Longrightarrow> \<forall>(p, c)\<in>set (pf_desired pf). content D (abs_of pr p) = c"
        using parts(3) ran(4) by simp
      show "r \<noteq> Inr () \<Longrightarrow> map_option m_state (tx_manifest t) = Some Committing" using ran(5) by simp
    qed (rule parts(1), rule jok, rule others)
  qed
qed

lemma commit_split:
  assumes "commit sha pl pr pf jid key dg result b W = (res, W')"
  obtains (early) e where "res = Inl e" "W' = W"
  | (ran) r mutated records t D where
      "commit_body sha pl pr pf (w_db W) key dg result b (w_disk W) = (r, mutated, records, t, D)"
      "commit_cleanup sha pl pr jid result (r, mutated, records, t, D) W = (res, W')"
proof -
  obtain r mutated records t D where body:
    "commit_body sha pl pr pf (w_db W) key dg result b (w_disk W) = (r, mutated, records, t, D)"
    by (metis prod_cases5)
  show thesis
  proof (cases "bindE (at_point pl ''check_start'' []) (\<lambda>_.
           bindE (verify_commit_preconditions sha (w_disk W) pr pf) (\<lambda>_.
           bindE (at_point pl ''check_verified'' []) (\<lambda>_. at_point pl ''mkdir'' jid)))")
    case (Inl e)
    then have "res = Inl e" "W' = W" using assms by (simp_all add: commit_def)
    then show thesis by (rule early)
  next
    case (Inr u)
    then show thesis using assms ran [OF body] body by (simp add: commit_def)
  qed
qed

text \<open>
  A commit is all or nothing: whatever step of it fails (the caller's consent check, a
  revalidation, a backup, a journal write, a replacement, a removal), as long as the rollback's
  own operations are carried out, either the commit succeeds and every file of the patch has
  exactly its new content (or is gone) and every other file its old one, or it fails and every
  file of the disk has exactly its old content.
\<close>

lemma commit_atomic:
  assumes "commit sha pl pr pf jid key dg result b W = (res, W')"
    and "wf_preflight pr pf" "wf_disk (w_disk W)" "unnested (map fst (pf_desired pf))"
    and "inj sha" "restorable pl"
  shows "case res of
      Inr _ \<Rightarrow> (\<forall>(p, c)\<in>set (pf_desired pf). content (w_disk W') (abs_of pr p) = c)
        \<and> (\<forall>q. q \<notin> abs_of pr ` fst ` set (pf_desired pf) \<longrightarrow> content (w_disk W') q = content (w_disk W) q)
    | Inl _ \<Rightarrow> content (w_disk W') = content (w_disk W)"
  using assms(1)
proof (cases rule: commit_split)
  case (early e)
  then show ?thesis by simp
next
  case (ran r mutated records t D)
  note exit = commit_body_exit [OF ran(1) assms(2,3)]
  show ?thesis
  proof (cases r)
    case (Inr u)
    then have "res = Inr ()" "w_disk W' = D" using ran(2) by (auto simp: commit_cleanup_def)
    then show ?thesis using exit Inr by simp
  next
    case (Inl e)
    show ?thesis
    proof (cases mutated)
      case False
      then have "res = Inl e" "w_disk W' = D" using ran(2) Inl by (auto simp: commit_cleanup_def)
      then show ?thesis using exit False by simp
    next
      case True
      obtain rr t' D' where r: "restore sha pl pr records result (t, D) = (rr, t', D')"
        by (metis prod_cases3)
      then have "w_disk W' = D'" "\<exists>e. res = Inl e"
        using ran(2) Inl True by (auto simp: commit_cleanup_def Let_def split: sum.splits)
      moreover have "content D' = content (w_disk W)"
        using restore_succeeds(1) [OF _ assms(5) _ assms(6,4,3,2) r] exit True by blast
      ultimately show ?thesis by auto
    qed
  qed
qed

section \<open>Fail closed\<close>

lemma dict_set_map_of [simp]: "map_of (dict_set k v xs) = (map_of xs)(k \<mapsto> v)"
  by (induction k v xs rule: dict_set.induct) auto

lemma dict_set_keys [simp]: "fst ` set (dict_set k v xs) = insert k (fst ` set xs)"
  by (induction k v xs rule: dict_set.induct) auto

lemma dict_set_distinct: "distinct (map fst xs) \<Longrightarrow> distinct (map fst (dict_set k v xs))"
proof (induction k v xs rule: dict_set.induct)
  case (2 k v k' v' xs)
  have "set (map fst (dict_set k v xs)) = insert k (fst ` set xs)" by simp
  with 2 show ?case by auto
qed simp

text \<open>
  C19. A rollback that cannot be completed is never silent: if a commit fails and some file does
  not have its old content, then the error is \<open>recovery_failed\<close> and the transaction's journal,
  with the backups of all old contents, is still in place and marked as committing, so that the
  recovery at the next start finds it.
\<close>

theorem commit_fail_closed:
  assumes "commit sha pl pr pf jid key dg result b W = (Inl e, W')"
    and "wf_preflight pr pf" "wf_disk (w_disk W)" "inj sha"
    and "content (w_disk W') \<noteq> content (w_disk W)"
  shows "err_code e = ''recovery_failed'' \<and> (\<exists>t m records. map_of (w_journal W') jid = Some t
    \<and> tx_manifest t = Some m \<and> m_state m = Committing \<and> journal_ok sha pr (w_disk W) pf t records)"
  using assms(1)
proof (cases rule: commit_split)
  case (early e')
  then show ?thesis using assms(5) by simp
next
  case (ran r mutated records t D)
  note exit = commit_body_exit [OF ran(1) assms(2,3)]
  have r: "r \<noteq> Inr ()" using ran(2) by (auto simp: commit_cleanup_def)
  then obtain e0 where e0: "r = Inl e0" by (cases r) auto
  have m: mutated
  proof (rule ccontr)
    assume "\<not> mutated"
    then have "w_disk W' = D" using ran(2) e0 by (auto simp: commit_cleanup_def)
    then show False using exit \<open>\<not> mutated\<close> assms(5) by simp
  qed
  with exit r have x: "between pr (w_disk W) (pf_desired pf) D" "journal_ok sha pr (w_disk W) pf t records"
    and st: "map_option m_state (tx_manifest t) = Some Committing"
    by blast+
  obtain errors D' where l: "restore_loop sha pl pr t result (rev records) D = (errors, D')" by fastforce
  have disk: "w_disk W' = D'"
    using ran(2) e0 m l by (auto simp: commit_cleanup_def restore_def Let_def split: sum.splits option.splits if_splits)
  have "errors \<noteq> []"
  proof
    assume "errors = []"
    then have "content D' = content (w_disk W)" using restore_loop_content l x assms(4) by blast
    then show False using assms(5) disk by simp
  qed
  then have "Inl e = Inl (recovery_failed [(''paths'', JList (map JStr errors))]) \<and>
    w_journal W' = journal_put jid t (w_journal W)"
    using ran(2) e0 m l st by (auto simp: commit_cleanup_def restore_def Let_def)
  then show ?thesis using st x(2) by (auto simp: recovery_failed_def journal_put_def)
qed

section \<open>Recovery after a crash\<close>

lemma delete_idempotency_gone:
  "find_idem (pid, cap, key) (snd (delete_idempotency pid cap key d)) = None"
  by (auto simp: find_idem_def delete_idempotency_def find_None_iff)

text \<open>
  C18. A crash in the middle of a commit is undone: if the process stops after any number of the
  commit's mutations, then recovery, run over the journal that was written before the first of
  them, succeeds, gives every file of the disk its old content back, removes the journal and
  forgets the attempt, so that the patch can be sent again.
\<close>

theorem crash_recovery:
  assumes "backup_files sha pl D0 pr pf 0 (sort (map fst (pf_desired pf))) = Inr (baks, records)"
    and "mutate sha pl pr pf (take k (pf_desired pf)) False D0 = (Inr (), mt, w_disk W)"
    and "wf_preflight pr pf" "wf_disk D0" "unnested (map fst (pf_desired pf))" "inj sha"
    and "m_records m = records" "m_state m \<in> {Prepared, Committing}" "m_root_fp m = root_fp pr" "m_scope m = None"
    and "get_project (m_project m) (w_db W) = Inr pr" "enabled pr" "verify_project sha (view (w_disk W)) pr = Inr ()"
    and "restorable pl'" "fails pl' (''manifest_rolled_back'', []) = None" "fails pl' (''rmtree'', jid) = None"
  shows "\<exists>W'. recover_transaction sha ext pl' now jid \<lparr>tx_backups = baks, tx_manifest = Some m\<rparr> m W = (Inr (), W')
    \<and> content (w_disk W') = content D0 \<and> map_of (w_journal W') jid = None
    \<and> find_idem (m_project m, PATCH, m_key m) (w_db W') = None"
proof -
  let ?t = "\<lparr>tx_backups = baks, tx_manifest = Some m\<rparr>"
  have dist: "distinct (map fst (take k (pf_desired pf)))"
    using assms(3) by (simp add: wf_preflight_def take_map [symmetric])
  have bt: "between pr D0 (pf_desired pf) (w_disk W)"
    using mutate_effect [OF assms(2,3) set_take_subset between_refl dist] by blast
  have jok: "journal_ok sha pr D0 pf ?t records" by (rule backups_journal_ok [OF assms(1,3,4)]) simp
  obtain res t' D' where r: "restore sha pl' pr records (m_result m) (?t, w_disk W) = (res, t', D')"
    by (metis prod_cases3)
  note done_facts = restore_succeeds [OF jok assms(6) bt assms(14,5,4,3) r]
  have "file_target sha ext (w_disk W) pr (m_scope m) = Inr pr"
    using assms(10,12,13) by (simp add: file_target_def)
  then have "recover_transaction sha ext pl' now jid ?t m W
      = (Inr (), forget_tx pl' jid m (W\<lparr>w_disk := D', w_journal := journal_put jid t' (w_journal W)\<rparr>))"
    using assms(7,8,9,11) r done_facts(2) [OF assms(15)] by (auto simp: recover_transaction_def)
  moreover have "map_of (filter (\<lambda>(i, t). i \<noteq> jid) j) jid = None" for j :: "(pystr \<times> tx) list"
    by (auto simp: map_of_eq_None_iff)
  ultimately show ?thesis
    using done_facts(1) assms(16) delete_idempotency_gone by (simp add: forget_tx_def rmtree_def)
qed

section \<open>An example\<close>

definition example_bytes :: bytes where
  "example_bytes = replicate 64 48"

definition example_file :: "nat \<Rightarrow> bytes \<Rightarrow> file_entry" where
  "example_file i b = \<lparr>f_bytes = b, f_identity = \<lparr>volume_serial = 7, file_id = i, link_count = 1\<rparr>, f_attrs = 0x20\<rparr>"

definition example_dir :: "nat \<Rightarrow> dir_entry" where
  "example_dir i = \<lparr>d_identity = \<lparr>volume_serial = 7, file_id = i, link_count = 1\<rparr>, d_attrs = 0x10\<rparr>"

definition example_disk :: filesystem where
  "example_disk = \<lparr>fs_files = [[lit ''C:'', lit ''w'', lit ''a''] \<mapsto> example_file 3 example_bytes],
     fs_dirs = [[lit ''C:''] \<mapsto> example_dir 1, [lit ''C:'', lit ''w''] \<mapsto> example_dir 2],
     fs_volume = 7, fs_next = 9\<rparr>"

definition example_world :: world where
  "example_world = \<lparr>w_disk = example_disk, w_journal = [],
     w_db = empty_db\<lparr>projects := [\<lparr>p_project = example_project, p_created = 0, p_updated = 0\<rparr>]\<rparr>,
     w_gate = new_gate\<rparr>"

definition example_preflight :: preflight where
  "example_preflight = (case run_preflight (\<lambda>b. b) no_faults example_disk example_project
     [\<lparr>action = AddFile, path = lit ''b'', destination = None, add_lines = [lit ''two''], hunks = []\<rparr>,
      \<lparr>action = DeleteFile, path = lit ''a'', destination = None, add_lines = [], hunks = []\<rparr>]
     [(lit ''b'', None), (lit ''a'', Some example_bytes)] of Inr pf \<Rightarrow> pf | Inl _ \<Rightarrow> empty_preflight)"

text \<open>A plan in which exactly the points named by \<open>ws\<close> fail.\<close>

definition faulty :: "string list \<Rightarrow> plan" where
  "faulty ws = no_faults\<lparr>fails := (\<lambda>(w, _). if w \<in> set ws then Some OSError else None)\<rparr>"

definition example_commit :: "string list \<Rightarrow> unit res \<times> world" where
  "example_commit ws = commit (\<lambda>b. b) (faulty ws) example_project example_preflight (lit ''j'') (lit ''key'')
     (lit ''digest'') JNull example_binding example_world"

lemma example_disk_wf: "wf_disk example_disk"
  by (simp add: wf_disk_def example_disk_def lit_def)

lemma example_preflight_wf: "wf_preflight example_project example_preflight" by code_simp
lemma example_unnested: "unnested (map fst (pf_desired example_preflight))" by code_simp

lemma faulty_restorable: "set ws \<inter> {''restore'', ''restore_read''} = {} \<Longrightarrow> restorable (faulty ws)"
  by (auto simp: restorable_def faulty_def no_faults_def intro!: exI [of _ 0])

lemma example_commit_eq:
  "commit (\<lambda>b. b) (faulty ws) example_project example_preflight (lit ''j'') (lit ''key'') (lit ''digest'') JNull
     example_binding example_world = (fst (example_commit ws), snd (example_commit ws))"
  by (simp add: example_commit_def)

lemma example_world_disk: "w_disk example_world = example_disk"
  by (simp add: example_world_def)

lemmas example_commit_hyps = example_commit_eq example_preflight_wf
  example_disk_wf [folded example_world_disk] example_unnested

definition broken_rollback :: "string list" where
  "broken_rollback = [''manifest_committed'', ''restore'']"

theorem commit_fail_closed_witness:
  "\<exists>e. fst (example_commit broken_rollback) = Inl e \<and> err_code e = ''recovery_failed''
     \<and> map_of (w_journal (snd (example_commit broken_rollback))) (lit ''j'') \<noteq> None"
proof -
  let ?p = "[lit ''C:'', lit ''w'', lit ''a'']"
  have "isl (fst (example_commit broken_rollback))" by code_simp
  then obtain e where e: "fst (example_commit broken_rollback) = Inl e" by (cases "fst (example_commit broken_rollback)") auto
  have "content (w_disk (snd (example_commit broken_rollback))) ?p \<noteq> content (w_disk example_world) ?p" by code_simp
  then have "content (w_disk (snd (example_commit broken_rollback))) \<noteq> content (w_disk example_world)" by auto
  from commit_fail_closed [OF example_commit_eq [of broken_rollback, unfolded e] example_commit_hyps(2,3) inj_on_id2 this]
  show ?thesis using e by auto
qed

definition example_backup :: "(pystr \<times> bytes) list \<times> journal_record list" where
  "example_backup = (case backup_files (\<lambda>b. b) no_faults example_disk example_project example_preflight 0
     (sort (map fst (pf_desired example_preflight))) of Inr b \<Rightarrow> b | Inl _ \<Rightarrow> ([], []))"

definition example_manifest :: manifest where
  "example_manifest = \<lparr>m_project = lit ''p1'', m_root_fp = root_fp example_project, m_key = lit ''key'',
     m_digest = lit ''digest'', m_result = JNull, m_binding = example_binding, m_state = Committing,
     m_records = snd example_backup, m_scope = None\<rparr>"

text \<open>The world of a daemon that stopped after the first of the two mutations.\<close>

definition example_crash :: world where
  "example_crash = example_world\<lparr>w_disk := snd (snd (mutate (\<lambda>b. b) no_faults example_project example_preflight
     (take 1 (pf_desired example_preflight)) False example_disk))\<rparr>"

theorem crash_recovery_witness:
  "content (w_disk example_crash) \<noteq> content example_disk
   \<and> (\<exists>W'. recover_transaction (\<lambda>b. b) (\<lambda>pr r. Inr pr) no_faults 0 (lit ''j'')
        \<lparr>tx_backups = fst example_backup, tx_manifest = Some example_manifest\<rparr> example_manifest example_crash = (Inr (), W')
      \<and> content (w_disk W') = content example_disk)"
proof (intro conjI)
  have "content (w_disk example_crash) [lit ''C:'', lit ''w'', lit ''b''] \<noteq> content example_disk [lit ''C:'', lit ''w'', lit ''b'']"
    by code_simp
  then show "content (w_disk example_crash) \<noteq> content example_disk" by auto
  have "isl (backup_files (\<lambda>b. b) no_faults example_disk example_project example_preflight 0
     (sort (map fst (pf_desired example_preflight)))) = False" by code_simp
  then have b: "backup_files (\<lambda>b. b) no_faults example_disk example_project example_preflight 0
     (sort (map fst (pf_desired example_preflight))) = Inr (fst example_backup, snd example_backup)"
    by (auto simp: example_backup_def split: sum.splits)
  have "fst (mutate (\<lambda>b. b) no_faults example_project example_preflight
     (take 1 (pf_desired example_preflight)) False example_disk) = Inr ()" by code_simp
  then have m: "mutate (\<lambda>b. b) no_faults example_project example_preflight
     (take 1 (pf_desired example_preflight)) False example_disk
     = (Inr (), fst (snd (mutate (\<lambda>b. b) no_faults example_project example_preflight
     (take 1 (pf_desired example_preflight)) False example_disk)), w_disk example_crash)"
    by (simp add: example_crash_def prod_eq_iff)
  have "restorable no_faults" by (auto simp: restorable_def no_faults_def)
  moreover have "verify_project (\<lambda>b. b) (view (w_disk example_crash)) example_project = Inr ()" by code_simp
  moreover have "get_project (m_project example_manifest) (w_db example_crash) = Inr example_project" by code_simp
  ultimately show "\<exists>W'. recover_transaction (\<lambda>b. b) (\<lambda>pr r. Inr pr) no_faults 0 (lit ''j'')
        \<lparr>tx_backups = fst example_backup, tx_manifest = Some example_manifest\<rparr> example_manifest example_crash = (Inr (), W')
      \<and> content (w_disk W') = content example_disk"
    using crash_recovery [OF b m example_preflight_wf example_disk_wf example_unnested inj_on_id2,
        of example_manifest no_faults "lit ''j''" "\<lambda>pr r. Inr pr" 0]
    by (auto simp: example_manifest_def example_project_def no_faults_def)
qed

end
