(* ===== verification/Patch_Apply.thy ===== *)
theory Patch_Apply
  imports Patch_Atomic
begin

text \<open>
  The patch operation end to end: what preflight computes is the effect of the patch's sections
  on the project's files, and \<open>apply\<close> either brings exactly this effect about or changes nothing.
\<close>

section \<open>What preflight establishes\<close>

definition preflight_inv :: "project \<Rightarrow> pystr list \<Rightarrow> preflight \<Rightarrow> bool" where
  "preflight_inv pr ps pf \<longleftrightarrow> wf_preflight pr pf \<and> fst ` set (pf_desired pf) \<subseteq> set ps"

lemma preflight_inv_desired:
  assumes "preflight_inv pr ps pf" "p \<in> set ps" "validate_relative_path p False = Inr p"
    and "map_of (pf_validated pf) p = Some v" "relative v = p" "absolute v = abs_of pr p"
  shows "preflight_inv pr ps (add_desired p raw pf)"
  using assms by (auto simp: preflight_inv_def wf_preflight_def add_desired_def dict_set_distinct)

lemma preflight_inv_validated:
  assumes "preflight_inv pr ps pf" "resolve sha os pr p me dir fw False = Inr v" "validate_relative_path p False = Inr p"
  shows "preflight_inv pr ps (add_validated p v pf)"
  using assms resolve_relative [OF assms(2,3)]
  by (auto simp: preflight_inv_def wf_preflight_def add_validated_def)

lemma add_lookup [simp]:
  "map_of (pf_validated (add_validated p v pf)) q = (if q = p then Some v else map_of (pf_validated pf) q)"
  "pf_validated (add_desired p raw pf) = pf_validated pf"
  by (simp_all add: add_validated_def add_desired_def)

lemma preflight_inv_change [simp]: "preflight_inv pr ps (add_change c pf) = preflight_inv pr ps pf"
  by (simp add: preflight_inv_def wf_preflight_def add_change_def)


lemma open_read_content:
  assumes "open_read sha pr p D = Inr raw" "validate_relative_path p False = Inr p"
  shows "content D (abs_of pr p) = Some raw"
proof -
  obtain v where v: "resolve sha (view D) pr p True (Some False) False False = Inr v"
    and f: "map_option f_bytes (fs_files D (absolute v)) = Some raw"
    using assms(1) by (auto simp: open_read_def res_simps split: option.splits if_splits)
  then show ?thesis using resolve_relative [OF v assms(2)] by (simp add: content_def)
qed

lemma resolve_absent:
  assumes "resolve sha (view D) pr p False dir fw False = Inr v" "validate_relative_path p False = Inr p"
    and "target_identity v = None"
  shows "content D (abs_of pr p) = None"
proof -
  have "walk (view D) False (root pr) (split_on 47 p) = Inr (abs_of pr p, None)"
    using resolve_relative [OF assms(1,2)] assms(3) by simp
  from walk_absent [OF this] show ?thesis by (simp add: content_def)
qed

section \<open>The effect of a patch\<close>

type_synonym tree = "pystr \<Rightarrow> bytes option"

definition updated_text :: "patch_section \<Rightarrow> bytes \<Rightarrow> bytes option" where
  "updated_text s raw = (case bindE (textfile_decode raw) (\<lambda>doc. apply_hunks doc (hunks s) (path s)) of
     Inl _ \<Rightarrow> None | Inr doc \<Rightarrow> Some (textfile_encode doc))"

definition added_text :: "patch_section \<Rightarrow> bytes" where
  "added_text s = textfile_encode \<lparr>tf_lines = add_lines s, tf_newline = linesep, tf_final = True, tf_bom = False\<rparr>"

definition section_effect :: "tree \<Rightarrow> patch_section \<Rightarrow> tree" where
  "section_effect T s =
     (case action s of
        AddFile \<Rightarrow> T(path s \<mapsto> added_text s)
      | DeleteFile \<Rightarrow> T(path s := None)
      | UpdateFile \<Rightarrow> T(path s := Option.bind (T (path s)) (updated_text s))
      | MoveFile \<Rightarrow> T(path s := None, the (destination s) := Option.bind (T (path s)) (updated_text s)))"

definition patch_effect :: "patch_section list \<Rightarrow> tree \<Rightarrow> tree" where
  "patch_effect ss T = foldl section_effect T ss"

definition files_of :: "project \<Rightarrow> filesystem \<Rightarrow> tree" where
  "files_of pr D p = content D (abs_of pr p)"

definition overlay :: "(pystr \<times> bytes option) list \<Rightarrow> tree \<Rightarrow> tree" where
  "overlay ds T p = (case map_of ds p of None \<Rightarrow> T p | Some c \<Rightarrow> c)"

lemma overlay_add [simp]: "overlay (pf_desired (add_desired p c pf)) T = (overlay (pf_desired pf) T)(p := c)"
  by (auto simp: overlay_def add_desired_def)

lemma overlay_frame [simp]:
  "pf_desired (add_change c pf) = pf_desired pf" "pf_desired (add_validated p v pf) = pf_desired pf"
  by (simp_all add: add_change_def add_validated_def)

lemma overlay_other: "p \<notin> fst ` set ds \<Longrightarrow> overlay ds T p = T p"
  by (auto simp: overlay_def map_of_eq_None_iff dest: map_of_SomeD intro: rev_image_eqI split: option.splits)

lemma wf_section_paths: "wf_section s \<Longrightarrow> p \<in> set (section_paths s) \<Longrightarrow> validate_relative_path p False = Inr p"
  by (auto simp: wf_section_def wf_path_def section_paths_def split: option.splits patch_action.splits)

lemma preflight_add_effect:
  assumes "preflight_add sha D pr h s pf = Inr pf'" "wf_section s" "action s = AddFile"
    and "preflight_inv pr ps pf" "set (section_paths s) \<subseteq> set ps"
  shows "preflight_inv pr ps pf'
    \<and> overlay (pf_desired pf') (files_of pr D) = section_effect (overlay (pf_desired pf) (files_of pr D)) s"
proof -
  have p: "path s \<in> set ps" "validate_relative_path (path s) False = Inr (path s)"
    using assms(2,5) by (auto simp: section_paths_def wf_section_paths)
  obtain v c where v: "resolve sha (view D) pr (path s) False (Some False) True False = Inr v"
    and pf': "pf' = add_change c (add_validated (path s) v (add_desired (path s) (Some (added_text s)) pf))"
    using assms(1) by (auto simp: preflight_add_def res_simps added_text_def Let_def split: if_splits)
  note r = resolve_relative [OF v p(2)]
  have "preflight_inv pr ps (add_desired (path s) (Some (added_text s)) (add_validated (path s) v pf))"
    using preflight_inv_validated [OF assms(4) v p(2)] p r by (intro preflight_inv_desired) auto
  then have "preflight_inv pr ps pf'" unfolding pf' preflight_inv_change
    by (simp add: preflight_inv_def wf_preflight_def add_desired_def add_validated_def)
  then show ?thesis using assms(3) by (simp add: pf' section_effect_def)
qed

lemma preflight_existing_effect:
  assumes "preflight_existing sha D pr base h s pf = Inr pf'" "wf_section s" "action s \<noteq> AddFile"
    and "preflight_inv pr ps pf" "set (section_paths s) \<subseteq> set ps" "path s \<notin> fst ` set (pf_desired pf)"
  shows "preflight_inv pr ps pf'
    \<and> overlay (pf_desired pf') (files_of pr D) = section_effect (overlay (pf_desired pf) (files_of pr D)) s"
proof -
  let ?T = "overlay (pf_desired pf) (files_of pr D)"
  have p: "path s \<in> set ps" "validate_relative_path (path s) False = Inr (path s)"
    using assms(2,5) by (auto simp: section_paths_def wf_section_paths)
  obtain v raw where v: "resolve sha (view D) pr (path s) True (Some False) True False = Inr v"
    and raw: "open_read sha pr (path s) D = Inr raw"
    using assms(1) by (auto simp: preflight_existing_def res_simps)
  define pf1 where "pf1 = add_validated (path s) v pf"
  note r = resolve_relative [OF v p(2)]
  have pf1: "preflight_inv pr ps pf1" "map_of (pf_validated pf1) (path s) = Some v"
    unfolding pf1_def using preflight_inv_validated [OF assms(4) v p(2)] by auto
  have old: "?T (path s) = Some raw"
    using open_read_content [OF raw p(2)] assms(6) by (simp add: overlay_other files_of_def)
  have del: "preflight_inv pr ps (add_desired (path s) c pf1)" for c
    using preflight_inv_desired [OF pf1(1) p pf1(2)] r by blast
  show ?thesis
  proof (cases "action s")
    case DeleteFile
    then obtain c where "pf' = add_change c (add_desired (path s) None pf1)"
      using assms(1) v raw by (auto simp: preflight_existing_def res_simps pf1_def Let_def split: if_splits)
    then show ?thesis using del DeleteFile by (simp add: section_effect_def pf1_def)
  next
    case UpdateFile
    then obtain c u where "pf' = add_change c (add_desired (path s) (Some u) pf1)" "updated_text s raw = Some u"
      using assms(1) v raw
      by (auto simp: preflight_existing_def res_simps pf1_def Let_def updated_text_def split: if_splits)
    then show ?thesis using del UpdateFile old by (simp add: section_effect_def pf1_def)
  next
    case MoveFile
    then obtain u where m: "preflight_move sha D pr base s (sha raw) u pf1 = Inr pf'" and u: "updated_text s raw = Some u"
      using assms(1) v raw
      by (auto simp: preflight_existing_def res_simps pf1_def Let_def updated_text_def split: if_splits)
    then obtain d v' c where d: "destination s = Some d"
      and v': "resolve sha (view D) pr d False (Some False) True False = Inr v'"
      and pf': "pf' = add_change c (add_desired d (Some u) (add_desired (path s) None (add_validated d v' pf1)))"
      by (auto simp: preflight_move_def res_simps split: option.splits if_splits)
    have dp: "d \<in> set ps" "validate_relative_path d False = Inr d"
      using assms(2,5) d by (auto simp: section_paths_def wf_section_paths)
    have "preflight_inv pr ps (add_validated d v' (add_desired (path s) None pf1))"
      using preflight_inv_validated [OF del v' dp(2)] .
    then have "preflight_inv pr ps (add_desired d (Some u) (add_validated d v' (add_desired (path s) None pf1)))"
      using resolve_relative [OF v' dp(2)] dp by (intro preflight_inv_desired) auto
    then have "preflight_inv pr ps pf'" unfolding pf' preflight_inv_change
      by (simp add: preflight_inv_def wf_preflight_def add_desired_def add_validated_def)
    then show ?thesis using MoveFile old d u by (simp add: pf' section_effect_def pf1_def)
  qed (use assms(3) in simp)
qed

lemma preflight_sections_effect:
  assumes "preflight_sections sha pl D pr base touched ss pf = Inr pf'" "list_all wf_section ss"
    and "preflight_inv pr ps pf" "set (concat (map section_paths ss)) \<subseteq> set ps"
    and "fst ` set (pf_desired pf) \<subseteq> set touched"
  shows "preflight_inv pr ps pf'
    \<and> overlay (pf_desired pf') (files_of pr D) = patch_effect ss (overlay (pf_desired pf) (files_of pr D))"
  using assms
proof (induction ss arbitrary: touched pf)
  case Nil
  then show ?case by (simp add: patch_effect_def)
next
  case (Cons s ss)
  let ?h = "case map_of base (path s) of Some h \<Rightarrow> h | None \<Rightarrow> None"
  obtain pf1 where fresh: "filter (\<lambda>p. p \<in> set touched) (remdups (section_paths s)) = []"
    and one: "(if action s = AddFile then preflight_add sha D pr ?h s pf
        else preflight_existing sha D pr base ?h s pf) = Inr pf1"
    and rest: "preflight_sections sha pl D pr base (section_paths s @ touched) ss pf1 = Inr pf'"
    using Cons.prems(1) by (auto simp: res_simps Let_def split: if_splits)
  have "path s \<notin> fst ` set (pf_desired pf)"
    using fresh Cons.prems(5) by (auto simp: section_paths_def filter_empty_conv)
  moreover have w: "wf_section s" "list_all wf_section ss" "set (section_paths s) \<subseteq> set ps"
      "set (concat (map section_paths ss)) \<subseteq> set ps"
    using Cons.prems by auto
  ultimately have step: "preflight_inv pr ps pf1 \<and> overlay (pf_desired pf1) (files_of pr D)
      = section_effect (overlay (pf_desired pf) (files_of pr D)) s"
    using preflight_add_effect [OF _ w(1) _ Cons.prems(3) w(3)]
      preflight_existing_effect [OF _ w(1) _ Cons.prems(3) w(3)] one by (auto split: if_splits)
  have "preflight_inv pr (section_paths s @ touched) pf"
    using Cons.prems(3,5) by (auto simp: preflight_inv_def)
  then have "preflight_inv pr (section_paths s @ touched) pf1"
    using preflight_add_effect [OF _ w(1), of sha D pr ?h pf pf1 "section_paths s @ touched"]
      preflight_existing_effect [OF _ w(1), of sha D pr base ?h pf pf1 "section_paths s @ touched"]
      one \<open>path s \<notin> _\<close> by (auto split: if_splits)
  then have "fst ` set (pf_desired pf1) \<subseteq> set (section_paths s @ touched)" by (simp add: preflight_inv_def)
  from Cons.IH [OF rest w(2) conjunct1 [OF step] w(4) this] step show ?case by (simp add: patch_effect_def)
qed

lemma run_preflight_effect:
  assumes "run_preflight sha pl D pr ss base = Inr pf" "list_all wf_section ss"
  shows "preflight_inv pr (concat (map section_paths ss)) pf"
    "overlay (pf_desired pf) (files_of pr D) = patch_effect ss (files_of pr D)"
proof -
  have "preflight_sections sha pl D pr base [] ss empty_preflight = Inr pf"
    using assms(1) by (auto simp: run_preflight_def Let_def split: if_splits)
  moreover have "preflight_inv pr (concat (map section_paths ss)) empty_preflight"
    by (simp add: preflight_inv_def wf_preflight_def empty_preflight_def)
  moreover have "overlay (pf_desired empty_preflight) T = T" for T
    by (simp add: overlay_def empty_preflight_def fun_eq_iff)
  ultimately show "preflight_inv pr (concat (map section_paths ss)) pf"
    "overlay (pf_desired pf) (files_of pr D) = patch_effect ss (files_of pr D)"
    using preflight_sections_effect [OF _ assms(2), of sha pl D pr base "[]" empty_preflight pf] by (auto simp: empty_preflight_def)
qed


section \<open>The whole operation\<close>

lemma unnested_subset: "unnested xs \<Longrightarrow> set ys \<subseteq> set xs \<Longrightarrow> unnested ys"
  unfolding unnested_def by blast

text \<open>The tree after a committed batch.\<close>

lemma committed_files:
  assumes "preflight_inv pr ps pf"
    and "\<forall>(p, c)\<in>set (pf_desired pf). content D' (abs_of pr p) = c"
    and "\<forall>q. q \<notin> abs_of pr ` fst ` set (pf_desired pf) \<longrightarrow> content D' q = content D q"
  shows "files_of pr D' = overlay (pf_desired pf) (files_of pr D)"
    "\<forall>q. q \<notin> abs_of pr ` set ps \<longrightarrow> content D' q = content D q"
proof -
  show "files_of pr D' = overlay (pf_desired pf) (files_of pr D)"
  proof
    fix p
    show "files_of pr D' p = overlay (pf_desired pf) (files_of pr D) p"
    proof (cases "map_of (pf_desired pf) p")
      case None
      then have "p \<notin> fst ` set (pf_desired pf)" by (simp only: map_of_eq_None_iff simp_thms)
      then have "abs_of pr p \<notin> abs_of pr ` fst ` set (pf_desired pf)" by (simp add: image_iff)
      then show ?thesis using None assms(3) by (simp add: overlay_def files_of_def)
    next
      case (Some c)
      then show ?thesis using assms(2) map_of_SomeD [OF Some] by (auto simp: overlay_def files_of_def)
    qed
  qed
  show "\<forall>q. q \<notin> abs_of pr ` set ps \<longrightarrow> content D' q = content D q"
    using assms(1,3) by (auto simp: preflight_inv_def)
qed

lemma with_gate_cases:
  assumes "with_gate k v body W = (r, W')"
  obtains (busy) e where "r = Inl e" "W' = W"
  | (ran) g W1 where "reserve k v (w_gate W) = Inr g" "body (W\<lparr>w_gate := g\<rparr>) = (r, W1)"
      "W' = W1\<lparr>w_gate := release k v (w_gate W1)\<rparr>"
  using assms by (auto simp: with_gate_def split: sum.splits prod.splits)

lemma commit_gate_db:
  assumes "commit sha pl pr pf jid key dg result b W = (r, W')"
  shows "w_gate W' = w_gate W" "w_db W' = w_db W"
  using assms by (auto simp: commit_def commit_cleanup_def Let_def split: sum.splits prod.splits if_splits)

text \<open>What the part under the gate does, on every branch.\<close>

lemma apply_locked_outcome:
  assumes "apply_locked sha pl now jid q dg base ss pr W = (res, W')"
    and "list_all wf_section ss" "wf_disk (w_disk W)" "unnested (concat (map section_paths ss))"
    and "inj sha" "restorable pl"
  shows "case res of
      Inl _ \<Rightarrow> content (w_disk W') = content (w_disk W)
    | Inr _ \<Rightarrow> if pq_dry q then W' = W
        else files_of pr (w_disk W') = patch_effect ss (files_of pr (w_disk W))
          \<and> (\<forall>a. a \<notin> abs_of pr ` set (concat (map section_paths ss)) \<longrightarrow> content (w_disk W') a = content (w_disk W) a)"
proof (cases "bindE (at_point pl ''check_gate'' []) (\<lambda>_.
           bindE (run_preflight sha pl (w_disk W) pr ss base) (\<lambda>pf.
           bindE (at_point pl ''check_preflight'' []) (\<lambda>_. Inr pf)))")
  case (Inl e)
  then show ?thesis using assms(1) by (auto simp: apply_locked_def)
next
  case (Inr pf)
  then have run: "run_preflight sha pl (w_disk W) pr ss base = Inr pf" by (auto simp: res_simps)
  note pre = run_preflight_effect [OF run assms(2)]
  let ?result = "patch_result (pq_project q) (pq_key q) False (pf_changes pf) (Some jid)"
  let ?put = "put_idempotency now (pq_project q) PATCH (pq_key q) dg RUNNING None (pq_binding q) (w_db W)"
  consider (dry) "pq_dry q" | (refused) e d where "\<not> pq_dry q" "?put = (Inl e, d)" | (put) d where "\<not> pq_dry q" "?put = (Inr (), d)"
    by (cases "?put"; cases "fst ?put") auto
  then show ?thesis
  proof cases
    case dry
    then show ?thesis using assms(1) Inr by (auto simp: apply_locked_def)
  next
    case refused
    then show ?thesis using assms(1) Inr by (auto simp: apply_locked_def Let_def)
  next
    case put
    obtain r W1 where c: "commit sha pl pr pf jid (pq_key q) dg ?result (pq_binding q) (W\<lparr>w_db := d\<rparr>) = (r, W1)"
      by fastforce
    have "unnested (map fst (pf_desired pf))"
      using unnested_subset [OF assms(4), of "map fst (pf_desired pf)"] pre(1) by (simp add: preflight_inv_def)
    moreover have "wf_preflight pr pf" "wf_disk (w_disk (W\<lparr>w_db := d\<rparr>))"
      using pre(1) assms(3) by (simp_all add: preflight_inv_def)
    ultimately have atomic: "case r of
      Inr _ \<Rightarrow> (\<forall>(p, c)\<in>set (pf_desired pf). content (w_disk W1) (abs_of pr p) = c)
        \<and> (\<forall>q. q \<notin> abs_of pr ` fst ` set (pf_desired pf) \<longrightarrow> content (w_disk W1) q = content (w_disk W) q)
    | Inl _ \<Rightarrow> content (w_disk W1) = content (w_disk W)"
      using commit_atomic [OF c _ _ _ assms(5,6)] by (cases r) simp_all
    show ?thesis
    proof (cases r)
      case (Inl e)
      then show ?thesis using assms(1) Inr put c atomic by (auto simp: apply_locked_def Let_def)
    next
      case r: (Inr u)
      have "w_db W1 = d" using commit_gate_db(2) [OF c] by simp
      moreover obtain row where "find_idem (pq_project q, PATCH, pq_key q) d = Some row" "i_binding row = pq_binding q" "i_digest row = dg"
        using put_idempotency_stores [of now "pq_project q" PATCH "pq_key q" dg RUNNING None "pq_binding q" "w_db W"] put by auto
      ultimately obtain d' where "put_idempotency now (pq_project q) PATCH (pq_key q) dg SUCCEEDED (Some ?result)
          (pq_binding q) (w_db W1) = (Inr (), d')"
        by (auto simp: put_idempotency_def Let_def)
      then have "res = Inr ?result" "w_disk W' = w_disk W1"
        using assms(1) Inr put c r by (auto simp: apply_locked_def Let_def)
      moreover have new: "\<forall>(p, c)\<in>set (pf_desired pf). content (w_disk W1) (abs_of pr p) = c"
        and old: "\<forall>q. q \<notin> abs_of pr ` fst ` set (pf_desired pf) \<longrightarrow> content (w_disk W1) q = content (w_disk W) q"
        using atomic unfolding r sum.case by (rule conjunct1, rule conjunct2)
      note committed_files [OF pre(1) new old, unfolded pre(2)]
      ultimately show ?thesis using put(1) by simp
    qed
  qed
qed

text \<open>
  C1. A patch is applied entirely or not at all: for a key that was not used before, whatever
  step fails (the caller's consent check, parsing, preflight, a backup, a journal write, a
  replacement, a removal, the database), as long as the rollback's own operations are carried
  out, a failed call leaves every file of the disk with its old content; a dry run changes no
  file; and a call that succeeds leaves the project's files exactly as the sections of the patch,
  one after the other, transform them, and every other file of the disk untouched.
\<close>

theorem apply_patch_atomic:
  assumes "apply_patch sha dumps ext pl now jid reconcile target q W = (res, W')"
    and "get_idempotency (pq_project q) PATCH (pq_key q) (pq_binding q) (w_db W) = Inr None"
    and "wf_disk (w_disk W)" "inj sha" "restorable pl"
    and "\<And>ss. parse_patch (pq_patch q) = Inr ss \<Longrightarrow> unnested (concat (map section_paths ss))"
  shows "case res of
      Inl _ \<Rightarrow> content (w_disk W') = content (w_disk W)
    | Inr _ \<Rightarrow> if pq_dry q then content (w_disk W') = content (w_disk W)
        else \<exists>ss pr. parse_patch (pq_patch q) = Inr ss
          \<and> (case pq_scope q of None \<Rightarrow> get_project (pq_project q) (w_db W) = Inr pr | Some r \<Rightarrow> root pr = r)
          \<and> files_of pr (w_disk W') = patch_effect ss (files_of pr (w_disk W))
          \<and> (\<forall>a. a \<notin> abs_of pr ` set (concat (map section_paths ss)) \<longrightarrow> content (w_disk W') a = content (w_disk W) a)"
proof -
  let ?entry = "bindE (at_point pl ''check_enter'' []) (\<lambda>_.
           if \<not> (8 \<le> length (pq_key q) \<and> length (pq_key q) \<le> 200) then Inl (raise ''invalid_request'')
           else bindE (normalize_base_hashes (pq_base q)) (\<lambda>base.
             bindE (usable_project (pq_project q) (w_db W)) (\<lambda>registered.
               case pq_scope q of
                 None \<Rightarrow> Inr (base, registered)
               | Some r \<Rightarrow> (case target of
                     None \<Rightarrow> Inl (raise ''invalid_request'')
                   | Some tp \<Rightarrow> if root tp \<noteq> r then Inl (raise ''invalid_request'') else Inr (base, tp)))))"
  consider (refused) e where "?entry = Inl e" | (bad) e base pr where "?entry = Inr (base, pr)" "parse_patch (pq_patch q) = Inl e"
    | (ok) base pr ss where "?entry = Inr (base, pr)" "parse_patch (pq_patch q) = Inr ss"
    by (cases ?entry; cases "parse_patch (pq_patch q)") auto
  then show ?thesis
  proof cases
    case refused
    then show ?thesis using assms(1) by (auto simp: apply_patch_def)
  next
    case bad
    then show ?thesis using assms(1,2) by (auto simp: apply_patch_def prior_result_def Let_def)
  next
    case ok
    have scope: "case pq_scope q of None \<Rightarrow> get_project (pq_project q) (w_db W) = Inr pr | Some r \<Rightarrow> root pr = r"
      using ok(1) by (auto simp: res_simps usable_project_def split: if_splits option.splits)
    have "with_gate (root_fp pr) (patch_owner (pq_key q))
        (apply_locked sha pl now jid q (request_digest sha dumps q base) base ss pr) W = (res, W')"
      using assms(1,2) ok by (simp add: apply_patch_def prior_result_def Let_def)
    then show ?thesis
    proof (cases rule: with_gate_cases)
      case (busy e)
      then show ?thesis by simp
    next
      case (ran g W1)
      have "list_all wf_section ss" using parse_patch_sound [OF ok(2)] by simp
      from apply_locked_outcome [OF ran(2) this _ assms(6) [OF ok(2)] assms(4,5)] assms(3)
      have "case res of
          Inl _ \<Rightarrow> content (w_disk W1) = content (w_disk W)
        | Inr _ \<Rightarrow> if pq_dry q then W1 = W\<lparr>w_gate := g\<rparr>
            else files_of pr (w_disk W1) = patch_effect ss (files_of pr (w_disk W))
              \<and> (\<forall>a. a \<notin> abs_of pr ` set (concat (map section_paths ss)) \<longrightarrow> content (w_disk W1) a = content (w_disk W) a)"
        by (cases res) simp_all
      then show ?thesis using ran(3) scope ok(2) by (cases res) auto
    qed
  qed
qed


definition example_patch :: pystr where
  "example_patch = join [10] [lit ''*** Begin Patch'', lit ''*** Add File: b'', lit ''+two'',
     lit ''*** Delete File: a'', lit ''*** End Patch'']"

definition example_request :: patch_request where
  "example_request = \<lparr>pq_project = lit ''p1'', pq_patch = example_patch,
     pq_base = [(lit ''b'', None), (lit ''a'', Some example_bytes)], pq_key = lit ''key-0001'', pq_dry = False,
     pq_binding = example_binding, pq_scope = None, pq_scope_text = None\<rparr>"

definition example_apply :: "string list \<Rightarrow> json res \<times> world" where
  "example_apply ws = apply_patch (\<lambda>b. b) (\<lambda>_. []) (\<lambda>pr r. Inr pr) (faulty ws) 0 (lit ''j'') False None
     example_request example_world"

lemma example_sections_unnested:
  assumes "parse_patch (pq_patch example_request) = Inr ss"
  shows "unnested (concat (map section_paths ss))"
proof -
  have "case parse_patch (pq_patch example_request) of Inl _ \<Rightarrow> True
    | Inr ss \<Rightarrow> unnested (concat (map section_paths ss))" by code_simp
  with assms show ?thesis by simp
qed

theorem apply_patch_atomic_witness:
  "isl (fst (example_apply [''manifest_committed'']))
    \<and> content (w_disk (snd (example_apply [''manifest_committed'']))) = content example_disk
    \<and> \<not> isl (fst (example_apply []))
    \<and> (\<exists>ss. parse_patch example_patch = Inr ss
        \<and> files_of example_project (w_disk (snd (example_apply []))) = patch_effect ss (files_of example_project example_disk))"
proof -
  have failed: "isl (fst (example_apply [''manifest_committed'']))" by code_simp
  have ok: "\<not> isl (fst (example_apply []))" by code_simp
  have r: "restorable (faulty [''manifest_committed''])" "restorable (faulty [])"
    by (rule faulty_restorable; simp)+
  have fresh: "get_idempotency (pq_project example_request) PATCH (pq_key example_request) (pq_binding example_request)
      (w_db example_world) = Inr None" by code_simp
  have reg: "get_project (pq_project example_request) (w_db example_world) = Inr example_project" by code_simp
  have eq: "apply_patch (\<lambda>b. b) (\<lambda>_. []) (\<lambda>pr r. Inr pr) (faulty ws) 0 (lit ''j'') False None
     example_request example_world = (fst (example_apply ws), snd (example_apply ws))" for ws
    by (simp add: example_apply_def)
  have "content (w_disk (snd (example_apply [''manifest_committed'']))) = content example_disk"
    using apply_patch_atomic [OF eq fresh example_commit_hyps(3) inj_on_id2 r(1) example_sections_unnested] failed
    by (auto simp: example_world_disk split: sum.splits)
  moreover have "\<not> pq_dry example_request" "pq_scope example_request = None" "pq_patch example_request = example_patch"
    by (simp_all add: example_request_def)
  then have "\<exists>ss. parse_patch example_patch = Inr ss
        \<and> files_of example_project (w_disk (snd (example_apply []))) = patch_effect ss (files_of example_project example_disk)"
    using apply_patch_atomic [OF eq fresh example_commit_hyps(3) inj_on_id2 r(2) example_sections_unnested] ok reg
    by (auto simp: example_world_disk split: sum.splits)
  ultimately show ?thesis using failed ok by simp
qed

text \<open>
  A patch that deletes a file and adds another one below its name passes preflight, fails in the
  commit, and is reported as a failed recovery although every file has its old content again: the
  rollback cannot resolve the nested path before the deleted file is back.
\<close>

definition nested_preflight :: preflight where
  "nested_preflight = (case run_preflight (\<lambda>b. b) no_faults example_disk example_project
     [\<lparr>action = DeleteFile, path = lit ''a'', destination = None, add_lines = [], hunks = []\<rparr>,
      \<lparr>action = AddFile, path = lit ''a/b'', destination = None, add_lines = [lit ''two''], hunks = []\<rparr>]
     [(lit ''a'', Some example_bytes), (lit ''a/b'', None)] of Inr pf \<Rightarrow> pf | Inl _ \<Rightarrow> empty_preflight)"

lemma nested_paths_spurious_recovery_failure:
  "case commit (\<lambda>b. b) no_faults example_project nested_preflight (lit ''j'') (lit ''key'') (lit ''digest'') JNull
      example_binding example_world of
     (r, W') \<Rightarrow> (case r of Inl (AgentError c _ _) \<Rightarrow> c = ''recovery_failed'' | _ \<Rightarrow> False)
       \<and> content (w_disk W') [lit ''C:'', lit ''w'', lit ''a''] = Some example_bytes
       \<and> map_of (w_journal W') (lit ''j'') \<noteq> None"
  by code_simp

section \<open>Exactly once\<close>

lemma put_idempotency_row:
  assumes "put_idempotency now pid cap key dg st res b d = (Inr (), d')"
  shows "get_idempotency pid cap key b d' = Inr (Some (dg, st, truthy_obj res)) \<and> projects d' = projects d"
proof (cases "find_idem (pid, cap, key) d")
  case None
  then have "find_idem (pid, cap, key) d' = Some \<lparr>i_project = pid, i_capability = cap, i_key = key, i_binding = b,
      i_digest = dg, i_state = st, i_result = truthy_obj res,
      i_job = (if cap = SHELL then shown (Option.bind (truthy_obj res) (jget ''job_id'')) else None),
      i_created = now, i_updated = now\<rparr>" "projects d' = projects d"
    using assms by (auto simp: put_idempotency_def Let_def find_idem_def find_append idem_key_of_def split: if_splits)
  then show ?thesis by (simp add: get_idempotency_def)
next
  case (Some r)
  let ?f = "\<lambda>r. if idem_key_of r = (pid, cap, key)
      then r\<lparr>i_state := st, i_result := truthy_obj res,
             i_job := (if cap = SHELL then shown (Option.bind (truthy_obj res) (jget ''job_id'')) else None),
             i_updated := now\<rparr> else r"
  have d': "d' = d\<lparr>idempotency := map ?f (idempotency d)\<rparr>" "i_digest r = dg" "i_binding r = b"
    using assms Some by (auto simp: put_idempotency_def Let_def split: if_splits)
  have "find_idem (pid, cap, key) d' = Some (?f r)"
  proof -
    have "idem_key_of (?f x) = idem_key_of x" for x by (simp add: idem_key_of_def)
    from find_map_key [of idem_key_of ?f "(pid, cap, key)", OF this] Some show ?thesis
      unfolding d' find_idem_def by simp
  qed
  moreover have "idem_key_of r = (pid, cap, key)" using Some by (auto simp: find_idem_def find_Some_iff)
  ultimately show ?thesis using d' by (simp add: get_idempotency_def)
qed

lemma apply_locked_stores:
  assumes "apply_locked sha pl now jid q dg base ss pr W = (Inr r, W')" "\<not> pq_dry q"
  shows "get_idempotency (pq_project q) PATCH (pq_key q) (pq_binding q) (w_db W') = Inr (Some (dg, SUCCEEDED, Some r))
    \<and> projects (w_db W') = projects (w_db W)"
proof -
  obtain pf d W1 d' where p: "put_idempotency now (pq_project q) PATCH (pq_key q) dg RUNNING None (pq_binding q) (w_db W) = (Inr (), d)"
    and c: "commit sha pl pr pf jid (pq_key q) dg r (pq_binding q) (W\<lparr>w_db := d\<rparr>) = (Inr (), W1)"
    and p': "put_idempotency now (pq_project q) PATCH (pq_key q) dg SUCCEEDED (Some r) (pq_binding q) (w_db W1) = (Inr (), d')"
    and r: "r = patch_result (pq_project q) (pq_key q) False (pf_changes pf) (Some jid)" "w_db W' = d'"
    using assms by (auto simp: apply_locked_def Let_def split: sum.splits prod.splits)
  have "truthy_obj (Some r) = Some r" by (simp add: r patch_result_def truthy_obj_def)
  then show ?thesis using put_idempotency_row [OF p] put_idempotency_row [OF p'] commit_gate_db(2) [OF c] r(2) by simp
qed

lemma get_project_frame: "projects d' = projects d \<Longrightarrow> get_project pid d' = get_project pid d"
  by (simp add: get_project_def)



end
