(* ===== verification/Action_Digest.thy ===== *)
theory Action_Digest
  imports Agent_Db_Inv
begin

text \<open>
  The canonical JSON text and the action digest that approvals, journaling and deduplication share
  (\<open>packages/protocol/src/codito_protocol/digest.py\<close>).  The hash is the parameter \<open>sha\<close>; a model
  instance reaches these functions as the JSON value its \<open>model_dump\<close> gives.
\<close>

section \<open>\<open>json.dumps\<close> with sorted keys and the compact separators\<close>

definition escape_char :: "nat \<Rightarrow> pystr" where
  "escape_char c =
     (if c = 34 then [92, 34] else if c = 92 then [92, 92]
      else if c = 10 then [92, 110] else if c = 13 then [92, 114] else if c = 9 then [92, 116]
      else if c = 12 then [92, 102] else if c = 8 then [92, 98]
      else if c < 32 then [92, 117] @ hex_pad 4 c else [c])"

definition json_string :: "pystr \<Rightarrow> pystr" where
  "json_string s = 34 # concat (map escape_char s) @ [34]"

definition json_pair :: "pystr \<times> pystr \<Rightarrow> pystr" where
  "json_pair = (\<lambda>(k, t). json_string k @ 58 # t)"

fun dumps :: "json \<Rightarrow> pystr" where
  "dumps JNull = lit ''null''"
| "dumps (JBool b) = (if b then lit ''true'' else lit ''false'')"
| "dumps (JInt i) = py_str i"
| "dumps (JStr s) = json_string s"
| "dumps (JList xs) = 91 # join [44] (map dumps xs) @ [93]"
| "dumps (JObj kvs) =
     123 # join [44] (map json_pair (sort_key fst (map (\<lambda>(k, v). (k, dumps v)) kvs))) @ [125]"

definition canonical_action_bytes :: "json \<Rightarrow> bytes res" where
  "canonical_action_bytes v =
     (let t = dumps v in if list_all scalar t then Inr (utf8_encode t) else Inl ValueError)"

definition DOMAIN_SEPARATOR :: bytes where
  "DOMAIN_SEPARATOR = lit ''codito-action-digest-v1'' @ [0]"

definition compute_action_digest :: "(bytes \<Rightarrow> pystr) \<Rightarrow> json \<Rightarrow> pystr res" where
  "compute_action_digest sha v = bindE (canonical_action_bytes v) (\<lambda>b. Inr (sha (DOMAIN_SEPARATOR @ b)))"

section \<open>The text determines the value\<close>

text \<open>Objects with their keys in order, at every depth.\<close>

fun canon :: "json \<Rightarrow> json" where
  "canon (JList xs) = JList (map canon xs)"
| "canon (JObj kvs) = JObj (sort_key fst (map (\<lambda>(k, v). (k, canon v)) kvs))"
| "canon v = v"

fun print_json :: "json \<Rightarrow> pystr" where
  "print_json JNull = lit ''null''"
| "print_json (JBool b) = (if b then lit ''true'' else lit ''false'')"
| "print_json (JInt i) = py_str i"
| "print_json (JStr s) = json_string s"
| "print_json (JList xs) = 91 # join [44] (map print_json xs) @ [93]"
| "print_json (JObj kvs) = 123 # join [44] (map (\<lambda>(k, v). json_pair (k, print_json v)) kvs) @ [125]"

lemma insort_key_fst_map:
  "insort_key fst (k, f v) (map (\<lambda>(k, v). (k, f v)) xs) = map (\<lambda>(k, v). (k, f v)) (insort_key fst (k, v) xs)"
  by (induction xs) auto

lemma sort_key_fst_map:
  "sort_key fst (map (\<lambda>(k, v). (k, f v)) xs) = map (\<lambda>(k, v). (k, f v)) (sort_key fst xs)"
proof (induction xs)
  case (Cons x xs)
  then show ?case using insort_key_fst_map [of "fst x" f "snd x"] by (cases x) simp
qed simp

lemma dumps_canon: "dumps v = print_json (canon v)"
proof (induction v)
  case (JObj kvs)
  have "map (\<lambda>(k, v). (k, dumps v)) kvs = map (\<lambda>(k, v). (k, print_json (canon v))) kvs"
    using JObj by fastforce
  then have "sort_key fst (map (\<lambda>(k, v). (k, dumps v)) kvs) = sort_key fst (map (\<lambda>(k, v). (k, print_json (canon v))) kvs)"
    by (rule arg_cong)
  also have "\<dots> = map (\<lambda>(k, v). (k, print_json (canon v))) (sort_key fst kvs)"
    by (rule sort_key_fst_map)
  finally have "dumps (JObj kvs)
      = 123 # join [44] (map json_pair (map (\<lambda>(k, v). (k, print_json (canon v))) (sort_key fst kvs))) @ [125]"
    by (simp only: dumps.simps)
  then show ?case by (simp add: sort_key_fst_map comp_def case_prod_beta)
qed (auto cong: map_cong)

subsection \<open>Strings\<close>

lemma hex_pad_length: "c < 32 \<Longrightarrow> length (hex_pad 4 c) = 4"
  by (simp add: hex_pad_def Let_def hex_digits.simps)

definition unescape :: "pystr \<Rightarrow> nat \<times> pystr" where
  "unescape t = (case t of [] \<Rightarrow> (0, [])
     | c # r \<Rightarrow>
         if c \<noteq> 92 then (c, r)
         else case r of [] \<Rightarrow> (0, [])
           | d # r' \<Rightarrow>
               if d = 110 then (10, r') else if d = 114 then (13, r') else if d = 116 then (9, r')
               else if d = 102 then (12, r') else if d = 98 then (8, r')
               else if d = 117 then (hex_val (take 4 r'), drop 4 r') else (d, r'))"

lemma unescape_escape: "unescape (escape_char c @ r) = (c, r)"
  using hex_pad_length [of c] hex_val_hex_pad [of 4 c]
  by (simp add: escape_char_def unescape_def)

lemma escape_char_unique: "escape_char c @ r = escape_char d @ s \<Longrightarrow> c = d \<and> r = s"
  by (metis unescape_escape prod.inject)

lemma escape_char_head: "\<exists>d t. escape_char c = d # t \<and> d \<noteq> 34"
  by (auto simp: escape_char_def)

lemma escaped_unique:
  "concat (map escape_char s) @ 34 # r = concat (map escape_char t) @ 34 # r' \<Longrightarrow> s = t \<and> r = r'"
proof (induction s arbitrary: t)
  case Nil
  then show ?case
  proof (cases t)
    case (Cons d t')
    with Nil show ?thesis using escape_char_head [of d] by auto
  qed simp
next
  case (Cons c s)
  show ?case
  proof (cases t)
    case Nil
    with Cons.prems show ?thesis using escape_char_head [of c] by auto
  next
    case t: (Cons d t')
    with Cons.prems have "escape_char c @ (concat (map escape_char s) @ 34 # r)
        = escape_char d @ (concat (map escape_char t') @ 34 # r')" by simp
    from escape_char_unique [OF this] Cons.IH [of t'] t show ?thesis by simp
  qed
qed

lemma json_string_unique: "json_string s @ r = json_string t @ r' \<Longrightarrow> s = t \<and> r = r'"
proof -
  assume "json_string s @ r = json_string t @ r'"
  then have "concat (map escape_char s) @ 34 # r = concat (map escape_char t) @ 34 # r'"
    by (simp only: json_string_def append_Cons append_assoc append_Nil list.inject simp_thms)
  then show "s = t \<and> r = r'" by (rule escaped_unique)
qed

subsection \<open>Numbers\<close>

definition number_char :: "nat \<Rightarrow> bool" where
  "number_char c \<longleftrightarrow> c = 45 \<or> 48 \<le> c \<and> c \<le> 57"

lemma py_str_chars: "py_str i \<noteq> [] \<and> list_all number_char (py_str i)"
  using py_str_nat_digits [of "nat i"] py_str_nat_digits [of "nat (- i)"]
  by (auto simp: py_str_def number_char_def list_all_iff)

lemma py_str_nat_inj: "py_str_nat m = py_str_nat n \<Longrightarrow> m = n"
  by (metis digits_val_py_str option.inject)

lemma py_str_nat_head: "hd (py_str_nat n) \<noteq> 45"
  using py_str_nat_digits [of n] by (cases "py_str_nat n") auto

lemma py_str_inj: "py_str i = py_str j \<Longrightarrow> i = j"
  using py_str_nat_inj [of "nat (- i)" "nat (- j)"] py_str_nat_inj [of "nat i" "nat j"]
    py_str_nat_head [of "nat i"] py_str_nat_head [of "nat j"]
  by (auto simp: py_str_def split: if_splits) (metis list.sel(1))+

definition ends_value :: "pystr \<Rightarrow> bool" where
  "ends_value r \<longleftrightarrow> (case r of [] \<Rightarrow> True | c # _ \<Rightarrow> c = 44 \<or> c = 93 \<or> c = 125)"

lemma py_str_unique:
  assumes "py_str i @ r = py_str j @ r'" "ends_value r" "ends_value r'"
  shows "i = j \<and> r = r'"
proof -
  have "takeWhile number_char (py_str k @ x) = py_str k" if "ends_value x" for k x
    using that py_str_chars [of k]
    by (cases x) (auto simp: ends_value_def number_char_def list_all_iff takeWhile_append2 takeWhile_eq_all_conv)
  then have "py_str i = py_str j" using assms by metis
  then show ?thesis using assms(1) py_str_inj by simp
qed

subsection \<open>Values\<close>

lemma join_unique:
  assumes "join [44] (map f xs) @ e # r = join [44] (map f ys) @ e # r'"
    and "\<And>x y t t'. x \<in> set xs \<Longrightarrow> f x @ t = f y @ t' \<Longrightarrow> ends_value t \<Longrightarrow> ends_value t' \<Longrightarrow> x = y \<and> t = t'"
    and "\<And>x. f x \<noteq> [] \<and> hd (f x) \<noteq> e" "e = 93 \<or> e = 125"
  shows "xs = ys \<and> r = r'"
  using assms(1,2)
proof (induction xs arbitrary: ys)
  case Nil
  show ?case
  proof (cases ys)
    case Nil
    with \<open>join _ (map f []) @ _ = _\<close> show ?thesis by simp
  next
    case (Cons y ys')
    have "f y \<noteq> []" "hd (f y) \<noteq> e" using assms(3) [of y] by auto
    moreover have "\<exists>t. join [44] (map f ys) = f y @ t" using Cons by (cases ys') auto
    ultimately show ?thesis using Nil.prems(1) by (cases "f y") auto
  qed
next
  case (Cons x xs)
  define rest where "rest zs q = (if zs = [] then e # q else 44 # join [44] (map f zs) @ e # q)" for zs q
  have split: "join [44] (map f (z # zs)) @ e # q = f z @ rest zs q" for z zs q
    by (cases zs) (auto simp: rest_def)
  have ends: "ends_value (rest zs q)" for zs q using assms(4) by (auto simp: rest_def ends_value_def)
  show ?case
  proof (cases ys)
    case Nil
    have "f x \<noteq> []" "hd (f x) \<noteq> e" using assms(3) [of x] by auto
    with Cons.prems(1) Nil split [of x xs r] show ?thesis by (cases "f x") auto
  next
    case ys: (Cons y ys')
    have "f x @ rest xs r = f y @ rest ys' r'" using Cons.prems(1) ys split by simp
    from Cons.prems(2) [OF _ this ends ends] have xy: "x = y" "rest xs r = rest ys' r'" by auto
    show ?thesis
    proof (cases "xs = []")
      case True
      then have "ys' = [] \<and> r = r'" using xy(2) assms(4) by (auto simp: rest_def split: if_splits)
      then show ?thesis using xy ys True by simp
    next
      case False
      then have "join [44] (map f xs) @ e # r = join [44] (map f ys') @ e # r'"
        using xy(2) assms(4) by (auto simp: rest_def split: if_splits)
      then have "xs = ys' \<and> r = r'" using Cons.IH Cons.prems(2) by (meson list.set_intros(2))
      then show ?thesis using xy ys by simp
    qed
  qed
qed

definition value_head :: "json \<Rightarrow> nat \<Rightarrow> bool" where
  "value_head v c = (case v of JNull \<Rightarrow> c = 110 | JBool b \<Rightarrow> c = (if b then 116 else 102) | JInt _ \<Rightarrow> number_char c
     | JStr _ \<Rightarrow> c = 34 | JList _ \<Rightarrow> c = 91 | JObj _ \<Rightarrow> c = 123)"

lemma print_json_head: "\<exists>c t. print_json v = c # t \<and> value_head v c"
proof (cases v)
  case (JInt i)
  then show ?thesis using py_str_chars [of i] by (cases "py_str i") (auto simp: value_head_def)
qed (auto simp: value_head_def lit_def json_string_def)

text \<open>Equal texts begin alike, so the values have the same shape.\<close>

definition same_shape :: "json \<Rightarrow> json \<Rightarrow> bool" where
  "same_shape v w = (case (v, w) of (JNull, JNull) \<Rightarrow> True | (JBool a, JBool b) \<Rightarrow> a = b | (JInt _, JInt _) \<Rightarrow> True
      | (JStr _, JStr _) \<Rightarrow> True | (JList _, JList _) \<Rightarrow> True | (JObj _, JObj _) \<Rightarrow> True | _ \<Rightarrow> False)"

lemma value_head_same: "value_head v c \<Longrightarrow> value_head w c \<Longrightarrow> same_shape v w"
  by (cases v; cases w) (auto simp: value_head_def number_char_def same_shape_def split: if_splits)

lemma print_json_shape: "print_json v @ r = print_json w @ r' \<Longrightarrow> same_shape v w"
  using print_json_head [of v] print_json_head [of w] value_head_same by auto

lemma print_json_unique:
  "print_json v @ r = print_json w @ r' \<Longrightarrow> ends_value r \<Longrightarrow> ends_value r' \<Longrightarrow> v = w \<and> r = r'"
proof (induction v arbitrary: w r r')
  case (JList xs)
  obtain ys where w: "w = JList ys"
    using print_json_shape [OF JList.prems(1)] by (cases w) (simp_all add: same_shape_def)
  then have "join [44] (map print_json xs) @ 93 # r = join [44] (map print_json ys) @ 93 # r'"
    using JList.prems(1) by simp
  moreover have "print_json x \<noteq> [] \<and> hd (print_json x) \<noteq> 93" for x
    using print_json_head [of x] by (cases x) (auto simp: value_head_def number_char_def)
  ultimately have "xs = ys \<and> r = r'"
    using JList.IH by (intro join_unique [where f = print_json and e = 93]) auto
  then show ?case using w by simp
next
  case (JObj xs)
  let ?f = "\<lambda>(k, v). json_pair (k, print_json v)"
  obtain ys where w: "w = JObj ys"
    using print_json_shape [OF JObj.prems(1)] by (cases w) (simp_all add: same_shape_def)
  then have "join [44] (map ?f xs) @ 125 # r = join [44] (map ?f ys) @ 125 # r'"
    using JObj.prems(1) by simp
  moreover have "x = y \<and> t = t'" if "x \<in> set xs" "?f x @ t = ?f y @ t'" "ends_value t" "ends_value t'" for x y t t'
  proof -
    have "json_string (fst x) @ (58 # print_json (snd x) @ t) = json_string (fst y) @ (58 # print_json (snd y) @ t')"
      using that(2) by (simp add: json_pair_def case_prod_beta)
    from json_string_unique [OF this] have "fst x = fst y" "print_json (snd x) @ t = print_json (snd y) @ t'" by auto
    moreover have "snd x \<in> Basic_BNFs.snds x" by (simp add: snds.simps)
    ultimately show ?thesis using JObj.IH [OF that(1) _ _ that(3,4)] by (simp add: prod_eq_iff)
  qed
  moreover have "?f x \<noteq> [] \<and> hd (?f x) \<noteq> 125" for x by (simp add: json_pair_def json_string_def case_prod_beta)
  ultimately have "xs = ys \<and> r = r'" by (intro join_unique [where f = ?f and e = 125]) auto
  then show ?case using w by simp
next
  case (JInt i)
  obtain j where w: "w = JInt j"
    using print_json_shape [OF JInt.prems(1)] by (cases w) (simp_all add: same_shape_def)
  then show ?case using JInt.prems py_str_unique [of i r j r'] by simp
next
  case (JStr s)
  obtain t where w: "w = JStr t"
    using print_json_shape [OF JStr.prems(1)] by (cases w) (simp_all add: same_shape_def)
  then show ?case using JStr.prems(1) json_string_unique [of s r t r'] by simp
next
  case JNull
  then show ?case using print_json_shape [OF JNull.prems(1)] by (cases w) (simp_all add: same_shape_def)
next
  case (JBool b)
  then show ?case using print_json_shape [OF JBool.prems(1)] by (cases w) (simp_all add: same_shape_def)
qed

lemma dumps_inject: "dumps v = dumps w \<longleftrightarrow> canon v = canon w"
  using print_json_unique [of "canon v" "[]" "canon w" "[]"] by (auto simp: dumps_canon ends_value_def)


section \<open>Digests\<close>

text \<open>
  C34. The action digest is exact: when the hash does not collide on the two texts, two actions
  have the same digest if and only if they are the same JSON value up to the order of object
  keys, so neither escaping, nor numbers, nor nesting can make one action pass for another.
\<close>

theorem action_digest_exact:
  assumes "canonical_action_bytes v = Inr b" "canonical_action_bytes w = Inr c"
    and "sha (DOMAIN_SEPARATOR @ b) = sha (DOMAIN_SEPARATOR @ c) \<Longrightarrow> DOMAIN_SEPARATOR @ b = DOMAIN_SEPARATOR @ c"
  shows "compute_action_digest sha v = compute_action_digest sha w \<longleftrightarrow> canon v = canon w"
proof -
  have "list_all scalar (dumps v)" "b = utf8_encode (dumps v)" "list_all scalar (dumps w)" "c = utf8_encode (dumps w)"
    using assms(1,2) by (auto simp: canonical_action_bytes_def Let_def split: if_splits)
  then have "b = c \<longleftrightarrow> canon v = canon w" using utf8_encode_inj dumps_inject by auto
  then show ?thesis using assms by (auto simp: compute_action_digest_def)
qed

theorem action_digest_exact_witness:
  "compute_action_digest (\<lambda>b. b) (JObj [(lit ''b'', JInt 1), (lit ''a'', JStr [10, 34])])
     = compute_action_digest (\<lambda>b. b) (JObj [(lit ''a'', JStr [10, 34]), (lit ''b'', JInt 1)])
   \<and> compute_action_digest (\<lambda>b. b) (JList [JStr (lit ''a,b'')]) \<noteq> compute_action_digest (\<lambda>b. b) (JList [JStr (lit ''a''), JStr (lit ''b'')])"
proof -
  let ?bytes = "\<lambda>v. utf8_encode (dumps v)"
  let ?v = "JObj [(lit ''b'', JInt 1), (lit ''a'', JStr [10, 34])]" and ?w = "JObj [(lit ''a'', JStr [10, 34]), (lit ''b'', JInt 1)]"
  let ?x = "JList [JStr (lit ''a,b'')]" and ?y = "JList [JStr (lit ''a''), JStr (lit ''b'')]"
  have "canonical_action_bytes ?v = Inr (?bytes ?v)" "canonical_action_bytes ?w = Inr (?bytes ?w)"
    "canonical_action_bytes ?x = Inr (?bytes ?x)" "canonical_action_bytes ?y = Inr (?bytes ?y)"
    by code_simp+
  note e = action_digest_exact [OF this(1,2), of "\<lambda>b. b"] action_digest_exact [OF this(3,4), of "\<lambda>b. b"]
  have "canon ?v = canon ?w" "canon ?x \<noteq> canon ?y" by code_simp+
  then show ?thesis using e by blast
qed

text \<open>Digests of lists of texts, as permission keys are.\<close>

lemma canon_texts: "canon (JList (map JStr xs)) = JList (map JStr xs)"
  by (simp add: comp_def)

lemma text_digest_inject:
  assumes "inj sha" "compute_action_digest sha (JList (map JStr xs)) = Inr k"
    "compute_action_digest sha (JList (map JStr ys)) = Inr k"
  shows "xs = ys"
proof -
  have "list_all scalar (dumps (JList (map JStr xs)))" "list_all scalar (dumps (JList (map JStr ys)))"
    "utf8_encode (dumps (JList (map JStr xs))) = utf8_encode (dumps (JList (map JStr ys)))"
    using assms by (auto simp: compute_action_digest_def canonical_action_bytes_def Let_def res_simps inj_eq
        simp del: dumps.simps split: if_splits)
  then have "dumps (JList (map JStr xs)) = dumps (JList (map JStr ys))" using utf8_encode_inj by blast
  then have "map JStr xs = map JStr ys" unfolding dumps_inject canon_texts by simp
  moreover have "inj JStr" by (simp add: inj_def)
  ultimately show ?thesis by (metis inj_map_eq_map)
qed

end
