(* ===== verification/Approvals.thy ===== *)
theory Approvals
  imports Action_Digest
begin

text \<open>
  Local consent: the approval manager (\<open>agent/src/codito_agent/approvals.py\<close>) and the routing of
  a project operation through it (\<open>access_policy.py\<close>).  A request is two steps with the user's
  prompt between them, so that everything else the daemon does may happen in the meantime; the
  second step's session grant is a step of its own, as the code takes its lock a second time for
  it.  Times are microseconds, read from the clock where the code reads it.
\<close>

section \<open>Data\<close>

datatype approval_decision =
    DENY
  | ALLOW_ONCE
  | ALLOW_SESSION
  | ALLOW_ALWAYS_READ
  | ALLOW_ALWAYS_SHELL
  | ALLOW_ALWAYS_SCREEN

datatype approval_risk = READ | WRITE | DELETE | NATIVE_EXECUTION | EXTERNAL_ACCESS

record approval_request =
  ap_id :: pystr
  ap_binding :: binding
  ap_project :: pystr
  ap_title :: pystr
  ap_capability :: pystr
  ap_digest :: pystr
  ap_epoch :: int
  ap_deadline :: nat
  ap_aware :: bool
  ap_risk :: approval_risk
  ap_summary :: pystr
  ap_command :: "json option"
  ap_patch :: "pystr option"
  ap_directory :: "pystr option"
  ap_environment :: "(pystr \<times> pystr) list option"
  ap_network :: bool
  ap_external :: "pystr list"
  ap_session :: bool
  ap_keep_read :: bool
  ap_keep_shell :: bool
  ap_keep_screen :: bool

record session_grant =
  sg_binding :: binding
  sg_project :: pystr
  sg_capability :: pystr
  sg_digest :: pystr
  sg_epoch :: int
  sg_created :: nat
  sg_used :: nat

record manager =
  am_grants :: "session_grant list"
  am_generation :: nat
  am_db :: "db option"

text \<open>The optional scopes of a request: what may be saved, and the revision it was seen at.\<close>

record scopes =
  sc_read :: "(pystr \<times> pystr) option"
  sc_shell :: "(pystr \<times> pystr) option"
  sc_screen :: "(pystr \<times> pystr \<times> pystr) option"

text \<open>A prompt that was opened, and what came of it.\<close>

record ticket =
  tk_request :: approval_request
  tk_session :: bool
  tk_scopes :: scopes
  tk_key :: pystr
  tk_generation :: nat

datatype prompt_state = Granted | Waiting ticket

datatype prompt_outcome = Decided approval_decision | Unrecognized | Prompt_timeout | Prompt_raised exn

definition SESSION_MAX :: nat where
  "SESSION_MAX = 1800000000"

definition SESSION_IDLE :: nat where
  "SESSION_IDLE = 600000000"

definition new_manager :: "db option \<Rightarrow> manager" where
  "new_manager d = \<lparr>am_grants = [], am_generation = 0, am_db = d\<rparr>"

section \<open>Asking\<close>

definition approval_expired :: exn where
  "approval_expired = raise ''approval_expired''"

definition invalid_approval :: exn where
  "invalid_approval = raise ''invalid_approval''"

definition ensure_before_deadline :: "nat \<Rightarrow> approval_request \<Rightarrow> unit res" where
  "ensure_before_deadline now rq = raise_if (\<not> ap_aware rq \<or> ap_deadline rq \<le> now) approval_expired"

definition binding_texts :: "binding \<Rightarrow> pystr list" where
  "binding_texts b = [account_id b, grant_id b, link_id b, device_id b]"

definition action_digest :: "(bytes \<Rightarrow> pystr) \<Rightarrow> pystr list \<Rightarrow> pystr res" where
  "action_digest sha texts = compute_action_digest sha (JList (map JStr texts))"

definition screen_key :: "(bytes \<Rightarrow> pystr) \<Rightarrow> approval_request \<Rightarrow> pystr \<Rightarrow> pystr res" where
  "screen_key sha rq target = action_digest sha (binding_texts (ap_binding rq) @ [lit ''screen:read'', target])"

definition shell_key :: "(bytes \<Rightarrow> pystr) \<Rightarrow> approval_request \<Rightarrow> pystr \<Rightarrow> pystr res" where
  "shell_key sha rq scope = action_digest sha
     (binding_texts (ap_binding rq) @ [ap_project rq, lit ''shell:execute'', ap_digest rq, scope])"

definition read_key :: "(bytes \<Rightarrow> pystr) \<Rightarrow> approval_request \<Rightarrow> pystr \<Rightarrow> pystr res" where
  "read_key sha rq scope = action_digest sha (binding_texts (ap_binding rq) @ [lit ''device:read'', scope]
     @ (if ap_project rq \<noteq> [] then [lit ''origin_project'', ap_project rq] else []))"

text \<open>
  The three blocks of \<open>request\<close> that look for a saved permission: nothing when the scope is not
  given, an error when the request does not qualify, else the key and whether it is saved.
\<close>

definition screen_block ::
  "(bytes \<Rightarrow> pystr) \<Rightarrow> manager \<Rightarrow> approval_request \<Rightarrow> bool \<Rightarrow> scopes \<Rightarrow> (pystr \<times> bool) option res" where
  "screen_block sha m rq session sc =
     (case sc_screen sc of
        None \<Rightarrow> Inr None
      | Some (target, identity, label) \<Rightarrow>
          (case am_db m of
             None \<Rightarrow> Inl invalid_approval
           | Some d \<Rightarrow>
               if sc_read sc \<noteq> None \<or> sc_shell sc \<noteq> None \<or> ap_capability rq \<noteq> lit ''screen:read''
                  \<or> ap_risk rq \<noteq> READ \<or> ap_command rq \<noteq> None \<or> ap_patch rq \<noteq> None \<or> ap_external rq \<noteq> []
                  \<or> ap_network rq \<or> ap_project rq \<noteq> target \<or> session
               then Inl invalid_approval
               else bindE (screen_key sha rq target) (\<lambda>k. Inr (Some (k, has_screen_permission k identity d)))))"

definition shell_block ::
  "(bytes \<Rightarrow> pystr) \<Rightarrow> manager \<Rightarrow> approval_request \<Rightarrow> bool \<Rightarrow> scopes \<Rightarrow> bool \<Rightarrow> (pystr \<times> bool) option res" where
  "shell_block sha m rq session sc reuse =
     (case sc_shell sc of
        None \<Rightarrow> Inr None
      | Some (scope, identity) \<Rightarrow>
          (case am_db m of
             None \<Rightarrow> Inl invalid_approval
           | Some d \<Rightarrow>
               if sc_read sc \<noteq> None \<or> ap_capability rq \<noteq> lit ''shell:execute'' \<or> ap_risk rq \<noteq> NATIVE_EXECUTION
                  \<or> ap_command rq = None \<or> ap_patch rq \<noteq> None \<or> session
               then Inl invalid_approval
               else bindE (shell_key sha rq scope)
                 (\<lambda>k. Inr (Some (k, reuse \<and> has_shell_permission k identity d)))))"

definition read_block ::
  "(bytes \<Rightarrow> pystr) \<Rightarrow> manager \<Rightarrow> approval_request \<Rightarrow> bool \<Rightarrow> scopes \<Rightarrow> (pystr \<times> bool) option res" where
  "read_block sha m rq session sc =
     (case sc_read sc of
        None \<Rightarrow> Inr None
      | Some (scope, identity) \<Rightarrow>
          (case am_db m of
             None \<Rightarrow> Inl invalid_approval
           | Some d \<Rightarrow>
               if ap_capability rq \<noteq> lit ''device:read'' \<or> ap_risk rq \<noteq> READ \<or> ap_network rq \<or> ap_command rq \<noteq> None
                  \<or> ap_patch rq \<noteq> None \<or> session \<or> ap_external rq \<noteq> [scope]
               then Inl invalid_approval
               else bindE (read_key sha rq scope) (\<lambda>k. Inr (Some (k, has_read_permission k identity d)))))"

definition live_grant :: "nat \<Rightarrow> session_grant \<Rightarrow> bool" where
  "live_grant now g \<longleftrightarrow> now - sg_created g \<le> SESSION_MAX \<and> now - sg_used g \<le> SESSION_IDLE"

definition grant_for :: "approval_request \<Rightarrow> session_grant \<Rightarrow> bool" where
  "grant_for rq g \<longleftrightarrow> sg_binding g = ap_binding rq \<and> sg_project g = ap_project rq
     \<and> sg_capability g = ap_capability rq \<and> sg_digest g = ap_digest rq \<and> sg_epoch g = ap_epoch rq"

text \<open>The first grant that fits is marked as used.\<close>

fun use_grant :: "nat \<Rightarrow> approval_request \<Rightarrow> session_grant list \<Rightarrow> bool \<times> session_grant list" where
  "use_grant now rq [] = (False, [])"
| "use_grant now rq (g # gs) =
     (if grant_for rq g then (True, g\<lparr>sg_used := now\<rparr> # gs)
      else case use_grant now rq gs of (b, gs') \<Rightarrow> (b, g # gs'))"

definition has_session_grant :: "nat \<Rightarrow> approval_request \<Rightarrow> manager \<Rightarrow> bool \<times> manager" where
  "has_session_grant now rq m =
     (case use_grant now rq (filter (live_grant now) (am_grants m)) of (b, gs) \<Rightarrow> (b, m\<lparr>am_grants := gs\<rparr>))"

definition add_session_grant :: "nat \<Rightarrow> approval_request \<Rightarrow> manager \<Rightarrow> manager" where
  "add_session_grant now rq m = m\<lparr>am_grants := am_grants m @
     [\<lparr>sg_binding = ap_binding rq, sg_project = ap_project rq, sg_capability = ap_capability rq,
       sg_digest = ap_digest rq, sg_epoch = ap_epoch rq, sg_created = now, sg_used = now\<rparr>]\<rparr>"

definition hit :: "(pystr \<times> bool) option \<Rightarrow> bool" where
  "hit b = (case b of Some (_, True) \<Rightarrow> True | _ \<Rightarrow> False)"

text \<open>The permission key in force after the blocks that were passed.\<close>

definition key_of :: "(pystr \<times> bool) option \<Rightarrow> pystr \<Rightarrow> pystr" where
  "key_of b k = (case b of Some (k', _) \<Rightarrow> k' | None \<Rightarrow> k)"

definition saved_permission ::
  "(bytes \<Rightarrow> pystr) \<Rightarrow> nat \<Rightarrow> manager \<Rightarrow> approval_request \<Rightarrow> bool \<Rightarrow> scopes \<Rightarrow> bool \<Rightarrow> pystr option res" where
  "saved_permission sha t m rq session sc reuse =
     bindE (ensure_before_deadline t rq) (\<lambda>_.
     bindE (screen_block sha m rq session sc) (\<lambda>a. if hit a then Inr None else
     bindE (shell_block sha m rq session sc reuse) (\<lambda>b. if hit b then Inr None else
     bindE (read_block sha m rq session sc) (\<lambda>c. if hit c then Inr None else
       Inr (Some (key_of c (key_of b (key_of a []))))))))"

definition open_prompt :: "nat \<Rightarrow> approval_request \<Rightarrow> bool \<Rightarrow> scopes \<Rightarrow> pystr \<Rightarrow> manager \<Rightarrow> prompt_state res" where
  "open_prompt t rq session sc key m =
     (if ap_deadline rq \<le> t then Inl approval_expired
      else Inr (Waiting \<lparr>tk_request = rq\<lparr>ap_session := session, ap_keep_read := sc_read sc \<noteq> None,
                   ap_keep_shell := sc_shell sc \<noteq> None, ap_keep_screen := sc_screen sc \<noteq> None\<rparr>,
                 tk_session = session, tk_scopes = sc, tk_key = key, tk_generation = am_generation m\<rparr>))"

definition open_request ::
  "(bytes \<Rightarrow> pystr) \<Rightarrow> nat \<times> nat \<times> nat \<Rightarrow> approval_request \<Rightarrow> bool \<Rightarrow> scopes \<Rightarrow> bool \<Rightarrow> manager
     \<Rightarrow> prompt_state res \<times> manager" where
  "open_request sha = (\<lambda>(t0, t1, t2) rq session sc reuse m.
     case saved_permission sha t0 m rq session sc reuse of
       Inl e \<Rightarrow> (Inl e, m)
     | Inr None \<Rightarrow> (Inr Granted, m)
     | Inr (Some key) \<Rightarrow>
         if session then
           (case has_session_grant t1 rq m of
              (True, m') \<Rightarrow> (Inr Granted, m')
            | (False, m') \<Rightarrow> (open_prompt t2 rq session sc key m', m'))
         else (open_prompt t2 rq session sc key m, m))"

section \<open>Answering\<close>

text \<open>
  After the prompt, up to the end of the locked block and the checks behind it: \<open>Inr True\<close> when
  the request is decided, \<open>Inr False\<close> when a session grant is still to be added.
\<close>

definition always ::
  "manager \<Rightarrow> 'a option \<Rightarrow> ('a \<Rightarrow> db \<Rightarrow> unit res \<times> db) \<Rightarrow> bool res \<times> manager" where
  "always m scope save =
     (case (scope, am_db m) of
        (Some sc, Some d) \<Rightarrow> (Inr True, m\<lparr>am_db := Some (snd (save sc d))\<rparr>)
      | _ \<Rightarrow> (Inl invalid_approval, m))"

definition locked_decision :: "nat \<Rightarrow> ticket \<Rightarrow> approval_decision \<Rightarrow> manager \<Rightarrow> bool res \<times> manager" where
  "locked_decision now tk d m =
     (let rq = tk_request tk; sc = tk_scopes tk; acct = account_id (ap_binding rq); lnk = link_id (ap_binding rq) in
      case d of
        ALLOW_ALWAYS_READ \<Rightarrow> always m (sc_read sc)
          (\<lambda>(scope, identity). save_read_permission now (tk_key tk) scope identity acct lnk)
      | ALLOW_ALWAYS_SHELL \<Rightarrow> always m (sc_shell sc)
          (\<lambda>(scope, identity). save_shell_permission now (tk_key tk) scope identity acct lnk)
      | ALLOW_ALWAYS_SCREEN \<Rightarrow> always m (sc_screen sc)
          (\<lambda>(target, identity, label). save_screen_permission now (tk_key tk) target identity label acct lnk)
      | DENY \<Rightarrow> (Inl (raise ''approval_denied''), m)
      | ALLOW_SESSION \<Rightarrow> (if tk_session tk then Inr False else Inl invalid_approval, m)
      | ALLOW_ONCE \<Rightarrow> (Inr True, m))"

definition decide :: "nat \<Rightarrow> ticket \<Rightarrow> prompt_outcome \<Rightarrow> manager \<Rightarrow> bool res \<times> manager" where
  "decide now tk outcome m =
     (case outcome of
        Prompt_timeout \<Rightarrow> (Inl approval_expired, m)
      | Prompt_raised e \<Rightarrow> (Inl e, m)
      | _ \<Rightarrow>
          (case ensure_before_deadline now (tk_request tk) of
             Inl e \<Rightarrow> (Inl e, m)
           | Inr _ \<Rightarrow>
               if tk_generation tk \<noteq> am_generation m then (Inl approval_expired, m)
               else case outcome of
                 Decided d \<Rightarrow> locked_decision now tk d m
               | _ \<Rightarrow> (Inl invalid_approval, m)))"

text \<open>
  The whole coroutine.  \<open>env\<close> is what the rest of the daemon does to the manager while the prompt
  is open, and \<open>env'\<close> what it does before the session grant is added.
\<close>

definition request ::
  "(bytes \<Rightarrow> pystr) \<Rightarrow> nat \<times> nat \<times> nat \<Rightarrow> nat \<times> nat \<Rightarrow> (manager \<Rightarrow> manager) \<Rightarrow> (manager \<Rightarrow> manager)
     \<Rightarrow> (approval_request \<Rightarrow> prompt_outcome) \<Rightarrow> approval_request \<Rightarrow> bool \<Rightarrow> scopes \<Rightarrow> bool \<Rightarrow> manager
     \<Rightarrow> unit res \<times> manager" where
  "request sha ts ts' env env' prompt rq session sc reuse m =
     (case open_request sha ts rq session sc reuse m of
        (Inl e, m') \<Rightarrow> (Inl e, m')
      | (Inr Granted, m') \<Rightarrow> (Inr (), m')
      | (Inr (Waiting tk), m') \<Rightarrow>
          (case decide (fst ts') tk (prompt (tk_request tk)) (env m') of
             (Inl e, m2) \<Rightarrow> (Inl e, m2)
           | (Inr True, m2) \<Rightarrow> (Inr (), m2)
           | (Inr False, m2) \<Rightarrow> (Inr (), add_session_grant (snd ts') (tk_request tk) (env' m2))))"

section \<open>Security events\<close>

definition bump :: "manager \<Rightarrow> manager" where
  "bump m = m\<lparr>am_generation := Suc (am_generation m)\<rparr>"

definition clear :: "manager \<Rightarrow> nat \<times> manager" where
  "clear m = (length (am_grants m), bump (m\<lparr>am_grants := []\<rparr>))"

definition invalidate_pending :: "manager \<Rightarrow> manager" where
  "invalidate_pending m = bump m"

definition ensure_current :: "nat \<Rightarrow> nat \<Rightarrow> nat \<Rightarrow> manager \<Rightarrow> unit res" where
  "ensure_current now g deadline m = raise_if (g \<noteq> am_generation m \<or> deadline \<le> now) approval_expired"

definition revoke_with :: "nat dbop \<Rightarrow> manager \<Rightarrow> nat res \<times> manager" where
  "revoke_with f m =
     (case am_db m of
        None \<Rightarrow> (Inr 0, bump m)
      | Some d \<Rightarrow> (case f d of (r, d') \<Rightarrow> (r, (bump m)\<lparr>am_db := Some d'\<rparr>)))"

definition manager_revoke_read :: "manager \<Rightarrow> nat res \<times> manager" where
  "manager_revoke_read m = revoke_with revoke_read_permissions m"

definition manager_revoke_shell :: "manager \<Rightarrow> nat res \<times> manager" where
  "manager_revoke_shell m = revoke_with revoke_shell_permissions m"

definition manager_revoke_screen :: "manager \<Rightarrow> nat res \<times> manager" where
  "manager_revoke_screen m = revoke_with revoke_screen_permissions m"

definition manager_revoke_one :: "pystr \<Rightarrow> pystr \<Rightarrow> manager \<Rightarrow> bool res \<times> manager" where
  "manager_revoke_one category key m =
     (case am_db m of
        None \<Rightarrow> (Inr False, m)
      | Some d \<Rightarrow>
          (case revoke_permission category key d of
             (Inl e, d') \<Rightarrow> (Inl e, m\<lparr>am_db := Some d'\<rparr>)
           | (Inr b, d') \<Rightarrow> (Inr b, (if b then bump m else m)\<lparr>am_db := Some d'\<rparr>)))"

section \<open>Routing\<close>

record access_policy =
  requires_approval :: bool
  allow_saved :: bool

definition project_access_policy :: "project \<Rightarrow> bool \<Rightarrow> bool \<Rightarrow> access_policy res" where
  "project_access_policy pr inside uncertain =
     (if \<not> enabled pr then Inl (raise ''project_disabled'')
      else case mode pr of
        ISOLATED \<Rightarrow> Inl (raise ''sandbox_unavailable'')
      | FULL_ACCESS \<Rightarrow> Inr \<lparr>requires_approval = False, allow_saved = False\<rparr>
      | NATIVE_APPROVAL \<Rightarrow> Inr \<lparr>requires_approval = True, allow_saved = False\<rparr>
      | NATIVE_TRUSTED \<Rightarrow> Inr \<lparr>requires_approval = True, allow_saved = False\<rparr>
      | NATIVE_PROJECT \<Rightarrow> Inr \<lparr>requires_approval = \<not> inside \<or> uncertain, allow_saved = True\<rparr>)"

definition no_scopes :: scopes where
  "no_scopes = \<lparr>sc_read = None, sc_shell = None, sc_screen = None\<rparr>"

text \<open>
  \<open>ask\<close> is the call of \<open>request\<close> on the manager, with the clock, the prompt and the concurrent
  activity it meets.
\<close>

type_synonym asking = "approval_request \<Rightarrow> bool \<Rightarrow> scopes \<Rightarrow> bool \<Rightarrow> manager \<Rightarrow> unit res \<times> manager"

definition authorize_project_operation ::
  "asking \<Rightarrow> nat \<Rightarrow> project \<Rightarrow> approval_request \<Rightarrow> bool \<Rightarrow> bool \<Rightarrow> scopes \<Rightarrow> manager \<Rightarrow> unit res \<times> manager" where
  "authorize_project_operation ask now pr rq inside uncertain sc m =
     (case bindE (ensure_current now (am_generation m) (ap_deadline rq) m)
             (\<lambda>_. project_access_policy pr inside uncertain) of
        Inl e \<Rightarrow> (Inl e, m)
      | Inr pol \<Rightarrow>
          if \<not> requires_approval pol then (Inr (), m)
          else ask rq False (if allow_saved pol then sc else no_scopes) (allow_saved pol) m)"

definition authorize_shell :: "asking \<Rightarrow> project_mode \<Rightarrow> approval_request \<Rightarrow> manager \<Rightarrow> unit res \<times> manager" where
  "authorize_shell ask md rq m =
     (if md = ISOLATED then (Inl (raise ''sandbox_unavailable''), m)
      else if md = FULL_ACCESS then (Inr (), m)
      else ask rq False no_scopes True m)"

definition authorize_patch :: "asking \<Rightarrow> approval_request \<Rightarrow> bool \<Rightarrow> manager \<Rightarrow> unit res \<times> manager" where
  "authorize_patch ask rq contains_delete m =
     (if contains_delete then ask rq False no_scopes True m else (Inr (), m))"

end
