(* ===== verification/Approval_Laws.thy ===== *)
theory Approval_Laws
  imports Approvals
begin

text \<open>
  What consent means over time: a contract for tables of saved permissions, interpreted on the
  three tables of the database; runs of the approval manager in which requests, answers and
  security events interleave freely; and the theorems that a saved permission serves only the
  request the user granted it for, that an answer counts only if nothing security-relevant
  happened since the prompt was opened, and that nothing else is allowed without asking.
\<close>

section \<open>Tables of saved permissions\<close>

datatype ('x, 'k, 'i) perm_call = Save 'x 'k 'i | Revoke_all | Revoke_one 'k

text \<open>What a history of calls, newest first, leaves saved under a key.\<close>

fun consent :: "('x, 'k, 'i) perm_call list \<Rightarrow> 'k \<Rightarrow> ('x \<times> 'i) option" where
  "consent [] k = None"
| "consent (Save x k' i # cs) k = (if k' = k then Some (x, i) else consent cs k)"
| "consent (Revoke_all # cs) k = None"
| "consent (Revoke_one k' # cs) k = (if k' = k then None else consent cs k)"

lemma consent_Some:
  assumes "consent cs k = Some (x, i)"
  shows "\<exists>newer older. cs = newer @ Save x k i # older \<and> Revoke_all \<notin> set newer \<and> Revoke_one k \<notin> set newer"
  using assms
proof (induction cs k rule: consent.induct)
  case (2 x' k' i' cs k)
  show ?case
  proof (cases "k' = k")
    case True
    then show ?thesis using "2.prems" by (intro exI [of _ "[]"] exI [of _ cs]) simp
  next
    case False
    then obtain newer older where "cs = newer @ Save x k i # older" "Revoke_all \<notin> set newer" "Revoke_one k \<notin> set newer"
      using 2 by auto
    then show ?thesis by (intro exI [of _ "Save x' k' i' # newer"] exI [of _ older]) simp
  qed
next
  case (4 k' cs k)
  then obtain newer older where "cs = newer @ Save x k i # older" "Revoke_all \<notin> set newer" "Revoke_one k \<notin> set newer" "k' \<noteq> k"
    by (auto split: if_splits)
  then show ?case by (intro exI [of _ "Revoke_one k' # newer"] exI [of _ older]) simp
qed simp_all

locale permission_table =
  fixes holds :: "'s \<Rightarrow> 'k \<Rightarrow> 'i \<Rightarrow> bool"
    and save :: "'x \<Rightarrow> 'k \<Rightarrow> 'i \<Rightarrow> 's \<Rightarrow> 's"
    and revoke_all :: "'s \<Rightarrow> 's"
    and revoke_one :: "'k \<Rightarrow> 's \<Rightarrow> 's"
  assumes holds_save: "holds (save x k i s) k' i' \<longleftrightarrow> (if k' = k then i' = i else holds s k' i')"
    and holds_revoke_all: "\<not> holds (revoke_all s) k i"
    and holds_revoke_one: "holds (revoke_one k s) k' i' \<longleftrightarrow> k' \<noteq> k \<and> holds s k' i'"
begin

definition represents :: "'s \<Rightarrow> ('x, 'k, 'i) perm_call list \<Rightarrow> bool" where
  "represents s cs \<longleftrightarrow> (\<forall>k i. holds s k i \<longleftrightarrow> (\<exists>x. consent cs k = Some (x, i)))"

lemma represents_empty: "(\<And>k i. \<not> holds s k i) \<Longrightarrow> represents s []"
  by (simp add: represents_def)

lemma represents_same: "represents s cs \<Longrightarrow> (\<And>k i. holds s' k i \<longleftrightarrow> holds s k i) \<Longrightarrow> represents s' cs"
  by (simp add: represents_def)

lemma represents_save: "represents s cs \<Longrightarrow> represents (save x k i s) (Save x k i # cs)"
  by (auto simp: represents_def holds_save)

lemma represents_revoke_all: "represents (revoke_all s) (Revoke_all # cs)"
  by (simp add: represents_def holds_revoke_all)

lemma represents_revoke_one: "represents s cs \<Longrightarrow> represents (revoke_one k s) (Revoke_one k # cs)"
  by (auto simp: represents_def holds_revoke_one)

lemma represents_holds:
  assumes "represents s cs" "holds s k i"
  obtains x newer older where "cs = newer @ Save x k i # older" "Revoke_all \<notin> set newer" "Revoke_one k \<notin> set newer"
  using assms consent_Some unfolding represents_def by metis

end

subsection \<open>The tables of the database\<close>

datatype table = Read_table | Shell_table | Screen_table

definition rows_of :: "table \<Rightarrow> db \<Rightarrow> perm_row list" where
  "rows_of T d = (case T of Read_table \<Rightarrow> read_permissions d | Shell_table \<Rightarrow> shell_permissions d
     | Screen_table \<Rightarrow> screen_permissions d)"

definition holds_in :: "table \<Rightarrow> db \<Rightarrow> pystr \<Rightarrow> pystr \<Rightarrow> bool" where
  "holds_in T d k i \<longleftrightarrow> (case T of Read_table \<Rightarrow> has_read_permission k i d | Shell_table \<Rightarrow> has_shell_permission k i d
     | Screen_table \<Rightarrow> has_screen_permission k i d)"

text \<open>The remaining columns of a saved row.\<close>

record columns =
  co_now :: nat
  co_scope :: pystr
  co_label :: pystr
  co_account :: pystr
  co_link :: pystr

definition save_in :: "table \<Rightarrow> columns \<Rightarrow> pystr \<Rightarrow> pystr \<Rightarrow> db \<Rightarrow> db" where
  "save_in T c k i d = snd (case T of
       Read_table \<Rightarrow> save_read_permission (co_now c) k (co_scope c) i (co_account c) (co_link c) d
     | Shell_table \<Rightarrow> save_shell_permission (co_now c) k (co_scope c) i (co_account c) (co_link c) d
     | Screen_table \<Rightarrow> save_screen_permission (co_now c) k (co_scope c) i (co_label c) (co_account c) (co_link c) d)"

definition revoke_in :: "table \<Rightarrow> db \<Rightarrow> db" where
  "revoke_in T d = snd (case T of Read_table \<Rightarrow> revoke_read_permissions d | Shell_table \<Rightarrow> revoke_shell_permissions d
     | Screen_table \<Rightarrow> revoke_screen_permissions d)"

definition table_name :: "table \<Rightarrow> pystr" where
  "table_name T = (case T of Read_table \<Rightarrow> lit ''read'' | Shell_table \<Rightarrow> lit ''shell'' | Screen_table \<Rightarrow> lit ''screen'')"

definition revoke_one_in :: "table \<Rightarrow> pystr \<Rightarrow> db \<Rightarrow> db" where
  "revoke_one_in T k d = snd (revoke_permission (table_name T) k d)"

lemmas has_defs = has_read_permission_def has_shell_permission_def has_screen_permission_def
lemmas save_defs = save_read_permission_def save_shell_permission_def save_screen_permission_def
lemmas revoke_defs = revoke_read_permissions_def revoke_shell_permissions_def revoke_screen_permissions_def

lemma holds_in_rows: "holds_in T d k i = has_permission (rows_of T d) k i"
  by (cases T) (simp_all add: holds_in_def rows_of_def has_defs)

lemma table_name_inj [simp]: "table_name T = table_name U \<longleftrightarrow> T = U"
  by (cases T; cases U) (simp_all add: table_name_def lit_def)

lemma rows_of_save:
  "rows_of U (save_in T c k i d) = (if U = T then insert_or_replace \<lparr>pm_key = k, pm_scope = co_scope c, pm_identity = i,
     pm_label = (if T = Screen_table then co_label c else []), pm_account = co_account c, pm_link = co_link c,
     pm_created = co_now c\<rparr> (rows_of T d) else rows_of U d)"
  by (cases T; cases U) (simp_all add: save_in_def rows_of_def save_defs)

lemma rows_of_revoke: "rows_of U (revoke_in T d) = (if U = T then [] else rows_of U d)"
  by (cases T; cases U) (simp_all add: revoke_in_def rows_of_def revoke_defs)

lemma rows_of_revoke_one:
  "rows_of U (revoke_one_in T k d) = (if U = T then filter (\<lambda>r. pm_key r \<noteq> k) (rows_of T d) else rows_of U d)"
  by (cases T; cases U) (simp_all add: revoke_one_in_def rows_of_def table_name_def revoke_permission_def lit_def Let_def)

lemma has_permission_simps [simp]:
  "has_permission (insert_or_replace r rows) k i
     \<longleftrightarrow> (if k = pm_key r then i = pm_identity r else has_permission rows k i)"
  "\<not> has_permission [] k i"
  "has_permission (filter (\<lambda>r. pm_key r \<noteq> k') rows) k i \<longleftrightarrow> k \<noteq> k' \<and> has_permission rows k i"
  by (auto simp: has_permission_def insert_or_replace_def)

interpretation tables: permission_table "holds_in T" "\<lambda>x. save_in T (snd (x :: ticket \<times> columns))" "revoke_in T"
  "revoke_one_in T" for T
  by unfold_locales (auto simp: holds_in_rows rows_of_save rows_of_revoke rows_of_revoke_one)

section \<open>Runs\<close>

definition manager_revoke :: "table \<Rightarrow> manager \<Rightarrow> manager" where
  "manager_revoke T m = snd (case T of Read_table \<Rightarrow> manager_revoke_read m | Shell_table \<Rightarrow> manager_revoke_shell m
     | Screen_table \<Rightarrow> manager_revoke_screen m)"

text \<open>The log of a run, newest entry first.\<close>

datatype entry =
    Opened approval_request bool scopes bool "prompt_state res"
  | Answered nat ticket prompt_outcome "bool res"
  | Session_added ticket
  | Cleared
  | Invalidated
  | Revoked table
  | Revoked_one pystr pystr "bool res"
  | Elsewhere

inductive approvals_run :: "(bytes \<Rightarrow> pystr) \<Rightarrow> manager \<Rightarrow> manager \<Rightarrow> entry list \<Rightarrow> bool" for sha m0 where
  start: "approvals_run sha m0 m0 []"
| asked: "approvals_run sha m0 m L \<Longrightarrow> open_request sha ts rq s sc reuse m = (r, m') \<Longrightarrow>
    approvals_run sha m0 m' (Opened rq s sc reuse r # L)"
| answered: "approvals_run sha m0 m L \<Longrightarrow> Opened rq s sc reuse (Inr (Waiting tk)) \<in> set L \<Longrightarrow>
    decide now tk out m = (r, m') \<Longrightarrow> approvals_run sha m0 m' (Answered now tk out r # L)"
| added: "approvals_run sha m0 m L \<Longrightarrow> Answered now tk (Decided ALLOW_SESSION) (Inr False) \<in> set L \<Longrightarrow>
    approvals_run sha m0 (add_session_grant now' (tk_request tk) m) (Session_added tk # L)"
| cleared: "approvals_run sha m0 m L \<Longrightarrow> approvals_run sha m0 (snd (clear m)) (Cleared # L)"
| invalidated: "approvals_run sha m0 m L \<Longrightarrow> approvals_run sha m0 (invalidate_pending m) (Invalidated # L)"
| revoked: "approvals_run sha m0 m L \<Longrightarrow> approvals_run sha m0 (manager_revoke T m) (Revoked T # L)"
| revoked_one: "approvals_run sha m0 m L \<Longrightarrow> manager_revoke_one c k m = (r, m') \<Longrightarrow>
    approvals_run sha m0 m' (Revoked_one c k r # L)"
| elsewhere: "approvals_run sha m0 m L \<Longrightarrow> am_db m = Some d \<Longrightarrow> (\<And>T. rows_of T d' = rows_of T d) \<Longrightarrow>
    approvals_run sha m0 (m\<lparr>am_db := Some d'\<rparr>) (Elsewhere # L)"

text \<open>The decision that saves into a table, and what it saves.\<close>

definition always_for :: "table \<Rightarrow> approval_decision" where
  "always_for T = (case T of Read_table \<Rightarrow> ALLOW_ALWAYS_READ | Shell_table \<Rightarrow> ALLOW_ALWAYS_SHELL
     | Screen_table \<Rightarrow> ALLOW_ALWAYS_SCREEN)"

definition scope_of :: "table \<Rightarrow> scopes \<Rightarrow> (pystr \<times> pystr) option" where
  "scope_of T sc = (case T of Read_table \<Rightarrow> sc_read sc | Shell_table \<Rightarrow> sc_shell sc
     | Screen_table \<Rightarrow> map_option (\<lambda>(t, i, _). (t, i)) (sc_screen sc))"

definition label_of :: "scopes \<Rightarrow> pystr" where
  "label_of sc = (case sc_screen sc of Some (_, _, l) \<Rightarrow> l | None \<Rightarrow> [])"

definition entry_call :: "table \<Rightarrow> entry \<Rightarrow> (ticket \<times> columns, pystr, pystr) perm_call list" where
  "entry_call T e = (case e of
       Answered now tk (Decided d) (Inr True) \<Rightarrow>
         (case scope_of T (tk_scopes tk) of
            Some (scope, identity) \<Rightarrow>
              if d = always_for T then
                [Save (tk, \<lparr>co_now = now, co_scope = scope, co_label = label_of (tk_scopes tk),
                     co_account = account_id (ap_binding (tk_request tk)), co_link = link_id (ap_binding (tk_request tk))\<rparr>)
                   (tk_key tk) identity]
              else []
          | None \<Rightarrow> [])
     | Revoked U \<Rightarrow> if U = T then [Revoke_all] else []
     | Revoked_one c k _ \<Rightarrow> if c = table_name T then [Revoke_one k] else []
     | _ \<Rightarrow> [])"

definition tables_after :: "table \<Rightarrow> entry list \<Rightarrow> (ticket \<times> columns, pystr, pystr) perm_call list" where
  "tables_after T L = concat (map (entry_call T) L)"

definition manager_holds :: "table \<Rightarrow> manager \<Rightarrow> pystr \<Rightarrow> pystr \<Rightarrow> bool" where
  "manager_holds T m k i \<longleftrightarrow> (case am_db m of None \<Rightarrow> False | Some d \<Rightarrow> holds_in T d k i)"


lemma manager_revoke_db:
  "am_db m = Some d \<Longrightarrow> am_db (manager_revoke T m) = Some (revoke_in T d)"
  by (cases T) (simp_all add: manager_revoke_def manager_revoke_read_def manager_revoke_shell_def
      manager_revoke_screen_def revoke_with_def revoke_in_def revoke_defs)

lemma open_request_db: "open_request sha ts rq s sc reuse m = (r, m') \<Longrightarrow> am_db m' = am_db m \<and> am_generation m' = am_generation m"
  by (auto simp: open_request_def has_session_grant_def split: prod.splits sum.splits option.splits if_splits bool.splits)

lemma locked_decision_db:
  assumes "locked_decision now tk d m = (r, m')" "am_db m = Some db"
  shows "(am_db m' = Some db \<and> (\<forall>T. entry_call T (Answered now tk (Decided d) r) = []))
    \<or> (\<exists>U c k i. am_db m' = Some (save_in U c k i db)
        \<and> (\<forall>T. entry_call T (Answered now tk (Decided d) r) = (if T = U then [Save (tk, c) k i] else [])))"
proof -
  have none: "(\<forall>T. d \<noteq> always_for T) \<or> r \<noteq> Inr True \<Longrightarrow> (\<forall>T. entry_call T (Answered now tk (Decided d) r) = [])"
    by (auto simp: entry_call_def split: option.splits sum.splits bool.splits)
  consider (saved) U where "d = always_for U" | (other) "\<forall>T. d \<noteq> always_for T" by blast
  then show ?thesis
  proof cases
    case other
    then have "m' = m" using assms(1)
      by (cases d) (auto simp: locked_decision_def Let_def always_for_def split: table.splits)
    then show ?thesis using other none assms(2) by blast
  next
    case saved
    have distinct_d: "d = always_for T \<longleftrightarrow> T = U" for T
      using saved by (cases T; cases U) (simp_all add: always_for_def)
    show ?thesis
    proof (cases "scope_of U (tk_scopes tk)")
      case None
      then have "r = Inl invalid_approval \<and> m' = m" using assms saved
        by (cases U) (auto simp: locked_decision_def Let_def always_for_def scope_of_def always_def)
      then show ?thesis using none assms(2) by simp
    next
      case (Some si)
      define c where "c = \<lparr>co_now = now, co_scope = fst si, co_label = label_of (tk_scopes tk),
        co_account = account_id (ap_binding (tk_request tk)), co_link = link_id (ap_binding (tk_request tk))\<rparr>"
      have "r = Inr True \<and> am_db m' = Some (save_in U c (tk_key tk) (snd si) db)"
        using assms saved Some unfolding c_def
        by (cases U; cases si) (auto simp: locked_decision_def Let_def always_for_def scope_of_def always_def save_in_def
            label_of_def split: option.splits)
      moreover have "entry_call T (Answered now tk (Decided d) (Inr True))
          = (if T = U then [Save (tk, c) (tk_key tk) (snd si)] else [])" for T
        using Some distinct_d by (auto simp: entry_call_def c_def split: option.splits prod.splits)
      ultimately show ?thesis by blast
    qed
  qed
qed

lemma decide_db:
  assumes "decide now tk out m = (r, m')" "am_db m = Some db"
  shows "(am_db m' = Some db \<and> (\<forall>T. entry_call T (Answered now tk out r) = []))
    \<or> (\<exists>U c k i. am_db m' = Some (save_in U c k i db)
        \<and> (\<forall>T. entry_call T (Answered now tk out r) = (if T = U then [Save (tk, c) k i] else [])))"
proof (cases out)
  case (Decided d)
  show ?thesis
  proof (cases "ensure_before_deadline now (tk_request tk) = Inr () \<and> tk_generation tk = am_generation m")
    case True
    then have "locked_decision now tk d m = (r, m')" using assms(1) Decided by (simp add: decide_def)
    from locked_decision_db [OF this assms(2)] show ?thesis using Decided by simp
  next
    case False
    then have "m' = m \<and> (\<exists>e. r = Inl e)" using assms(1) Decided by (auto simp: decide_def split: sum.splits if_splits)
    then show ?thesis using assms(2) Decided by (auto simp: entry_call_def)
  qed
next
  case (Prompt_raised e)
  then show ?thesis using assms by (auto simp: decide_def entry_call_def)
qed (use assms in \<open>auto simp: decide_def entry_call_def split: sum.splits if_splits\<close>)

lemma manager_revoke_one_db:
  assumes "manager_revoke_one c k m = (r, m')" "am_db m = Some d"
  shows "am_db m' = Some (snd (revoke_permission c k d))"
  using assms by (auto simp: manager_revoke_one_def split: sum.splits prod.splits if_splits)

lemma unknown_category:
  assumes "\<And>T. c \<noteq> table_name T" shows "snd (revoke_permission c k d) = d"
  using assms [of Read_table] assms [of Shell_table] assms [of Screen_table]
  by (simp add: revoke_permission_def Let_def table_name_def)

text \<open>At every moment the tables hold what the log says was granted and not revoked.\<close>

lemma run_tables:
  assumes "approvals_run sha m0 m L" "am_db m0 = Some d0" "\<And>T. rows_of T d0 = []"
  shows "\<exists>d. am_db m = Some d \<and> (\<forall>T. tables.represents T d (tables_after T L))"
  using assms
proof (induction rule: approvals_run.induct)
  case start
  then have "\<not> holds_in T d0 k i" for T k i by (simp add: holds_in_rows)
  then show ?case using start tables.represents_empty by (simp add: tables_after_def)
next
  case (asked m L ts rq s sc reuse r m')
  then show ?case using open_request_db [OF asked(2)] by (simp add: tables_after_def entry_call_def)
next
  case (answered m L rq s sc reuse tk now out r m')
  then obtain d where d: "am_db m = Some d" "\<And>T. tables.represents T d (tables_after T L)" by blast
  from decide_db [OF answered(3) d(1)] show ?case
  proof (elim disjE exE conjE)
    assume "am_db m' = Some d" "\<forall>T. entry_call T (Answered now tk out r) = []"
    then show ?thesis using d by (simp add: tables_after_def)
  next
    fix U c k i
    assume m': "am_db m' = Some (save_in U c k i d)"
      and e: "\<forall>T. entry_call T (Answered now tk out r) = (if T = U then [Save (tk, c) k i] else [])"
    have "tables.represents T (save_in U c k i d) (tables_after T (Answered now tk out r # L))" for T
    proof (cases "T = U")
      case True
      then show ?thesis using tables.represents_save [OF d(2), of U "(tk, c)" k i] e by (simp add: tables_after_def)
    next
      case False
      then show ?thesis using d(2) [of T] e
        by (auto simp: tables_after_def holds_in_rows rows_of_save intro: tables.represents_same)
    qed
    with m' show ?thesis by blast
  qed
next
  case (revoked m L T)
  then obtain d where d: "am_db m = Some d" "\<And>T. tables.represents T d (tables_after T L)" by blast
  have "tables.represents U (revoke_in T d) (tables_after U (Revoked T # L))" for U
  proof (cases "U = T")
    case True
    then show ?thesis using tables.represents_revoke_all by (simp add: tables_after_def entry_call_def)
  next
    case False
    then show ?thesis using d(2) [of U]
      by (auto simp: tables_after_def entry_call_def holds_in_rows rows_of_revoke intro: tables.represents_same)
  qed
  then show ?case using manager_revoke_db [OF d(1)] by auto
next
  case (revoked_one m L c k r m')
  then obtain d where d: "am_db m = Some d" "\<And>T. tables.represents T d (tables_after T L)" by blast
  have "tables.represents U (snd (revoke_permission c k d)) (tables_after U (Revoked_one c k r # L))" for U
  proof (cases "\<exists>T. c = table_name T")
    case True
    then obtain T where c: "c = table_name T" by blast
    then have e: "snd (revoke_permission c k d) = revoke_one_in T k d" by (simp add: revoke_one_in_def)
    show ?thesis
    proof (cases "U = T")
      case True
      then show ?thesis using tables.represents_revoke_one [OF d(2)] c
        unfolding e by (simp add: tables_after_def entry_call_def)
    next
      case False
      then show ?thesis using d(2) [of U] c unfolding e
        by (auto simp: tables_after_def entry_call_def holds_in_rows rows_of_revoke_one intro: tables.represents_same)
    qed
  next
    case False
    then show ?thesis using d(2) [of U] unknown_category [of c k d] by (auto simp: tables_after_def entry_call_def)
  qed
  then show ?case using manager_revoke_one_db [OF revoked_one(2) d(1)] by auto
next
  case (elsewhere m L d d')
  then have "tables.represents T d (tables_after T L)" for T by auto
  moreover have "holds_in T d' k i \<longleftrightarrow> holds_in T d k i" for T k i by (simp add: holds_in_rows elsewhere(3))
  ultimately have "tables.represents T d' (tables_after T L)" for T by (rule tables.represents_same)
  then show ?case by (simp add: tables_after_def entry_call_def)
qed (simp_all add: tables_after_def entry_call_def add_session_grant_def clear_def bump_def invalidate_pending_def)


section \<open>Saved permissions serve what they were granted for\<close>

definition key_for :: "table \<Rightarrow> (bytes \<Rightarrow> pystr) \<Rightarrow> approval_request \<Rightarrow> pystr \<Rightarrow> pystr res" where
  "key_for T sha rq scope = (case T of Read_table \<Rightarrow> read_key sha rq scope | Shell_table \<Rightarrow> shell_key sha rq scope
     | Screen_table \<Rightarrow> screen_key sha rq scope)"

lemmas block_defs = screen_block_def shell_block_def read_block_def

text \<open>A prompt is opened with the key of whichever scope the request has.\<close>

lemma opened_ticket:
  assumes "open_request sha ts rq s sc reuse m = (Inr (Waiting tk), m')"
  shows "tk_scopes tk = sc" "tk_generation tk = am_generation m" "ap_binding (tk_request tk) = ap_binding rq"
    "ap_project (tk_request tk) = ap_project rq" "ap_digest (tk_request tk) = ap_digest rq"
    "scope_of T sc = Some (scope, i) \<Longrightarrow> key_for T sha (tk_request tk) scope = Inr (tk_key tk)"
    "scope_of Screen_table sc = Some (scope, i) \<Longrightarrow> ap_project rq = scope"
proof -
  obtain key t m1 where key: "saved_permission sha (fst ts) m rq s sc reuse = Inr (Some key)"
    and tk: "open_prompt t rq s sc key m1 = Inr (Waiting tk)" "am_generation m1 = am_generation m"
    using assms by (auto simp: open_request_def has_session_grant_def split: prod.splits sum.splits option.splits if_splits bool.splits)
  note fields = tk(1) [unfolded open_prompt_def, simplified]
  show same: "tk_scopes tk = sc" "tk_generation tk = am_generation m" "ap_binding (tk_request tk) = ap_binding rq"
    "ap_project (tk_request tk) = ap_project rq" "ap_digest (tk_request tk) = ap_digest rq"
    using fields tk(2) by (auto split: if_splits)
  have k: "tk_key tk = key" using fields by (auto split: if_splits)
  show "scope_of Screen_table sc = Some (scope, i) \<Longrightarrow> ap_project rq = scope"
    using key by (auto simp: saved_permission_def res_simps screen_block_def scope_of_def split: if_splits option.splits)
  assume T: "scope_of T sc = Some (scope, i)"
  have "key_for T sha rq scope = Inr key"
    using key T
    by (cases T) (auto simp: saved_permission_def res_simps block_defs hit_def key_of_def key_for_def scope_of_def
        split: if_splits option.splits prod.splits bool.splits)
  then show "key_for T sha (tk_request tk) scope = Inr (tk_key tk)"
    using k same by (cases T) (auto simp: key_for_def read_key_def shell_key_def screen_key_def split: if_splits)
qed

lemma run_ticket:
  assumes "approvals_run sha m0 m L" "Opened rq s sc reuse (Inr (Waiting tk)) \<in> set L"
  shows "\<exists>ts m1 m2. open_request sha ts rq s sc reuse m1 = (Inr (Waiting tk), m2)"
  using assms by (induction rule: approvals_run.induct) (auto simp del: split_paired_Ex)

lemma run_answer:
  assumes "approvals_run sha m0 m L" "Answered now tk out r \<in> set L"
  shows "\<exists>rq s sc reuse. Opened rq s sc reuse (Inr (Waiting tk)) \<in> set L"
  using assms by (induction rule: approvals_run.induct) auto

lemma binding_texts_inj: "binding_texts b = binding_texts c \<longleftrightarrow> b = c"
  by (auto simp: binding_texts_def)

text \<open>
  What a saved permission is about: the authorization, the project, for a shell command also the
  command's digest, and the scope with the revision it was seen at.
\<close>

definition covers :: "table \<Rightarrow> ticket \<Rightarrow> approval_request \<Rightarrow> scopes \<Rightarrow> bool" where
  "covers T tk rq sc \<longleftrightarrow> ap_binding (tk_request tk) = ap_binding rq
     \<and> scope_of T (tk_scopes tk) = scope_of T sc
     \<and> ap_project (tk_request tk) = ap_project rq
     \<and> (T = Shell_table \<longrightarrow> ap_digest (tk_request tk) = ap_digest rq)"

lemma key_for_inject:
  assumes "key_for T sha rq scope = Inr k" "key_for T sha rq' scope' = Inr k" "inj sha"
  shows "ap_binding rq = ap_binding rq' \<and> scope = scope' \<and> (T \<noteq> Screen_table \<longrightarrow> ap_project rq = ap_project rq')
    \<and> (T = Shell_table \<longrightarrow> ap_digest rq = ap_digest rq')"
proof (cases T)
  case Read_table
  from text_digest_inject [OF assms(3) assms(1,2) [unfolded Read_table key_for_def read_key_def action_digest_def table.case]]
  show ?thesis using Read_table by (auto simp: binding_texts_def split: if_splits)
next
  case Shell_table
  from text_digest_inject [OF assms(3) assms(1,2) [unfolded Shell_table key_for_def shell_key_def action_digest_def table.case]]
  show ?thesis using Shell_table by (auto simp: binding_texts_def)
next
  case Screen_table
  from text_digest_inject [OF assms(3) assms(1,2) [unfolded Screen_table key_for_def screen_key_def action_digest_def table.case]]
  show ?thesis using Screen_table by (auto simp: binding_texts_def)
qed

lemma concat_split:
  assumes "concat (map f L) = xs @ c # ys" "\<And>e. length (f e) \<le> 1"
  shows "\<exists>L1 e L2. L = L1 @ e # L2 \<and> f e = [c] \<and> concat (map f L1) = xs"
  using assms(1)
proof (induction L arbitrary: xs)
  case (Cons e L)
  show ?case
  proof (cases "f e")
    case Nil
    then obtain L1 e' L2 where "L = L1 @ e' # L2" "f e' = [c]" "concat (map f L1) = xs" using Cons by fastforce
    then show ?thesis using Nil by (intro exI [of _ "e # L1"] exI [of _ e'] exI [of _ L2]) simp
  next
    case (Cons d ds)
    then have fe: "f e = [d]" using assms(2) [of e] by simp
    show ?thesis
    proof (cases xs)
      case Nil
      then show ?thesis using fe Cons.prems by (intro exI [of _ "[]"] exI [of _ e] exI [of _ L]) simp
    next
      case (Cons x xs')
      then obtain L1 e' L2 where "L = L1 @ e' # L2" "f e' = [c]" "concat (map f L1) = xs'" "d = x"
        using Cons.IH [of xs'] Cons.prems fe by fastforce
      then show ?thesis using Cons fe by (intro exI [of _ "e # L1"] exI [of _ e'] exI [of _ L2]) simp
    qed
  qed
qed simp

lemma revoked_logged: "Revoked T \<in> set L \<Longrightarrow> Revoke_all \<in> set (concat (map (entry_call T) L))"
  by (induction L) (auto simp: entry_call_def)

lemma revoked_one_logged: "Revoked_one (table_name T) k r \<in> set L \<Longrightarrow> Revoke_one k \<in> set (concat (map (entry_call T) L))"
  by (induction L) (auto simp: entry_call_def)

lemma entry_call_length: "length (entry_call T e) \<le> 1"
  by (auto simp: entry_call_def split: entry.splits prompt_outcome.splits sum.splits bool.splits option.splits prod.splits)

lemma entry_call_Save:
  assumes "entry_call T e = [Save x k i]"
  shows "\<exists>now. e = Answered now (fst x) (Decided (always_for T)) (Inr True) \<and> k = tk_key (fst x)
    \<and> map_option snd (scope_of T (tk_scopes (fst x))) = Some i"
  using assms
  by (auto simp: entry_call_def split: entry.splits prompt_outcome.splits sum.splits bool.splits option.splits if_splits)

lemma hit_iff: "hit b \<longleftrightarrow> (\<exists>k. b = Some (k, True))"
  by (auto simp: hit_def split: option.splits bool.splits)

lemma saved_permission_hit:
  assumes "saved_permission sha t m rq False sc reuse = Inr None" "am_db m = Some d"
  shows "\<exists>T scope i k. scope_of T sc = Some (scope, i) \<and> key_for T sha rq scope = Inr k \<and> holds_in T d k i
    \<and> (T = Screen_table \<longrightarrow> ap_project rq = scope)"
proof -
  have "(\<exists>k. screen_block sha m rq False sc = Inr (Some (k, True))) \<or> (\<exists>k. shell_block sha m rq False sc reuse = Inr (Some (k, True)))
     \<or> (\<exists>k. read_block sha m rq False sc = Inr (Some (k, True)))"
    using assms(1) by (auto simp: saved_permission_def res_simps hit_iff split: if_splits)
  then show ?thesis
  proof (elim disjE exE)
    fix k assume "screen_block sha m rq False sc = Inr (Some (k, True))"
    then show ?thesis using assms(2)
      by (intro exI [of _ Screen_table]) (auto simp: screen_block_def res_simps scope_of_def key_for_def holds_in_def split: option.splits if_splits)
  next
    fix k assume "shell_block sha m rq False sc reuse = Inr (Some (k, True))"
    then show ?thesis using assms(2)
      by (intro exI [of _ Shell_table]) (auto simp: shell_block_def res_simps scope_of_def key_for_def holds_in_def split: option.splits if_splits)
  next
    fix k assume "read_block sha m rq False sc = Inr (Some (k, True))"
    then show ?thesis using assms(2)
      by (intro exI [of _ Read_table]) (auto simp: read_block_def res_simps scope_of_def key_for_def holds_in_def split: option.splits if_splits)
  qed
qed

text \<open>
  C2. A request that is granted without asking the user is covered by an earlier answer: in every
  run of the approval manager from a database without saved permissions, whatever interleaving of
  requests, answers, revocations and other database activity came before, if a request passes
  without a prompt then the user has answered "always allow" to a prompt for the same account,
  grant, link and device, the same project, the same scope at the same revision and, for a shell
  command, the same command, and has not revoked that permission since.
\<close>

theorem saved_permission_authentic:
  assumes "approvals_run sha m0 m L" "am_db m0 = Some d0" "\<forall>T. rows_of T d0 = []" "inj sha"
    and "open_request sha ts rq False sc reuse m = (Inr Granted, m')"
  shows "\<exists>T now tk newer older. L = newer @ Answered now tk (Decided (always_for T)) (Inr True) # older
    \<and> covers T tk rq sc \<and> scope_of T sc \<noteq> None
    \<and> Revoked T \<notin> set newer \<and> (\<forall>r. Revoked_one (table_name T) (tk_key tk) r \<notin> set newer)"
proof -
  obtain d where d: "am_db m = Some d" "\<And>T. tables.represents T d (tables_after T L)"
    using run_tables [OF assms(1,2)] assms(3) by blast
  have "saved_permission sha (fst ts) m rq False sc reuse = Inr None"
    using assms(5) by (auto simp: open_request_def open_prompt_def split: prod.splits sum.splits option.splits if_splits)
  from saved_permission_hit [OF this d(1)] obtain T scope i k where
    T: "scope_of T sc = Some (scope, i)" "key_for T sha rq scope = Inr k" "holds_in T d k i" "T = Screen_table \<Longrightarrow> ap_project rq = scope"
    by blast
  obtain x newer older where h: "tables_after T L = newer @ Save x k i # older" "Revoke_all \<notin> set newer" "Revoke_one k \<notin> set newer"
    by (rule tables.represents_holds [OF d(2) T(3)])
  from concat_split [OF h(1) [unfolded tables_after_def] entry_call_length] obtain L1 e L2 where
    L: "L = L1 @ e # L2" "entry_call T e = [Save x k i]" "concat (map (entry_call T) L1) = newer" by blast
  from entry_call_Save [OF L(2)] obtain now where e: "e = Answered now (fst x) (Decided (always_for T)) (Inr True)" "k = tk_key (fst x)"
    "map_option snd (scope_of T (tk_scopes (fst x))) = Some i" by blast
  have "Answered now (fst x) (Decided (always_for T)) (Inr True) \<in> set L" using L(1) e(1) by simp
  from run_answer [OF assms(1) this] obtain rq' s' sc' reuse' where "Opened rq' s' sc' reuse' (Inr (Waiting (fst x))) \<in> set L" by blast
  from run_ticket [OF assms(1) this] obtain ts' m1 m2 where
    o: "open_request sha ts' rq' s' sc' reuse' m1 = (Inr (Waiting (fst x)), m2)" by blast
  obtain scope' where sc': "scope_of T (tk_scopes (fst x)) = Some (scope', i)" using e(3) by auto
  have key': "key_for T sha (tk_request (fst x)) scope' = Inr k"
    using opened_ticket(6) [OF o, of T scope' i] sc' opened_ticket(1) [OF o] e(2) by simp
  note same = key_for_inject [OF key' T(2) assms(4)]
  have proj: "ap_project (tk_request (fst x)) = ap_project rq"
  proof (cases "T = Screen_table")
    case True
    then have "ap_project (tk_request (fst x)) = scope'"
      using opened_ticket(7) [OF o, of scope' i] opened_ticket(1,4) [OF o] sc' by simp
    then show ?thesis using T(4) True same by simp
  qed (use same in simp)
  have "covers T (fst x) rq sc" using same proj sc' T(1) by (auto simp: covers_def)
  moreover have "Revoked T \<notin> set L1" using h(2) unfolding L(3) [symmetric] by (rule contrapos_nn) (rule revoked_logged)
  moreover have "Revoked_one (table_name T) (tk_key (fst x)) r \<notin> set L1" for r
    using h(3) unfolding L(3) [symmetric] e(2) by (rule contrapos_nn) (rule revoked_one_logged)
  ultimately show ?thesis using L(1) e(1) T(1) by (intro exI [of _ T] exI [of _ now] exI [of _ "fst x"] exI [of _ L1] exI [of _ L2]) simp
qed


definition example_approval :: approval_request where
  "example_approval = \<lparr>ap_id = lit ''approval_1'', ap_binding = example_binding, ap_project = lit ''p1'', ap_title = lit ''Demo'',
     ap_capability = lit ''shell:execute'', ap_digest = lit ''d'', ap_epoch = 1, ap_deadline = 100, ap_aware = True,
     ap_risk = NATIVE_EXECUTION, ap_summary = [], ap_command = Some JNull, ap_patch = None, ap_directory = None,
     ap_environment = None, ap_network = False, ap_external = [], ap_session = False, ap_keep_read = False,
     ap_keep_shell = False, ap_keep_screen = False\<rparr>"

definition example_scopes :: scopes where
  "example_scopes = no_scopes\<lparr>sc_shell := Some (lit ''cwd'', lit ''exe'')\<rparr>"

definition example_opening :: "prompt_state res \<times> manager" where
  "example_opening = open_request (\<lambda>b. b) (1, 2, 3) example_approval False example_scopes True (new_manager (Some empty_db))"

definition example_ticket :: ticket where
  "example_ticket = (case fst example_opening of Inr (Waiting tk) \<Rightarrow> tk | _ \<Rightarrow> undefined)"

definition example_answer :: "bool res \<times> manager" where
  "example_answer = decide 4 example_ticket (Decided ALLOW_ALWAYS_SHELL) (snd example_opening)"

lemma example_opening_waits: "fst example_opening = Inr (Waiting example_ticket)"
proof -
  have "case fst example_opening of Inr (Waiting tk) \<Rightarrow> True | _ \<Rightarrow> False" by code_simp
  then show ?thesis by (auto simp: example_ticket_def split: sum.splits prompt_state.splits)
qed

lemma example_run:
  "approvals_run (\<lambda>b. b) (new_manager (Some empty_db)) (snd example_answer)
     [Answered 4 example_ticket (Decided ALLOW_ALWAYS_SHELL) (Inr True),
      Opened example_approval False example_scopes True (Inr (Waiting example_ticket))]"
proof -
  have o: "open_request (\<lambda>b. b) (1, 2, 3) example_approval False example_scopes True (new_manager (Some empty_db))
      = (Inr (Waiting example_ticket), snd example_opening)"
    using example_opening_waits by (simp add: example_opening_def prod_eq_iff)
  have "fst example_answer = Inr True"
  proof -
    have "case fst example_opening of Inr (Waiting tk) \<Rightarrow>
        (case fst (decide 4 tk (Decided ALLOW_ALWAYS_SHELL) (snd example_opening)) of Inr b \<Rightarrow> b | _ \<Rightarrow> False) | _ \<Rightarrow> False"
      by code_simp
    then show ?thesis unfolding example_answer_def example_opening_waits by (auto split: sum.splits)
  qed
  then have a: "decide 4 example_ticket (Decided ALLOW_ALWAYS_SHELL) (snd example_opening) = (Inr True, snd example_answer)"
    by (simp add: example_answer_def prod_eq_iff)
  show ?thesis
    by (rule approvals_run.answered [OF approvals_run.asked [OF approvals_run.start o] list.set_intros(1) a])
qed

theorem saved_permission_authentic_witness:
  "\<exists>m'. open_request (\<lambda>b. b) (5, 6, 7) example_approval False example_scopes True (snd example_answer) = (Inr Granted, m')
     \<and> (\<exists>T. covers T example_ticket example_approval example_scopes \<and> scope_of T example_scopes \<noteq> None)"
proof -
  have "case fst example_opening of Inr (Waiting tk) \<Rightarrow>
      (case fst (open_request (\<lambda>b. b) (5, 6, 7) example_approval False example_scopes True
         (snd (decide 4 tk (Decided ALLOW_ALWAYS_SHELL) (snd example_opening)))) of Inr Granted \<Rightarrow> True | _ \<Rightarrow> False)
    | _ \<Rightarrow> False" by code_simp
  then have "fst (open_request (\<lambda>b. b) (5, 6, 7) example_approval False example_scopes True (snd example_answer)) = Inr Granted"
    unfolding example_answer_def example_opening_waits by (auto split: sum.splits prompt_state.splits)
  then obtain m' where g: "open_request (\<lambda>b. b) (5, 6, 7) example_approval False example_scopes True (snd example_answer)
      = (Inr Granted, m')" by (metis prod.collapse)
  have d: "am_db (new_manager (Some empty_db)) = Some empty_db" "\<forall>T. rows_of T empty_db = []"
    by (auto simp: new_manager_def rows_of_def empty_db_def split: table.splits)
  from saved_permission_authentic [OF example_run d inj_on_id2 g] show ?thesis
    using g by (auto simp: Cons_eq_append_conv)
qed

section \<open>Answers are current\<close>

definition security :: "entry \<Rightarrow> bool" where
  "security e \<longleftrightarrow> (case e of Cleared \<Rightarrow> True | Invalidated \<Rightarrow> True | Revoked _ \<Rightarrow> True
     | Revoked_one _ _ (Inr b) \<Rightarrow> b | _ \<Rightarrow> False)"

lemma security_simps [simp]:
  "\<not> security (Opened rq s sc reuse st)" "\<not> security (Answered now tk out b)" "\<not> security (Session_added tk)"
  "security Cleared" "security Invalidated" "security (Revoked T)" "\<not> security (Revoked_one c k (Inl e))"
  "security (Revoked_one c k (Inr d)) = d" "\<not> security Elsewhere"
  by (simp_all add: security_def)

abbreviation events :: "entry list \<Rightarrow> nat" where
  "events L \<equiv> length (filter security L)"

lemma decide_generation: "decide now tk out m = (r, m') \<Longrightarrow> am_generation m' = am_generation m"
  by (auto simp: decide_def locked_decision_def always_def Let_def
      split: prompt_outcome.splits approval_decision.splits sum.splits option.splits if_splits)

lemma run_generation:
  assumes "approvals_run sha m0 m L"
  shows "am_generation m = am_generation m0 + events L"
    "L = newer @ Opened rq s sc reuse (Inr (Waiting tk)) # older \<Longrightarrow> tk_generation tk = am_generation m0 + events older"
  using assms
proof (induction arbitrary: newer rule: approvals_run.induct)
  case start
  { case 1 then show ?case by simp }
  { case 2 then show ?case by simp }
next
  case (asked m L ts rq' s' sc' reuse' r m')
  { case 1 then show ?case using asked open_request_db [OF asked(2)] by simp }
  { case 2
    show ?case
    proof (cases newer)
      case Nil
      then have "L = older" "open_request sha ts rq' s' sc' reuse' m = (Inr (Waiting tk), m')"
        using 2 asked(2) by auto
      then show ?thesis using opened_ticket(2) asked(3) by simp
    next
      case (Cons e es)
      then show ?thesis using 2 asked(4) by simp
    qed }
next
  case (answered m L rq' s' sc' reuse' tk' now out r m')
  { case 1 then show ?case using answered decide_generation [OF answered(3)] by simp }
  { case 2 then show ?case using answered(5) by (cases newer) auto }
next
  case (added m L now tk' now')
  { case 1 then show ?case using added by (simp add: add_session_grant_def) }
  { case 2 then show ?case using added(4) by (cases newer) auto }
next
  case (cleared m L)
  { case 1 then show ?case using cleared by (simp add: clear_def bump_def) }
  { case 2 then show ?case using cleared(3) by (cases newer) auto }
next
  case (invalidated m L)
  { case 1 then show ?case using invalidated by (simp add: invalidate_pending_def bump_def) }
  { case 2 then show ?case using invalidated(3) by (cases newer) auto }
next
  case (revoked m L T)
  { case 1 then show ?case using revoked
      by (cases T; cases "am_db m") (simp_all add: manager_revoke_def manager_revoke_read_def manager_revoke_shell_def
        manager_revoke_screen_def revoke_with_def bump_def split: prod.splits) }
  { case 2 then show ?case using revoked(3) by (cases newer) auto }
next
  case (revoked_one m L c k r m')
  { case 1 then show ?case using revoked_one
      by (auto simp: manager_revoke_one_def bump_def split: option.splits prod.splits sum.splits if_splits) }
  { case 2 then show ?case using revoked_one(4) by (cases newer) auto }
next
  case (elsewhere m L d d')
  { case 1 then show ?case using elsewhere by simp }
  { case 2 then show ?case using elsewhere(5) by (cases newer) auto }
qed

inductive_cases run_answeredE: "approvals_run sha m0 m (Answered now tk out r # L)"

text \<open>
  C17. An answer counts only while it is current: if the user's decision on a prompt is accepted,
  then no grant was cleared, no permission revoked and no connection or security event declared
  since the prompt was opened, and the operation's deadline has not passed.
\<close>

theorem answer_current:
  assumes "approvals_run sha m0 m (Answered now tk (Decided d) (Inr b) # newer @ Opened rq s sc reuse (Inr (Waiting tk)) # older)"
  shows "list_all (\<lambda>e. \<not> security e) newer \<and> now < ap_deadline (tk_request tk) \<and> ap_aware (tk_request tk)"
proof -
  let ?L = "newer @ Opened rq s sc reuse (Inr (Waiting tk)) # older"
  obtain m1 where r: "approvals_run sha m0 m1 ?L" "decide now tk (Decided d) m1 = (Inr b, m)"
    using assms by (elim run_answeredE) blast
  then have "tk_generation tk = am_generation m1" "ensure_before_deadline now (tk_request tk) = Inr ()"
    by (auto simp: decide_def split: sum.splits if_splits)
  moreover have "am_generation m1 = am_generation m0 + events ?L" "tk_generation tk = am_generation m0 + events older"
    using run_generation [OF r(1)] by blast+
  ultimately have "events newer = 0" "ensure_before_deadline now (tk_request tk) = Inr ()" by auto
  then show ?thesis
    by (auto simp: filter_empty_conv list_all_iff ensure_before_deadline_def raise_if_def split: if_splits)
qed

theorem answer_current_witness:
  "4 < ap_deadline (tk_request example_ticket)"
  using answer_current [of "\<lambda>b. b" "new_manager (Some empty_db)" "snd example_answer" 4 example_ticket ALLOW_ALWAYS_SHELL True
      "[]" example_approval False example_scopes True "[]"] example_run by simp

section \<open>Nothing passes silently\<close>

text \<open>
  C33. With a user who denies every prompt, a project operation is let through exactly when the
  deadline has not passed, the project is enabled, and the project's mode is the explicit full
  access, or it is the project mode and the operation is certainly inside the project or covered
  by a saved permission.  In particular the legacy native modes never let anything pass without a
  prompt, saved permissions included, and the isolated mode lets nothing pass at all.
\<close>

theorem silent_access_iff:
  "fst (authorize_project_operation (request sha ts ts' env env' (\<lambda>_. Decided DENY)) now pr rq inside uncertain sc m) = Inr ()
   \<longleftrightarrow> now < ap_deadline rq \<and> enabled pr
     \<and> (mode pr = FULL_ACCESS \<or> mode pr = NATIVE_PROJECT
          \<and> (inside \<and> \<not> uncertain \<or> saved_permission sha (fst ts) m rq False sc True = Inr None))"
proof -
  have denied: "fst (request sha ts ts' env env' (\<lambda>_. Decided DENY) rq False sc' reuse m) = Inr ()
      \<longleftrightarrow> saved_permission sha (fst ts) m rq False sc' reuse = Inr None" for sc' reuse
    by (auto simp: request_def open_request_def open_prompt_def decide_def locked_decision_def Let_def
        split: prod.splits sum.splits option.splits if_splits)
  have none: "saved_permission sha (fst ts) m rq False no_scopes False \<noteq> Inr None"
    by (auto simp: saved_permission_def no_scopes_def block_defs res_simps hit_def)
  show ?thesis
    by (cases "mode pr") (auto simp: authorize_project_operation_def ensure_current_def project_access_policy_def raise_if_def
        denied none not_le)
qed

section \<open>Session grants\<close>

lemma use_grant_sound:
  "use_grant now rq gs = (True, gs') \<Longrightarrow> \<exists>g\<in>set gs. grant_for rq g"
  by (induction now rq gs arbitrary: gs' rule: use_grant.induct) (auto split: if_splits prod.splits)

lemma session_grant_exact:
  assumes "has_session_grant now rq m = (True, m')"
  shows "\<exists>g\<in>set (am_grants m). grant_for rq g \<and> now \<le> sg_created g + SESSION_MAX \<and> now \<le> sg_used g + SESSION_IDLE"
proof -
  obtain gs where "use_grant now rq (filter (live_grant now) (am_grants m)) = (True, gs)"
    using assms by (auto simp: has_session_grant_def split: prod.splits)
  from use_grant_sound [OF this] show ?thesis by (auto simp: live_grant_def le_diff_conv)
qed

text \<open>
  A session grant is added after the lock was released: a security event in between is undone,
  for the grant it should have cleared appears after it.
\<close>

lemma session_grant_survives_clear:
  assumes "approvals_run sha m0 m L" "Answered now tk (Decided ALLOW_SESSION) (Inr False) \<in> set L"
  shows "\<exists>m'. approvals_run sha m0 m' (Session_added tk # Cleared # L) \<and> am_grants m' \<noteq> []"
  using approvals_run.added [OF approvals_run.cleared [OF assms(1)], of now tk 0] assms(2)
  by (auto simp: add_session_grant_def)

end
