(* ===== verification/Project_Management.thy ===== *)
theory Project_Management
  imports Approval_Laws
begin

text \<open>
  Remote management of the project registry (\<open>ProjectManagementService.execute\<close> in
  \<open>agent/src/codito_agent/project_management.py\<close>, its inputs in
  \<open>packages/protocol/src/codito_protocol/manage.py\<close>).  The service and the approval manager share
  one database, the one inside the manager's state.  \<open>ask\<close> is the manager's \<open>request\<close> coroutine
  with whatever happens while its prompt is open.
\<close>

datatype manage_input =
    GetProjectsInput "pystr option" nat
  | RequestAddProjectInput pystr pystr
  | RenameProjectInput pystr pystr pystr
  | RemoveProjectInput pystr pystr

record manage_call =
  mc_device :: pystr
  mc_account :: pystr
  mc_grant :: pystr
  mc_link :: pystr
  mc_epoch :: int
  mc_deadline :: nat
  mc_uuid :: pystr
  mc_request_id :: pystr

definition mode_name :: "project_mode \<Rightarrow> pystr" where
  "mode_name md = (case md of ISOLATED \<Rightarrow> lit ''isolated'' | NATIVE_APPROVAL \<Rightarrow> lit ''native_approval''
     | NATIVE_TRUSTED \<Rightarrow> lit ''native_trusted'' | NATIVE_PROJECT \<Rightarrow> lit ''native_project'' | FULL_ACCESS \<Rightarrow> lit ''full_access'')"

definition project_summary :: "pystr \<Rightarrow> project \<Rightarrow> json" where
  "project_summary device p = JObj [(lit ''project_id'', JStr (project_id p)), (lit ''title'', JStr (title p)),
     (lit ''device_id'', JStr device), (lit ''mode'', JStr (mode_name (mode p))), (lit ''online'', JBool True)]"

text \<open>\<open>model_dump\<close> of the two inputs that reach the approval digest.\<close>

definition manage_json :: "manage_input \<Rightarrow> json" where
  "manage_json inp = (case inp of
       RenameProjectInput pid t key \<Rightarrow> JObj [(lit ''operation'', JStr (lit ''rename_project'')), (lit ''project_id'', JStr pid),
         (lit ''title'', JStr t), (lit ''idempotency_key'', JStr key)]
     | RemoveProjectInput pid key \<Rightarrow> JObj [(lit ''operation'', JStr (lit ''remove_project'')), (lit ''project_id'', JStr pid),
         (lit ''idempotency_key'', JStr key)]
     | _ \<Rightarrow> JNull)"

definition is_remove :: "manage_input \<Rightarrow> bool" where
  "is_remove inp = (case inp of RemoveProjectInput _ _ \<Rightarrow> True | _ \<Rightarrow> False)"

definition call_binding :: "manage_call \<Rightarrow> binding" where
  "call_binding c = \<lparr>account_id = mc_account c, grant_id = mc_grant c, link_id = mc_link c, device_id = mc_device c\<rparr>"

definition manage_approval :: "manage_call \<Rightarrow> manage_input \<Rightarrow> project \<Rightarrow> pystr \<Rightarrow> approval_request" where
  "manage_approval c inp p dg =
     \<lparr>ap_id = mc_request_id c, ap_binding = call_binding c, ap_project = project_id p, ap_title = title p,
      ap_capability = lit ''projects:write'', ap_digest = dg, ap_epoch = mc_epoch c, ap_deadline = mc_deadline c,
      ap_aware = True, ap_risk = (if is_remove inp then DELETE else WRITE),
      ap_summary = lit ''Allow ChatGPT to '' @ (if is_remove inp then lit ''unregister'' else lit ''rename'')
        @ lit '' the registered project metadata?'',
      ap_command = None, ap_patch = None, ap_directory = None, ap_environment = None, ap_network = False,
      ap_external = [], ap_session = False, ap_keep_read = False, ap_keep_shell = False, ap_keep_screen = False\<rparr>"

definition manage_result :: "string \<Rightarrow> pystr \<Rightarrow> pystr \<Rightarrow> string \<Rightarrow> json" where
  "manage_result op pid t status = JObj [(lit ''operation'', JStr (lit op)), (lit ''project_id'', JStr pid),
     (lit ''title'', JStr t), (lit ''status'', JStr (lit status))]"

text \<open>The mutation behind the checks: rename, or disable.\<close>

definition manage_mutate :: "nat \<Rightarrow> manage_input \<Rightarrow> project \<Rightarrow> db \<Rightarrow> json res \<times> db" where
  "manage_mutate now inp p d =
     (case inp of
        RenameProjectInput _ t _ \<Rightarrow>
          (case set_project_title now (project_id p) t d of
             (Inl e, d') \<Rightarrow> (Inl e, d')
           | (Inr _, d') \<Rightarrow> (Inr (manage_result ''rename_project'' (project_id p) (strip t) ''renamed''), d'))
      | _ \<Rightarrow>
          (case set_project_enabled now (project_id p) False d of
             (Inl e, d') \<Rightarrow> (Inl e, d')
           | (Inr _, d') \<Rightarrow> (Inr (manage_result ''remove_project'' (project_id p) (title p) ''removed''), d')))"

text \<open>The checks after the user's answer, on the database as it is then.\<close>

definition manage_recheck :: "nat \<Rightarrow> nat \<Rightarrow> manage_call \<Rightarrow> project \<Rightarrow> manager \<Rightarrow> db \<Rightarrow> unit res" where
  "manage_recheck now g c p m d =
     bindE (ensure_current now g (mc_deadline c) m) (\<lambda>_.
     bindE (get_project (project_id p) d) (\<lambda>current.
     bindE (project_access_policy current True False) (\<lambda>_.
       raise_if (mode current \<noteq> mode p) approval_expired)))"

definition target_of :: "manage_input \<Rightarrow> pystr" where
  "target_of inp = (case inp of RenameProjectInput pid _ _ \<Rightarrow> pid | RemoveProjectInput pid _ \<Rightarrow> pid | _ \<Rightarrow> [])"

text \<open>
  The result, the state, and whether the metadata listener was called.  Without a database the
  constructor of the service cannot have succeeded, so that case is an error of the model's own.
\<close>

definition execute_manage ::
  "(bytes \<Rightarrow> pystr) \<Rightarrow> asking \<Rightarrow> nat \<times> nat \<times> nat \<times> nat \<Rightarrow> manage_call \<Rightarrow> manage_input \<Rightarrow> manager
     \<Rightarrow> json res \<times> manager \<times> bool" where
  "execute_manage sha ask = (\<lambda>(t0, t1, t2, t3) c inp m.
     case bindE (ensure_current t0 (am_generation m) (mc_deadline c) m)
            (\<lambda>_. case am_db m of None \<Rightarrow> Inl ValueError | Some d \<Rightarrow> Inr d) of
       Inl e \<Rightarrow> (Inl e, m, False)
     | Inr d \<Rightarrow>
         (case inp of
            GetProjectsInput cursor limit \<Rightarrow>
              (Inr (JObj [(lit ''operation'', JStr (lit ''get_projects'')),
                 (lit ''projects'', JList (map (project_summary (mc_device c)) (take limit (list_projects True d))))]), m, False)
          | RequestAddProjectInput t key \<Rightarrow>
              (case create_registration_request t0 (mc_uuid c) t (call_binding c) (mc_epoch c) d of
                 (Inl e, d') \<Rightarrow> (Inl e, m\<lparr>am_db := Some d'\<rparr>, False)
               | (Inr rid, d') \<Rightarrow>
                   (Inr (JObj [(lit ''operation'', JStr (lit ''request_add_project'')), (lit ''request_id'', JStr rid),
                      (lit ''title'', JStr t), (lit ''status'', JStr (lit ''pending_local_selection''))]),
                    m\<lparr>am_db := Some d'\<rparr>, False))
          | _ \<Rightarrow>
              (case bindE (get_project (target_of inp) d) (\<lambda>p.
                    bindE (compute_action_digest sha (manage_json inp)) (\<lambda>dg. Inr (p, dg))) of
                 Inl e \<Rightarrow> (Inl e, m, False)
               | Inr (p, dg) \<Rightarrow>
                   (case authorize_project_operation ask t1 p (manage_approval c inp p dg) True False no_scopes m of
                      (Inl e, m1) \<Rightarrow> (Inl e, m1, False)
                    | (Inr _, m1) \<Rightarrow>
                        (case am_db m1 of
                           None \<Rightarrow> (Inl ValueError, m1, False)
                         | Some d1 \<Rightarrow>
                             (case manage_recheck t2 (am_generation m) c p m1 d1 of
                                Inl e \<Rightarrow> (Inl e, m1, False)
                              | Inr _ \<Rightarrow>
                                  (case manage_mutate t3 inp p d1 of
                                     (Inl e, d2) \<Rightarrow> (Inl e, m1\<lparr>am_db := Some d2\<rparr>, False)
                                   | (Inr res, d2) \<Rightarrow> (Inr res, m1\<lparr>am_db := Some d2\<rparr>, True))))))))"

section \<open>Only what was approved\<close>

lemma update_project_others:
  assumes "update_project now pid f d = (Inr (), d')" "\<And>p. project_id (f p) = project_id p"
  shows "get_project pid' d' = (case get_project pid' d of Inl e \<Rightarrow> Inl e | Inr p \<Rightarrow> Inr (if pid' = pid then f p else p))"
proof -
  let ?g = "\<lambda>r. if row_pid r = pid then r\<lparr>p_project := f (p_project r), p_updated := now\<rparr> else r"
  have found: "find (\<lambda>r. row_pid r = pid') (map ?g (projects d)) = map_option ?g (find (\<lambda>r. row_pid r = pid') (projects d))"
    by (rule find_map_key) (simp add: assms(2))
  have d': "d' = d\<lparr>projects := map ?g (projects d)\<rparr>" using assms(1) by (auto simp: update_project_def Let_def split: if_splits)
  have row: "row_pid r = pid'" if "find (\<lambda>r. row_pid r = pid') (projects d) = Some r" for r
    using that by (auto simp: find_Some_iff)
  have "get_project pid' d' = (case find (\<lambda>r. row_pid r = pid') (projects d) of
      None \<Rightarrow> Inl (raise ''project_not_found'') | Some r \<Rightarrow> Inr (p_project (?g r)))"
    unfolding d' get_project_def by (cases "find (\<lambda>r. row_pid r = pid') (projects d)") (simp_all add: found)
  with row show ?thesis by (cases "find (\<lambda>r. row_pid r = pid') (projects d)") (simp_all add: get_project_def)
qed



definition example_manage :: "json res \<times> manager \<times> bool" where
  "example_manage = execute_manage (\<lambda>b. b) (\<lambda>rq s sc reuse m. (Inr (), m)) (1, 2, 3, 4)
     \<lparr>mc_device = lit ''dev'', mc_account = lit ''acct'', mc_grant = lit ''g'', mc_link = lit ''l'', mc_epoch = 1,
      mc_deadline = 100, mc_uuid = [], mc_request_id = lit ''approval_1''\<rparr>
     (RenameProjectInput (lit ''p1'') (lit '' New '') (lit ''key-0001''))
     (new_manager (Some (empty_db\<lparr>projects := [\<lparr>p_project = example_project, p_created = 0, p_updated = 0\<rparr>]\<rparr>)))"


end
