(* ===== verification/Wire_Errors.thy ===== *)
theory Wire_Errors
  imports Agent_Db_Laws
begin

text \<open>
  Errors as they leave the device (\<open>agent/src/codito_agent/wire_errors.py\<close>): the closed set of wire
  codes, the mapping of local codes into it, and the sanitizer of error details.  The message of
  an exception is not part of the model's exceptions; it is the parameter \<open>msg\<close>.
\<close>

definition error_codes :: "string list" where
  "error_codes = [
    ''invalid_request'', ''unauthenticated'', ''unauthorized'', ''resource_mismatch'', ''scope_missing'',
    ''rate_limited'', ''project_not_found'', ''device_offline'', ''device_revoked'', ''link_revoked'',
    ''queue_full'', ''deadline_exceeded'', ''path_invalid'', ''path_outside_project'', ''path_changed'',
    ''reparse_point_forbidden'', ''hardlink_mutation_forbidden'', ''file_not_found'', ''file_too_large'',
    ''encoding_unsupported'', ''hash_mismatch'', ''patch_invalid'', ''patch_conflict'',
    ''idempotency_conflict'', ''approval_required'', ''approval_denied'', ''approval_expired'',
    ''sandbox_unavailable'', ''shell_not_found'', ''shell_not_running'', ''output_limit_exceeded'',
    ''outcome_unknown'', ''screenshot_unavailable'', ''desktop_unavailable'', ''cancelled'', ''internal_error'']"

definition LOCAL_ERROR_MAP :: "(string \<times> string) list" where
  "LOCAL_ERROR_MAP = [
    (''action_digest_mismatch'', ''invalid_request''), (''already_enrolled'', ''invalid_request''),
    (''approval_denied'', ''approval_denied''), (''approval_expired'', ''approval_expired''),
    (''binary_file'', ''encoding_unsupported''), (''binding_mismatch'', ''unauthorized''),
    (''browser_capture_failed'', ''screenshot_unavailable''),
    (''browser_close_failed'', ''desktop_unavailable''),
    (''browser_navigation_failed'', ''desktop_unavailable''),
    (''browser_unavailable'', ''desktop_unavailable''), (''broker_failed'', ''sandbox_unavailable''),
    (''broker_cleanup_failed'', ''sandbox_unavailable''), (''broker_protocol_error'', ''sandbox_unavailable''),
    (''broker_unavailable'', ''sandbox_unavailable''), (''confirmation_required'', ''approval_required''),
    (''capture_too_large'', ''output_limit_exceeded''), (''conflict'', ''patch_conflict''),
    (''credential_unavailable'', ''unauthenticated''), (''deadline_exceeded'', ''deadline_exceeded''),
    (''enrollment_required'', ''unauthenticated''), (''dev_server_failed'', ''shell_not_running''),
    (''dev_server_stop_failed'', ''shell_not_running''), (''dev_server_timeout'', ''deadline_exceeded''),
    (''reenrollment_required'', ''unauthenticated''), (''file_too_large'', ''file_too_large''),
    (''element_not_found'', ''resource_mismatch''), (''element_not_interactable'', ''invalid_request''),
    (''frontend_action_failed'', ''desktop_unavailable''), (''frontend_config_required'', ''invalid_request''),
    (''frontend_port_in_use'', ''invalid_request''), (''frontend_session_closed'', ''resource_mismatch''),
    (''frontend_session_exists'', ''invalid_request''), (''frontend_session_expired'', ''resource_mismatch''),
    (''frontend_session_not_found'', ''resource_mismatch''),
    (''idempotency_conflict'', ''idempotency_conflict''), (''internal_error'', ''internal_error''),
    (''migration_failed'', ''internal_error''), (''screenshot_unavailable'', ''screenshot_unavailable''),
    (''desktop_unavailable'', ''desktop_unavailable''), (''invalid_approval'', ''approval_denied''),
    (''invalid_config'', ''internal_error''), (''invalid_cursor'', ''invalid_request''),
    (''invalid_frontend_config'', ''invalid_request''), (''invalid_glob'', ''invalid_request''),
    (''invalid_ipc_request'', ''invalid_request''), (''invalid_patch'', ''patch_invalid''),
    (''invalid_path'', ''path_invalid''), (''invalid_permission'', ''invalid_request''),
    (''invalid_project'', ''invalid_request''), (''invalid_project_root'', ''path_invalid''),
    (''invalid_request'', ''invalid_request''), (''invalid_release'', ''internal_error''),
    (''invalid_setting'', ''internal_error''), (''invalid_state'', ''internal_error''),
    (''ipc_unavailable'', ''internal_error''), (''job_not_found'', ''shell_not_found''),
    (''login_required'', ''unauthenticated''), (''login_timeout'', ''unauthenticated''),
    (''not_a_directory'', ''path_invalid''), (''not_a_file'', ''path_invalid''),
    (''not_enrolled'', ''unauthenticated''), (''navigation_blocked'', ''unauthorized''),
    (''operation_conflict'', ''unauthorized''), (''operation_not_found'', ''internal_error''),
    (''outcome_unknown'', ''outcome_unknown''), (''patch_conflict'', ''patch_conflict''),
    (''path_not_found'', ''file_not_found''), (''path_race'', ''path_changed''),
    (''project_busy'', ''rate_limited''), (''project_disabled'', ''project_not_found''),
    (''project_exists'', ''invalid_request''), (''project_identity_changed'', ''path_changed''),
    (''project_not_found'', ''project_not_found''), (''project_unavailable'', ''project_not_found''),
    (''protocol_error'', ''invalid_request''), (''queue_full'', ''queue_full''),
    (''read_failed'', ''internal_error''), (''recovery_failed'', ''internal_error''),
    (''release_unavailable'', ''internal_error''), (''relay_protocol_error'', ''internal_error''),
    (''relay_rejected'', ''unauthorized''), (''result_limit'', ''output_limit_exceeded''),
    (''request_expired'', ''invalid_request''), (''request_not_found'', ''invalid_request''),
    (''sandbox_policy_denied'', ''unauthorized''), (''sandbox_unavailable'', ''sandbox_unavailable''),
    (''search_timeout'', ''deadline_exceeded''), (''sensitive_input_blocked'', ''unauthorized''),
    (''stale_snapshot'', ''resource_mismatch''), (''stale_connection'', ''unauthorized''),
    (''ticket_expired'', ''unauthenticated''), (''too_many_sessions'', ''rate_limited''),
    (''unauthorized'', ''unauthorized''), (''unsafe_hardlink'', ''hardlink_mutation_forbidden''),
    (''unsafe_path'', ''path_outside_project''), (''unsupported_encoding'', ''encoding_unsupported''),
    (''unsupported_platform'', ''internal_error''), (''update_check_failed'', ''internal_error''),
    (''update_launch_failed'', ''internal_error''), (''update_not_required'', ''invalid_request'')]"

definition wire_code :: "string \<Rightarrow> string" where
  "wire_code c = (case map_of LOCAL_ERROR_MAP c of Some w \<Rightarrow> w | None \<Rightarrow> ''internal_error'')"

text \<open>The search for \<open>(?:^|\s)[A-Za-z]:[\\/]\<close>; the flag says that a match may begin here.\<close>

fun drive_path_from :: "bool \<Rightarrow> pystr \<Rightarrow> bool" where
  "drive_path_from fits [] = False"
| "drive_path_from fits (c # cs) =
     (fits \<and> ascii_letter c \<and> (case cs of d # e # _ \<Rightarrow> d = 58 \<and> (e = 92 \<or> e = 47) | _ \<Rightarrow> False)
      \<or> drive_path_from (is_space c) cs)"

definition local_path :: "pystr \<Rightarrow> bool" where
  "local_path s \<longleftrightarrow> drive_path_from True s \<or> startswith s [92, 92] \<or> startswith s [47, 47]"

definition PATH_REDACTED :: pystr where
  "PATH_REDACTED = lit ''[local path redacted]''"

text \<open>\<open>{k: v for ...}\<close> over truncated keys: a later item replaces the value of an equal key.\<close>

definition dict_of :: "(pystr \<times> json) list \<Rightarrow> (pystr \<times> json) list" where
  "dict_of kvs = foldl (\<lambda>acc (k, v). if k \<in> fst ` set acc then map (\<lambda>(k', v'). (k', if k' = k then v else v')) acc
     else acc @ [(k, v)]) [] kvs"

fun safe_details :: "json \<Rightarrow> json" where
  "safe_details (JStr s) = JStr (if local_path s then PATH_REDACTED else take 1024 s)"
| "safe_details (JList xs) = JList (take 64 (map safe_details xs))"
| "safe_details (JObj kvs) = JObj (dict_of (take 64 (map (\<lambda>(k, v). (take 100 k, safe_details v)) kvs)))"
| "safe_details v = v"

definition DEFAULT_MESSAGE :: pystr where
  "DEFAULT_MESSAGE = lit ''The device operation failed''"

definition to_tool_failure :: "(exn \<Rightarrow> pystr) \<Rightarrow> exn \<Rightarrow> pystr option \<Rightarrow> json" where
  "to_tool_failure msg e correlation =
     (let m = take 1024 (msg e); m = (if m = [] then DEFAULT_MESSAGE else m) in
      JObj [(lit ''ok'', JBool False), (lit ''text'', JStr (take 2048 m)),
        (lit ''error'', JObj ([(lit ''code'', JStr (lit (wire_code (err_code e)))), (lit ''message'', JStr m),
           (lit ''retryable'', JBool (err_retryable e))]
          @ (case correlation of None \<Rightarrow> [] | Some c \<Rightarrow> [(lit ''correlation_id'', JStr c)])
          @ [(lit ''details'', safe_details (JObj (map (\<lambda>(k, v). (lit k, v)) (err_details e))))]))])"

section \<open>Nothing local leaves the device\<close>

text \<open>Every text that is a value is free of local paths and bounded, every container is bounded.\<close>

fun wire_safe :: "json \<Rightarrow> bool" where
  "wire_safe (JStr s) \<longleftrightarrow> \<not> local_path s \<and> length s \<le> 1024"
| "wire_safe (JList xs) \<longleftrightarrow> length xs \<le> 64 \<and> list_all wire_safe xs"
| "wire_safe (JObj kvs) \<longleftrightarrow> length kvs \<le> 64 \<and> list_all (\<lambda>(k, v). length k \<le> 100 \<and> wire_safe v) kvs"
| "wire_safe v \<longleftrightarrow> True"

lemma drive_path_prefix: "drive_path_from fits (take n s) \<Longrightarrow> drive_path_from fits s"
proof (induction fits s arbitrary: n rule: drive_path_from.induct)
  case (2 fits c cs)
  then obtain m where n: "n = Suc m" by (cases n) auto
  have "(case take m cs of d # e # _ \<Rightarrow> d = 58 \<and> (e = 92 \<or> e = 47) | _ \<Rightarrow> False)
      \<Longrightarrow> (case cs of d # e # _ \<Rightarrow> d = 58 \<and> (e = 92 \<or> e = 47) | _ \<Rightarrow> False)"
    by (cases cs; cases m) (auto simp: take_Cons' split: list.splits if_splits)
  with 2 n show ?case by auto
qed simp

lemma prefix_of_take: "prefix p (take n s) \<Longrightarrow> prefix p s"
  using take_is_prefix prefix_order.trans by blast

lemma local_path_take:
  assumes "\<not> local_path s" shows "\<not> local_path (take n s)"
  using assms drive_path_prefix [of True n s] prefix_of_take [of "[92, 92]" n s] prefix_of_take [of "[47, 47]" n s]
  unfolding local_path_def by blast

lemma redacted_safe [simp]: "\<not> local_path PATH_REDACTED" "length PATH_REDACTED \<le> 1024"
  by code_simp+

lemma dict_of_step:
  assumes "list_all (\<lambda>(k, v). A k \<and> B v) (acc @ kvs)"
  shows "list_all (\<lambda>(k, v). A k \<and> B v) (foldl (\<lambda>acc (k, v). if k \<in> fst ` set acc
      then map (\<lambda>(k', v'). (k', if k' = k then v else v')) acc else acc @ [(k, v)]) acc kvs)
    \<and> length (foldl (\<lambda>acc (k, v). if k \<in> fst ` set acc
      then map (\<lambda>(k', v'). (k', if k' = k then v else v')) acc else acc @ [(k, v)]) acc kvs) \<le> length acc + length kvs"
  using assms
proof (induction kvs arbitrary: acc)
  case (Cons kv kvs)
  obtain k v where kv: "kv = (k, v)" by fastforce
  define acc' where "acc' = (if k \<in> fst ` set acc then map (\<lambda>(k', v'). (k', if k' = k then v else v')) acc else acc @ [(k, v)])"
  have "list_all (\<lambda>(k, v). A k \<and> B v) (acc' @ kvs)" "length acc' \<le> Suc (length acc)"
    using Cons.prems kv by (fastforce simp: acc'_def list_all_iff)+
  with Cons.IH [of acc'] show ?case by (simp add: kv acc'_def [symmetric])
qed simp

lemma dict_of_bounds:
  assumes "list_all (\<lambda>(k, v). A k \<and> B v) kvs"
  shows "list_all (\<lambda>(k, v). A k \<and> B v) (dict_of kvs) \<and> length (dict_of kvs) \<le> length kvs"
  using dict_of_step [of A B "[]" kvs] assms by (simp add: dict_of_def)

lemma safe_details_safe: "wire_safe (safe_details v)"
proof (induction v rule: safe_details.induct)
  case (1 s)
  show ?case
  proof (cases "local_path s")
    case True
    then show ?thesis by simp
  next
    case False
    then show ?thesis using local_path_take [OF False, of 1024] by simp
  qed
next
  case (2 xs)
  then show ?case by (fastforce simp: list_all_iff dest: in_set_takeD)
next
  case (3 kvs)
  let ?items = "take 64 (map (\<lambda>(k, v). (take 100 k, safe_details v)) kvs)"
  have "list_all (\<lambda>(k, v). length k \<le> 100 \<and> wire_safe v) ?items"
    using 3 by (fastforce simp: list_all_iff dest: in_set_takeD)
  from dict_of_bounds [OF this] show ?case by (auto simp: case_prod_beta)
qed simp_all

lemma wire_code_closed: "wire_code c \<in> set error_codes"
proof (cases "map_of LOCAL_ERROR_MAP c")
  case None
  then show ?thesis by (simp add: wire_code_def error_codes_def)
next
  case (Some w)
  have "list_all (\<lambda>(a, b). b \<in> set error_codes) LOCAL_ERROR_MAP" by code_simp
  then show ?thesis using Some map_of_SomeD [OF Some] by (auto simp: wire_code_def list_all_iff)
qed


end
