(* ===== verification/Agent_Tunnel.thy ===== *)
theory Agent_Tunnel
  imports Wire_Errors Action_Digest
begin

text \<open>
  The device side of the relay tunnel (\<open>DeviceWebSocketClient\<close> in
  \<open>agent/src/codito_agent/websocket_client.py\<close>) with the envelope it speaks
  (\<open>packages/protocol/src/codito_protocol/envelope.py\<close>): the fence of a connection, receipt of
  operations with their durable record, dispatch to the operation handler under an execution
  budget, results and their acknowledgement, and replay after a reconnection.  Clock readings are
  microseconds; the handler's outcome, the fresh message identifiers and the tools' input schemas
  (\<open>valid_input\<close>) are parameters.  One received envelope is one step, and so are the start and
  the end of a dispatched operation; the handler runs between those two.
\<close>

section \<open>Envelopes\<close>

datatype message_kind =
    HELLO | WELCOME | HEARTBEAT | HEARTBEAT_ACK | OPERATION | OPERATION_RECEIVED | OPERATION_STARTED
  | OPERATION_PROGRESS | OPERATION_RESULT | OPERATION_CANCEL | TERMINAL_ACK | ERROR | GOODBYE

record tunnel_bindings =
  tb_account :: pystr
  tb_device :: pystr
  tb_link :: "pystr option"
  tb_grant :: "pystr option"
  tb_project :: "pystr option"

record envelope =
  en_kind :: message_kind
  en_message :: pystr
  en_correlation :: "pystr option"
  en_sequence :: nat
  en_epoch :: int
  en_sent :: int
  en_deadline :: "int option"
  en_bindings :: tunnel_bindings
  en_digest :: "pystr option"
  en_payload :: json

definition operation_kinds :: "message_kind list" where
  "operation_kinds = [OPERATION, OPERATION_RECEIVED, OPERATION_STARTED, OPERATION_PROGRESS, OPERATION_RESULT,
     OPERATION_CANCEL, TERMINAL_ACK]"

definition tool_names :: "pystr list" where
  "tool_names = map lit [''project_read'', ''project_apply_patch'', ''project_shell'', ''project_manage'', ''project_code'',
     ''project_frontend'', ''device_read'', ''device_screenshot'', ''device_desktop'']"

definition action_payload :: "pystr \<Rightarrow> json \<Rightarrow> json" where
  "action_payload tool inp = JObj [(lit ''tool_name'', JStr tool), (lit ''input'', inp)]"

text \<open>\<open>OperationPayload\<close>: exactly the two fields, a known tool, an input object its schema accepts.\<close>

definition operation_payload :: "(pystr \<Rightarrow> json \<Rightarrow> bool) \<Rightarrow> json \<Rightarrow> (pystr \<times> json) option" where
  "operation_payload valid_input p =
     (case p of
        JObj kvs \<Rightarrow>
          (case (map_of kvs (lit ''tool_name''), map_of kvs (lit ''input'')) of
             (Some (JStr tool), Some (JObj inp)) \<Rightarrow>
               if set (map fst kvs) = {lit ''tool_name'', lit ''input''} \<and> tool \<in> set tool_names
                  \<and> valid_input tool (JObj inp)
               then Some (tool, JObj inp) else None
           | _ \<Rightarrow> None)
      | _ \<Rightarrow> None)"

text \<open>The validators of \<open>TunnelEnvelope\<close> on an envelope whose fields have their declared types.\<close>

definition envelope_ok :: "(bytes \<Rightarrow> pystr) \<Rightarrow> (pystr \<Rightarrow> json \<Rightarrow> bool) \<Rightarrow> envelope \<Rightarrow> bool" where
  "envelope_ok sha valid_input e \<longleftrightarrow> 1 \<le> en_epoch e
     \<and> (case en_deadline e of None \<Rightarrow> True | Some t \<Rightarrow> en_sent e < t)
     \<and> (en_kind e \<in> set operation_kinds \<longrightarrow>
          en_correlation e \<noteq> None \<and> en_correlation e \<noteq> Some (en_message e) \<and> en_digest e \<noteq> None)
     \<and> (en_kind e = OPERATION \<longrightarrow>
          (case operation_payload valid_input (en_payload e) of
             None \<Rightarrow> False
           | Some (tool, inp) \<Rightarrow>
               (case compute_action_digest sha (action_payload tool inp) of
                  Inl _ \<Rightarrow> False | Inr dg \<Rightarrow> en_digest e = Some dg)))"

section \<open>The client\<close>

record websocket_ticket =
  wt_value :: pystr
  wt_account :: pystr
  wt_device :: pystr
  wt_link :: pystr
  wt_challenge :: pystr
  wt_expires :: int

record budget =
  bg_local :: int
  bg_monotonic :: int

text \<open>A dispatched operation: the task of \<open>_start_dispatch\<close>, and whether its handler has begun.\<close>

record dispatch =
  di_task :: nat
  di_envelope :: envelope
  di_tool :: pystr
  di_input :: json
  di_grant :: pystr
  di_link :: pystr
  di_budget :: budget
  di_reconcile :: bool
  di_started :: bool

text \<open>A call of the operation handler.\<close>

record handler_call =
  hc_message :: pystr
  hc_tool :: pystr
  hc_input :: json
  hc_deadline :: int
  hc_reconcile :: bool

record tunnel =
  tu_ticket :: "websocket_ticket option"
  tu_epoch :: int
  tu_sequence :: nat
  tu_connected :: bool
  tu_tasks :: "dispatch list"
  tu_next_task :: nat
  tu_budgets :: "(pystr \<times> budget) list"
  tu_terminal :: "(pystr \<times> envelope) list"
  tu_max_pending :: nat
  tu_db :: db
  tu_sent :: "envelope list"
  tu_calls :: "handler_call list"

definition new_tunnel :: "nat \<Rightarrow> db \<Rightarrow> tunnel" where
  "new_tunnel max_pending d =
     \<lparr>tu_ticket = None, tu_epoch = 0, tu_sequence = 0, tu_connected = False, tu_tasks = [], tu_next_task = 0,
      tu_budgets = [], tu_terminal = [], tu_max_pending = max_pending, tu_db = d, tu_sent = [], tu_calls = []\<rparr>"

definition dict_put :: "pystr \<Rightarrow> 'v \<Rightarrow> (pystr \<times> 'v) list \<Rightarrow> (pystr \<times> 'v) list" where
  "dict_put k v m = (if k \<in> fst ` set m then map (\<lambda>(k', v'). (k', if k' = k then v else v')) m else m @ [(k, v)])"

definition dict_pop :: "pystr \<Rightarrow> (pystr \<times> 'v) list \<Rightarrow> (pystr \<times> 'v) list" where
  "dict_pop k m = filter (\<lambda>(k', _). k' \<noteq> k) m"

definition is_uncertain_native_action :: "pystr \<Rightarrow> json \<Rightarrow> bool" where
  "is_uncertain_native_action tool inp \<longleftrightarrow>
     tool = lit ''device_desktop''
     \<or> tool = lit ''project_shell'' \<and> jget ''action'' inp = Some (JStr (lit ''start''))
     \<or> tool = lit ''project_frontend''
        \<and> (jget ''operation'' inp = Some (JStr (lit ''session_start'')) \<or> jget ''operation'' inp = Some (JStr (lit ''act'')))"

text \<open>
  \<open>_ExecutionBudget.from_envelope\<close>.  \<open>original\<close> is absent for a first receipt; for a redelivery it
  is the journal's receipt time, or \<open>None\<close> inside when there is none to read.
\<close>

definition from_envelope :: "int \<Rightarrow> int \<Rightarrow> int \<Rightarrow> int \<Rightarrow> int option option \<Rightarrow> budget" where
  "from_envelope sent deadline received_at received_monotonic original =
     (let duration = deadline - sent;
          bound = min deadline (received_at + duration);
          bound = (case original of None \<Rightarrow> bound | Some None \<Rightarrow> received_at
                   | Some (Some t) \<Rightarrow> min bound (t + duration)) in
      \<lparr>bg_local = bound, bg_monotonic = received_monotonic + (bound - received_at)\<rparr>)"

section \<open>Sending\<close>

text \<open>The time and the identifier of a message that is sent.\<close>

record stamp =
  sp_now :: int
  sp_message :: pystr

definition ticket_bindings :: "websocket_ticket \<Rightarrow> tunnel_bindings" where
  "ticket_bindings tk = \<lparr>tb_account = wt_account tk, tb_device = wt_device tk, tb_link = Some (wt_link tk),
     tb_grant = None, tb_project = None\<rparr>"

definition send :: "envelope \<Rightarrow> tunnel \<Rightarrow> tunnel" where
  "send e c = (if tu_connected c then c\<lparr>tu_sent := tu_sent c @ [e]\<rparr> else c)"

text \<open>\<open>_send_new\<close>; without a ticket its assertion fails, which no caller can meet.\<close>

definition send_new ::
  "stamp \<Rightarrow> message_kind \<Rightarrow> json \<Rightarrow> pystr option \<Rightarrow> tunnel_bindings option \<Rightarrow> pystr option \<Rightarrow> bool \<Rightarrow> tunnel \<Rightarrow> tunnel" where
  "send_new sp kind payload correlation b dg is_terminal c =
     (case tu_ticket c of
        None \<Rightarrow> c
      | Some tk \<Rightarrow>
          let e = \<lparr>en_kind = kind, en_message = sp_message sp, en_correlation = correlation,
                en_sequence = Suc (tu_sequence c), en_epoch = tu_epoch c, en_sent = sp_now sp, en_deadline = None,
                en_bindings = (case b of None \<Rightarrow> ticket_bindings tk | Some b \<Rightarrow> b), en_digest = dg, en_payload = payload\<rparr>;
              c = c\<lparr>tu_sequence := Suc (tu_sequence c)\<rparr>;
              c = (case correlation of Some k \<Rightarrow> if is_terminal then c\<lparr>tu_terminal := dict_put k e (tu_terminal c)\<rparr> else c
                   | None \<Rightarrow> c) in
          send e c)"

definition send_about :: "stamp \<Rightarrow> envelope \<Rightarrow> message_kind \<Rightarrow> json \<Rightarrow> bool \<Rightarrow> tunnel \<Rightarrow> tunnel" where
  "send_about sp e kind payload is_terminal c =
     send_new sp kind payload (en_correlation e) (Some (en_bindings e)) (en_digest e) is_terminal c"

definition send_failure :: "(exn \<Rightarrow> pystr) \<Rightarrow> stamp \<Rightarrow> envelope \<Rightarrow> exn \<Rightarrow> tunnel \<Rightarrow> tunnel" where
  "send_failure msg sp e err c = send_about sp e OPERATION_RESULT (to_tool_failure msg err (en_correlation e)) True c"

definition heartbeat :: "stamp \<Rightarrow> tunnel \<Rightarrow> tunnel" where
  "heartbeat sp c = send_new sp HEARTBEAT (JObj [(lit ''active_operations'', JInt (int (length (tu_tasks c))))]) None None None False c"

definition hello :: "stamp \<Rightarrow> json \<Rightarrow> tunnel \<Rightarrow> tunnel" where
  "hello sp meta c = send_new sp HELLO (JObj [(lit ''projects'', meta)]) None None None False c"

section \<open>Connecting\<close>

definition receive_welcome :: "(bytes \<Rightarrow> pystr) \<Rightarrow> (pystr \<Rightarrow> json \<Rightarrow> bool) \<Rightarrow> envelope option \<Rightarrow> tunnel \<Rightarrow> unit res \<times> tunnel" where
  "receive_welcome sha valid_input raw c =
     (case raw of
        None \<Rightarrow> (Inl (raise ''protocol_error''), c)
      | Some e \<Rightarrow>
          if \<not> envelope_ok sha valid_input e \<or> en_kind e \<noteq> WELCOME then (Inl (raise ''protocol_error''), c)
          else case tu_ticket c of
            None \<Rightarrow> (Inl (raise ''protocol_error''), c)
          | Some tk \<Rightarrow>
              if tb_account (en_bindings e) \<noteq> wt_account tk \<or> tb_device (en_bindings e) \<noteq> wt_device tk
              then (Inl (raise ''binding_mismatch''), c)
              else (Inr (), c\<lparr>tu_epoch := en_epoch e\<rparr>))"

definition row_bindings :: "op_row \<Rightarrow> tunnel_bindings" where
  "row_bindings r = (let b = r_binding (op_receipt r) in
     \<lparr>tb_account = account_id b, tb_device = device_id b, tb_link = Some (link_id b), tb_grant = Some (grant_id b),
      tb_project = (case r_project (op_receipt r) of Some (x # xs) \<Rightarrow> Some (x # xs) | _ \<Rightarrow> None)\<rparr>)"

definition replay_row :: "(nat \<Rightarrow> stamp) \<Rightarrow> op_row \<Rightarrow> tunnel \<Rightarrow> tunnel" where
  "replay_row sps r c =
     (case op_result r of
        Some (JObj kvs) \<Rightarrow> send_new (sps (tu_sequence c)) OPERATION_RESULT (JObj kvs) (Some (r_correlation (op_receipt r)))
          (Some (row_bindings r)) (Some (r_action_digest (op_receipt r))) True c
      | _ \<Rightarrow> c)"

definition replay_terminal :: "(nat \<Rightarrow> stamp) \<Rightarrow> envelope \<Rightarrow> tunnel \<Rightarrow> tunnel" where
  "replay_terminal sps e c = send_about (sps (tu_sequence c)) e OPERATION_RESULT (en_payload e) True c"

text \<open>The stamps of the messages sent in one go are indexed by the sequence counter.\<close>

definition replay_pending_terminals :: "(nat \<Rightarrow> stamp) \<Rightarrow> tunnel \<Rightarrow> tunnel" where
  "replay_pending_terminals sps c =
     (let rows = list_unacknowledged_terminals (tu_db c);
          durable = map (\<lambda>r. Some (r_correlation (op_receipt r))) rows;
          memory = filter (\<lambda>e. en_correlation e \<notin> set durable) (map snd (tu_terminal c)) in
      fold (replay_terminal sps) memory (fold (replay_row sps) rows c))"

text \<open>One connection attempt of \<open>run\<close>, up to the message loop.\<close>

definition connect ::
  "(bytes \<Rightarrow> pystr) \<Rightarrow> (pystr \<Rightarrow> json \<Rightarrow> bool) \<Rightarrow> (nat \<Rightarrow> stamp) \<Rightarrow> int \<Rightarrow> websocket_ticket \<Rightarrow> envelope option \<Rightarrow> json
     \<Rightarrow> tunnel \<Rightarrow> unit res \<times> tunnel" where
  "connect sha valid_input sps now tk welcome meta c =
     (if wt_expires tk \<le> now + 30000000 then (Inl (raise ''ticket_expired''), c)
      else
        case receive_welcome sha valid_input welcome (c\<lparr>tu_ticket := Some tk\<rparr>) of
          (Inl e, c1) \<Rightarrow> (Inl e, c1\<lparr>tu_connected := False\<rparr>)
        | (Inr _, c1) \<Rightarrow>
            (case set_connection_epoch (tu_epoch c1) (tu_db c1) of
               (Inl e, d) \<Rightarrow> (Inl e, c1\<lparr>tu_db := d, tu_connected := False\<rparr>)
             | (Inr _, d) \<Rightarrow>
                 let c2 = c1\<lparr>tu_db := d, tu_sequence := 0, tu_connected := True\<rparr> in
                 (Inr (), replay_pending_terminals sps (hello (sps 0) meta c2))))"

section \<open>Receiving\<close>

definition validate_bindings :: "envelope \<Rightarrow> tunnel \<Rightarrow> unit res" where
  "validate_bindings e c =
     (case tu_ticket c of
        None \<Rightarrow> Inl (raise ''protocol_error'')
      | Some tk \<Rightarrow>
          if en_epoch e \<noteq> tu_epoch c then Inl (raise ''stale_connection'')
          else if tb_account (en_bindings e) \<noteq> wt_account tk then Inl (raise ''binding_mismatch'')
          else if tb_device (en_bindings e) \<noteq> wt_device tk then Inl (raise ''binding_mismatch'')
          else if en_kind e \<noteq> TERMINAL_ACK \<and> tb_link (en_bindings e) \<noteq> None \<and> tb_link (en_bindings e) \<noteq> Some (wt_link tk)
          then Inl (raise ''binding_mismatch'')
          else Inr ())"

text \<open>The clock readings of one receipt: arrival, loop time, the deadline check, the database.\<close>

record moments =
  mo_received :: int
  mo_monotonic :: int
  mo_checked :: int
  mo_db :: nat

definition receive_ack :: "nat \<Rightarrow> envelope \<Rightarrow> pystr \<Rightarrow> tunnel \<Rightarrow> unit res \<times> tunnel" where
  "receive_ack now e correlation c =
     (case map_of (tu_terminal c) correlation of
        None \<Rightarrow> (Inr (), c)
      | Some pending \<Rightarrow>
          if en_digest e \<noteq> en_digest pending \<or> en_bindings e \<noteq> en_bindings pending
          then (Inl (raise ''binding_mismatch''), c)
          else
            let b = en_bindings pending;
                d = (case (tb_grant b, tb_link b, en_digest pending) of
                       (Some g, Some l, Some dg) \<Rightarrow>
                         snd (acknowledge_terminal now correlation dg
                           \<lparr>account_id = tb_account b, grant_id = g, link_id = l, device_id = tb_device b\<rparr>
                           (tb_project b) (tu_db c))
                     | _ \<Rightarrow> tu_db c) in
            (Inr (), c\<lparr>tu_db := d, tu_terminal := dict_pop correlation (tu_terminal c)\<rparr>))"

definition active :: "pystr \<Rightarrow> tunnel \<Rightarrow> bool" where
  "active mid c \<longleftrightarrow> (\<exists>t\<in>set (tu_tasks c). en_message (di_envelope t) = mid)"

definition live_budgets :: "int \<Rightarrow> tunnel \<Rightarrow> (pystr \<times> budget) list" where
  "live_budgets monotonic c = filter (\<lambda>(k, b). monotonic < bg_monotonic b \<or> active k c) (tu_budgets c)"

definition start_dispatch ::
  "envelope \<Rightarrow> pystr \<Rightarrow> json \<Rightarrow> pystr \<Rightarrow> pystr \<Rightarrow> budget \<Rightarrow> bool \<Rightarrow> tunnel \<Rightarrow> tunnel" where
  "start_dispatch e tool inp g l b reconcile c =
     c\<lparr>tu_budgets := dict_put (en_message e) b (tu_budgets c),
       tu_tasks := tu_tasks c @ [\<lparr>di_task = tu_next_task c, di_envelope = e, di_tool = tool, di_input = inp, di_grant = g,
         di_link = l, di_budget = b, di_reconcile = reconcile, di_started = False\<rparr>],
       tu_next_task := Suc (tu_next_task c)\<rparr>"

definition terminalize_uncertain_action ::
  "(exn \<Rightarrow> pystr) \<Rightarrow> stamp \<Rightarrow> nat \<Rightarrow> envelope \<Rightarrow> tunnel \<Rightarrow> unit res \<times> tunnel" where
  "terminalize_uncertain_action msg sp now e c =
     (let payload = to_tool_failure msg (raise ''outcome_unknown'') (en_correlation e) in
      case transition_operation now (en_message e) OUTCOME_UNKNOWN (Some payload) (tu_db c) of
        (Inl err, d) \<Rightarrow> (Inl err, c\<lparr>tu_db := d\<rparr>)
      | (Inr _, d) \<Rightarrow> (Inr (), send_about sp e OPERATION_RESULT payload True (c\<lparr>tu_db := d\<rparr>)))"

text \<open>The branch for an operation that was received before.\<close>

definition truthy :: "json option \<Rightarrow> bool" where
  "truthy j \<longleftrightarrow> j \<notin> {None, Some JNull, Some (JBool False), Some (JInt 0), Some (JStr []), Some (JList []), Some (JObj [])}"

definition redelivered ::
  "(exn \<Rightarrow> pystr) \<Rightarrow> (nat \<Rightarrow> stamp) \<Rightarrow> moments \<Rightarrow> envelope \<Rightarrow> int \<Rightarrow> pystr \<Rightarrow> json \<Rightarrow> pystr \<Rightarrow> pystr \<Rightarrow> tunnel
     \<Rightarrow> unit res \<times> tunnel" where
  "redelivered msg sps mo e deadline tool inp g l c =
     (let prior = find_op (en_message e) (tu_db c); sp = sps (tu_sequence c) in
      if truthy (Option.bind prior op_result)
      then (Inr (), send_about sp e OPERATION_RESULT (the (Option.bind prior op_result)) True c)
      else
          if active (en_message e) c then (Inr (), c)
          else if is_uncertain_native_action tool inp then terminalize_uncertain_action msg sp (mo_db mo) e c
          else
            let b = from_envelope (en_sent e) deadline (mo_received mo) (mo_monotonic mo)
                  (Some (map_option (\<lambda>r. int (op_received r)) prior));
                b = (case map_of (tu_budgets c) (en_message e) of
                       None \<Rightarrow> b
                     | Some o' \<Rightarrow> \<lparr>bg_local = min (bg_local b) (bg_local o'),
                                  bg_monotonic = min (bg_monotonic b) (bg_monotonic o')\<rparr>) in
            (Inr (), start_dispatch e tool inp g l b True c))"


definition receipt_of :: "(int \<Rightarrow> pystr) \<Rightarrow> envelope \<Rightarrow> pystr \<Rightarrow> int \<Rightarrow> pystr \<Rightarrow> json \<Rightarrow> pystr \<Rightarrow> pystr \<Rightarrow> pystr \<Rightarrow> receipt" where
  "receipt_of isoformat e correlation deadline tool inp g l dg =
     \<lparr>r_correlation = (if correlation = [] then en_message e else correlation),
      r_binding = \<lparr>account_id = tb_account (en_bindings e), grant_id = g, link_id = l, device_id = tb_device (en_bindings e)\<rparr>,
      r_project = tb_project (en_bindings e), r_capability = tool, r_action_digest = the (en_digest e),
      r_idem_key = text_of ''idempotency_key'' inp, r_request_digest = dg, r_deadline = isoformat deadline\<rparr>"

text \<open>Recording a validated operation, and what follows from its being new or known.\<close>

definition accept_operation ::
  "(exn \<Rightarrow> pystr) \<Rightarrow> (int \<Rightarrow> pystr) \<Rightarrow> (nat \<Rightarrow> stamp) \<Rightarrow> moments \<Rightarrow> envelope \<Rightarrow> pystr \<Rightarrow> int \<Rightarrow> pystr \<Rightarrow> json \<Rightarrow> pystr
     \<Rightarrow> pystr \<Rightarrow> pystr \<Rightarrow> tunnel \<Rightarrow> unit res \<times> tunnel" where
  "accept_operation msg isoformat sps mo e correlation deadline tool inp g l dg c =
     (case record_received (mo_db mo) (en_message e) (receipt_of isoformat e correlation deadline tool inp g l dg) (Some inp)
             (tu_epoch c) (tu_db c) of
        (Inl err, d) \<Rightarrow> (Inl err, c\<lparr>tu_db := d\<rparr>)
      | (Inr inserted, d) \<Rightarrow>
          let c1 = send_about (sps (tu_sequence c)) e OPERATION_RECEIVED (JObj [(lit ''duplicate'', JBool (\<not> inserted))]) False
                (c\<lparr>tu_db := d\<rparr>) in
          if \<not> inserted then redelivered msg sps mo e deadline tool inp g l c1
          else (Inr (), start_dispatch e tool inp g l
            (from_envelope (en_sent e) deadline (mo_received mo) (mo_monotonic mo) None) False c1))"

definition project_mismatch :: "json \<Rightarrow> tunnel_bindings \<Rightarrow> bool" where
  "project_mismatch inp b \<longleftrightarrow>
     (case jget ''project_id'' inp of
        None \<Rightarrow> False
      | Some JNull \<Rightarrow> False
      | Some (JStr p) \<Rightarrow> tb_project b \<noteq> Some p
      | Some _ \<Rightarrow> True)"

definition receive_operation ::
  "(exn \<Rightarrow> pystr) \<Rightarrow> (bytes \<Rightarrow> pystr) \<Rightarrow> (int \<Rightarrow> pystr) \<Rightarrow> (nat \<Rightarrow> stamp) \<Rightarrow> moments \<Rightarrow> envelope \<Rightarrow> tunnel
     \<Rightarrow> unit res \<times> tunnel" where
  "receive_operation msg sha isoformat sps mo e c0 =
     (let c = c0\<lparr>tu_budgets := live_budgets (mo_monotonic mo) c0\<rparr>;
          fail = (\<lambda>err. (Inr (), send_failure msg (sps (tu_sequence c)) e err c)) in
      if tu_max_pending c \<le> length (tu_tasks c)
         \<or> tu_max_pending c \<le> length (tu_budgets c) \<and> en_message e \<notin> fst ` set (tu_budgets c)
      then fail (AgentError ''queue_full'' [] True)
      else
        case (en_correlation e, en_deadline e) of
          (None, _) \<Rightarrow> fail (raise ''invalid_request'')
        | (Some _, None) \<Rightarrow> fail (raise ''deadline_exceeded'')
        | (Some correlation, Some deadline) \<Rightarrow>
            if deadline \<le> mo_checked mo then fail (raise ''deadline_exceeded'')
            else
              (case (jget ''tool_name'' (en_payload e), jget ''input'' (en_payload e)) of
                 (Some (JStr tool), Some (JObj kvs)) \<Rightarrow>
                   if project_mismatch (JObj kvs) (en_bindings e) then fail (raise ''binding_mismatch'')
                   else
                     (case compute_action_digest sha (action_payload tool (JObj kvs)) of
                        Inl err \<Rightarrow> (Inl err, c)
                      | Inr dg \<Rightarrow>
                          if en_digest e \<noteq> Some dg then fail (raise ''action_digest_mismatch'')
                          else
                            (case (tb_grant (en_bindings e), tb_link (en_bindings e)) of
                               (Some g, Some l) \<Rightarrow>
                                 accept_operation msg isoformat sps mo e correlation deadline tool (JObj kvs) g l dg c
                             | _ \<Rightarrow> fail (raise ''unauthorized'')))
               | _ \<Rightarrow> fail (raise ''invalid_request'')))"

text \<open>\<open>_receive\<close>.  An error result leaves the message loop: the connection is dropped.\<close>

definition receive ::
  "(exn \<Rightarrow> pystr) \<Rightarrow> (bytes \<Rightarrow> pystr) \<Rightarrow> (pystr \<Rightarrow> json \<Rightarrow> bool) \<Rightarrow> (int \<Rightarrow> pystr) \<Rightarrow> (nat \<Rightarrow> stamp) \<Rightarrow> moments
     \<Rightarrow> envelope option \<Rightarrow> tunnel \<Rightarrow> unit res \<times> tunnel" where
  "receive msg sha valid_input isoformat sps mo raw c =
     (case raw of
        None \<Rightarrow> (Inl (raise ''protocol_error''), c)
      | Some e \<Rightarrow>
          if \<not> envelope_ok sha valid_input e then (Inl (raise ''protocol_error''), c)
          else
            (case validate_bindings e c of
               Inl err \<Rightarrow> (Inl err, c)
             | Inr _ \<Rightarrow>
                 (case (en_kind e, en_correlation e) of
                    (TERMINAL_ACK, Some (x # xs)) \<Rightarrow> receive_ack (mo_db mo) e (x # xs) c
                  | (HEARTBEAT, _) \<Rightarrow>
                      (Inr (), send_new (sps (tu_sequence c)) HEARTBEAT_ACK (JObj []) (Some (en_message e)) None None False c)
                  | (HEARTBEAT_ACK, _) \<Rightarrow> (Inr (), c)
                  | (WELCOME, _) \<Rightarrow> (Inr (), c)
                  | (OPERATION_CANCEL, _) \<Rightarrow> (Inr (), c)
                  | (OPERATION, _) \<Rightarrow> receive_operation msg sha isoformat sps mo e c
                  | _ \<Rightarrow> (Inl (raise ''protocol_error''), c))))"

section \<open>Dispatching\<close>

definition durable_tool_result :: "(bytes \<Rightarrow> pystr) \<Rightarrow> json \<Rightarrow> json" where
  "durable_tool_result sha payload =
     (case Option.bind (jget ''result'' payload) (jget ''image_base64'') of
        Some (JStr img) \<Rightarrow>
          let t = JStr (lit ''Screenshot bytes are not retained in the durable journal; request a new capture.'') in
          JObj [(lit ''ok'', JBool False), (lit ''text'', t),
            (lit ''error'', JObj [(lit ''code'', JStr (lit ''outcome_unknown'')), (lit ''message'', t),
               (lit ''retryable'', JBool True),
               (lit ''details'', JObj [(lit ''image_digest'', JStr (sha (utf8_encode img)))])])]
      | _ \<Rightarrow> payload)"

datatype handler_outcome = Responded json pystr | Timed_out | Failed exn

definition elapsed :: "int \<Rightarrow> int \<Rightarrow> budget \<Rightarrow> bool" where
  "elapsed now monotonic b \<longleftrightarrow> bg_monotonic b \<le> monotonic \<or> bg_local b \<le> now"

definition deadline_error :: "dispatch \<Rightarrow> exn" where
  "deadline_error t =
     (if is_uncertain_native_action (di_tool t) (di_input t) \<and> di_started t then raise ''outcome_unknown''
      else raise ''deadline_exceeded'')"

text \<open>The payload and the final state of a dispatched operation.\<close>

definition failure_state :: "exn \<Rightarrow> operation_state" where
  "failure_state e = (if err_code e = ''approval_denied'' then DENIED
     else if err_code e = ''outcome_unknown'' then OUTCOME_UNKNOWN else FAILED)"

definition conclude :: "(exn \<Rightarrow> pystr) \<Rightarrow> int \<Rightarrow> int \<Rightarrow> dispatch \<Rightarrow> handler_outcome \<Rightarrow> json \<times> operation_state" where
  "conclude msg now monotonic t out =
     (let failure = (\<lambda>e. (to_tool_failure msg e (en_correlation (di_envelope t)), failure_state e)) in
      case out of
        Responded structured text \<Rightarrow>
          if elapsed now monotonic (di_budget t) then failure (deadline_error t)
          else (JObj [(lit ''ok'', JBool True), (lit ''result'', structured), (lit ''text'', JStr text)], SUCCEEDED)
      | Timed_out \<Rightarrow> failure (deadline_error t)
      | Failed (AgentError code details retryable) \<Rightarrow>
          failure (if code = ''deadline_exceeded'' then deadline_error t else AgentError code details retryable)
      | Failed _ \<Rightarrow> failure (raise ''internal_error''))"

definition drop_task :: "nat \<Rightarrow> tunnel \<Rightarrow> tunnel" where
  "drop_task i c = c\<lparr>tu_tasks := filter (\<lambda>t. di_task t \<noteq> i) (tu_tasks c)\<rparr>"

definition finish_dispatch ::
  "(exn \<Rightarrow> pystr) \<Rightarrow> (bytes \<Rightarrow> pystr) \<Rightarrow> stamp \<Rightarrow> nat \<Rightarrow> dispatch \<Rightarrow> json \<times> operation_state \<Rightarrow> tunnel \<Rightarrow> tunnel" where
  "finish_dispatch msg sha sp now t ps c =
     (case transition_operation now (en_message (di_envelope t)) (snd ps) (Some (durable_tool_result sha (fst ps))) (tu_db c) of
        (Inl _, d) \<Rightarrow> drop_task (di_task t) (c\<lparr>tu_db := d\<rparr>)
      | (Inr _, d) \<Rightarrow>
          drop_task (di_task t) (send_about sp (di_envelope t) OPERATION_RESULT (fst ps) True
            (c\<lparr>tu_db := d, tu_budgets := dict_pop (en_message (di_envelope t)) (tu_budgets c)\<rparr>)))"

text \<open>The start of \<open>_dispatch\<close>, up to the call of the handler.\<close>

definition begin_dispatch ::
  "(exn \<Rightarrow> pystr) \<Rightarrow> (bytes \<Rightarrow> pystr) \<Rightarrow> stamp \<Rightarrow> moments \<Rightarrow> dispatch \<Rightarrow> tunnel \<Rightarrow> tunnel" where
  "begin_dispatch msg sha sp mo t c =
     (case transition_operation (mo_db mo) (en_message (di_envelope t)) RUNNING None (tu_db c) of
        (Inl _, d) \<Rightarrow> drop_task (di_task t) (c\<lparr>tu_db := d\<rparr>)
      | (Inr _, d) \<Rightarrow>
          let c = c\<lparr>tu_db := d\<rparr> in
          if elapsed (mo_checked mo) (mo_monotonic mo) (di_budget t) then
            finish_dispatch msg sha sp (mo_db mo) t
              (conclude msg (mo_checked mo) (mo_monotonic mo) t (Failed (raise ''deadline_exceeded''))) c
          else
            let c = send_about sp (di_envelope t) OPERATION_STARTED (JObj []) False c in
            c\<lparr>tu_tasks := map (\<lambda>u. if di_task u = di_task t then u\<lparr>di_started := True\<rparr> else u) (tu_tasks c),
              tu_calls := tu_calls c @ [\<lparr>hc_message = en_message (di_envelope t), hc_tool = di_tool t, hc_input = di_input t,
                hc_deadline = bg_local (di_budget t), hc_reconcile = di_reconcile t\<rparr>]\<rparr>)"

definition end_dispatch ::
  "(exn \<Rightarrow> pystr) \<Rightarrow> (bytes \<Rightarrow> pystr) \<Rightarrow> stamp \<Rightarrow> moments \<Rightarrow> dispatch \<Rightarrow> handler_outcome \<Rightarrow> tunnel \<Rightarrow> tunnel" where
  "end_dispatch msg sha sp mo t out c =
     finish_dispatch msg sha sp (mo_db mo) t (conclude msg (mo_checked mo) (mo_monotonic mo) t out) c"

section \<open>Disconnecting\<close>

definition disconnect :: "tunnel \<Rightarrow> tunnel" where
  "disconnect c = c\<lparr>tu_connected := False\<rparr>"

definition stop :: "tunnel \<Rightarrow> tunnel" where
  "stop c = c\<lparr>tu_connected := False, tu_tasks := []\<rparr>"

text \<open>A new process on the same database; the calls made so far are history.\<close>

definition restart :: "tunnel \<Rightarrow> tunnel" where
  "restart c = (new_tunnel (tu_max_pending c) (tu_db c))\<lparr>tu_calls := tu_calls c, tu_sent := tu_sent c\<rparr>"

end
