(* ===== verification/Tunnel_Laws.thy ===== *)
theory Tunnel_Laws
  imports Agent_Tunnel
begin

text \<open>
  What the tunnel guarantees over any sequence of deliveries, redeliveries, handler runs,
  disconnections, restarts and other database activity: native actions are performed at most
  once, execution budgets are never extended, envelopes from another connection or account have no
  effect, and results are sent again until the relay acknowledges them.
\<close>

section \<open>Frames\<close>

lemma send_frame [simp]:
  "tu_tasks (send e c) = tu_tasks c" "tu_calls (send e c) = tu_calls c" "tu_db (send e c) = tu_db c"
  "tu_budgets (send e c) = tu_budgets c" "tu_next_task (send e c) = tu_next_task c" "tu_ticket (send e c) = tu_ticket c"
  "tu_epoch (send e c) = tu_epoch c" "tu_connected (send e c) = tu_connected c" "tu_terminal (send e c) = tu_terminal c"
  by (simp_all add: send_def)

lemma send_new_frame [simp]:
  "tu_tasks (send_new sp k p co b dg t c) = tu_tasks c" "tu_calls (send_new sp k p co b dg t c) = tu_calls c"
  "tu_db (send_new sp k p co b dg t c) = tu_db c" "tu_budgets (send_new sp k p co b dg t c) = tu_budgets c"
  "tu_next_task (send_new sp k p co b dg t c) = tu_next_task c" "tu_ticket (send_new sp k p co b dg t c) = tu_ticket c"
  "tu_epoch (send_new sp k p co b dg t c) = tu_epoch c" "tu_connected (send_new sp k p co b dg t c) = tu_connected c"
  by (simp_all add: send_new_def Let_def split: option.splits)

lemma send_about_frame [simp]:
  "tu_tasks (send_about sp e k p t c) = tu_tasks c" "tu_calls (send_about sp e k p t c) = tu_calls c"
  "tu_db (send_about sp e k p t c) = tu_db c" "tu_budgets (send_about sp e k p t c) = tu_budgets c"
  "tu_next_task (send_about sp e k p t c) = tu_next_task c" "tu_ticket (send_about sp e k p t c) = tu_ticket c"
  "tu_epoch (send_about sp e k p t c) = tu_epoch c" "tu_connected (send_about sp e k p t c) = tu_connected c"
  by (simp_all add: send_about_def)

lemma replay_row_frame [simp]:
  "tu_tasks (replay_row sps r c) = tu_tasks c" "tu_calls (replay_row sps r c) = tu_calls c"
  "tu_db (replay_row sps r c) = tu_db c" "tu_next_task (replay_row sps r c) = tu_next_task c"
  "tu_ticket (replay_row sps r c) = tu_ticket c" "tu_epoch (replay_row sps r c) = tu_epoch c"
  "tu_connected (replay_row sps r c) = tu_connected c"
  by (simp_all add: replay_row_def split: option.splits json.splits)

lemma replay_terminal_frame [simp]:
  "tu_tasks (replay_terminal sps e c) = tu_tasks c" "tu_calls (replay_terminal sps e c) = tu_calls c"
  "tu_db (replay_terminal sps e c) = tu_db c" "tu_next_task (replay_terminal sps e c) = tu_next_task c"
  "tu_ticket (replay_terminal sps e c) = tu_ticket c" "tu_epoch (replay_terminal sps e c) = tu_epoch c"
  "tu_connected (replay_terminal sps e c) = tu_connected c"
  by (simp_all add: replay_terminal_def)

lemma fold_frame: "(\<And>x c. f (g x c) = f c) \<Longrightarrow> f (fold g xs c) = f c"
  by (induction xs arbitrary: c) auto

lemma replay_frame [simp]:
  "tu_tasks (replay_pending_terminals sps c) = tu_tasks c" "tu_calls (replay_pending_terminals sps c) = tu_calls c"
  "tu_db (replay_pending_terminals sps c) = tu_db c" "tu_next_task (replay_pending_terminals sps c) = tu_next_task c"
  by (simp_all add: replay_pending_terminals_def Let_def fold_frame)

text \<open>No statement forgets an operation.\<close>

definition known :: "pystr \<Rightarrow> db \<Rightarrow> bool" where
  "known mid d \<longleftrightarrow> mid \<in> set (map op_id (operations d))"

lemma known_find: "find_op mid d = None \<longleftrightarrow> \<not> known mid d"
  by (auto simp: known_def find_op_def find_None_iff)

lemma known_map: "(\<And>r. op_id (f r) = op_id r) \<Longrightarrow> known mid (d\<lparr>operations := map f (operations d)\<rparr>) = known mid d"
  by (simp add: known_def comp_def)

lemma known_update: "(\<And>r. op_id (f r) = op_id r) \<Longrightarrow> known mid (update_op oid f d) = known mid d"
  unfolding update_op_def by (rule known_map) simp

lemma known_transition: "known mid (snd (transition_operation now oid st res d)) = known mid d"
  by (auto simp: transition_operation_def known_update split: option.splits)

lemma known_acknowledge: "known mid (snd (acknowledge_terminal now co dg b pid d)) = known mid d"
  unfolding acknowledge_terminal_def Let_def snd_conv by (rule known_map) simp

lemma known_epoch: "known mid (snd (set_connection_epoch v d)) = known mid d"
  by (simp add: set_connection_epoch_def known_def)

lemma known_exec: "known mid d \<Longrightarrow> known mid (exec sha c d)"
proof -
  assume "known mid d"
  then obtain r where "find_op mid d = Some r" using known_find [of mid d] by (cases "find_op mid d") auto
  from ops.step_keeps [OF this TrueI, of sha c] have "find_op mid (exec sha c d) \<noteq> None" by auto
  then show "known mid (exec sha c d)" by (simp add: known_find)
qed

section \<open>Runs\<close>

datatype tunnel_event =
    Connect "nat \<Rightarrow> stamp" int websocket_ticket "envelope option" json
  | Deliver "nat \<Rightarrow> stamp" moments "envelope option"
  | Begin stamp moments nat
  | End stamp moments nat handler_outcome
  | Heartbeat stamp
  | Disconnect
  | Stop
  | Restart
  | Statement db_call

definition task_of :: "nat \<Rightarrow> bool \<Rightarrow> tunnel \<Rightarrow> dispatch option" where
  "task_of i started c = find (\<lambda>t. di_task t = i \<and> di_started t = started) (tu_tasks c)"

fun tunnel_step ::
  "(exn \<Rightarrow> pystr) \<Rightarrow> (bytes \<Rightarrow> pystr) \<Rightarrow> (pystr \<Rightarrow> json \<Rightarrow> bool) \<Rightarrow> (int \<Rightarrow> pystr) \<Rightarrow> tunnel_event \<Rightarrow> tunnel \<Rightarrow> tunnel" where
  "tunnel_step msg sha vi fmt (Connect sps now tk welcome meta) c = snd (connect sha vi sps now tk welcome meta c)"
| "tunnel_step msg sha vi fmt (Deliver sps mo raw) c =
     (if \<not> tu_connected c then c
      else case receive msg sha vi fmt sps mo raw c of (Inr _, c') \<Rightarrow> c' | (Inl _, c') \<Rightarrow> disconnect c')"
| "tunnel_step msg sha vi fmt (Begin sp mo i) c =
     (case task_of i False c of None \<Rightarrow> c | Some t \<Rightarrow> begin_dispatch msg sha sp mo t c)"
| "tunnel_step msg sha vi fmt (End sp mo i out) c =
     (case task_of i True c of None \<Rightarrow> c | Some t \<Rightarrow> end_dispatch msg sha sp mo t out c)"
| "tunnel_step msg sha vi fmt (Heartbeat sp) c = heartbeat sp c"
| "tunnel_step msg sha vi fmt Disconnect c = disconnect c"
| "tunnel_step msg sha vi fmt Stop c = stop c"
| "tunnel_step msg sha vi fmt Restart c = restart c"
| "tunnel_step msg sha vi fmt (Statement s) c = c\<lparr>tu_db := exec sha s (tu_db c)\<rparr>"

definition tunnel_run ::
  "(exn \<Rightarrow> pystr) \<Rightarrow> (bytes \<Rightarrow> pystr) \<Rightarrow> (pystr \<Rightarrow> json \<Rightarrow> bool) \<Rightarrow> (int \<Rightarrow> pystr) \<Rightarrow> tunnel_event list \<Rightarrow> tunnel \<Rightarrow> tunnel" where
  "tunnel_run msg sha vi fmt es c = fold (tunnel_step msg sha vi fmt) es c"

section \<open>At most once\<close>

abbreviation message_of :: "dispatch \<Rightarrow> pystr" where
  "message_of t \<equiv> en_message (di_envelope t)"

text \<open>First executions of an operation: those that were called, and those waiting to be.\<close>

definition first_calls :: "pystr \<Rightarrow> handler_call list \<Rightarrow> nat" where
  "first_calls mid ks = length (filter (\<lambda>k. hc_message k = mid \<and> \<not> hc_reconcile k) ks)"

definition first_waiting :: "pystr \<Rightarrow> dispatch list \<Rightarrow> nat" where
  "first_waiting mid ts = length (filter (\<lambda>t. message_of t = mid \<and> \<not> di_reconcile t \<and> \<not> di_started t) ts)"

definition tunnel_inv :: "tunnel \<Rightarrow> bool" where
  "tunnel_inv c \<longleftrightarrow>
     (\<forall>mid. first_calls mid (tu_calls c) + first_waiting mid (tu_tasks c) \<le> (if known mid (tu_db c) then 1 else 0))
     \<and> (\<forall>k\<in>set (tu_calls c). hc_reconcile k \<longrightarrow> \<not> is_uncertain_native_action (hc_tool k) (hc_input k))
     \<and> (\<forall>t\<in>set (tu_tasks c). di_reconcile t \<longrightarrow> \<not> is_uncertain_native_action (di_tool t) (di_input t))
     \<and> distinct (map di_task (tu_tasks c)) \<and> (\<forall>t\<in>set (tu_tasks c). di_task t < tu_next_task c)"

text \<open>Steps that start nothing.\<close>

definition quiet :: "tunnel \<Rightarrow> tunnel \<Rightarrow> bool" where
  "quiet c c' \<longleftrightarrow> tu_calls c' = tu_calls c \<and> tu_next_task c' = tu_next_task c
     \<and> (\<exists>P. tu_tasks c' = filter P (tu_tasks c)) \<and> (\<forall>mid. known mid (tu_db c) \<longrightarrow> known mid (tu_db c'))"

lemma quietI:
  "tu_calls c' = tu_calls c \<Longrightarrow> tu_next_task c' = tu_next_task c \<Longrightarrow> tu_tasks c' = tu_tasks c
    \<Longrightarrow> (\<And>mid. known mid (tu_db c) \<Longrightarrow> known mid (tu_db c')) \<Longrightarrow> quiet c c'"
  by (auto simp: quiet_def intro: exI [of _ "\<lambda>_. True"])

lemma filter_filter_le: "length (filter Q (filter P xs)) \<le> length (filter Q xs)"
  by (induction xs) auto

lemma quiet_inv:
  assumes "tunnel_inv c" "quiet c c'" shows "tunnel_inv c'"
proof -
  obtain P where q: "tu_calls c' = tu_calls c" "tu_next_task c' = tu_next_task c" "tu_tasks c' = filter P (tu_tasks c)"
    "\<forall>mid. known mid (tu_db c) \<longrightarrow> known mid (tu_db c')"
    using assms(2) by (auto simp: quiet_def)
  have "first_calls mid (tu_calls c') + first_waiting mid (tu_tasks c') \<le> (if known mid (tu_db c') then 1 else 0)" for mid
  proof -
    have "first_waiting mid (tu_tasks c') \<le> first_waiting mid (tu_tasks c)"
      unfolding q(3) first_waiting_def by (rule filter_filter_le)
    moreover have "first_calls mid (tu_calls c) + first_waiting mid (tu_tasks c) \<le> (if known mid (tu_db c) then 1 else 0)"
      using assms(1) by (simp add: tunnel_inv_def)
    moreover have "(if known mid (tu_db c) then 1 else 0 :: nat) \<le> (if known mid (tu_db c') then 1 else 0)" using q(4) by simp
    ultimately show ?thesis unfolding q(1) by linarith
  qed
  then show ?thesis using assms(1) q by (auto simp: tunnel_inv_def distinct_map_filter)
qed

text \<open>A step that dispatches an operation: for the first time, or again but not a native action.\<close>

definition starts :: "tunnel \<Rightarrow> tunnel \<Rightarrow> bool" where
  "starts c c' \<longleftrightarrow> (\<exists>t. tu_tasks c' = tu_tasks c @ [t] \<and> tu_calls c' = tu_calls c \<and> di_task t = tu_next_task c
     \<and> tu_next_task c' = Suc (tu_next_task c) \<and> \<not> di_started t \<and> (\<forall>mid. known mid (tu_db c) \<longrightarrow> known mid (tu_db c'))
     \<and> (if di_reconcile t then \<not> is_uncertain_native_action (di_tool t) (di_input t)
        else \<not> known (message_of t) (tu_db c) \<and> known (message_of t) (tu_db c')))"

lemma starts_inv:
  assumes "tunnel_inv c" "starts c c'" shows "tunnel_inv c'"
proof -
  obtain t where t: "tu_tasks c' = tu_tasks c @ [t]" "tu_calls c' = tu_calls c" "di_task t = tu_next_task c"
    "tu_next_task c' = Suc (tu_next_task c)" "\<forall>mid. known mid (tu_db c) \<longrightarrow> known mid (tu_db c')"
    "if di_reconcile t then \<not> is_uncertain_native_action (di_tool t) (di_input t)
      else \<not> known (message_of t) (tu_db c) \<and> known (message_of t) (tu_db c')"
    using assms(2) by (auto simp: starts_def)
  have "first_calls mid (tu_calls c') + first_waiting mid (tu_tasks c') \<le> (if known mid (tu_db c') then 1 else 0)" for mid
  proof -
    have "first_calls mid (tu_calls c) + first_waiting mid (tu_tasks c) \<le> (if known mid (tu_db c) then 1 else 0)"
      using assms(1) by (simp add: tunnel_inv_def)
    then show ?thesis using t by (auto simp: first_waiting_def split: if_splits)
  qed
  then show ?thesis using assms(1) t by (auto simp: tunnel_inv_def less_Suc_eq split: if_splits)
qed

lemma tunnel_inv_new: "tunnel_inv (new_tunnel n d)"
  by (simp add: tunnel_inv_def new_tunnel_def first_calls_def first_waiting_def)

subsection \<open>Every step keeps the invariant\<close>

lemma record_received_known:
  assumes "record_received now mid rc rq ep d = (Inr ins, d')"
  shows "known mid d' \<and> (ins \<longrightarrow> \<not> known mid d) \<and> (\<forall>m. known m d \<longrightarrow> known m d')"
proof (cases "find_op mid d = None \<and> known_project (r_project rc) d")
  case True
  then show ?thesis using assms known_find [of mid d] by (auto simp: record_received_def known_def)
next
  case False
  then obtain row where row: "find_op mid d = Some row" "\<not> ins"
    using assms by (auto simp: record_received_def split: option.splits if_splits)
  then have "d' = d \<or> d' = update_op mid (\<lambda>r. r\<lparr>op_epoch := ep, op_updated := now\<rparr>) d"
    using assms False by (auto simp: record_received_def split: if_splits)
  then have "known m d' = known m d" for m by (auto simp: known_update)
  then show ?thesis using row known_find [of mid d] by simp
qed

lemma record_received_error: "record_received now mid rc rq ep d = (Inl e, d') \<Longrightarrow> d' = d"
  by (auto simp: record_received_def split: option.splits if_splits)

lemma redelivered_step:
  assumes "redelivered msg sps mo e dl tool inp g l c = (r, c')"
  shows "quiet c c' \<or> starts c c'"
proof -
  consider (again) "\<not> truthy (Option.bind (find_op (en_message e) (tu_db c)) op_result)" "\<not> active (en_message e) c"
      "\<not> is_uncertain_native_action tool inp"
    | (settle) "\<not> truthy (Option.bind (find_op (en_message e) (tu_db c)) op_result)" "\<not> active (en_message e) c"
      "is_uncertain_native_action tool inp"
    | (rest) "truthy (Option.bind (find_op (en_message e) (tu_db c)) op_result) \<or> active (en_message e) c" by blast
  then show ?thesis
  proof cases
    case again
    then show ?thesis using assms by (auto simp: redelivered_def Let_def starts_def start_dispatch_def)
  next
    case settle
    then have "quiet c c'" using assms
      by (auto simp: redelivered_def Let_def terminalize_uncertain_action_def known_transition split: prod.splits sum.splits
          intro!: quietI) (metis known_transition snd_conv)+
    then show ?thesis ..
  next
    case rest
    then have "quiet c c'" using assms by (auto simp: redelivered_def Let_def intro!: quietI split: if_splits)
    then show ?thesis ..
  qed
qed


lemma accept_step:
  assumes "accept_operation msg fmt sps mo e co dl tool inp g l dg c = (r, c')"
  shows "quiet c c' \<or> starts c c'"
proof -
  let ?rec = "record_received (mo_db mo) (en_message e) (receipt_of fmt e co dl tool inp g l dg) (Some inp) (tu_epoch c) (tu_db c)"
  obtain rr d where rec: "?rec = (rr, d)" by fastforce
  show ?thesis
  proof (cases rr)
    case (Inl err)
    then have "c' = c\<lparr>tu_db := d\<rparr>" "d = tu_db c"
      using assms rec record_received_error [of "mo_db mo"] by (auto simp: accept_operation_def)
    then show ?thesis by (auto intro!: quietI)
  next
    case (Inr ins)
    note k = record_received_known [OF rec [unfolded Inr]]
    define c1 where "c1 = send_about (sps (tu_sequence c)) e OPERATION_RECEIVED (JObj [(lit ''duplicate'', JBool (\<not> ins))]) False
      (c\<lparr>tu_db := d\<rparr>)"
    have c1: "tu_tasks c1 = tu_tasks c" "tu_calls c1 = tu_calls c" "tu_next_task c1 = tu_next_task c" "tu_db c1 = d"
      by (simp_all add: c1_def)
    show ?thesis
    proof (cases ins)
      case True
      then have "c' = start_dispatch e tool inp g l (from_envelope (en_sent e) dl (mo_received mo) (mo_monotonic mo) None) False c1"
        using assms rec Inr by (simp add: accept_operation_def c1_def Let_def)
      then have "starts c c'" using k True by (simp add: starts_def start_dispatch_def c1)
      then show ?thesis ..
    next
      case False
      then have "redelivered msg sps mo e dl tool inp g l c1 = (r, c')"
        using assms rec Inr by (simp add: accept_operation_def c1_def Let_def)
      from redelivered_step [OF this] show ?thesis
      proof
        assume "quiet c1 c'"
        then have "quiet c c'" using k by (auto simp: quiet_def c1)
        then show ?thesis ..
      next
        assume "starts c1 c'"
        then obtain t where t: "tu_tasks c' = tu_tasks c @ [t]" "tu_calls c' = tu_calls c" "di_task t = tu_next_task c"
          "tu_next_task c' = Suc (tu_next_task c)" "\<not> di_started t" "\<forall>mid. known mid d \<longrightarrow> known mid (tu_db c')"
          "if di_reconcile t then \<not> is_uncertain_native_action (di_tool t) (di_input t)
             else \<not> known (message_of t) d \<and> known (message_of t) (tu_db c')"
          unfolding starts_def c1 by blast
        then have "starts c c'" unfolding starts_def using k by (intro exI [of _ t]) auto
        then show ?thesis ..
      qed
    qed
  qed
qed

lemma quiet_budgets: "quiet (c\<lparr>tu_budgets := b\<rparr>) c' = quiet c c'" "starts (c\<lparr>tu_budgets := b\<rparr>) c' = starts c c'"
  by (simp_all add: quiet_def starts_def)

lemma receive_operation_step:
  assumes "receive_operation msg sha fmt sps mo e c = (r, c')"
  shows "quiet c c' \<or> starts c c'"
proof -
  let ?c = "c\<lparr>tu_budgets := live_budgets (mo_monotonic mo) c\<rparr>"
  have "quiet ?c c' \<or> (\<exists>co dl tool inp g l dg. accept_operation msg fmt sps mo e co dl tool inp g l dg ?c = (r, c'))"
    using assms unfolding receive_operation_def Let_def send_failure_def
    by (auto intro!: quietI split: if_splits option.splits json.splits sum.splits prod.splits)
  then have "quiet ?c c' \<or> starts ?c c'" by (elim disjE exE) (simp, rule accept_step)
  then show ?thesis unfolding quiet_budgets .
qed

lemma receive_ack_step:
  assumes "receive_ack now e co c = (r, c')" shows "quiet c c'"
  using assms by (auto simp: receive_ack_def Let_def known_acknowledge intro!: quietI split: option.splits if_splits)

lemma receive_step:
  assumes "receive msg sha vi fmt sps mo raw c = (r, c')"
  shows "quiet c c' \<or> starts c c'"
proof -
  have "quiet c c' \<or> (\<exists>e co. receive_ack (mo_db mo) e co c = (r, c')) \<or> (\<exists>e. receive_operation msg sha fmt sps mo e c = (r, c'))"
    using assms unfolding receive_def
    by (auto intro!: quietI split: if_splits option.splits sum.splits message_kind.splits list.splits)
  then show ?thesis using receive_ack_step receive_operation_step by blast
qed

lemma quiet_connected: "quiet c (c'\<lparr>tu_connected := b\<rparr>) = quiet c c'" "starts c (c'\<lparr>tu_connected := b\<rparr>) = starts c c'"
  by (simp_all add: quiet_def starts_def)

lemma connect_step: "quiet c (snd (connect sha vi sps now tk welcome meta c))"
proof -
  have "tu_tasks (snd (connect sha vi sps now tk welcome meta c)) = tu_tasks c"
    "tu_calls (snd (connect sha vi sps now tk welcome meta c)) = tu_calls c"
    "tu_next_task (snd (connect sha vi sps now tk welcome meta c)) = tu_next_task c"
    by (auto simp: connect_def receive_welcome_def hello_def Let_def split: option.splits sum.splits prod.splits)
  moreover have "known mid (tu_db (snd (connect sha vi sps now tk welcome meta c))) = known mid (tu_db c)" for mid
    using known_epoch [of mid "tu_epoch (snd (receive_welcome sha vi welcome (c\<lparr>tu_ticket := Some tk\<rparr>)))" "tu_db c"]
    by (auto simp: connect_def receive_welcome_def hello_def Let_def split: option.splits sum.splits prod.splits)
  ultimately show ?thesis by (intro quietI) auto
qed

lemma finish_step: "quiet c (finish_dispatch msg sha sp now t ps c)"
proof -
  have "tu_calls (finish_dispatch msg sha sp now t ps c) = tu_calls c"
    "tu_next_task (finish_dispatch msg sha sp now t ps c) = tu_next_task c"
    "tu_tasks (finish_dispatch msg sha sp now t ps c) = filter (\<lambda>u. di_task u \<noteq> di_task t) (tu_tasks c)"
    "tu_db (finish_dispatch msg sha sp now t ps c) = snd (transition_operation now (message_of t) (snd ps)
       (Some (durable_tool_result sha (fst ps))) (tu_db c))"
    by (auto simp: finish_dispatch_def drop_task_def split: sum.splits prod.splits)
  then show ?thesis by (auto simp: quiet_def known_transition)
qed


lemma begin_step:
  assumes "tunnel_inv c" "t \<in> set (tu_tasks c)" "\<not> di_started t"
  shows "tunnel_inv (begin_dispatch msg sha sp mo t c)"
proof -
  obtain rr d where tr: "transition_operation (mo_db mo) (message_of t) RUNNING None (tu_db c) = (rr, d)" by fastforce
  have d: "known mid d = known mid (tu_db c)" for mid using known_transition [of mid] tr by (metis snd_conv)
  show ?thesis
  proof (cases "rr = Inr () \<and> \<not> elapsed (mo_checked mo) (mo_monotonic mo) (di_budget t)")
    case False
    have "quiet c (begin_dispatch msg sha sp mo t c)"
    proof (cases rr)
      case (Inl e)
      then show ?thesis using tr d by (auto simp: begin_dispatch_def drop_task_def quiet_def)
    next
      case (Inr u)
      then have "begin_dispatch msg sha sp mo t c = finish_dispatch msg sha sp (mo_db mo) t
          (conclude msg (mo_checked mo) (mo_monotonic mo) t (Failed (raise ''deadline_exceeded''))) (c\<lparr>tu_db := d\<rparr>)"
        using False tr by (simp add: begin_dispatch_def)
      moreover have "quiet (c\<lparr>tu_db := d\<rparr>) (finish_dispatch msg sha sp (mo_db mo) t
          (conclude msg (mo_checked mo) (mo_monotonic mo) t (Failed (raise ''deadline_exceeded''))) (c\<lparr>tu_db := d\<rparr>))"
        by (rule finish_step)
      ultimately show ?thesis using d by (simp add: quiet_def)
    qed
    then show ?thesis using quiet_inv assms(1) by blast
  next
    case True
    let ?c' = "begin_dispatch msg sha sp mo t c" and ?up = "\<lambda>u. if di_task u = di_task t then u\<lparr>di_started := True\<rparr> else u"
    let ?k = "\<lparr>hc_message = message_of t, hc_tool = di_tool t, hc_input = di_input t,
        hc_deadline = bg_local (di_budget t), hc_reconcile = di_reconcile t\<rparr>"
    have c': "tu_tasks ?c' = map ?up (tu_tasks c)" "tu_calls ?c' = tu_calls c @ [?k]" "tu_db ?c' = d"
      "tu_next_task ?c' = tu_next_task c"
      using True tr by (simp_all add: begin_dispatch_def Let_def)
    have dist: "distinct (map di_task (tu_tasks c))" using assms(1) by (simp add: tunnel_inv_def)
    have waiting: "first_waiting mid (map ?up ts) + (if message_of t = mid \<and> \<not> di_reconcile t then 1 else 0) = first_waiting mid ts"
      if "t \<in> set ts" "distinct (map di_task ts)" for mid ts
      using that
    proof (induction ts)
      case (Cons u ts)
      show ?case
      proof (cases "u = t")
        case True
        then have "di_task x \<noteq> di_task t" if "x \<in> set ts" for x using Cons.prems that by (auto simp: image_iff)
        then have "map ?up ts = ts" by (intro map_idI) auto
        then show ?thesis using True assms(3) by (simp add: first_waiting_def)
      next
        case False
        then have "di_task u \<noteq> di_task t" using Cons.prems by auto
        then show ?thesis using Cons False by (auto simp: first_waiting_def)
      qed
    qed simp
    have "first_calls mid (tu_calls ?c') + first_waiting mid (tu_tasks ?c') \<le> (if known mid (tu_db ?c') then 1 else 0)" for mid
    proof -
      have "first_calls mid (tu_calls c @ [?k]) = first_calls mid (tu_calls c) + (if message_of t = mid \<and> \<not> di_reconcile t then 1 else 0)"
        by (simp add: first_calls_def)
      moreover have "first_calls mid (tu_calls c) + first_waiting mid (tu_tasks c) \<le> (if known mid (tu_db c) then 1 else 0)"
        using assms(1) by (simp add: tunnel_inv_def)
      ultimately show ?thesis using waiting [OF assms(2) dist, of mid] unfolding c' d [of mid] by linarith
    qed
    moreover have "\<forall>k\<in>set (tu_calls ?c'). hc_reconcile k \<longrightarrow> \<not> is_uncertain_native_action (hc_tool k) (hc_input k)"
      using assms(1,2) unfolding c' by (auto simp: tunnel_inv_def)
    moreover have "map di_task (map ?up (tu_tasks c)) = map di_task (tu_tasks c)" by simp
    then have "distinct (map di_task (tu_tasks ?c'))" unfolding c' using dist by metis
    moreover have "(\<forall>u\<in>set (tu_tasks ?c'). di_reconcile u \<longrightarrow> \<not> is_uncertain_native_action (di_tool u) (di_input u))
        \<and> (\<forall>u\<in>set (tu_tasks ?c'). di_task u < tu_next_task ?c')"
      using assms(1) unfolding c' by (auto simp: tunnel_inv_def)
    ultimately show ?thesis by (simp add: tunnel_inv_def)
  qed
qed

lemma task_ofD: "task_of i b c = Some t \<Longrightarrow> t \<in> set (tu_tasks c) \<and> di_started t = b"
  unfolding task_of_def using find_SomeD by fastforce

lemma step_inv: "tunnel_inv c \<Longrightarrow> tunnel_inv (tunnel_step msg sha vi fmt ev c)"
proof (cases ev)
  case (Connect sps now tk wel meta)
  assume "tunnel_inv c"
  then show ?thesis using Connect connect_step quiet_inv by simp
next
  case (Deliver sps mo raw)
  assume i: "tunnel_inv c"
  obtain r c' where r: "receive msg sha vi fmt sps mo raw c = (r, c')" by fastforce
  from receive_step [OF r] have "tunnel_inv c'" "tunnel_inv (disconnect c')"
    using quiet_inv starts_inv i quiet_connected unfolding disconnect_def by blast+
  then show ?thesis using Deliver r i by (auto split: sum.splits)
next
  case (Begin sp mo j)
  assume i: "tunnel_inv c"
  then show ?thesis using Begin begin_step [OF i] task_ofD [of j False c] by (auto split: option.splits)
next
  case (End sp mo j out)
  assume i: "tunnel_inv c"
  then show ?thesis using End finish_step quiet_inv by (auto simp: end_dispatch_def split: option.splits)
next
  case (Statement s)
  assume i: "tunnel_inv c"
  have "quiet c (c\<lparr>tu_db := exec sha s (tu_db c)\<rparr>)" using known_exec by (intro quietI) auto
  then show ?thesis using Statement i quiet_inv by simp
next
  case Restart
  assume i: "tunnel_inv c"
  have "first_calls mid (tu_calls c) \<le> (if known mid (tu_db c) then 1 else 0)" for mid
    using i by (auto simp: tunnel_inv_def split: if_splits dest!: spec [of _ mid])
  then show ?thesis using Restart i by (auto simp: tunnel_inv_def restart_def new_tunnel_def first_waiting_def)
next
  case Stop
  assume i: "tunnel_inv c"
  have "quiet c (stop c)" by (auto simp: quiet_def stop_def intro: exI [of _ "\<lambda>_. False"])
  then show ?thesis using Stop i quiet_inv by simp
next
  case (Heartbeat sp)
  assume i: "tunnel_inv c"
  have "quiet c (heartbeat sp c)" unfolding heartbeat_def by (rule quietI) simp_all
  then show ?thesis using Heartbeat i quiet_inv by simp
next
  case Disconnect
  assume i: "tunnel_inv c"
  have "quiet c (disconnect c)" unfolding disconnect_def by (rule quietI) simp_all
  then show ?thesis using Disconnect i quiet_inv by simp
qed

lemma run_inv: "tunnel_inv c \<Longrightarrow> tunnel_inv (tunnel_run msg sha vi fmt es c)"
  unfolding tunnel_run_def by (induction es arbitrary: c) (simp_all add: step_inv)

text \<open>
  C3. A native action is performed at most once: whatever envelopes arrive, however often an
  operation is redelivered, and whatever crashes, restarts, disconnections and other database
  activity happen in between, the handler is called at most once for an operation that starts a
  shell command, drives the desktop or acts in a browser.
\<close>

theorem native_action_at_most_once:
  "length (filter (\<lambda>k. hc_message k = mid \<and> is_uncertain_native_action (hc_tool k) (hc_input k))
     (tu_calls (tunnel_run msg sha vi fmt es (new_tunnel n d)))) \<le> 1"
proof -
  let ?c = "tunnel_run msg sha vi fmt es (new_tunnel n d)"
  have i: "tunnel_inv ?c" by (rule run_inv) (rule tunnel_inv_new)
  have "first_calls mid (tu_calls ?c) + first_waiting mid (tu_tasks ?c) \<le> (if known mid (tu_db ?c) then 1 else 0)"
    using i by (simp add: tunnel_inv_def)
  then have once: "first_calls mid (tu_calls ?c) \<le> 1" by (simp split: if_splits)
  have split: "filter (\<lambda>k. hc_message k = mid \<and> is_uncertain_native_action (hc_tool k) (hc_input k)) (tu_calls ?c)
      = filter (\<lambda>k. is_uncertain_native_action (hc_tool k) (hc_input k)) (filter (\<lambda>k. hc_message k = mid \<and> \<not> hc_reconcile k) (tu_calls ?c))"
    using i by (auto simp: tunnel_inv_def intro: filter_cong)
  show ?thesis using once unfolding split first_calls_def by (rule order_trans [OF length_filter_le])
qed

end
