(* ===== verification/Tunnel_Replay.thy ===== *)
theory Tunnel_Replay
  imports Tunnel_Laws
begin

text \<open>
  Redelivery, fencing and replay on the device tunnel: the budget of a redelivered operation, the
  envelopes that may have an effect at all, and the results sent again by every new connection.
  A small session is run as the example the facts are applied to.
\<close>

section \<open>An example session\<close>

definition example_ticket :: websocket_ticket where
  "example_ticket = \<lparr>wt_value = lit ''t'', wt_account = lit ''acct'', wt_device = lit ''device'', wt_link = lit ''link'',
     wt_challenge = lit ''x'', wt_expires = 99000000\<rparr>"

definition example_welcome :: "int \<Rightarrow> envelope" where
  "example_welcome epoch = \<lparr>en_kind = WELCOME, en_message = lit ''w'', en_correlation = None, en_sequence = 1, en_epoch = epoch,
     en_sent = 90, en_deadline = None, en_bindings = ticket_bindings example_ticket, en_digest = None, en_payload = JObj []\<rparr>"

text \<open>An operation of the tool that lists the device's projects, or one that starts a command.\<close>

definition example_operation :: "int \<Rightarrow> pystr \<Rightarrow> json \<Rightarrow> pystr option \<Rightarrow> envelope" where
  "example_operation epoch tool inp pid = \<lparr>en_kind = OPERATION, en_message = lit ''op'', en_correlation = Some (lit ''corr''),
     en_sequence = 2, en_epoch = epoch, en_sent = 100, en_deadline = Some 1000,
     en_bindings = \<lparr>tb_account = lit ''acct'', tb_device = lit ''device'', tb_link = Some (lit ''link''),
       tb_grant = Some (lit ''grant''), tb_project = pid\<rparr>,
     en_digest = (case compute_action_digest (\<lambda>b. b) (action_payload tool inp) of Inr dg \<Rightarrow> Some dg | Inl _ \<Rightarrow> None),
     en_payload = action_payload tool inp\<rparr>"

definition example_stamps :: "nat \<Rightarrow> stamp" where
  "example_stamps n = \<lparr>sp_now = 200, sp_message = replicate (Suc n) 109\<rparr>"

definition example_moments :: "nat \<Rightarrow> moments" where
  "example_moments t = \<lparr>mo_received = int t, mo_monotonic = int t, mo_checked = int t, mo_db = t\<rparr>"

definition example_session :: "tunnel_event list \<Rightarrow> tunnel" where
  "example_session es = tunnel_run (\<lambda>_. lit ''m'') (\<lambda>b. b) (\<lambda>_ _. True) (\<lambda>t. [nat t]) es (new_tunnel 4 empty_db)"

definition example_connect :: "int \<Rightarrow> tunnel_event" where
  "example_connect epoch = Connect example_stamps 0 example_ticket (Some (example_welcome epoch)) (JList [])"

definition example_deliver :: "nat \<Rightarrow> envelope \<Rightarrow> tunnel_event" where
  "example_deliver t e = Deliver example_stamps (example_moments t) (Some e)"

definition example_read :: "int \<Rightarrow> envelope" where
  "example_read epoch = example_operation epoch (lit ''device_read'') (JObj []) None"

definition example_start :: "int \<Rightarrow> envelope" where
  "example_start epoch = example_operation epoch (lit ''project_shell'') (JObj [(lit ''action'', JStr (lit ''start''))]) None"

text \<open>
  A redelivered read is handed to the handler again; a redelivered command that had begun when the
  process died is not, and its outcome is reported as unknown.
\<close>

lemma example_redelivery:
  "map hc_reconcile (tu_calls (example_session [example_connect 3, example_deliver 150 (example_read 3),
      Begin (example_stamps 9) (example_moments 160) 0, Restart, example_connect 4, example_deliver 300 (example_read 4),
      Begin (example_stamps 9) (example_moments 310) 0])) = [False, True]"
  "let c = example_session [example_connect 3, example_deliver 150 (example_start 3),
      Begin (example_stamps 9) (example_moments 160) 0, Restart, example_connect 4, example_deliver 300 (example_start 4),
      Begin (example_stamps 9) (example_moments 310) 0] in
   map hc_reconcile (tu_calls c) = [False] \<and> map op_state (operations (tu_db c)) = [OUTCOME_UNKNOWN]"
  by code_simp+

text \<open>
  An operation for a project the device no longer has cannot be recorded; the error leaves the
  message loop, so the connection is dropped and the caller gets no result.
\<close>

lemma unknown_project_drops_connection:
  "let c = example_session [example_connect 3,
      example_deliver 150 (example_operation 3 (lit ''project_read'') (JObj []) (Some (lit ''p'')))] in
   \<not> tu_connected c \<and> map en_kind (tu_sent c) = [HELLO] \<and> operations (tu_db c) = []"
  by code_simp

text \<open>
  A redelivery that arrives after the deadline is answered with a failure although the
  operation's success is in the database.
\<close>

lemma late_redelivery_reports_failure:
  "let c = example_session [example_connect 3, example_deliver 150 (example_read 3),
      Begin (example_stamps 9) (example_moments 160) 0,
      End (example_stamps 10) (example_moments 170) 0 (Responded JNull []), example_deliver 1500 (example_read 3)] in
   map op_state (operations (tu_db c)) = [SUCCEEDED]
   \<and> map (\<lambda>e. (en_kind e, jget ''ok'' (en_payload e))) (drop 3 (tu_sent c))
      = [(OPERATION_RESULT, Some (JBool True)), (OPERATION_RESULT, Some (JBool False))]"
  by code_simp

section \<open>Budgets\<close>

text \<open>
  A redelivery never extends permission: when an operation that was received before is
  dispatched again, its new execution budget ends no later than the relay's deadline, no later
  than the operation's duration counted from its first recorded receipt, and no later than the
  budget it had in this process, on both clocks.
\<close>

theorem redelivery_budget_bound:
  assumes "redelivered msg sps mo e deadline tool inp g l c = (r, c')" "tu_tasks c' = tu_tasks c @ [t]"
    and "find_op (en_message e) (tu_db c) = Some row"
  shows "bg_local (di_budget t) \<le> deadline
    \<and> bg_local (di_budget t) \<le> int (op_received row) + (deadline - en_sent e)
    \<and> bg_monotonic (di_budget t) \<le> mo_monotonic mo + (deadline - mo_received mo)
    \<and> (case map_of (tu_budgets c) (en_message e) of None \<Rightarrow> True
        | Some b \<Rightarrow> bg_local (di_budget t) \<le> bg_local b \<and> bg_monotonic (di_budget t) \<le> bg_monotonic b)"
proof -
  define b0 where "b0 = from_envelope (en_sent e) deadline (mo_received mo) (mo_monotonic mo) (Some (Some (int (op_received row))))"
  have t: "di_budget t = (case map_of (tu_budgets c) (en_message e) of None \<Rightarrow> b0
      | Some o' \<Rightarrow> \<lparr>bg_local = min (bg_local b0) (bg_local o'), bg_monotonic = min (bg_monotonic b0) (bg_monotonic o')\<rparr>)"
    using assms by (auto simp: redelivered_def Let_def start_dispatch_def terminalize_uncertain_action_def b0_def
        split: if_splits option.splits prod.splits sum.splits)
  have b0: "bg_local b0 \<le> deadline" "bg_local b0 \<le> int (op_received row) + (deadline - en_sent e)"
    "bg_monotonic b0 = mo_monotonic mo + (bg_local b0 - mo_received mo)"
    by (auto simp: b0_def from_envelope_def Let_def)
  show ?thesis using b0 unfolding t by (auto split: option.splits)
qed

definition example_restarted :: tunnel where
  "example_restarted = example_session [example_connect 3, example_deliver 150 (example_read 3),
     Begin (example_stamps 9) (example_moments 160) 0, Restart, example_connect 4]"

theorem redelivery_budget_bound_witness:
  "let c' = snd (redelivered (\<lambda>_. lit ''m'') example_stamps (example_moments 300) (example_read 4) 1000 (lit ''device_read'')
       (JObj []) (lit ''grant'') (lit ''link'') example_restarted) in
   bg_local (di_budget (last (tu_tasks c'))) \<le> 1000 \<and> length (tu_tasks c') = 1"
proof -
  let ?r = "redelivered (\<lambda>_. lit ''m'') example_stamps (example_moments 300) (example_read 4) 1000 (lit ''device_read'')
     (JObj []) (lit ''grant'') (lit ''link'') example_restarted"
  let ?op = "find_op (en_message (example_read 4)) (tu_db example_restarted)"
  have r: "?r = (fst ?r, snd ?r)" by simp
  have t: "tu_tasks (snd ?r) = tu_tasks example_restarted @ [last (tu_tasks (snd ?r))]" by code_simp
  have row: "?op = Some (the ?op)" by code_simp
  have l: "length (tu_tasks (snd ?r)) = 1" by code_simp
  show ?thesis unfolding Let_def using redelivery_budget_bound [OF r t row] l by blast
qed

section \<open>The fence\<close>

text \<open>
  C36. An envelope has an effect only if it is valid, belongs to the current connection's epoch and
  names the ticket's account and device, and, unless it is an acknowledgement, the ticket's link
  or none; every other envelope is refused and changes nothing.
\<close>

theorem receive_fenced:
  assumes "receive msg sha vi fmt sps mo raw c = (r, c')" "c' \<noteq> c \<or> r = Inr ()"
  shows "\<exists>e tk. raw = Some e \<and> tu_ticket c = Some tk \<and> envelope_ok sha vi e \<and> en_epoch e = tu_epoch c
    \<and> tb_account (en_bindings e) = wt_account tk \<and> tb_device (en_bindings e) = wt_device tk
    \<and> (en_kind e = TERMINAL_ACK \<or> tb_link (en_bindings e) \<in> {None, Some (wt_link tk)})"
proof (cases raw)
  case None
  then show ?thesis using assms by (auto simp: receive_def)
next
  case (Some e)
  have ok: "envelope_ok sha vi e" using assms Some by (auto simp: receive_def split: if_splits)
  have "validate_bindings e c = Inr ()"
    using assms Some ok by (cases "validate_bindings e c") (auto simp: receive_def)
  then show ?thesis using Some ok by (auto simp: validate_bindings_def split: option.splits if_splits)
qed

theorem receive_fenced_witness:
  "\<exists>e tk. Some (example_read 3) = Some e \<and> tu_ticket (example_session [example_connect 3]) = Some tk
     \<and> tb_device (en_bindings e) = wt_device tk"
proof -
  let ?r = "receive (\<lambda>_. lit ''m'') (\<lambda>b. b) (\<lambda>_ _. True) (\<lambda>t. [nat t]) example_stamps (example_moments 150)
     (Some (example_read 3)) (example_session [example_connect 3])"
  have r: "?r = (fst ?r, snd ?r)" by simp
  have "fst ?r = Inr ()" by code_simp
  then show ?thesis using receive_fenced [OF r disjI2] by blast
qed

section \<open>Results are sent until they are acknowledged\<close>

definition sent_result :: "tunnel \<Rightarrow> pystr \<Rightarrow> json \<Rightarrow> tunnel_bindings \<Rightarrow> pystr \<Rightarrow> envelope \<Rightarrow> bool" where
  "sent_result c co payload b dg e \<longleftrightarrow> en_kind e = OPERATION_RESULT \<and> en_correlation e = Some co \<and> en_payload e = payload
     \<and> en_bindings e = b \<and> en_digest e = Some dg \<and> en_epoch e = tu_epoch c"

definition grows :: "tunnel \<Rightarrow> tunnel \<Rightarrow> bool" where
  "grows c c' \<longleftrightarrow> prefix (tu_sent c) (tu_sent c') \<and> tu_connected c' = tu_connected c \<and> tu_ticket c' = tu_ticket c \<and> tu_epoch c' = tu_epoch c"

lemma grows_refl [simp]: "grows c c"
  by (simp add: grows_def)

lemma grows_trans: "grows a b \<Longrightarrow> grows b c \<Longrightarrow> grows a c"
  by (auto simp: grows_def intro: prefix_order.trans)

lemma send_new_grows: "grows c (send_new sp k p co b dg t c)"
  by (auto simp: grows_def send_new_def send_def Let_def split: option.splits)

lemma replay_row_grows: "grows c (replay_row sps r c)"
  by (auto simp: replay_row_def send_new_grows split: option.splits json.splits)

lemma fold_grows: "(\<And>x c. grows c (g x c)) \<Longrightarrow> grows c (fold g xs c)"
proof (induction xs arbitrary: c)
  case (Cons x xs)
  then show ?case using grows_trans [of c "g x c"] by simp
qed simp

lemma replay_row_sends:
  assumes "tu_connected c" "tu_ticket c \<noteq> None" "op_result r = Some (JObj kvs)"
  shows "\<exists>e. tu_sent (replay_row sps r c) = tu_sent c @ [e]
    \<and> sent_result c (r_correlation (op_receipt r)) (JObj kvs) (row_bindings r) (r_action_digest (op_receipt r)) e"
  using assms by (auto simp: replay_row_def send_new_def send_def sent_result_def Let_def)

lemma fold_replay_sends:
  assumes "r \<in> set rows" "tu_connected c" "tu_ticket c \<noteq> None" "op_result r = Some (JObj kvs)"
  shows "\<exists>e\<in>set (drop (length (tu_sent c)) (tu_sent (fold (replay_row sps) rows c))).
    sent_result c (r_correlation (op_receipt r)) (JObj kvs) (row_bindings r) (r_action_digest (op_receipt r)) e"
  using assms
proof (induction rows arbitrary: c)
  case (Cons r' rows)
  have g: "grows c (replay_row sps r' c)" by (rule replay_row_grows)
  let ?rest = "fold (replay_row sps) rows (replay_row sps r' c)"
  have g2: "grows (replay_row sps r' c) ?rest" by (rule fold_grows) (rule replay_row_grows)
  show ?case
  proof (cases "r' = r")
    case True
    obtain e where e: "tu_sent (replay_row sps r c) = tu_sent c @ [e]"
      "sent_result c (r_correlation (op_receipt r)) (JObj kvs) (row_bindings r) (r_action_digest (op_receipt r)) e"
      using replay_row_sends [OF Cons.prems(2-4)] by blast
    then obtain zs where "tu_sent ?rest = (tu_sent c @ [e]) @ zs" using g2 True by (auto simp: grows_def prefix_def)
    then show ?thesis using e by simp
  next
    case False
    have "tu_connected (replay_row sps r' c)" "tu_ticket (replay_row sps r' c) \<noteq> None" "tu_epoch (replay_row sps r' c) = tu_epoch c"
      using g Cons.prems by (auto simp: grows_def)
    then have same: "sent_result (replay_row sps r' c) = sent_result c" by (intro ext) (simp add: sent_result_def)
    have "r \<in> set rows" using Cons.prems(1) False by simp
    from Cons.IH [OF this \<open>tu_connected (replay_row sps r' c)\<close> \<open>tu_ticket (replay_row sps r' c) \<noteq> None\<close> Cons.prems(4)]
    obtain e where e: "e \<in> set (drop (length (tu_sent (replay_row sps r' c))) (tu_sent ?rest))"
      "sent_result c (r_correlation (op_receipt r)) (JObj kvs) (row_bindings r) (r_action_digest (op_receipt r)) e"
      unfolding same by blast
    have "length (tu_sent c) \<le> length (tu_sent (replay_row sps r' c))" using g by (auto simp: grows_def prefix_def)
    from subsetD [OF set_drop_subset_set_drop [OF this] e(1)]
    have "e \<in> set (drop (length (tu_sent c)) (tu_sent ?rest))" .
    then show ?thesis using e(2) by auto
  qed
qed simp

text \<open>
  C16. No result is lost: every successful connection sends again, under the new connection's
  epoch, each terminal result in the database that the relay has not acknowledged, with the
  correlation, the authorization and the action digest it was recorded under.
\<close>

theorem terminals_resent:
  assumes "connect sha vi sps now tk wel meta c = (Inr (), c')"
    and "row \<in> set (list_unacknowledged_terminals (tu_db c))" "op_result row = Some (JObj kvs)"
  shows "\<exists>e\<in>set (drop (length (tu_sent c)) (tu_sent c')).
    sent_result c' (r_correlation (op_receipt row)) (JObj kvs) (row_bindings row) (r_action_digest (op_receipt row)) e"
proof -
  obtain c1 d where w: "receive_welcome sha vi wel (c\<lparr>tu_ticket := Some tk\<rparr>) = (Inr (), c1)"
    and d: "set_connection_epoch (tu_epoch c1) (tu_db c1) = (Inr (), d)"
    and c': "c' = replay_pending_terminals sps (hello (sps 0) meta (c1\<lparr>tu_db := d, tu_sequence := 0, tu_connected := True\<rparr>))"
    using assms(1) by (auto simp: connect_def Let_def split: if_splits sum.splits prod.splits)
  have c1: "tu_sent c1 = tu_sent c" "tu_ticket c1 = Some tk" "tu_db c1 = tu_db c"
    using w by (auto simp: receive_welcome_def split: option.splits if_splits)
  define c2 where "c2 = hello (sps 0) meta (c1\<lparr>tu_db := d, tu_sequence := 0, tu_connected := True\<rparr>)"
  have g: "grows (c1\<lparr>tu_db := d, tu_sequence := 0, tu_connected := True\<rparr>) c2"
    unfolding c2_def hello_def by (rule send_new_grows)
  then have c2: "tu_connected c2" "tu_ticket c2 \<noteq> None" "prefix (tu_sent c) (tu_sent c2)" using c1 by (auto simp: grows_def)
  have "operations d = operations (tu_db c)" using d c1(3) by (auto simp: set_connection_epoch_def split: if_splits)
  then have "list_unacknowledged_terminals (tu_db c2) = list_unacknowledged_terminals (tu_db c)"
    by (simp add: c2_def hello_def list_unacknowledged_terminals_def)
  then have row: "row \<in> set (list_unacknowledged_terminals (tu_db c2))" using assms(2) by simp
  let ?c3 = "fold (replay_row sps) (list_unacknowledged_terminals (tu_db c2)) c2"
  obtain e where e: "e \<in> set (drop (length (tu_sent c2)) (tu_sent ?c3))"
    "sent_result c2 (r_correlation (op_receipt row)) (JObj kvs) (row_bindings row) (r_action_digest (op_receipt row)) e"
    using fold_replay_sends [OF row c2(1,2) assms(3), of sps] by blast
  have g3: "grows c2 ?c3" by (rule fold_grows) (rule replay_row_grows)
  have "grows ?c3 c'"
    unfolding c' c2_def [symmetric] replay_pending_terminals_def Let_def
    by (rule fold_grows) (simp add: replay_terminal_def send_about_def send_new_grows)
  then have "prefix (tu_sent ?c3) (tu_sent c')" "tu_epoch c' = tu_epoch c2" using g3 by (auto simp: grows_def)
  moreover have "length (tu_sent c) \<le> length (tu_sent c2)" using c2(3) by (rule prefix_length_le)
  ultimately have "e \<in> set (drop (length (tu_sent c)) (tu_sent c'))"
    using e(1) set_drop_subset_set_drop [of "length (tu_sent c)" "length (tu_sent c2)" "tu_sent c'"] by (auto simp: prefix_def)
  moreover have "sent_result c' (r_correlation (op_receipt row)) (JObj kvs) (row_bindings row) (r_action_digest (op_receipt row)) e"
    using e(2) \<open>tu_epoch c' = tu_epoch c2\<close> by (simp add: sent_result_def)
  ultimately show ?thesis by blast
qed

theorem terminals_resent_witness:
  "let c = example_session [example_connect 3, example_deliver 150 (example_read 3),
       Begin (example_stamps 9) (example_moments 160) 0,
       End (example_stamps 10) (example_moments 170) 0 (Responded JNull []), Restart];
     c' = snd (connect (\<lambda>b. b) (\<lambda>_ _. True) example_stamps 0 example_ticket (Some (example_welcome 4)) (JList []) c) in
   \<exists>e\<in>set (drop (length (tu_sent c)) (tu_sent c')). en_correlation e = Some (lit ''corr'') \<and> en_epoch e = 4"
proof -
  let ?c = "example_session [example_connect 3, example_deliver 150 (example_read 3),
       Begin (example_stamps 9) (example_moments 160) 0,
       End (example_stamps 10) (example_moments 170) 0 (Responded JNull []), Restart]"
  let ?r = "connect (\<lambda>b. b) (\<lambda>_ _. True) example_stamps 0 example_ticket (Some (example_welcome 4)) (JList []) ?c"
  let ?row = "hd (operations (tu_db ?c))"
  let ?kvs = "[(lit ''ok'', JBool True), (lit ''result'', JNull), (lit ''text'', JStr [])]"
  have "fst ?r = Inr ()" by code_simp
  then have r: "?r = (Inr (), snd ?r)" by (simp add: prod_eq_iff)
  have row: "?row \<in> set (list_unacknowledged_terminals (tu_db ?c))" by code_simp
  have res: "op_result ?row = Some (JObj ?kvs)" by code_simp
  have ids: "r_correlation (op_receipt ?row) = lit ''corr''" "tu_epoch (snd ?r) = 4" by code_simp+
  show ?thesis unfolding Let_def using terminals_resent [OF r row res] ids by (auto simp: sent_result_def)
qed

end
