(* ===== verification/Shell_Output.thy ===== *)
theory Shell_Output
  imports Agent_Db_Laws
begin

text \<open>
  The output of a shell job (\<open>ShellJob\<close>, \<open>OutputChunk\<close>, \<open>_append\<close>, \<open>_capture\<close>, \<open>_poll_result\<close> and
  \<open>_page_durable_result\<close> of \<open>agent/src/codito_agent/shell.py\<close>): captured text is cut at the job's
  byte limit, numbered, and handed out in pages.  Shown: what is kept is a prefix of what was
  written, cut exactly when the limit is exceeded, and polling page by page returns every chunk
  once and ends.
\<close>

section \<open>Jobs\<close>

datatype shell_state = PENDING_APPROVAL | QUEUED | JOB_RUNNING | COMPLETED | JOB_FAILED | JOB_CANCELLED | JOB_UNKNOWN

definition shell_terminal :: "shell_state \<Rightarrow> bool" where
  "shell_terminal s \<longleftrightarrow> s \<in> {COMPLETED, JOB_FAILED, JOB_CANCELLED, JOB_UNKNOWN}"

definition state_text :: "shell_state \<Rightarrow> pystr" where
  "state_text s = lit (case s of PENDING_APPROVAL \<Rightarrow> ''pending_approval'' | QUEUED \<Rightarrow> ''queued'' | JOB_RUNNING \<Rightarrow> ''running''
     | COMPLETED \<Rightarrow> ''completed'' | JOB_FAILED \<Rightarrow> ''failed'' | JOB_CANCELLED \<Rightarrow> ''cancelled'' | JOB_UNKNOWN \<Rightarrow> ''outcome_unknown'')"

record output_chunk =
  oc_sequence :: nat
  oc_stream :: pystr
  oc_text :: pystr
  oc_truncated :: bool

text \<open>A job without its process and its task, which belong to the manager.\<close>

record shell_job =
  sj_id :: pystr
  sj_project :: pystr
  sj_key :: pystr
  sj_digest :: pystr
  sj_binding :: binding
  sj_epoch :: int
  sj_timeout :: nat
  sj_limit :: nat
  sj_resource :: pystr
  sj_state :: shell_state
  sj_chunks :: "output_chunk list"
  sj_bytes :: nat
  sj_cut :: bool
  sj_exit :: "int option"

definition chunk_dict :: "output_chunk \<Rightarrow> json" where
  "chunk_dict c = JObj [(lit ''sequence'', JInt (int (oc_sequence c))), (lit ''stream'', JStr (oc_stream c)),
     (lit ''text'', JStr (oc_text c)), (lit ''truncated'', JBool (oc_truncated c))]"

section \<open>Capturing\<close>

definition append_output :: "pystr \<Rightarrow> pystr \<Rightarrow> shell_job \<Rightarrow> shell_job" where
  "append_output stream text j =
     (let encoded = utf8_encode text in
      if sj_limit j \<le> sj_bytes j then j\<lparr>sj_cut := True\<rparr>
      else
        let kept = take (sj_limit j - sj_bytes j) encoded;
            rendered = utf8_decode_ignore kept;
            truncated = length kept < length encoded;
            j = j\<lparr>sj_bytes := sj_bytes j + length kept, sj_cut := sj_cut j \<or> truncated\<rparr> in
        if rendered = [] then j
        else j\<lparr>sj_chunks := sj_chunks j @ [\<lparr>oc_sequence = length (sj_chunks j) + 1, oc_stream = stream,
               oc_text = rendered, oc_truncated = truncated\<rparr>]\<rparr>)"

text \<open>\<open>_capture\<close> on the blocks one stream delivers; an empty block is the end of the stream.\<close>

fun capture :: "pystr \<Rightarrow> bytes list \<Rightarrow> shell_job \<Rightarrow> shell_job" where
  "capture stream [] j = j"
| "capture stream (raw # blocks) j =
     (if raw = [] then j else capture stream blocks (append_output stream (utf8_decode_replace raw) j))"

section \<open>Polling\<close>

text \<open>The chunks of one page: the first one always, then as many as fit.\<close>

fun page_rest :: "nat \<Rightarrow> nat \<Rightarrow> output_chunk list \<Rightarrow> output_chunk list" where
  "page_rest limit used [] = []"
| "page_rest limit used (c # cs) =
     (let n = length (utf8_encode (oc_text c)) in
      if limit < used + n then [] else c # page_rest limit (used + n) cs)"

definition page :: "nat \<Rightarrow> output_chunk list \<Rightarrow> output_chunk list" where
  "page limit cs =
     (case cs of [] \<Rightarrow> [] | c # cs \<Rightarrow> c # page_rest limit (length (utf8_encode (oc_text c))) cs)"

definition poll_chunks :: "nat \<Rightarrow> nat \<Rightarrow> shell_job \<Rightarrow> output_chunk list" where
  "poll_chunks cursor limit j = page limit (drop (min cursor (length (sj_chunks j))) (sj_chunks j))"

definition next_cursor :: "nat \<Rightarrow> nat \<Rightarrow> shell_job \<Rightarrow> nat" where
  "next_cursor cursor limit j =
     (let cs = poll_chunks cursor limit j in if cs = [] then cursor else oc_sequence (last cs))"

definition DEFAULT_PAGE :: nat where
  "DEFAULT_PAGE = 262144"

definition poll_result :: "nat \<Rightarrow> nat \<Rightarrow> shell_job \<Rightarrow> json" where
  "poll_result cursor limit j =
     JObj [(lit ''action'', JStr (lit ''poll'')), (lit ''project_id'', JStr (sj_project j)), (lit ''job_id'', JStr (sj_id j)),
       (lit ''state'', JStr (state_text (sj_state j))),
       (lit ''chunks'', JList (map chunk_dict (poll_chunks cursor limit j))),
       (lit ''next_sequence_cursor'', JInt (int (next_cursor cursor limit j))),
       (lit ''available_sequence_cursor'', JInt (int (length (sj_chunks j)))),
       (lit ''has_more_output'', JBool (next_cursor cursor limit j < length (sj_chunks j))),
       (lit ''exit_code'', case sj_exit j of None \<Rightarrow> JNull | Some c \<Rightarrow> JInt c),
       (lit ''output_truncated'', JBool (sj_cut j))]"

text \<open>
  The same paging over the stored form.  Values that are not chunk objects are skipped; \<open>taken\<close>
  says whether the page has a chunk already.
\<close>

fun durable_page :: "nat \<Rightarrow> nat \<Rightarrow> bool \<Rightarrow> json list \<Rightarrow> json list" where
  "durable_page limit used taken [] = []"
| "durable_page limit used taken (v # vs) =
     (case jget ''text'' v of
        Some (JStr t) \<Rightarrow>
          let n = length (utf8_encode t) in
          if taken \<and> limit < used + n then [] else v # durable_page limit (used + n) True vs
      | _ \<Rightarrow> durable_page limit used taken vs)"

text \<open>\<open>dict.update\<close> of one key: in place when the key is there.\<close>

definition dict_set :: "pystr \<Rightarrow> json \<Rightarrow> (pystr \<times> json) list \<Rightarrow> (pystr \<times> json) list" where
  "dict_set k v kvs =
     (if k \<in> fst ` set kvs then map (\<lambda>(k', v'). (k', if k' = k then v else v')) kvs else kvs @ [(k, v)])"

definition durable_cursor :: "nat \<Rightarrow> json list \<Rightarrow> int" where
  "durable_cursor cursor chunks =
     (if chunks = [] then int cursor
      else case jget ''sequence'' (last chunks) of Some (JInt i) \<Rightarrow> i | _ \<Rightarrow> int cursor)"

definition page_durable_result :: "json \<Rightarrow> nat \<Rightarrow> nat \<Rightarrow> json" where
  "page_durable_result durable cursor limit =
     (let stored = (case jget ''chunks'' durable of Some (JList xs) \<Rightarrow> xs | _ \<Rightarrow> []);
          chunks = durable_page limit 0 False (drop (min cursor (length stored)) stored);
          nxt = durable_cursor cursor chunks;
          kvs = (case durable of JObj kvs \<Rightarrow> kvs | _ \<Rightarrow> []) in
      JObj (dict_set (lit ''has_more_output'') (JBool (nxt < int (length stored)))
        (dict_set (lit ''available_sequence_cursor'') (JInt (int (length stored)))
        (dict_set (lit ''next_sequence_cursor'') (JInt nxt)
        (dict_set (lit ''chunks'') (JList chunks)
        (dict_set (lit ''action'') (JStr (lit ''poll'')) kvs))))))"

section \<open>What is kept\<close>

text \<open>Cutting the encoding of a text cuts the text between two characters.\<close>

lemma decode_ignore_cut:
  "list_all scalar s \<Longrightarrow> \<exists>n. utf8_decode_ignore (take k (utf8_encode s)) = take n s
     \<and> length (utf8_encode (take n s)) \<le> k \<and> (length (utf8_encode s) \<le> k \<longrightarrow> n = length s)"
proof (induction s arbitrary: k)
  case Nil
  then show ?case by (simp add: utf8_decode_ignore_def)
next
  case (Cons c s)
  show ?case
  proof (cases "length (utf8_char c) \<le> k")
    case True
    obtain n where n: "utf8_decode_ignore (take (k - length (utf8_char c)) (utf8_encode s)) = take n s"
      "length (utf8_encode (take n s)) \<le> k - length (utf8_char c)"
      "length (utf8_encode s) \<le> k - length (utf8_char c) \<longrightarrow> n = length s"
      using Cons.IH [of "k - length (utf8_char c)"] Cons.prems by auto
    have "utf8_items (utf8_char c @ take (k - length (utf8_char c)) (utf8_encode s))
        = Some c # utf8_items (take (k - length (utf8_char c)) (utf8_encode s))"
      using Cons.prems utf8_items_char by simp
    then have "utf8_decode_ignore (take k (utf8_encode (c # s))) = c # take n s"
      using True n(1) by (simp add: utf8_decode_ignore_def)
    then show ?thesis using n(2,3) True by (intro exI [of _ "Suc n"]) auto
  next
    case False
    have "utf8_decode_ignore (take k (utf8_char c)) = []"
    proof (cases "k = 0")
      case False
      then have "utf8_items (take k (utf8_char c)) = [None]"
        using Cons.prems \<open>\<not> length (utf8_char c) \<le> k\<close> by (intro utf8_items_cut) auto
      then show ?thesis by (simp add: utf8_decode_ignore_def)
    qed (simp add: utf8_decode_ignore_def)
    then show ?thesis using False by (intro exI [of _ 0]) auto
  qed
qed

definition appended :: "(pystr \<times> pystr) list \<Rightarrow> shell_job \<Rightarrow> shell_job" where
  "appended xs j = fold (\<lambda>(stream, text). append_output stream text) xs j"

definition written :: "(pystr \<times> pystr) list \<Rightarrow> pystr" where
  "written xs = concat (map snd xs)"

definition kept_text :: "shell_job \<Rightarrow> pystr" where
  "kept_text j = concat (map oc_text (sj_chunks j))"

text \<open>The state of a job's output after \<open>xs\<close> was written to it.\<close>

definition output_inv :: "(pystr \<times> pystr) list \<Rightarrow> shell_job \<Rightarrow> bool" where
  "output_inv xs j \<longleftrightarrow> map oc_sequence (sj_chunks j) = [1..<Suc (length (sj_chunks j))]
     \<and> sj_bytes j = min (sj_limit j) (length (utf8_encode (written xs)))
     \<and> sj_cut j = (sj_limit j < length (utf8_encode (written xs)))
     \<and> length (utf8_encode (kept_text j)) \<le> sj_bytes j
     \<and> prefix (kept_text j) (written xs)
     \<and> (\<not> sj_cut j \<longrightarrow> map (\<lambda>c. (oc_stream c, oc_text c)) (sj_chunks j) = xs)"

lemma written_simps [simp]: "written (xs @ [(s, t)]) = written xs @ t" "written [] = []"
  by (simp_all add: written_def)

lemma kept_all: "map (\<lambda>c. (oc_stream c, oc_text c)) (sj_chunks j) = xs \<Longrightarrow> kept_text j = written xs"
  by (auto simp: kept_text_def written_def comp_def)

lemma append_output_inv:
  assumes "output_inv xs j" "t \<noteq> []" "list_all scalar t"
  shows "output_inv (xs @ [(s, t)]) (append_output s t j)"
proof -
  let ?e = "utf8_encode t" and ?w = "length (utf8_encode (written xs))"
  have e: "?e \<noteq> []" using assms(2) by (cases t) auto
  show ?thesis
  proof (cases "sj_limit j \<le> sj_bytes j")
    case True
    then have "sj_limit j \<le> ?w" using assms(1) by (simp add: output_inv_def)
    then show ?thesis using True assms(1) e
      by (auto simp: output_inv_def append_output_def kept_text_def intro: prefix_prefix)
  next
    case False
    then have "?w < sj_limit j" "sj_bytes j = ?w" "\<not> sj_cut j" using assms(1) by (auto simp: output_inv_def)
    have all: "map (\<lambda>c. (oc_stream c, oc_text c)) (sj_chunks j) = xs" "kept_text j = written xs"
      using assms(1) \<open>\<not> sj_cut j\<close> kept_all by (auto simp: output_inv_def)
    let ?k = "sj_limit j - ?w"
    obtain n where n: "utf8_decode_ignore (take ?k ?e) = take n t" "length (utf8_encode (take n t)) \<le> ?k"
      "length ?e \<le> ?k \<longrightarrow> n = length t"
      using decode_ignore_cut [OF assms(3), of ?k] by blast
    have le: "length (utf8_encode (take n t)) \<le> length ?e"
      by (metis append_take_drop_id length_append le_add1 utf8_encode_simps(3))
    have seq: "map oc_sequence (sj_chunks j) = [1..<Suc (length (sj_chunks j))]" using assms(1) by (simp add: output_inv_def)
    have app: "append_output s t j = (let j' = j\<lparr>sj_bytes := ?w + min ?k (length ?e), sj_cut := ?k < length ?e\<rparr> in
        if take n t = [] then j' else j'\<lparr>sj_chunks := sj_chunks j @ [\<lparr>oc_sequence = Suc (length (sj_chunks j)), oc_stream = s,
          oc_text = take n t, oc_truncated = ?k < length ?e\<rparr>]\<rparr>)"
      using False \<open>sj_bytes j = ?w\<close> \<open>\<not> sj_cut j\<close> n(1)
      by (simp add: append_output_def Let_def min_less_iff_disj min.commute)
    have kept: "kept_text (append_output s t j) = written xs @ take n t"
      unfolding app Let_def using all(2) by (auto simp: kept_text_def)
    have bytes: "sj_bytes (append_output s t j) = ?w + min ?k (length ?e)" "sj_cut (append_output s t j) = (?k < length ?e)"
      "sj_limit (append_output s t j) = sj_limit j"
      unfolding app Let_def by simp_all
    have chunks: "map oc_sequence (sj_chunks (append_output s t j)) = [1..<Suc (length (sj_chunks (append_output s t j)))]"
      unfolding app Let_def using seq by (cases "sj_chunks j = []") (auto simp: Suc_le_eq)
    have "map (\<lambda>c. (oc_stream c, oc_text c)) (sj_chunks (append_output s t j)) = xs @ [(s, t)]" if "length ?e \<le> ?k"
      unfolding app Let_def using n(3) that assms(2) all(1) by simp
    then show ?thesis unfolding output_inv_def kept bytes using chunks n(2) le \<open>?w < sj_limit j\<close>
      by (auto simp: take_is_prefix)
  qed
qed

text \<open>
  C39. The output of a job is exact up to its limit: whatever the process writes, the chunks are
  numbered without gaps, their text is a prefix of what was written and never exceeds the byte
  limit; the job is marked as truncated exactly if more was written than the limit, and otherwise
  every write is there, in order and on its stream.
\<close>

theorem output_exact:
  assumes "sj_chunks j = []" "sj_bytes j = 0" "\<not> sj_cut j"
    and "\<forall>(s, t)\<in>set xs. t \<noteq> [] \<and> list_all scalar t" "j' = appended xs j"
  shows "map oc_sequence (sj_chunks j') = [1..<Suc (length (sj_chunks j'))]
    \<and> prefix (kept_text j') (written xs) \<and> length (utf8_encode (kept_text j')) \<le> sj_limit j'
    \<and> sj_cut j' = (sj_limit j < length (utf8_encode (written xs)))
    \<and> (\<not> sj_cut j' \<longrightarrow> map (\<lambda>c. (oc_stream c, oc_text c)) (sj_chunks j') = xs)"
proof -
  have limit: "sj_limit (appended ys j) = sj_limit j" for ys
    unfolding appended_def by (induction ys rule: rev_induct) (auto simp: append_output_def Let_def)
  have "output_inv xs (appended xs j)"
    using assms(4)
  proof (induction xs rule: rev_induct)
    case Nil
    then show ?case using assms(1-3) by (simp add: appended_def output_inv_def kept_text_def)
  next
    case (snoc x xs)
    obtain s t where x: "x = (s, t)" by fastforce
    have "appended (xs @ [(s, t)]) j = append_output s t (appended xs j)" by (simp add: appended_def)
    then show ?case unfolding x using append_output_inv [of xs "appended xs j" t s] snoc x by auto
  qed
  then show ?thesis unfolding assms(5) output_inv_def using limit by auto
qed

definition example_job :: "nat \<Rightarrow> shell_job" where
  "example_job limit = \<lparr>sj_id = lit ''job'', sj_project = lit ''p'', sj_key = lit ''k'', sj_digest = lit ''d'',
     sj_binding = example_binding, sj_epoch = 1, sj_timeout = 300, sj_limit = limit, sj_resource = lit ''r'',
     sj_state = JOB_RUNNING, sj_chunks = [], sj_bytes = 0, sj_cut = False, sj_exit = None\<rparr>"

text \<open>The Euro sign has three bytes; two of them fit, and no part of it is kept.\<close>

theorem output_exact_witness:
  "let j = appended [(lit ''stdout'', lit ''ok''), (lit ''stderr'', [8364])] (example_job 4) in
   sj_cut j \<and> kept_text j = lit ''ok'' \<and> prefix (kept_text j) (lit ''ok'' @ [8364])"
proof -
  let ?xs = "[(lit ''stdout'', lit ''ok''), (lit ''stderr'', [8364])]"
  have j: "sj_chunks (example_job 4) = []" "sj_bytes (example_job 4) = 0" "\<not> sj_cut (example_job 4)"
    by (simp_all add: example_job_def)
  have xs: "\<forall>(s, t)\<in>set ?xs. t \<noteq> [] \<and> list_all scalar t" by code_simp
  have w: "written ?xs = lit ''ok'' @ [8364]" by code_simp
  have "kept_text (appended ?xs (example_job 4)) = lit ''ok''" "sj_cut (appended ?xs (example_job 4))" by code_simp+
  then show ?thesis unfolding Let_def using output_exact [OF j xs refl] unfolding w by blast
qed

text \<open>
  A character that straddles two reads of the pipe is lost: each block is decoded on its own.
\<close>

lemma split_character_lost:
  "utf8_decode (concat [[226, 130], [172]]) = Some [8364]"
  "kept_text (capture (lit ''stdout'') [[226, 130], [172]] (example_job 1024)) = [65533, 65533]"
  by code_simp+

section \<open>Polling\<close>

abbreviation text_bytes :: "output_chunk list \<Rightarrow> nat" where
  "text_bytes cs \<equiv> length (utf8_encode (concat (map oc_text cs)))"

definition numbered :: "shell_job \<Rightarrow> bool" where
  "numbered j \<longleftrightarrow> map oc_sequence (sj_chunks j) = [1..<Suc (length (sj_chunks j))]"

lemma page_rest_take:
  "\<exists>m\<le>length cs. page_rest limit used cs = take m cs \<and> (used \<le> limit \<longrightarrow> used + text_bytes (take m cs) \<le> limit)
     \<and> (limit < used + text_bytes (take m cs) \<longrightarrow> m = 0)"
proof (induction cs arbitrary: used)
  case (Cons c cs)
  let ?n = "length (utf8_encode (oc_text c))"
  show ?case
  proof (cases "limit < used + ?n")
    case True
    then show ?thesis by (intro exI [of _ 0]) auto
  next
    case False
    obtain m where "m \<le> length cs" "page_rest limit (used + ?n) cs = take m cs"
      "used + ?n \<le> limit \<longrightarrow> used + ?n + text_bytes (take m cs) \<le> limit"
      using Cons.IH [of "used + ?n"] by auto
    then show ?thesis using False by (intro exI [of _ "Suc m"]) (auto simp: Let_def)
  qed
qed simp

lemma page_take:
  assumes "cs \<noteq> []"
  shows "\<exists>m. 1 \<le> m \<and> m \<le> length cs \<and> page limit cs = take m cs \<and> (m = 1 \<or> text_bytes (take m cs) \<le> limit)"
proof -
  obtain c cs' where cs: "cs = c # cs'" using assms by (cases cs) auto
  obtain m where m: "m \<le> length cs'" "page_rest limit (length (utf8_encode (oc_text c))) cs' = take m cs'"
    "limit < length (utf8_encode (oc_text c)) + text_bytes (take m cs') \<longrightarrow> m = 0"
    using page_rest_take [of cs' limit "length (utf8_encode (oc_text c))"] by auto
  show ?thesis using m by (intro exI [of _ "Suc m"]) (auto simp: cs page_def)
qed

lemma numbered_nth: "numbered j \<Longrightarrow> i < length (sj_chunks j) \<Longrightarrow> oc_sequence (sj_chunks j ! i) = Suc i"
  unfolding numbered_def by (metis add.commute length_map nth_map nth_upt One_nat_def Suc_less_eq plus_1_eq_Suc)

lemma poll_page:
  assumes "numbered j" "cursor < length (sj_chunks j)"
  shows "\<exists>m. 1 \<le> m \<and> cursor + m \<le> length (sj_chunks j) \<and> poll_chunks cursor limit j = take m (drop cursor (sj_chunks j))
    \<and> next_cursor cursor limit j = cursor + m
    \<and> (m = 1 \<or> text_bytes (poll_chunks cursor limit j) \<le> limit)"
proof -
  let ?cs = "drop cursor (sj_chunks j)"
  have "?cs \<noteq> []" using assms(2) by simp
  from page_take [OF this, of limit] obtain m where m: "1 \<le> m" "m \<le> length ?cs" "page limit ?cs = take m ?cs"
    "m = 1 \<or> text_bytes (take m ?cs) \<le> limit"
    by blast
  have p: "poll_chunks cursor limit j = take m ?cs" using m(3) assms(2) by (simp add: poll_chunks_def)
  have "last (take m ?cs) = ?cs ! (m - 1)" using m(1,2) by (subst last_conv_nth) auto
  also have "\<dots> = sj_chunks j ! (cursor + (m - 1))" using m(1,2) assms(2) by (intro nth_drop) simp
  finally have "oc_sequence (last (take m ?cs)) = cursor + m"
    using numbered_nth [OF assms(1), of "cursor + (m - 1)"] m(1,2) assms(2) by simp
  moreover have "take m ?cs \<noteq> []" using m(1) assms(2) by simp
  ultimately have "next_cursor cursor limit j = cursor + m" by (simp add: next_cursor_def p Let_def)
  then show ?thesis using m p assms(2) by (intro exI [of _ m]) auto
qed

text \<open>A client that polls until nothing more is announced, at most \<open>n\<close> times.\<close>

primrec drain :: "nat \<Rightarrow> nat \<Rightarrow> nat \<Rightarrow> shell_job \<Rightarrow> output_chunk list option" where
  "drain 0 cursor limit j = None"
| "drain (Suc n) cursor limit j =
     (if next_cursor cursor limit j < length (sj_chunks j)
      then map_option (\<lambda>cs. poll_chunks cursor limit j @ cs) (drain n (next_cursor cursor limit j) limit j)
      else Some (poll_chunks cursor limit j))"

text \<open>
  C40. Polling makes progress and ends: from any cursor within a job's output, whatever the page
  limit, following the announced cursor takes at most one poll per chunk left, and the pages
  together are the chunks from the cursor on, each once and in order.
\<close>

theorem polling_complete:
  assumes "numbered j" "cursor \<le> length (sj_chunks j)" "length (sj_chunks j) - cursor < n"
  shows "drain n cursor limit j = Some (drop cursor (sj_chunks j))"
  using assms
proof (induction n arbitrary: cursor)
  case (Suc n)
  show ?case
  proof (cases "cursor = length (sj_chunks j)")
    case True
    then show ?thesis by (simp add: next_cursor_def poll_chunks_def page_def)
  next
    case False
    then obtain m where m: "1 \<le> m" "cursor + m \<le> length (sj_chunks j)"
      "poll_chunks cursor limit j = take m (drop cursor (sj_chunks j))" "next_cursor cursor limit j = cursor + m"
      using poll_page [OF Suc.prems(1), of cursor limit] Suc.prems(2) by auto
    have "drain n (cursor + m) limit j = Some (drop (cursor + m) (sj_chunks j))" if "cursor + m < length (sj_chunks j)"
      using Suc.IH [of "cursor + m"] Suc.prems m(1,2) that by simp
    moreover have "take m (drop cursor (sj_chunks j)) @ drop (cursor + m) (sj_chunks j) = drop cursor (sj_chunks j)"
      using append_take_drop_id [of m "drop cursor (sj_chunks j)"] by (simp add: add.commute)
    moreover have "drop cursor (sj_chunks j) = take m (drop cursor (sj_chunks j))" if "cursor + m = length (sj_chunks j)"
      using that by simp
    ultimately show ?thesis unfolding drain.simps m(3,4) using m(2) by (cases "cursor + m = length (sj_chunks j)") auto
  qed
qed simp

theorem polling_complete_witness:
  "let j = appended [(lit ''stdout'', lit ''one''), (lit ''stderr'', lit ''two''), (lit ''stdout'', lit ''three'')] (example_job 1024) in
   drain 4 0 5 j = Some (sj_chunks j) \<and> length (poll_chunks 0 5 j) = 1"
proof -
  let ?j = "appended [(lit ''stdout'', lit ''one''), (lit ''stderr'', lit ''two''), (lit ''stdout'', lit ''three'')] (example_job 1024)"
  have "numbered ?j" "0 \<le> length (sj_chunks ?j)" "length (sj_chunks ?j) - 0 < 4" by code_simp+
  from polling_complete [OF this, of 5] have "drain 4 0 5 ?j = Some (sj_chunks ?j)" by simp
  moreover have "length (poll_chunks 0 5 ?j) = 1" by code_simp
  ultimately show ?thesis by simp
qed

text \<open>
  The terminal record of a job is its first page of 256 KiB.  Once the job has left memory a client
  is told that this page is everything: the rest of the output is gone without a mark.
\<close>

lemma durable_poll_ends_early:
  assumes "numbered j" "2 \<le> length (sj_chunks j)" "DEFAULT_PAGE < text_bytes (sj_chunks j)"
  shows "\<exists>n < length (sj_chunks j).
    jget ''available_sequence_cursor'' (page_durable_result (poll_result 0 DEFAULT_PAGE j) c limit) = Some (JInt (int n))
    \<and> jget ''output_truncated'' (page_durable_result (poll_result 0 DEFAULT_PAGE j) c limit) = Some (JBool (sj_cut j))"
proof -
  have "0 < length (sj_chunks j)" using assms(2) by linarith
  from poll_page [OF assms(1) this, of DEFAULT_PAGE]
  obtain m where m: "1 \<le> m" "0 + m \<le> length (sj_chunks j)" "poll_chunks 0 DEFAULT_PAGE j = take m (drop 0 (sj_chunks j))"
    "m = 1 \<or> text_bytes (poll_chunks 0 DEFAULT_PAGE j) \<le> DEFAULT_PAGE"
    by blast
  then have "m < length (sj_chunks j)" using assms(2,3) by (cases "m = length (sj_chunks j)") auto
  moreover have "jget ''chunks'' (poll_result 0 DEFAULT_PAGE j) = Some (JList (map chunk_dict (take m (sj_chunks j))))"
    using m(3) by (simp add: poll_result_def jget_def lit_def)
  ultimately show ?thesis using m(2)
    by (intro exI [of _ m]) (simp add: page_durable_result_def Let_def poll_result_def jget_def dict_set_def lit_def)
qed

end
