(* ===== verification/Shell_Policy.thy ===== *)
theory Shell_Policy
  imports Action_Digest
begin

text \<open>
  The cooperative review of command lines (\<open>agent/src/codito_agent/shell_policy.py\<close>): which literal
  references of a command point outside the project, and which constructs make it uncertain.  The
  regular expressions are written out as the searches they perform.  What the Unicode database says
  is a parameter: \<open>uc_word\<close> is \<open>\w\<close>, \<open>uc_lower\<close> and \<open>uc_casefold\<close> are the string methods.  The fields of a
  command that are not text are refused before anything happens and do not appear here.
\<close>

record unicode =
  uc_word :: "nat \<Rightarrow> bool"
  uc_lower :: "pystr \<Rightarrow> pystr"
  uc_casefold :: "pystr \<Rightarrow> pystr"

section \<open>\<open>PureWindowsPath\<close>\<close>

text \<open>The parts of a path with a drive and a root, and its text.\<close>

definition windows_parts :: "pystr \<Rightarrow> pystr list" where
  "windows_parts v = take 2 v # filter (\<lambda>c. c \<noteq> [] \<and> c \<noteq> [46]) (split_on 47 (slashes (drop 3 v)))"

definition path_text :: "pystr list \<Rightarrow> pystr" where
  "path_text ps = (case ps of [] \<Rightarrow> [] | d # cs \<Rightarrow> d @ [92] @ join [92] cs)"

text \<open>\<open>is_relative_to\<close>: the other path is this one or one of its parents, case ignored.\<close>

definition is_relative_to :: "unicode \<Rightarrow> pystr list \<Rightarrow> pystr list \<Rightarrow> bool" where
  "is_relative_to u ps other \<longleftrightarrow>
     list_ex (\<lambda>k. uc_lower u (path_text (take (Suc k) ps)) = uc_lower u (path_text other)) [0..<length ps]"

text \<open>What follows drive and root, for any text: \<open>ntpath.splitroot\<close>.\<close>

definition after_sep :: "pystr \<Rightarrow> pystr option" where
  "after_sep s = (case dropWhile (\<lambda>c. c \<noteq> 47) s of [] \<Rightarrow> None | _ # r \<Rightarrow> Some r)"

definition windows_rest :: "pystr \<Rightarrow> pystr" where
  "windows_rest t =
     (let s = slashes t in
      if startswith s [47, 47] then
        (case after_sep (drop (if ascii_upper (take 8 s) = lit ''//?/UNC/'' then 8 else 2) s) of
           None \<Rightarrow> []
         | Some r \<Rightarrow> (case after_sep r of None \<Rightarrow> [] | Some r' \<Rightarrow> r'))
      else if take 1 (drop 1 s) = [58] then drop 2 s
      else s)"

definition windows_name :: "pystr \<Rightarrow> pystr" where
  "windows_name t =
     (case filter (\<lambda>c. c \<noteq> [] \<and> c \<noteq> [46]) (split_on 47 (windows_rest t)) of [] \<Rightarrow> [] | cs \<Rightarrow> last cs)"

definition windows_stem :: "pystr \<Rightarrow> pystr" where
  "windows_stem t =
     (let name = windows_name t; ext = takeWhile (\<lambda>c. c \<noteq> 46) (rev name); i = length name - length ext - 1 in
      if 46 \<in> set name \<and> 0 < i \<and> i < length name - 1 then take i name else name)"

section \<open>Searches\<close>

definition path_char :: "nat \<Rightarrow> bool" where
  "path_char c \<longleftrightarrow> \<not> is_space c \<and> c \<notin> {39, 34, 59, 124, 60, 62}"

definition is_quote :: "nat \<Rightarrow> bool" where
  "is_quote c \<longleftrightarrow> c = 34 \<or> c = 39"

definition is_sep :: "nat \<Rightarrow> bool" where
  "is_sep c \<longleftrightarrow> c = 47 \<or> c = 92"

definition drive_root :: "pystr \<Rightarrow> bool" where
  "drive_root s = (case s of a # b # c # _ \<Rightarrow> ascii_letter a \<and> b = 58 \<and> is_sep c | _ \<Rightarrow> False)"

definition run_of :: "pystr \<Rightarrow> pystr" where
  "run_of s = take 3 s @ takeWhile path_char (drop 3 s)"

text \<open>\<open>findall\<close> of a drive, a separator and what follows up to a space, quote or operator.\<close>

function drive_runs :: "pystr \<Rightarrow> pystr list" where
  "drive_runs s =
     (if s = [] then []
      else if drive_root s then run_of s # drive_runs (dropWhile path_char (drop 3 s))
      else drive_runs (tl s))"
  by pat_completeness auto
termination
  by (relation "measure length") (auto simp: drive_root_def intro: le_less_trans [OF length_dropWhile_le] split: list.splits)

declare drive_runs.simps [simp del]

text \<open>\<open>findall\<close> of the same between two quotes, up to the closing one.\<close>

function quoted_runs :: "pystr \<Rightarrow> pystr list" where
  "quoted_runs s =
     (if s = [] then []
      else
        let t = tl s; run = takeWhile (\<lambda>c. \<not> is_quote c) (drop 3 t); rest = dropWhile (\<lambda>c. \<not> is_quote c) (drop 3 t) in
        if is_quote (hd s) \<and> drive_root t \<and> run \<noteq> [] \<and> rest \<noteq> []
        then (take 3 t @ run) # quoted_runs (tl rest)
        else quoted_runs t)"
  by pat_completeness auto
termination
proof (relation "measure length")
  fix s t run rest
  assume "s \<noteq> []" "t = tl s" "rest = dropWhile (\<lambda>c. \<not> is_quote c) (drop 3 t)"
  then have "length (tl rest) \<le> length t" using length_dropWhile_le [of "\<lambda>c. \<not> is_quote c" "drop 3 t"] by auto
  then show "(tl rest, s) \<in> measure length" using \<open>s \<noteq> []\<close> \<open>t = tl s\<close> by (cases s) auto
qed auto

declare quoted_runs.simps [simp del]

definition at_start :: "pystr \<Rightarrow> nat \<Rightarrow> bool" where
  "at_start t i \<longleftrightarrow> i = 0 \<or> is_space (t ! (i - 1)) \<or> is_quote (t ! (i - 1)) \<or> t ! (i - 1) = 61"

definition parent_reference :: "pystr \<Rightarrow> bool" where
  "parent_reference t \<longleftrightarrow> list_ex (\<lambda>i. at_start t i \<and> take 2 (drop i t) = [46, 46]
     \<and> (case drop (i + 2) t of [] \<Rightarrow> True | [c] \<Rightarrow> is_sep c \<or> c = 10 | c # _ \<Rightarrow> is_sep c)) [0..<length t]"

definition loose_drive :: "pystr \<Rightarrow> bool" where
  "loose_drive t \<longleftrightarrow> list_ex (\<lambda>i. ascii_letter (t ! i) \<and> take 1 (drop (i + 1) t) = [58]
     \<and> (case drop (i + 2) t of [] \<Rightarrow> True | c # _ \<Rightarrow> \<not> is_sep c)) [0..<length t]"

definition root_reference :: "pystr \<Rightarrow> bool" where
  "root_reference t \<longleftrightarrow> list_ex (\<lambda>i. at_start t i \<and> is_sep (t ! i)
     \<and> (case drop (i + 1) t of [] \<Rightarrow> True | c # _ \<Rightarrow> \<not> is_sep c)) [0..<length t]"

section \<open>References outside the project\<close>

definition text_field :: "string \<Rightarrow> json \<Rightarrow> pystr" where
  "text_field k j = (case jget k j of Some (JStr s) \<Rightarrow> s | _ \<Rightarrow> [])"

definition texts_of :: "json list \<Rightarrow> pystr list" where
  "texts_of vs = concat (map (\<lambda>v. case v of JStr s \<Rightarrow> [s] | _ \<Rightarrow> []) vs)"

definition arguments_of :: "json \<Rightarrow> pystr list" where
  "arguments_of command = (case jget ''arguments'' command of Some (JList vs) \<Rightarrow> texts_of vs | _ \<Rightarrow> [])"

definition command_texts :: "json \<Rightarrow> pystr list" where
  "command_texts command = [text_field ''script'' command, text_field ''executable'' command] @ arguments_of command
     @ (case jget ''environment'' command of Some (JObj kvs) \<Rightarrow> texts_of (map snd kvs) | _ \<Rightarrow> [])"

definition marks :: "pystr \<Rightarrow> pystr list" where
  "marks t =
     (if parent_reference t then [lit ''parent-relative reference (review exact command)''] else [])
     @ (if contains t [92, 92] \<or> loose_drive t then [lit ''UNC/device/drive-relative reference (review exact command)''] else [])
     @ (if root_reference t then [lit ''root-relative reference (review exact command)''] else [])"

definition outside :: "unicode \<Rightarrow> pystr list \<Rightarrow> pystr list \<Rightarrow> bool" where
  "outside u project ps \<longleftrightarrow> \<not> is_relative_to u ps project \<or> [46, 46] \<in> set ps"

definition outside_references ::
  "unicode \<Rightarrow> abspath \<Rightarrow> abspath \<Rightarrow> json \<Rightarrow> pystr list \<Rightarrow> pystr list res" where
  "outside_references u project cwd command declared =
     bindE (foldE (\<lambda>acc p. bindE (normalize_read_scope p) (\<lambda>v. Inr (acc @ [v]))) [] declared) (\<lambda>scopes.
       let texts = command_texts command;
           paths = cwd # map windows_parts (scopes @ concat (map (\<lambda>t. drive_runs t @ quoted_runs t) texts)) in
       Inr (sorted_list_of_set (set (concat (map marks texts) @ map path_text (filter (outside u project) paths)))))"

section \<open>Uncertain constructs\<close>

text \<open>A lower-case letter of the pattern against a character, case ignored as \<open>re.IGNORECASE\<close> does.\<close>

definition same_letter :: "nat \<Rightarrow> nat \<Rightarrow> bool" where
  "same_letter l c \<longleftrightarrow> c = l \<or> 97 \<le> l \<and> l \<le> 122 \<and> c = l - 32 \<or> l = 105 \<and> c \<in> {0x130, 0x131}
     \<or> l = 115 \<and> c = 0x17F \<or> l = 107 \<and> c = 0x212A"

definition word_at :: "unicode \<Rightarrow> pystr \<Rightarrow> pystr \<Rightarrow> nat \<Rightarrow> bool" where
  "word_at u w t i \<longleftrightarrow> list_all2 same_letter w (take (length w) (drop i t))
     \<and> (i = 0 \<or> \<not> uc_word u (t ! (i - 1))) \<and> (case drop (i + length w) t of [] \<Rightarrow> True | c # _ \<Rightarrow> \<not> uc_word u c)"

definition indirection_words :: "pystr list" where
  "indirection_words = map lit [''invoke-expression'', ''iex'', ''start-process'', ''new-object'', ''set-location'', ''pushd'',
     ''popd'', ''call'', ''start'']"

definition interpreters :: "pystr list" where
  "interpreters = map lit [''cmd'', ''powershell'', ''pwsh'', ''python'', ''python3'', ''py'', ''node'', ''perl'', ''ruby'',
     ''wscript'', ''cscript'', ''mshta'', ''bash'', ''sh'']"

definition inline_flags :: "pystr list" where
  "inline_flags = map lit [''/c'', ''/k'', ''-c'', ''-e'', ''-command'', ''-encodedcommand'', ''-enc'']"

definition script_reasons :: "unicode \<Rightarrow> pystr \<Rightarrow> pystr list" where
  "script_reasons u script =
     (if list_ex (\<lambda>c. c \<in> {36, 37, 96, 94}) script
      then [lit ''variable expansion or escaping may construct external access''] else [])
     @ (if list_ex (\<lambda>c. c \<in> {59, 38, 124, 60, 62, 40, 41, 123, 125, 13, 10}) script
        then [lit ''compound shell syntax requires local review''] else [])
     @ (if list_ex (\<lambda>w. list_ex (word_at u w script) [0..<length script]) indirection_words
        then [lit ''indirect execution or working-directory change requires review''] else [])
     @ (if 126 \<in> set script then [lit ''home-directory expansion may access files outside the project''] else [])"

definition uncertain_constructs :: "unicode \<Rightarrow> json \<Rightarrow> pystr list" where
  "uncertain_constructs u command =
     (if jget ''kind'' command = Some (JStr (lit ''script''))
      then sorted_list_of_set (set (script_reasons u (text_field ''script'' command)))
      else if jget ''kind'' command = Some (JStr (lit ''exec''))
        \<and> uc_casefold u (windows_stem (text_field ''executable'' command)) \<in> set interpreters
        \<and> list_ex (\<lambda>a. uc_casefold u a \<in> set inline_flags) (arguments_of command)
      then [lit ''interpreter inline code requires local review''] else [])"

section \<open>\<open>json.dumps\<close> with sorted keys and ASCII output\<close>

definition ascii_escape :: "nat \<Rightarrow> pystr" where
  "ascii_escape c =
     (if c \<in> {34, 92, 10, 13, 9, 12, 8} then escape_char c
      else if 32 \<le> c \<and> c \<le> 126 then [c]
      else if c < 0x10000 then [92, 117] @ hex_pad 4 c
      else [92, 117] @ hex_pad 4 (0xD800 + (c - 0x10000) div 1024) @ [92, 117] @ hex_pad 4 (0xDC00 + (c - 0x10000) mod 1024))"

definition ascii_string :: "pystr \<Rightarrow> pystr" where
  "ascii_string s = 34 # concat (map ascii_escape s) @ [34]"

text \<open>The separators between items and after keys are arguments.\<close>

fun ascii_dumps :: "pystr \<Rightarrow> pystr \<Rightarrow> json \<Rightarrow> pystr" where
  "ascii_dumps i k JNull = lit ''null''"
| "ascii_dumps i k (JBool b) = (if b then lit ''true'' else lit ''false'')"
| "ascii_dumps i k (JInt n) = py_str n"
| "ascii_dumps i k (JStr s) = ascii_string s"
| "ascii_dumps i k (JList xs) = 91 # join i (map (ascii_dumps i k) xs) @ [93]"
| "ascii_dumps i k (JObj kvs) =
     123 # join i (map (\<lambda>(n, t). ascii_string n @ k @ t) (sort_key fst (map (\<lambda>(n, v). (n, ascii_dumps i k v)) kvs))) @ [125]"

definition permission_scope :: "unicode \<Rightarrow> abspath \<Rightarrow> pystr list \<Rightarrow> pystr" where
  "permission_scope u cwd references =
     ascii_dumps [44, 32] [58, 32] (JObj [(lit ''cwd'', JStr (uc_casefold u (path_text cwd))),
       (lit ''references'', JList (map (\<lambda>p. JStr (uc_casefold u p)) references))])"

section \<open>What runs without review\<close>

lemma drop_run:
  assumes "drive_root s" shows "dropWhile path_char (drop 3 s) = drop (length (run_of s)) s"
proof -
  obtain a b c r where s: "s = a # b # c # r" using assms by (auto simp: drive_root_def split: list.splits)
  then have "length (run_of s) = Suc (Suc (Suc (length (takeWhile path_char r))))" by (simp add: run_of_def)
  then show ?thesis using s by (simp add: dropWhile_eq_drop)
qed

lemma drive_runs_cover:
  "i < length s \<Longrightarrow> drive_root (drop i s) \<Longrightarrow>
     \<exists>k\<le>i. i < k + length (run_of (drop k s)) \<and> drive_root (drop k s) \<and> run_of (drop k s) \<in> set (drive_runs s)"
proof (induction s arbitrary: i rule: drive_runs.induct)
  case (1 s)
  show ?case
  proof (cases "drive_root s")
    case True
    let ?L = "length (run_of s)"
    have runs: "drive_runs s = run_of s # drive_runs (drop ?L s)"
      using True "1.prems"(1) drop_run [OF True] by (subst drive_runs.simps) auto
    show ?thesis
    proof (cases "i < ?L")
      case True
      then show ?thesis using \<open>drive_root s\<close> runs by (intro exI [of _ 0]) simp
    next
      case False
      have "s \<noteq> []" using "1.prems"(1) by auto
      have "i - ?L < length (drop ?L s)" "drive_root (drop (i - ?L) (drop ?L s))" using "1.prems" False by auto
      from "1.IH"(1) [OF \<open>s \<noteq> []\<close> True, unfolded drop_run [OF True], OF this]
      obtain k where k: "k \<le> i - ?L" "i - ?L < k + length (run_of (drop k (drop ?L s)))" "drive_root (drop k (drop ?L s))"
        "run_of (drop k (drop ?L s)) \<in> set (drive_runs (drop ?L s))"
        by blast
      then show ?thesis using False runs by (intro exI [of _ "k + ?L"]) (auto simp: add.commute)
    qed
  next
    case False
    then have "i \<noteq> 0" using "1.prems"(2) by (cases i) auto
    then obtain i' where i: "i = Suc i'" by (cases i) auto
    have "s \<noteq> []" using "1.prems"(1) by auto
    have "i' < length (tl s)" "drive_root (drop i' (tl s))" using "1.prems" i \<open>s \<noteq> []\<close> by (auto simp: drop_Suc)
    from "1.IH"(2) [OF \<open>s \<noteq> []\<close> False this] obtain k where k: "k \<le> i'" "i' < k + length (run_of (drop k (tl s)))"
      "drive_root (drop k (tl s))" "run_of (drop k (tl s)) \<in> set (drive_runs (tl s))" by blast
    have "drive_runs s = drive_runs (tl s)" using False \<open>s \<noteq> []\<close> by (subst drive_runs.simps) auto
    then show ?thesis using k i by (intro exI [of _ "Suc k"]) (auto simp: drop_Suc)
  qed
qed


definition example_unicode :: unicode where
  "example_unicode = \<lparr>uc_word = \<lambda>c. ascii_letter c \<or> 48 \<le> c \<and> c \<le> 57 \<or> c = 95, uc_lower = ascii_lower, uc_casefold = ascii_lower\<rparr>"

definition example_exec :: "string \<Rightarrow> json" where
  "example_exec arg = JObj [(lit ''kind'', JStr (lit ''exec'')), (lit ''executable'', JStr (lit ''git'')),
     (lit ''arguments'', JList [JStr (lit arg)])]"


text \<open>
  A path outside that directly follows one inside, separated by a character that does not end a
  run such as a comma, is read as part of the path inside and is not reported.
\<close>

lemma hidden_outside_path:
  "outside_references example_unicode [lit ''C:'', lit ''work''] [lit ''C:'', lit ''work'']
     (example_exec ''C:/work/a,D:/secret/b'') [] = Inr []"
  by code_simp

end
