(* ===== verification/Shell_Start.thy ===== *)
theory Shell_Start
  imports Shell_Output Shell_Policy Project_Management Operation_Gate
begin

text \<open>
  Starting a shell job (\<open>ShellManager.start\<close> in \<open>agent/src/codito_agent/shell.py\<close>): the checks of the
  request, the review of the command, the environment and the specification handed to the broker,
  the approval request that names exactly this specification, and the locked section that admits
  the job.  The host is a record of what the code reads from the operating system; the answers of
  \<open>executable_identity\<close>, the broker's probe and the random identifiers come with the call.
\<close>

section \<open>Environment\<close>

record host =
  ho_os :: os_view
  ho_unicode :: unicode
  ho_upper :: "pystr \<Rightarrow> pystr"
  ho_system_root :: pystr
  ho_temp :: pystr
  ho_environ :: "(pystr \<times> pystr) list"
  ho_search :: pystr

definition env_put :: "pystr \<Rightarrow> pystr \<Rightarrow> (pystr \<times> pystr) list \<Rightarrow> (pystr \<times> pystr) list" where
  "env_put k v env =
     (if k \<in> fst ` set env then map (\<lambda>(k', v'). (k', if k' = k then v else v')) env else env @ [(k, v)])"

definition base_environment :: "host \<Rightarrow> (pystr \<times> pystr) list" where
  "base_environment h =
     (let r = ho_system_root h; s = r @ [92] @ lit ''System32'' in
      [(lit ''SystemRoot'', r), (lit ''WINDIR'', r), (lit ''COMSPEC'', s @ [92] @ lit ''cmd.exe''),
       (lit ''PATH'', join (lit '';'') [s, r, s @ [92] @ lit ''WindowsPowerShell'' @ [92] @ lit ''v1.0'']),
       (lit ''PATHEXT'', lit ''.COM;.EXE;.BAT;.CMD''), (lit ''TEMP'', ho_temp h), (lit ''TMP'', ho_temp h)])"

definition protected_names :: "pystr list" where
  "protected_names = map lit [''SYSTEMROOT'', ''WINDIR'', ''COMSPEC'', ''PATH'', ''PATHEXT'', ''TEMP'', ''TMP'']"

definition override :: "host \<Rightarrow> (pystr \<times> pystr) list \<Rightarrow> pystr \<times> json \<Rightarrow> (pystr \<times> pystr) list res" where
  "override h env = (\<lambda>(name, value).
     case value of
       JStr v \<Rightarrow>
         if name = [] \<or> 61 \<in> set name \<or> 0 \<in> set (name @ v) then Inl (raise ''invalid_request'')
         else if ho_upper h name \<in> set protected_names then Inl (raise ''invalid_request'')
         else if 128 < length name \<or> 8192 < length (utf8_encode v) then Inl (raise ''invalid_request'')
         else Inr (env_put name v env)
     | _ \<Rightarrow> Inl (raise ''invalid_request''))"

definition safe_environment :: "host \<Rightarrow> (pystr \<times> json) list \<Rightarrow> (pystr \<times> pystr) list res" where
  "safe_environment h explicit =
     (if 64 < length explicit then Inl (raise ''invalid_request'')
      else foldE (override h) (base_environment h) explicit)"

definition standard_names :: "pystr list" where
  "standard_names = map lit [''USERNAME'', ''USERPROFILE'', ''HOMEDRIVE'', ''HOMEPATH'', ''APPDATA'', ''LOCALAPPDATA'',
     ''PROGRAMDATA'', ''PROGRAMFILES'', ''PROGRAMFILES(X86)'', ''PROGRAMW6432'', ''COMMONPROGRAMFILES'', ''DOTNET_ROOT'',
     ''DOTNET_ROOT_X64'', ''CARGO_HOME'', ''RUSTUP_HOME'', ''JAVA_HOME'', ''GOPATH'', ''GOBIN'', ''NVM_HOME'', ''NVM_SYMLINK'']"

definition strip_quotes :: "pystr \<Rightarrow> pystr" where
  "strip_quotes s = rev (dropWhile (\<lambda>c. c = 34) (rev (dropWhile (\<lambda>c. c = 34) s)))"

definition is_absolute :: "pystr \<Rightarrow> bool" where
  "is_absolute t \<longleftrightarrow> take 2 (drop 1 (slashes t)) = [58, 47] \<or> startswith (slashes t) [47, 47]"

definition native_environment :: "host \<Rightarrow> (pystr \<times> json) list \<Rightarrow> (pystr \<times> pystr) list res" where
  "native_environment h explicit =
     bindE (safe_environment h explicit) (\<lambda>env.
       let kept = filter (\<lambda>(n, _). ho_upper h n \<in> set standard_names \<and> ho_upper h n \<notin> ho_upper h ` fst ` set explicit)
             (ho_environ h);
           env = fold (\<lambda>(n, v) env. env_put n v env) kept env;
           directories = map strip_quotes (filter (\<lambda>p. p \<noteq> [] \<and> is_absolute (strip_quotes p)) (split_on 59 (ho_search h)));
           path = rev (remdups (rev (the (map_of env (lit ''PATH'')) # directories))) in
       Inr (env_put (lit ''PATH'') (join (lit '';'') path) env))"

section \<open>The specification\<close>

record shell_specification =
  cs_root :: abspath
  cs_fingerprint :: pystr
  cs_directory :: abspath
  cs_command :: json
  cs_environment :: "(pystr \<times> pystr) list"
  cs_timeout :: int
  cs_limit :: int
  cs_nonce :: pystr
  cs_external :: bool

definition is_text :: "json \<Rightarrow> bool" where
  "is_text j = (case j of JStr _ \<Rightarrow> True | _ \<Rightarrow> False)"

definition command_spec :: "json \<Rightarrow> json res" where
  "command_spec command =
     (let invalid = Inl (raise ''invalid_request'') in
      if jget ''kind'' command = Some (JStr (lit ''exec'')) then
        (case (jget ''executable'' command, case jget ''arguments'' command of None \<Rightarrow> Some (JList []) | a \<Rightarrow> a) of
           (Some (JStr x), Some (JList args)) \<Rightarrow>
             if x = [] \<or> 0 \<in> set x \<or> \<not> list_all is_text args then invalid
             else Inr (JObj [(lit ''kind'', JStr (lit ''exec'')), (lit ''executable'', JStr x), (lit ''arguments'', JList args)])
         | _ \<Rightarrow> invalid)
      else if jget ''kind'' command = Some (JStr (lit ''script'')) then
        (case (jget ''shell'' command, jget ''script'' command) of
           (Some (JStr sh), Some (JStr s)) \<Rightarrow>
             if sh \<notin> {lit ''powershell'', lit ''cmd''} \<or> s = [] then invalid
             else if 262144 < length (utf8_encode s) \<or> 0 \<in> set s then invalid
             else Inr (JObj [(lit ''kind'', JStr (lit ''script'')), (lit ''shell'', JStr sh), (lit ''script'', JStr s)])
         | _ \<Rightarrow> invalid)
      else invalid)"

definition build_specification ::
  "host \<Rightarrow> pystr \<Rightarrow> project \<Rightarrow> abspath \<Rightarrow> json \<Rightarrow> int \<Rightarrow> int \<Rightarrow> bool \<Rightarrow> shell_specification res" where
  "build_specification h nonce pr dir command timeout limit native =
     (case (case jget ''environment'' command of None \<Rightarrow> Some (JObj []) | e \<Rightarrow> e) of
        Some (JObj explicit) \<Rightarrow>
          bindE (if native then native_environment h explicit else safe_environment h explicit) (\<lambda>env.
          bindE (command_spec command) (\<lambda>cmd.
            Inr \<lparr>cs_root = root pr, cs_fingerprint = root_fp pr, cs_directory = dir, cs_command = cmd, cs_environment = env,
                 cs_timeout = timeout, cs_limit = limit, cs_nonce = nonce, cs_external = False\<rparr>))
      | _ \<Rightarrow> Inl (raise ''invalid_request''))"

text \<open>What an approval is about: everything that determines the execution.\<close>

definition approved_execution ::
  "pystr \<Rightarrow> project_mode \<Rightarrow> shell_specification \<Rightarrow> json \<Rightarrow> pystr list \<Rightarrow> pystr list \<Rightarrow> json" where
  "approved_execution pid md sp executor references uncertainty =
     JObj [(lit ''project_id'', JStr pid), (lit ''mode'', JStr (mode_name md)), (lit ''command'', cs_command sp),
       (lit ''executor_identity'', executor), (lit ''working_directory'', JStr (path_text (cs_directory sp))),
       (lit ''environment'', JObj (map (\<lambda>(k, v). (k, JStr v)) (cs_environment sp))),
       (lit ''timeout_seconds'', JInt (cs_timeout sp)), (lit ''output_limit_bytes'', JInt (cs_limit sp)),
       (lit ''external_references'', JList (map JStr references)),
       (lit ''uncertainty_reasons'', JList (map JStr uncertainty))]"

section \<open>The request\<close>

text \<open>A call of \<open>start\<close> with the answers and instants it meets.\<close>

record start_call =
  st_grant :: pystr
  st_link :: pystr
  st_epoch :: int
  st_deadline :: nat
  st_nonce :: pystr
  st_approval_id :: pystr
  st_job_id :: pystr
  st_executor :: json
  st_probe :: "unit res"
  st_asked :: nat
  st_checked :: nat
  st_locked :: nat
  st_now :: nat

text \<open>The numbers of a request, whose schema has made sure that they are integers.\<close>

definition number_field :: "string \<Rightarrow> int \<Rightarrow> json \<Rightarrow> int res" where
  "number_field k i0 j = (case jget k j of None \<Rightarrow> Inr i0 | Some (JInt i) \<Rightarrow> Inr i | Some _ \<Rightarrow> Inl ValueError)"

definition digest_request :: "(bytes \<Rightarrow> pystr) \<Rightarrow> json \<Rightarrow> pystr" where
  "digest_request sha inp = sha (utf8_encode (ascii_dumps [44] [58] inp))"

text \<open>What \<open>_run_job\<close> is started with.\<close>

record plan =
  pl_project :: pystr
  pl_key :: pystr
  pl_digest :: pystr
  pl_binding :: binding
  pl_epoch :: int
  pl_resource :: pystr
  pl_command :: json
  pl_spec :: shell_specification
  pl_approval :: approval_request
  pl_generation :: nat
  pl_needs :: bool
  pl_reuse :: bool
  pl_external :: bool
  pl_original :: project_mode
  pl_mode :: project_mode
  pl_executor :: json
  pl_references :: "pystr list"
  pl_uncertainty :: "pystr list"
  pl_deadline :: nat

definition external_cwd :: "json \<Rightarrow> pystr option" where
  "external_cwd inp = (case jget ''external_working_directory'' inp of Some (JStr s) \<Rightarrow> Some s | _ \<Rightarrow> None)"

definition working_relative :: "json \<Rightarrow> pystr" where
  "working_relative inp =
     (case jget ''working_directory'' inp of Some (JStr []) \<Rightarrow> [46] | Some (JStr s) \<Rightarrow> s | _ \<Rightarrow> [46])"

definition working_path :: "(bytes \<Rightarrow> pystr) \<Rightarrow> host \<Rightarrow> project \<Rightarrow> json \<Rightarrow> abspath res" where
  "working_path sha h pr inp =
     (case external_cwd inp of
        Some s \<Rightarrow>
          if working_relative inp \<noteq> [46] then Inl (raise ''invalid_request'')
          else bindE (normalize_read_scope s) (\<lambda>v. Inr (windows_parts v))
      | None \<Rightarrow> bindE (resolve sha (ho_os h) pr (working_relative inp) True (Some True) False True)
                  (\<lambda>v. Inr (absolute v)))"

definition resource_key :: "(bytes \<Rightarrow> pystr) \<Rightarrow> host \<Rightarrow> project \<Rightarrow> abspath \<Rightarrow> pystr res" where
  "resource_key sha h pr dir =
     (if is_relative_to (ho_unicode h) dir (root pr) then Inr (root_fp pr) else root_fingerprint sha (ho_os h) dir)"

definition shell_summary :: "pystr \<Rightarrow> pystr list \<Rightarrow> pystr" where
  "shell_summary purpose uncertainty = purpose
     @ [10] @ lit ''Native execution has the logged-in user'' @ [39]
     @ lit ''s full filesystem and network authority; the working directory is not a security boundary.''
     @ (if uncertainty = [] then [] else [10] @ lit ''Review reason: '' @ join (lit ''; '') uncertainty)"

definition shell_approval ::
  "start_call \<Rightarrow> binding \<Rightarrow> project \<Rightarrow> pystr \<Rightarrow> nat \<Rightarrow> pystr \<Rightarrow> json \<Rightarrow> shell_specification \<Rightarrow> pystr list \<Rightarrow> pystr list \<Rightarrow> approval_request" where
  "shell_approval c b pr dg deadline purpose command sp references uncertainty =
     \<lparr>ap_id = st_approval_id c, ap_binding = b, ap_project = project_id pr, ap_title = title pr,
      ap_capability = lit ''shell:execute'', ap_digest = dg, ap_epoch = st_epoch c, ap_deadline = deadline, ap_aware = True,
      ap_risk = NATIVE_EXECUTION, ap_summary = shell_summary purpose uncertainty,
      ap_command = Some (JObj (dict_set (lit ''resolved_executor_identity'') (st_executor c)
        (case command of JObj kvs \<Rightarrow> kvs | _ \<Rightarrow> []))),
      ap_patch = None, ap_directory = Some (path_text (cs_directory sp)), ap_environment = Some (cs_environment sp),
      ap_network = True, ap_external = references, ap_session = False, ap_keep_read = False, ap_keep_shell = False,
      ap_keep_screen = False\<rparr>"

text \<open>
  The checks of lines 280 to 309, in their order: the fields of the request with project, key,
  purpose, command, timeout and output limit.
\<close>

definition request_fields :: "json \<Rightarrow> (pystr \<times> pystr \<times> pystr \<times> json \<times> int \<times> int) res" where
  "request_fields inp =
     (case (jget ''project_id'' inp, jget ''idempotency_key'' inp) of
        (Some (JStr pid), Some (JStr key)) \<Rightarrow>
          (case (jget ''purpose'' inp, jget ''command'' inp) of
             (Some (JStr purpose), Some (JObj kvs)) \<Rightarrow>
               bindE (raise_if (purpose = [] \<or> 1000 < length purpose) (raise ''invalid_request'')) (\<lambda>_.
               bindE (number_field ''timeout_seconds'' 300 inp) (\<lambda>timeout.
               bindE (number_field ''output_limit_bytes'' 2097152 inp) (\<lambda>limit.
               bindE (raise_if (\<not> (1 \<le> timeout \<and> timeout \<le> 1800)) (raise ''invalid_request'')) (\<lambda>_.
               bindE (raise_if (\<not> (1024 \<le> limit \<and> limit \<le> 10485760)) (raise ''invalid_request'')) (\<lambda>_.
                 Inr (pid, key, purpose, JObj kvs, timeout, limit))))))
           | _ \<Rightarrow> Inl (raise ''invalid_request''))
      | _ \<Rightarrow> Inl (raise ''invalid_request''))"

definition declared_paths :: "json \<Rightarrow> pystr list" where
  "declared_paths inp = (case jget ''requested_external_paths'' inp of Some (JList vs) \<Rightarrow> texts_of vs | _ \<Rightarrow> [])"

definition execution_mode :: "project \<Rightarrow> json \<Rightarrow> project_mode res" where
  "execution_mode pr inp =
     (case jget ''execution'' inp of
        None \<Rightarrow> Inr (mode pr)
      | Some (JStr s) \<Rightarrow>
          if s = lit ''project_policy'' then Inr (mode pr)
          else if s = lit ''native_approval'' then Inr NATIVE_APPROVAL
          else Inl (raise ''invalid_request'')
      | Some _ \<Rightarrow> Inl (raise ''invalid_request''))"

definition wait_fields :: "json \<Rightarrow> int res" where
  "wait_fields inp =
     bindE (number_field ''approval_timeout_seconds'' 180 inp) (\<lambda>a.
     bindE (number_field ''start_wait_milliseconds'' 30000 inp) (\<lambda>w.
       if \<not> (15 \<le> a \<and> a \<le> 300) then Inl (raise ''invalid_request'')
       else if \<not> (0 \<le> w \<and> w \<le> 30000) then Inl (raise ''invalid_request'')
       else Inr a))"

text \<open>
  \<open>start\<close> up to the locked section, for a key that is not in the journal.
\<close>

definition plan_start ::
  "(bytes \<Rightarrow> pystr) \<Rightarrow> host \<Rightarrow> start_call \<Rightarrow> binding \<Rightarrow> json \<Rightarrow> project \<Rightarrow> project_mode \<Rightarrow> nat \<Rightarrow> plan res" where
  "plan_start sha h c b inp pr md generation =
     bindE (request_fields inp) (\<lambda>(pid, key, purpose, command, timeout, limit).
     bindE (wait_fields inp) (\<lambda>approval_timeout.
     bindE (working_path sha h pr inp) (\<lambda>dir.
     bindE (resource_key sha h pr dir) (\<lambda>resource.
     bindE (outside_references (ho_unicode h) (root pr) dir command (declared_paths inp)) (\<lambda>references.
     let uncertainty = uncertain_constructs (ho_unicode h) command in
     bindE (project_access_policy (pr\<lparr>mode := md\<rparr>) (external_cwd inp = None \<and> references = []) (uncertainty \<noteq> [])) (\<lambda>pol.
     bindE (build_specification h (st_nonce c) pr dir command timeout limit (md \<noteq> ISOLATED)) (\<lambda>sp.
     bindE (st_probe c) (\<lambda>_.
     bindE (compute_action_digest sha (approved_execution pid md sp (st_executor c) references uncertainty)) (\<lambda>dg.
     let deadline = (if requires_approval pol then st_asked c + nat approval_timeout * 1000000 else st_deadline c);
         rq = shell_approval c b pr dg deadline purpose command sp references uncertainty in
     if st_deadline c \<le> st_checked c then Inl (raise ''deadline_exceeded'')
     else Inr \<lparr>pl_project = pid, pl_key = key, pl_digest = digest_request sha inp, pl_binding = b,
       pl_epoch = st_epoch c, pl_resource = resource, pl_command = command, pl_spec = sp, pl_approval = rq,
       pl_generation = generation, pl_needs = requires_approval pol, pl_reuse = allow_saved pol,
       pl_external = (external_cwd inp \<noteq> None), pl_original = mode pr, pl_mode = md, pl_executor = st_executor c,
       pl_references = references, pl_uncertainty = uncertainty, pl_deadline = st_deadline c\<rparr>)))))))))"

section \<open>The manager\<close>

text \<open>How a job came to be allowed, with the request that was answered.\<close>

datatype consent = Unneeded | Saved approval_request | Answered approval_request prompt_outcome

text \<open>The points at which \<open>_run_job\<close> can be interrupted by other coroutines.\<close>

datatype phase =
    Created | Prompting ticket | Ready | Checked | Enabled | Launching | Running | Draining | Finishing | Released | Journaled | Done

text \<open>
  A job with its process (the return code inside) and its coroutine: \<open>jc_cancel\<close> is a requested and not
  yet delivered cancellation, \<open>jc_cancelling\<close> the calls of \<open>cancel\<close> that wait for the process to end,
  \<open>jc_killer\<close> a running grace timer and \<open>jc_killing\<close> one that waits for the process to end;
  \<open>jc_consent\<close> is history.
\<close>

record job_cell =
  jc_job :: shell_job
  jc_plan :: plan
  jc_phase :: phase
  jc_process :: "int option option"
  jc_cancel :: bool
  jc_cancelling :: nat
  jc_killer :: bool
  jc_killing :: bool
  jc_consent :: "consent option"

text \<open>A call of the process starter, with the project's mode and the executable found just before.\<close>

record launch =
  la_plan :: plan
  la_mode :: project_mode
  la_executor :: json
  la_spec :: shell_specification
  la_consent :: "consent option"

text \<open>\<open>sm_starting\<close> are the calls of \<open>start\<close> that wait for the lock; \<open>sm_launches\<close> is history.\<close>

record shell_manager =
  sm_account :: pystr
  sm_device :: pystr
  sm_starting :: "(start_call \<times> plan) list"
  sm_jobs :: "(pystr \<times> job_cell) list"
  sm_terminal :: "pystr list"
  sm_gate :: operation_gate
  sm_approvals :: manager
  sm_launches :: "launch list"

text \<open>The manager and the approvals share one database.\<close>

definition shell_db :: "shell_manager \<Rightarrow> db" where
  "shell_db m = (case am_db (sm_approvals m) of Some d \<Rightarrow> d | None \<Rightarrow> empty_db)"

definition set_db :: "db \<Rightarrow> shell_manager \<Rightarrow> shell_manager" where
  "set_db d m = m\<lparr>sm_approvals := (sm_approvals m)\<lparr>am_db := Some d\<rparr>\<rparr>"

definition new_shell :: "pystr \<Rightarrow> pystr \<Rightarrow> operation_gate \<Rightarrow> manager \<Rightarrow> shell_manager" where
  "new_shell account device g am = \<lparr>sm_account = account, sm_device = device, sm_starting = [], sm_jobs = [], sm_terminal = [], sm_gate = g,
     sm_approvals = am, sm_launches = []\<rparr>"

definition start_response :: "shell_job \<Rightarrow> json" where
  "start_response j = JObj [(lit ''action'', JStr (lit ''start'')), (lit ''project_id'', JStr (sj_project j)),
     (lit ''job_id'', JStr (sj_id j)), (lit ''state'', JStr (state_text (sj_state j))), (lit ''connection_epoch'', JInt (sj_epoch j))]"

definition existing_start :: "pystr \<times> operation_state \<times> json option \<Rightarrow> pystr \<Rightarrow> shell_manager \<Rightarrow> json res" where
  "existing_start = (\<lambda>(dg, _, result) digest m.
     if dg \<noteq> digest then Inl (raise ''idempotency_conflict'')
     else case Option.bind result (jget ''job_id'') of
       Some (JStr jid) \<Rightarrow>
         (case map_of (sm_jobs m) jid of Some c \<Rightarrow> Inr (start_response (jc_job c)) | None \<Rightarrow> Inl (raise ''outcome_unknown''))
     | _ \<Rightarrow> Inl (raise ''outcome_unknown''))"

definition shell_owner :: "pystr \<Rightarrow> pystr" where
  "shell_owner key = lit ''shell:'' @ key"

definition new_job :: "start_call \<Rightarrow> plan \<Rightarrow> shell_job" where
  "new_job c p = \<lparr>sj_id = lit ''job_'' @ st_job_id c, sj_project = pl_project p, sj_key = pl_key p, sj_digest = pl_digest p,
     sj_binding = pl_binding p, sj_epoch = pl_epoch p, sj_timeout = nat (cs_timeout (pl_spec p)),
     sj_limit = nat (cs_limit (pl_spec p)), sj_resource = pl_resource p,
     sj_state = (if pl_needs p then PENDING_APPROVAL else QUEUED), sj_chunks = [], sj_bytes = 0, sj_cut = False, sj_exit = None\<rparr>"

text \<open>The locked section: the job is in the journal before its coroutine exists.\<close>

definition admit_start :: "start_call \<Rightarrow> plan \<Rightarrow> shell_manager \<Rightarrow> json res \<times> shell_manager" where
  "admit_start c p m =
     (case ensure_current (st_locked c) (pl_generation p) (pl_deadline p) (sm_approvals m) of
        Inl e \<Rightarrow> (Inl e, m)
      | Inr _ \<Rightarrow>
          if pl_deadline p \<le> st_locked c then (Inl (raise ''deadline_exceeded''), m)
          else
            (case get_idempotency (pl_project p) SHELL (pl_key p) (pl_binding p) (shell_db m) of
               Inl e \<Rightarrow> (Inl e, m)
             | Inr (Some prior) \<Rightarrow> (existing_start prior (pl_digest p) m, m)
             | Inr None \<Rightarrow>
                 (case reserve (pl_resource p) (shell_owner (pl_key p)) (sm_gate m) of
                    Inl e \<Rightarrow> (Inl e, m)
                  | Inr g \<Rightarrow>
                      let j = new_job c p in
                      (case put_idempotency (st_now c) (pl_project p) SHELL (pl_key p) (pl_digest p) RUNNING
                              (Some (start_response j)) (pl_binding p) (shell_db m) of
                         (Inl e, d) \<Rightarrow>
                           (Inl e, set_db d (m\<lparr>sm_gate := release (pl_resource p) (shell_owner (pl_key p)) g\<rparr>))
                       | (Inr _, d) \<Rightarrow>
                           (Inr (start_response j), set_db d (m\<lparr>sm_gate := g,
                              sm_jobs := sm_jobs m @ [(sj_id j, \<lparr>jc_job = j, jc_plan = p, jc_phase = Created, jc_process = None,
                                jc_cancel = False, jc_cancelling = 0, jc_killer = False, jc_killing = False, jc_consent = None\<rparr>)]\<rparr>))))))"

text \<open>
  \<open>start\<close> up to the locked section.  \<open>Inl\<close> is the answer of a key that is in the journal already.
\<close>

definition prepare_start ::
  "(bytes \<Rightarrow> pystr) \<Rightarrow> host \<Rightarrow> start_call \<Rightarrow> json \<Rightarrow> shell_manager \<Rightarrow> (json res + plan) res" where
  "prepare_start sha h c inp m =
     (let b = \<lparr>account_id = sm_account m, grant_id = st_grant c, link_id = st_link c, device_id = sm_device m\<rparr> in
      bindE (request_fields inp) (\<lambda>(pid, key, _).
      bindE (get_project pid (shell_db m)) (\<lambda>pr.
      bindE (project_access_policy pr True False) (\<lambda>_.
      bindE (execution_mode pr inp) (\<lambda>md.
      bindE (get_idempotency pid SHELL key b (shell_db m)) (\<lambda>prior.
        case prior of
          Some r \<Rightarrow> Inr (Inl (existing_start r (digest_request sha inp) m))
        | None \<Rightarrow> bindE (plan_start sha h c b inp pr md (am_generation (sm_approvals m))) (\<lambda>p. Inr (Inr p))))))))"

end
