(* ===== verification/Shell_Jobs.thy ===== *)
theory Shell_Jobs
  imports Shell_Start
begin

text \<open>
  The life of an admitted shell job (\<open>_run_job\<close>, \<open>poll\<close>, \<open>cancel\<close>, \<open>disconnected\<close>, \<open>reconnected\<close> and
  \<open>_kill_after_grace\<close> of \<open>agent/src/codito_agent/shell.py\<close>).  The coroutine of a job is cut into steps at
  the points where it waits, so that everything else may happen in between: the other jobs, the
  user's answer, cancellation, the loss of the connection, changes of the project and of the saved
  permissions.  What the process and the user do comes with the steps.
\<close>

section \<open>Updates\<close>

definition update_cell :: "pystr \<Rightarrow> (job_cell \<Rightarrow> job_cell) \<Rightarrow> shell_manager \<Rightarrow> shell_manager" where
  "update_cell jid f m = m\<lparr>sm_jobs := map (\<lambda>(k, c). (k, if k = jid then f c else c)) (sm_jobs m)\<rparr>"

definition in_job :: "(shell_job \<Rightarrow> shell_job) \<Rightarrow> job_cell \<Rightarrow> job_cell" where
  "in_job f c = c\<lparr>jc_job := f (jc_job c)\<rparr>"

definition set_state :: "shell_state \<Rightarrow> job_cell \<Rightarrow> job_cell" where
  "set_state s = in_job (\<lambda>j. j\<lparr>sj_state := s\<rparr>)"

definition system_line :: "pystr \<Rightarrow> job_cell \<Rightarrow> job_cell" where
  "system_line t = in_job (append_output (lit ''system'') t)"

text \<open>The two \<open>except\<close> clauses for errors: both end in \<open>FAILED\<close> and reach the \<open>finally\<close> block.\<close>

definition fail_cell :: "(exn \<Rightarrow> pystr) \<Rightarrow> exn \<Rightarrow> job_cell \<Rightarrow> job_cell" where
  "fail_cell msg e c =
     (let line = (case e of
            AgentError code _ _ \<Rightarrow> lit code @ lit '': '' @ msg e @ [10]
          | _ \<Rightarrow> lit ''internal_error: command runner failed'' @ [10]) in
      (set_state JOB_FAILED (system_line line c))\<lparr>jc_phase := Finishing\<rparr>)"

text \<open>\<open>_terminate\<close>: the process has a return code afterwards, the one it had or the one it is given.\<close>

definition terminate :: "int \<Rightarrow> job_cell \<Rightarrow> job_cell" where
  "terminate rc c = c\<lparr>jc_process := (case jc_process c of Some None \<Rightarrow> Some (Some rc) | p \<Rightarrow> p)\<rparr>"

definition require_enabled :: "pystr \<Rightarrow> db \<Rightarrow> unit res" where
  "require_enabled pid d =
     bindE (get_project pid d) (\<lambda>p. raise_if (\<not> enabled p) (raise ''project_disabled''))"

section \<open>The coroutine\<close>

definition shell_scopes :: "unicode \<Rightarrow> plan \<Rightarrow> pystr \<Rightarrow> bool \<Rightarrow> scopes" where
  "shell_scopes u p identity persistent =
     \<lparr>sc_read = None,
      sc_shell = (if persistent then Some (permission_scope u (cs_directory (pl_spec p)) (ap_external (pl_approval p)), identity)
        else None),
      sc_screen = None\<rparr>"

text \<open>From the start to the prompt.  \<open>pin\<close> is the identity of the pinned external directory.\<close>

definition run_begin ::
  "(bytes \<Rightarrow> pystr) \<Rightarrow> (exn \<Rightarrow> pystr) \<Rightarrow> unicode \<Rightarrow> nat \<times> nat \<times> nat \<Rightarrow> pystr res \<Rightarrow> pystr \<Rightarrow> job_cell \<Rightarrow> shell_manager \<Rightarrow> shell_manager" where
  "run_begin sha msg u ts pin jid c m =
     (let p = jc_plan c in
      case bindE (require_enabled (pl_project p) (shell_db m)) (\<lambda>_.
           if pl_external p then bindE pin (\<lambda>i. Inr (cs_fingerprint (pl_spec p) @ [58] @ i))
           else Inr (cs_fingerprint (pl_spec p))) of
        Inl e \<Rightarrow> update_cell jid (fail_cell msg e) m
      | Inr identity \<Rightarrow>
          if \<not> pl_needs p then update_cell jid (\<lambda>c. c\<lparr>jc_phase := Ready, jc_consent := Some Unneeded\<rparr>) m
          else
            (case open_request sha ts (pl_approval p) False
                   (shell_scopes u p identity (pl_reuse p \<and> am_db (sm_approvals m) \<noteq> None)) (pl_reuse p) (sm_approvals m) of
               (Inl e, am) \<Rightarrow> update_cell jid (fail_cell msg e) (m\<lparr>sm_approvals := am\<rparr>)
             | (Inr Granted, am) \<Rightarrow>
                 update_cell jid (\<lambda>c. (set_state QUEUED c)\<lparr>jc_phase := Ready, jc_consent := Some (Saved (pl_approval p))\<rparr>) (m\<lparr>sm_approvals := am\<rparr>)
             | (Inr (Waiting tk), am) \<Rightarrow>
                 update_cell jid (\<lambda>c. c\<lparr>jc_phase := Prompting tk\<rparr>) (m\<lparr>sm_approvals := am\<rparr>)))"

definition run_answer ::
  "(exn \<Rightarrow> pystr) \<Rightarrow> nat \<Rightarrow> prompt_outcome \<Rightarrow> ticket \<Rightarrow> pystr \<Rightarrow> shell_manager \<Rightarrow> shell_manager" where
  "run_answer msg now outcome tk jid m =
     (case decide now tk outcome (sm_approvals m) of
        (Inl e, am) \<Rightarrow> update_cell jid (fail_cell msg e) (m\<lparr>sm_approvals := am\<rparr>)
      | (Inr decided, am) \<Rightarrow>
          update_cell jid (\<lambda>c. (set_state QUEUED c)\<lparr>jc_phase := Ready, jc_consent := Some (Answered (tk_request tk) outcome)\<rparr>)
            (m\<lparr>sm_approvals := (if decided then am else add_session_grant now (tk_request tk) am)\<rparr>))"

definition run_check :: "(exn \<Rightarrow> pystr) \<Rightarrow> nat \<Rightarrow> pystr \<Rightarrow> job_cell \<Rightarrow> shell_manager \<Rightarrow> shell_manager" where
  "run_check msg now jid c m =
     (case ensure_current now (pl_generation (jc_plan c)) (ap_deadline (pl_approval (jc_plan c))) (sm_approvals m) of
        Inl e \<Rightarrow> update_cell jid (fail_cell msg e) m
      | Inr _ \<Rightarrow> update_cell jid (\<lambda>c. c\<lparr>jc_phase := Checked\<rparr>) m)"

definition run_enabled :: "(exn \<Rightarrow> pystr) \<Rightarrow> pystr \<Rightarrow> job_cell \<Rightarrow> shell_manager \<Rightarrow> shell_manager" where
  "run_enabled msg jid c m =
     (case require_enabled (pl_project (jc_plan c)) (shell_db m) of
        Inl e \<Rightarrow> update_cell jid (fail_cell msg e) m
      | Inr _ \<Rightarrow> update_cell jid (\<lambda>c. c\<lparr>jc_phase := Enabled\<rparr>) m)"

text \<open>The last checks and the call of the process starter; \<open>executor\<close> is the identity found now.\<close>

definition run_launch :: "(exn \<Rightarrow> pystr) \<Rightarrow> json \<Rightarrow> pystr \<Rightarrow> job_cell \<Rightarrow> shell_manager \<Rightarrow> shell_manager" where
  "run_launch msg executor jid c m =
     (let p = jc_plan c in
      case get_project (pl_project p) (shell_db m) of
        Inl e \<Rightarrow> update_cell jid (fail_cell msg e) m
      | Inr current \<Rightarrow>
          if mode current \<noteq> pl_original p then update_cell jid (fail_cell msg approval_expired) m
          else if pl_needs p \<and> executor \<noteq> pl_executor p then update_cell jid (fail_cell msg approval_expired) m
          else
            (update_cell jid (\<lambda>c. c\<lparr>jc_phase := Launching\<rparr>) m)\<lparr>sm_launches := sm_launches m @
               [\<lparr>la_plan = p, la_mode = mode current, la_executor = executor, la_spec = (pl_spec p)\<lparr>cs_external := pl_external p\<rparr>, la_consent = jc_consent c\<rparr>]\<rparr>)"

definition run_started :: "(exn \<Rightarrow> pystr) \<Rightarrow> unit res \<Rightarrow> pystr \<Rightarrow> shell_manager \<Rightarrow> shell_manager" where
  "run_started msg started jid m =
     (case started of
        Inl e \<Rightarrow> update_cell jid (fail_cell msg e) m
      | Inr _ \<Rightarrow> update_cell jid (\<lambda>c. (set_state JOB_RUNNING c)\<lparr>jc_process := Some None, jc_phase := Running\<rparr>) m)"

text \<open>The process ended with a return code, or the timeout did it.\<close>

definition run_exit :: "int option \<Rightarrow> int \<Rightarrow> pystr \<Rightarrow> shell_manager \<Rightarrow> shell_manager" where
  "run_exit exited killed jid m =
     (case exited of
        Some rc \<Rightarrow> update_cell jid (\<lambda>c. (in_job (\<lambda>j. j\<lparr>sj_exit := Some rc\<rparr>) c)\<lparr>jc_process := Some (Some rc), jc_phase := Draining\<rparr>) m
      | None \<Rightarrow> update_cell jid (\<lambda>c.
          let c = terminate killed c;
              c = in_job (\<lambda>j. j\<lparr>sj_exit := Option.bind (jc_process c) id\<rparr>) c in
          (set_state JOB_FAILED (system_line (lit ''Command timed out and its Job Object was terminated.'' @ [10]) c))
            \<lparr>jc_phase := Draining\<rparr>) m)"

definition run_collect :: "pystr \<Rightarrow> shell_manager \<Rightarrow> shell_manager" where
  "run_collect jid m = update_cell jid (\<lambda>c.
     (if shell_terminal (sj_state (jc_job c)) then c
      else set_state (if sj_exit (jc_job c) = Some 0 then COMPLETED else JOB_FAILED) c)\<lparr>jc_phase := Finishing\<rparr>) m"

definition run_release :: "pystr \<Rightarrow> job_cell \<Rightarrow> shell_manager \<Rightarrow> shell_manager" where
  "run_release jid c m =
     (update_cell jid (\<lambda>c. c\<lparr>jc_phase := Released\<rparr>) m)\<lparr>sm_gate :=
        release (sj_resource (jc_job c)) (shell_owner (sj_key (jc_job c))) (sm_gate m)\<rparr>"

definition terminal_state :: "shell_state \<Rightarrow> operation_state" where
  "terminal_state s = (if s = COMPLETED then SUCCEEDED else if s = JOB_CANCELLED then CANCELLED
     else if s = JOB_UNKNOWN then OUTCOME_UNKNOWN else FAILED)"

definition put_job :: "nat \<Rightarrow> operation_state \<Rightarrow> shell_job \<Rightarrow> unit dbop" where
  "put_job now st j = put_idempotency now (sj_project j) SHELL (sj_key j) (sj_digest j) st
     (Some (poll_result 0 DEFAULT_PAGE j)) (sj_binding j)"

text \<open>An error of the journal leaves the \<open>finally\<close> block.\<close>

definition run_journal :: "nat \<Rightarrow> pystr \<Rightarrow> job_cell \<Rightarrow> shell_manager \<Rightarrow> shell_manager" where
  "run_journal now jid c m =
     (case put_job now (terminal_state (sj_state (jc_job c))) (jc_job c) (shell_db m) of
        (Inl _, d) \<Rightarrow> update_cell jid (\<lambda>c. c\<lparr>jc_phase := Done\<rparr>) (set_db d m)
      | (Inr _, d) \<Rightarrow> update_cell jid (\<lambda>c. c\<lparr>jc_phase := Journaled\<rparr>) (set_db d m))"

definition TERMINAL_JOB_LIMIT :: nat where
  "TERMINAL_JOB_LIMIT = 32"

definition expired_jobs :: "pystr list \<Rightarrow> pystr list" where
  "expired_jobs ts = take (length ts - TERMINAL_JOB_LIMIT) ts"

definition run_evict :: "pystr \<Rightarrow> shell_manager \<Rightarrow> shell_manager" where
  "run_evict jid m =
     (let ts = sm_terminal m @ [jid];
          m = update_cell jid (\<lambda>c. c\<lparr>jc_phase := Done\<rparr>) m in
      m\<lparr>sm_terminal := drop (length ts - TERMINAL_JOB_LIMIT) ts,
        sm_jobs := filter (\<lambda>(k, c). \<not> (k \<in> set (expired_jobs ts) \<and> shell_terminal (sj_state (jc_job c)))) (sm_jobs m)\<rparr>)"

text \<open>A cancellation that is delivered: in the \<open>finally\<close> block it skips what is left of it.\<close>

definition run_cancelled :: "int \<Rightarrow> pystr \<Rightarrow> job_cell \<Rightarrow> shell_manager \<Rightarrow> shell_manager" where
  "run_cancelled rc jid c m =
     (if jc_phase c \<in> {Finishing, Released, Journaled} then update_cell jid (\<lambda>c. c\<lparr>jc_phase := Done, jc_cancel := False\<rparr>) m
      else update_cell jid (\<lambda>c. (set_state JOB_CANCELLED (terminate rc c))\<lparr>jc_phase := Finishing, jc_cancel := False\<rparr>) m)"

section \<open>Operations\<close>

definition validate_job_binding :: "pystr \<Rightarrow> pystr \<Rightarrow> shell_job \<Rightarrow> shell_manager \<Rightarrow> unit res" where
  "validate_job_binding g l j m =
     raise_if (sj_binding j \<noteq> \<lparr>account_id = sm_account m, grant_id = g, link_id = l, device_id = sm_device m\<rparr>)
       (raise ''binding_mismatch'')"

definition find_job :: "pystr \<Rightarrow> pystr \<Rightarrow> shell_manager \<Rightarrow> job_cell option" where
  "find_job pid jid m =
     (case map_of (sm_jobs m) jid of
        Some c \<Rightarrow> if sj_project (jc_job c) \<noteq> pid then None else Some c
      | None \<Rightarrow> None)"

text \<open>\<open>poll\<close>, after its bounded wait.\<close>

definition poll :: "pystr \<Rightarrow> pystr \<Rightarrow> int \<Rightarrow> int \<Rightarrow> int \<Rightarrow> pystr \<Rightarrow> pystr \<Rightarrow> shell_manager \<Rightarrow> json res" where
  "poll pid jid cursor wait_ms limit g l m =
     (if cursor < 0 \<or> \<not> (0 \<le> wait_ms \<and> wait_ms \<le> 30000) \<or> \<not> (16384 \<le> limit \<and> limit \<le> 1048576)
      then Inl (raise ''invalid_request'')
      else bindE (require_enabled pid (shell_db m)) (\<lambda>_.
        case find_job pid jid m of
          None \<Rightarrow>
            bindE (get_shell_job pid jid \<lparr>account_id = sm_account m, grant_id = g, link_id = l, device_id = sm_device m\<rparr> (shell_db m))
              (\<lambda>durable. case durable of
                 None \<Rightarrow> Inl (raise ''job_not_found'')
               | Some (st, None) \<Rightarrow> Inl (raise ''outcome_unknown'')
               | Some (st, Some result) \<Rightarrow>
                   if st = RUNNING then Inl (raise ''outcome_unknown'')
                   else Inr (page_durable_result result (nat cursor) (nat limit)))
        | Some c \<Rightarrow>
            bindE (validate_job_binding g l (jc_job c) m) (\<lambda>_. Inr (poll_result (nat cursor) (nat limit) (jc_job c)))))"

definition cancel_result :: "pystr \<Rightarrow> pystr \<Rightarrow> string \<Rightarrow> json" where
  "cancel_result pid jid st = JObj [(lit ''action'', JStr (lit ''cancel'')), (lit ''project_id'', JStr pid),
     (lit ''job_id'', JStr jid), (lit ''state'', JStr (lit st))]"

text \<open>\<open>cancel\<close> up to the end of the process: an answer, or \<open>Inr None\<close> to go on.\<close>

definition cancel_begin :: "int \<Rightarrow> pystr \<Rightarrow> pystr \<Rightarrow> pystr \<Rightarrow> pystr \<Rightarrow> shell_manager \<Rightarrow> json option res \<times> shell_manager" where
  "cancel_begin rc pid jid g l m =
     (case require_enabled pid (shell_db m) of
        Inl e \<Rightarrow> (Inl e, m)
      | Inr _ \<Rightarrow>
          (case find_job pid jid m of
             None \<Rightarrow> (Inr (Some (cancel_result pid jid ''not_found'')), m)
           | Some c \<Rightarrow>
               (case validate_job_binding g l (jc_job c) m of
                  Inl e \<Rightarrow> (Inl e, m)
                | Inr _ \<Rightarrow>
                    if shell_terminal (sj_state (jc_job c)) then (Inr (Some (cancel_result pid jid ''already_terminal'')), m)
                    else (Inr None, update_cell jid (\<lambda>c. (terminate rc c)\<lparr>jc_cancelling := Suc (jc_cancelling c)\<rparr>) m))))"

definition cancel_end :: "nat \<Rightarrow> pystr \<Rightarrow> pystr \<Rightarrow> job_cell \<Rightarrow> shell_manager \<Rightarrow> json res \<times> shell_manager" where
  "cancel_end now pid jid c m =
     (let j = (jc_job c)\<lparr>sj_state := JOB_CANCELLED\<rparr>;
          m = update_cell jid (\<lambda>c. (set_state JOB_CANCELLED c)\<lparr>jc_cancel := (jc_phase c \<noteq> Done),
            jc_cancelling := jc_cancelling c - 1\<rparr>) m;
          m = m\<lparr>sm_gate := release (sj_resource j) (shell_owner (sj_key j)) (sm_gate m)\<rparr> in
      case put_job now CANCELLED j (shell_db m) of
        (Inl e, d) \<Rightarrow> (Inl e, set_db d m)
      | (Inr _, d) \<Rightarrow> (Inr (cancel_result pid jid ''cancelled''), set_db d m))"

definition disconnect_cell :: "job_cell \<Rightarrow> job_cell" where
  "disconnect_cell c =
     (if sj_state (jc_job c) = PENDING_APPROVAL then c\<lparr>jc_cancel := (jc_phase c \<noteq> Done)\<rparr>
      else if \<not> shell_terminal (sj_state (jc_job c)) then c\<lparr>jc_killer := True\<rparr>
      else c)"

definition disconnected :: "shell_manager \<Rightarrow> shell_manager" where
  "disconnected m = m\<lparr>sm_jobs := map (\<lambda>(k, c). (k, disconnect_cell c)) (sm_jobs m)\<rparr>"

definition reconnected :: "shell_manager \<Rightarrow> shell_manager" where
  "reconnected m = m\<lparr>sm_jobs := map (\<lambda>(k, c). (k, c\<lparr>jc_killer := False, jc_killing := False\<rparr>)) (sm_jobs m)\<rparr>"

text \<open>The grace timer fired: first the process ends, then the job is marked.\<close>

definition kill_begin :: "int \<Rightarrow> pystr \<Rightarrow> shell_manager \<Rightarrow> shell_manager" where
  "kill_begin rc jid m = update_cell jid (\<lambda>c.
     if jc_killer c \<and> jc_process c \<noteq> None \<and> \<not> shell_terminal (sj_state (jc_job c))
     then (terminate rc c)\<lparr>jc_killing := True\<rparr> else c) m"

definition kill_end :: "pystr \<Rightarrow> shell_manager \<Rightarrow> shell_manager" where
  "kill_end jid m = update_cell jid (\<lambda>c.
     if jc_killing c
     then (system_line (lit ''Relay reconnect grace expired; job terminated.'' @ [10]) (set_state JOB_UNKNOWN c))\<lparr>jc_killing := False\<rparr>
     else c) m"

section \<open>Runs\<close>

datatype shell_event =
    Start host start_call json
  | Admit nat
  | Run_begin unicode "nat \<times> nat \<times> nat" "pystr res" pystr
  | Run_answer nat prompt_outcome pystr
  | Run_check nat pystr
  | Run_enabled pystr
  | Run_launch json pystr
  | Run_started "unit res" pystr
  | Run_output pystr pystr pystr
  | Run_exit "int option" int pystr
  | Run_collect pystr
  | Run_release pystr
  | Run_journal nat pystr
  | Run_evict pystr
  | Run_cancelled int pystr
  | Cancel_begin int pystr pystr pystr pystr
  | Cancel_end nat pystr pystr
  | Disconnected
  | Reconnected
  | Kill_begin int pystr
  | Kill_end pystr
  | Security_event
  | Store db_call
  | Other_reserve pystr pystr
  | Other_release pystr pystr
  | Agent_restart

definition at_phase :: "pystr \<Rightarrow> (phase \<Rightarrow> bool) \<Rightarrow> (job_cell \<Rightarrow> shell_manager \<Rightarrow> shell_manager) \<Rightarrow> shell_manager \<Rightarrow> shell_manager" where
  "at_phase jid P f m =
     (case map_of (sm_jobs m) jid of Some c \<Rightarrow> if P (jc_phase c) then f c m else m | None \<Rightarrow> m)"

text \<open>
  One step.  A step whose coroutine is not at that point does nothing; the random job identifiers
  are fresh.
\<close>

definition admit :: "nat \<Rightarrow> shell_manager \<Rightarrow> shell_manager" where
  "admit n m =
     (if n < length (sm_starting m) then
        let (c, p) = sm_starting m ! n;
            m = m\<lparr>sm_starting := take n (sm_starting m) @ drop (Suc n) (sm_starting m)\<rparr> in
        if sj_id (new_job c p) \<in> fst ` set (sm_jobs m) then m else snd (admit_start c p m)
      else m)"

definition restart_shell :: "shell_manager \<Rightarrow> shell_manager" where
  "restart_shell m = m\<lparr>sm_starting := [], sm_jobs := [], sm_terminal := [], sm_gate := new_gate,
     sm_approvals := new_manager (am_db (sm_approvals m))\<rparr>"

fun shell_step :: "(bytes \<Rightarrow> pystr) \<Rightarrow> (exn \<Rightarrow> pystr) \<Rightarrow> shell_event \<Rightarrow> shell_manager \<Rightarrow> shell_manager" where
  "shell_step sha msg (Start h c inp) m =
     (case prepare_start sha h c inp m of Inr (Inr p) \<Rightarrow> m\<lparr>sm_starting := sm_starting m @ [(c, p)]\<rparr> | _ \<Rightarrow> m)"
| "shell_step sha msg (Admit n) m = admit n m"
| "shell_step sha msg (Run_begin u ts pin jid) m = at_phase jid (\<lambda>p. p = Created) (run_begin sha msg u ts pin jid) m"
| "shell_step sha msg (Run_answer now out jid) m =
     at_phase jid (\<lambda>p. case p of Prompting _ \<Rightarrow> True | _ \<Rightarrow> False)
       (\<lambda>c. case jc_phase c of Prompting tk \<Rightarrow> run_answer msg now out tk jid | _ \<Rightarrow> id) m"
| "shell_step sha msg (Run_check now jid) m = at_phase jid (\<lambda>p. p = Ready) (run_check msg now jid) m"
| "shell_step sha msg (Run_enabled jid) m = at_phase jid (\<lambda>p. p = Checked) (run_enabled msg jid) m"
| "shell_step sha msg (Run_launch x jid) m = at_phase jid (\<lambda>p. p = Enabled) (run_launch msg x jid) m"
| "shell_step sha msg (Run_started r jid) m = at_phase jid (\<lambda>p. p = Launching) (\<lambda>_. run_started msg r jid) m"
| "shell_step sha msg (Run_output s t jid) m =
     at_phase jid (\<lambda>p. p = Running \<or> p = Draining) (\<lambda>_. update_cell jid (in_job (append_output s t))) m"
| "shell_step sha msg (Run_exit rc k jid) m = at_phase jid (\<lambda>p. p = Running) (\<lambda>_. run_exit rc k jid) m"
| "shell_step sha msg (Run_collect jid) m = at_phase jid (\<lambda>p. p = Draining) (\<lambda>_. run_collect jid) m"
| "shell_step sha msg (Run_release jid) m = at_phase jid (\<lambda>p. p = Finishing) (run_release jid) m"
| "shell_step sha msg (Run_journal now jid) m = at_phase jid (\<lambda>p. p = Released) (run_journal now jid) m"
| "shell_step sha msg (Run_evict jid) m = at_phase jid (\<lambda>p. p = Journaled) (\<lambda>_. run_evict jid) m"
| "shell_step sha msg (Run_cancelled rc jid) m =
     at_phase jid (\<lambda>p. p \<noteq> Done) (\<lambda>c m. if jc_cancel c then run_cancelled rc jid c m else m) m"
| "shell_step sha msg (Cancel_begin rc pid jid g l) m = snd (cancel_begin rc pid jid g l m)"
| "shell_step sha msg (Cancel_end now pid jid) m = 
     at_phase jid (\<lambda>_. True) (\<lambda>c m. if 0 < jc_cancelling c then snd (cancel_end now pid jid c m) else m) m"
| "shell_step sha msg Disconnected m = disconnected m"
| "shell_step sha msg Reconnected m = reconnected m"
| "shell_step sha msg (Kill_begin rc jid) m = kill_begin rc jid m"
| "shell_step sha msg (Kill_end jid) m = kill_end jid m"
| "shell_step sha msg Security_event m = m\<lparr>sm_approvals := snd (clear (sm_approvals m))\<rparr>"
| "shell_step sha msg (Store c) m = set_db (exec sha c (shell_db m)) m"
| "shell_step sha msg (Other_reserve k v) m = (case reserve k v (sm_gate m) of Inr g \<Rightarrow> m\<lparr>sm_gate := g\<rparr> | Inl _ \<Rightarrow> m)"
| "shell_step sha msg (Other_release k v) m = m\<lparr>sm_gate := release k v (sm_gate m)\<rparr>"
| "shell_step sha msg Agent_restart m = restart_shell m"

definition shell_run :: "(bytes \<Rightarrow> pystr) \<Rightarrow> (exn \<Rightarrow> pystr) \<Rightarrow> shell_event list \<Rightarrow> shell_manager \<Rightarrow> shell_manager" where
  "shell_run sha msg es m = fold (shell_step sha msg) es m"

section \<open>An example\<close>

definition shell_host :: host where
  "shell_host = \<lparr>ho_os = example_os, ho_unicode = example_unicode, ho_upper = ascii_upper, ho_system_root = lit ''C:/Windows'',
     ho_temp = lit ''C:/temp'', ho_environ = [], ho_search = []\<rparr>"

definition shell_start_call :: "string \<Rightarrow> nat \<Rightarrow> start_call" where
  "shell_start_call tag t = \<lparr>st_grant = lit ''grant'', st_link = lit ''link'', st_epoch = 1, st_deadline = t + 45000000, st_nonce = lit ''n'',
     st_approval_id = lit ''a'', st_job_id = lit tag, st_executor = JNull, st_probe = Inr (), st_asked = t, st_checked = t, st_locked = t,
     st_now = t\<rparr>"

definition shell_request :: "string \<Rightarrow> (string \<times> json) list \<Rightarrow> json" where
  "shell_request pid extra = JObj ([(lit ''project_id'', JStr (lit pid)), (lit ''idempotency_key'', JStr (lit ''k'')),
     (lit ''purpose'', JStr (lit ''look'')), (lit ''command'', example_exec ''status'')] @ map (\<lambda>(k, v). (lit k, v)) extra)"

definition shell_example :: "project_mode \<Rightarrow> shell_manager" where
  "shell_example md = new_shell (lit ''acct'') (lit ''device'') new_gate (new_manager (Some (empty_db\<lparr>projects :=
     [\<lparr>p_project = example_project\<lparr>mode := md\<rparr>, p_created = 0, p_updated = 0\<rparr>,
      \<lparr>p_project = example_project\<lparr>project_id := lit ''p2'', root := [lit ''C:'', lit ''v''], mode := md\<rparr>, p_created = 0, p_updated = 0\<rparr>]\<rparr>)))"

definition shell_session :: "project_mode \<Rightarrow> shell_event list \<Rightarrow> shell_manager" where
  "shell_session md es = shell_run (take 30) (\<lambda>_. lit ''m'') es (shell_example md)"

text \<open>From the request to the launch of a job whose prompt the user answers.\<close>

definition launch_steps :: "string \<Rightarrow> shell_event list" where
  "launch_steps tag = (let jid = lit ''job_'' @ lit tag in
     [Start shell_host (shell_start_call tag 0) (shell_request ''p1'' []), Admit 0,
      Run_begin example_unicode (1, 1, 1) (Inr []) jid, Run_answer 2 (Decided ALLOW_ONCE) jid,
      Run_check 3 jid, Run_enabled jid, Run_launch JNull jid])"

lemma launch_example:
  "map (\<lambda>l. (la_mode l, cs_command (la_spec l))) (sm_launches (shell_session NATIVE_APPROVAL (launch_steps ''a'')))
     = [(NATIVE_APPROVAL, JObj [(lit ''kind'', JStr (lit ''exec'')), (lit ''executable'', JStr (lit ''git'')),
          (lit ''arguments'', JList [JStr (lit ''status'')])])]"
  by code_simp

text \<open>
  The owner of a workspace is named by the idempotency key alone.  Two projects run commands in the
  same external directory under the same key, one after the other; the coroutine of the first,
  cancelled one releases the workspace while the second job holds it.
\<close>

definition external_request :: "string \<Rightarrow> json" where
  "external_request pid = shell_request pid [(''external_working_directory'', JStr (lit ''D:/shared''))]"

definition gate_view :: "shell_manager \<Rightarrow> (pystr \<times> shell_state \<times> pystr option) list" where
  "gate_view m = map (\<lambda>(k, c). (k, sj_state (jc_job c), owners (sm_gate m) (sj_resource (jc_job c)))) (sm_jobs m)"

text \<open>What is seen after each step of a run.\<close>

fun history :: "(shell_manager \<Rightarrow> 'v) \<Rightarrow> shell_event list \<Rightarrow> shell_manager \<Rightarrow> 'v list" where
  "history view [] m = []"
| "history view (e # es) m = (let m' = shell_step (take 30) (\<lambda>_. lit ''m'') e m in view m' # history view es m')"

lemma late_release_frees_other_job:
  "drop 5 (history gate_view
     [Start shell_host (shell_start_call ''a'' 0) (external_request ''p1''), Admit 0,
      Cancel_begin 1 (lit ''p1'') (lit ''job_a'') (lit ''grant'') (lit ''link''), Cancel_end 5 (lit ''p1'') (lit ''job_a''),
      Start shell_host (shell_start_call ''b'' 6) (external_request ''p2''), Admit 0,
      Run_cancelled 1 (lit ''job_a''), Run_release (lit ''job_a'')] (shell_example NATIVE_APPROVAL))
   = [[(lit ''job_a'', JOB_CANCELLED, Some (lit ''shell:k'')), (lit ''job_b'', PENDING_APPROVAL, Some (lit ''shell:k''))],
      [(lit ''job_a'', JOB_CANCELLED, Some (lit ''shell:k'')), (lit ''job_b'', PENDING_APPROVAL, Some (lit ''shell:k''))],
      [(lit ''job_a'', JOB_CANCELLED, None), (lit ''job_b'', PENDING_APPROVAL, None)]]"
  by code_simp

text \<open>
  A cancellation waits for the process to end and then writes its own state over whatever the
  coroutine has recorded in the meantime: a job journaled as succeeded becomes cancelled.
\<close>

definition recorded_states :: "shell_manager \<Rightarrow> operation_state list" where
  "recorded_states m = map i_state (idempotency (shell_db m))"

lemma cancel_overwrites_success:
  "drop 12 (history recorded_states
     (launch_steps ''a'' @ [Run_started (Inr ()) (lit ''job_a''),
        Cancel_begin 0 (lit ''p1'') (lit ''job_a'') (lit ''grant'') (lit ''link''),
        Run_exit (Some 0) 0 (lit ''job_a''), Run_collect (lit ''job_a''), Run_release (lit ''job_a''), Run_journal 7 (lit ''job_a''),
        Cancel_end 8 (lit ''p1'') (lit ''job_a'')]) (shell_example NATIVE_APPROVAL)) = [[SUCCEEDED], [CANCELLED]]"
  by code_simp

end
