(* ===== verification/Shell_Laws.thy ===== *)
theory Shell_Laws
  imports Shell_Jobs
begin

text \<open>
  What the shell manager guarantees over any sequence of its steps: a start request launches its
  command at most once, across cancellation, disconnection and restarts of the agent; and a command
  is launched only with the user's consent to exactly this execution, or where the project's mode
  asks for none.
\<close>

section \<open>At most one launch\<close>

type_synonym shell_id = "pystr \<times> pystr"

abbreviation id_of :: "plan \<Rightarrow> shell_id" where
  "id_of p \<equiv> (pl_project p, pl_key p)"

definition unlaunched :: "phase \<Rightarrow> bool" where
  "unlaunched p = (case p of Created \<Rightarrow> True | Prompting _ \<Rightarrow> True | Ready \<Rightarrow> True | Checked \<Rightarrow> True | Enabled \<Rightarrow> True | _ \<Rightarrow> False)"

definition waiting :: "shell_id \<Rightarrow> (pystr \<times> job_cell) list \<Rightarrow> nat" where
  "waiting k js = length (filter (\<lambda>(_, c). unlaunched (jc_phase c) \<and> id_of (jc_plan c) = k) js)"

definition launched :: "shell_id \<Rightarrow> launch list \<Rightarrow> nat" where
  "launched k ls = length (filter (\<lambda>l. id_of (la_plan l) = k) ls)"

definition journaled :: "shell_id \<Rightarrow> shell_manager \<Rightarrow> bool" where
  "journaled k m \<longleftrightarrow> find_idem (fst k, SHELL, snd k) (shell_db m) \<noteq> None"

definition once_inv :: "shell_id \<Rightarrow> shell_manager \<Rightarrow> bool" where
  "once_inv k m \<longleftrightarrow> distinct (map fst (sm_jobs m))
     \<and> waiting k (sm_jobs m) + launched k (sm_launches m) \<le> (if journaled k m then 1 else 0)"

text \<open>Steps that neither launch nor admit anything.\<close>

definition calm :: "shell_id \<Rightarrow> shell_manager \<Rightarrow> shell_manager \<Rightarrow> bool" where
  "calm k m m' \<longleftrightarrow> sm_launches m' = sm_launches m \<and> waiting k (sm_jobs m') \<le> waiting k (sm_jobs m)
     \<and> (distinct (map fst (sm_jobs m)) \<longrightarrow> distinct (map fst (sm_jobs m'))) \<and> (journaled k m \<longrightarrow> journaled k m')"

lemma calm_inv: "calm k m m' \<Longrightarrow> once_inv k m \<Longrightarrow> once_inv k m'"
  by (auto simp: calm_def once_inv_def split: if_splits)

lemma calm_refl [simp]: "calm k m m"
  by (simp add: calm_def)

lemma calm_trans: "calm k m m' \<Longrightarrow> calm k m' m'' \<Longrightarrow> calm k m m''"
  by (auto simp: calm_def)

text \<open>An update of a cell that does not return it to the phases before the launch.\<close>

definition settles :: "(job_cell \<Rightarrow> job_cell) \<Rightarrow> bool" where
  "settles f \<longleftrightarrow> (\<forall>c. jc_plan (f c) = jc_plan c \<and> (unlaunched (jc_phase (f c)) \<longrightarrow> unlaunched (jc_phase c)))"

lemma waiting_map:
  assumes "\<And>j c. (j, c) \<in> set js \<Longrightarrow> jc_plan (f j c) = jc_plan c \<and> (unlaunched (jc_phase (f j c)) \<longrightarrow> unlaunched (jc_phase c))"
  shows "waiting k (map (\<lambda>(j, c). (j, f j c)) js) \<le> waiting k js"
  using assms
proof (induction js)
  case (Cons x js)
  obtain j c where x: "x = (j, c)" by fastforce
  have "waiting k (map (\<lambda>(j, c). (j, f j c)) js) \<le> waiting k js"
    by (rule Cons.IH) (use Cons.prems in auto)
  then show ?case using Cons.prems [of j c] x by (auto simp: waiting_def)
qed (simp add: waiting_def)

lemma map_fst_cells [simp]: "map (fst \<circ> (\<lambda>(j, c). (j, f j c))) js = map fst js"
  by (induction js) auto

lemma update_cell_calm:
  assumes "\<And>c. (jid, c) \<in> set (sm_jobs m) \<Longrightarrow> jc_plan (f c) = jc_plan c \<and> (unlaunched (jc_phase (f c)) \<longrightarrow> unlaunched (jc_phase c))"
  shows "calm k m (update_cell jid f m)"
proof -
  have "waiting k (map (\<lambda>(j, c). (j, if j = jid then f c else c)) (sm_jobs m)) \<le> waiting k (sm_jobs m)"
    using assms by (intro waiting_map) auto
  then show ?thesis
    by (simp add: calm_def update_cell_def journaled_def shell_db_def split: if_splits)
qed

lemma calm_same:
  "sm_launches m' = sm_launches m \<Longrightarrow> sm_jobs m' = sm_jobs m \<Longrightarrow> (journaled k m \<Longrightarrow> journaled k m') \<Longrightarrow> calm k m m'"
  by (simp add: calm_def)

section \<open>The journal is kept\<close>

lemma put_keeps_rows:
  "find_idem k d \<noteq> None \<Longrightarrow> find_idem k (snd (put_idempotency now pid cap key dg st res b d)) \<noteq> None"
  using put_keeps [of k d] by (cases "find_idem k d") fastforce+

lemma journaled_set_db: "journaled k (set_db d m) \<longleftrightarrow> find_idem (fst k, SHELL, snd k) d \<noteq> None"
  by (simp add: journaled_def shell_db_def set_db_def)

lemma journaled_put:
  "put_idempotency now pid cap key dg st res b (shell_db m) = (r, d) \<Longrightarrow> journaled k m \<Longrightarrow> journaled k (set_db d m')"
  using put_keeps_rows [of "(fst k, SHELL, snd k)" "shell_db m" now pid cap key dg st res b]
  unfolding journaled_set_db by (simp add: journaled_def)

definition manager_db :: "manager \<Rightarrow> db" where
  "manager_db am = (case am_db am of Some d \<Rightarrow> d | None \<Rightarrow> empty_db)"

lemma shell_db_manager: "shell_db m = manager_db (sm_approvals m)"
  by (simp add: shell_db_def manager_db_def)

lemma open_request_same: "snd (open_request sha ts rq False sc reuse am) = am"
  by (cases ts) (auto simp: open_request_def split: sum.splits option.splits)

lemma decide_idempotency: "idempotency (manager_db (snd (decide now tk out am))) = idempotency (manager_db am)"
  by (auto simp: decide_def locked_decision_def always_def manager_db_def Let_def save_read_permission_def
      save_shell_permission_def save_screen_permission_def
      split: prompt_outcome.splits sum.splits approval_decision.splits option.splits prod.splits if_splits)

section \<open>Every step\<close>

lemma settled_cells [simp]:
  "jc_plan (in_job f c) = jc_plan c" "jc_phase (in_job f c) = jc_phase c"
  "jc_plan (set_state st c) = jc_plan c" "jc_phase (set_state st c) = jc_phase c"
  "jc_plan (system_line t c) = jc_plan c" "jc_phase (system_line t c) = jc_phase c"
  "jc_plan (terminate rc c) = jc_plan c" "jc_phase (terminate rc c) = jc_phase c"
  "jc_plan (fail_cell msg e c) = jc_plan c" "jc_phase (fail_cell msg e c) = Finishing"
  "jc_consent (in_job f c) = jc_consent c" "jc_consent (set_state st c) = jc_consent c"
  "jc_consent (system_line t c) = jc_consent c" "jc_consent (terminate rc c) = jc_consent c"
  "jc_consent (fail_cell msg e c) = jc_consent c"
  by (simp_all add: in_job_def set_state_def system_line_def terminate_def fail_cell_def Let_def)

lemma unlaunched_simps [simp]:
  "unlaunched Created" "unlaunched (Prompting tk)" "unlaunched Ready" "unlaunched Checked" "unlaunched Enabled"
  "\<not> unlaunched Launching" "\<not> unlaunched Running" "\<not> unlaunched Draining" "\<not> unlaunched Finishing"
  "\<not> unlaunched Released" "\<not> unlaunched Journaled" "\<not> unlaunched Done"
  by (simp_all add: unlaunched_def)

lemma calm_simps:
  "calm k m (m'\<lparr>sm_gate := g\<rparr>) = calm k m m'"
  "calm k (m\<lparr>sm_gate := g\<rparr>) m' = calm k m m'"
  by (simp_all add: calm_def journaled_def shell_db_def)

lemma calm_approvals:
  "idempotency (manager_db am) = idempotency (shell_db m) \<Longrightarrow> calm k (m\<lparr>sm_approvals := am\<rparr>) m' \<Longrightarrow> calm k m m'"
  by (simp add: calm_def journaled_def find_idem_def shell_db_manager)

text \<open>With distinct identifiers the cell at an identifier is the one that was looked up.\<close>

lemma cell_unique: "distinct (map fst js) \<Longrightarrow> map_of js jid = Some c \<Longrightarrow> (jid, c') \<in> set js \<Longrightarrow> c' = c"
  by (metis map_of_is_SomeI option.inject)

lemma run_begin_calm:
  assumes "distinct (map fst (sm_jobs m))" "map_of (sm_jobs m) jid = Some c" "jc_phase c = Created"
  shows "calm k m (run_begin sha msg u ts pin jid c m)"
proof -
  have "sm_approvals m = snd (open_request sha ts rq False sc reuse (sm_approvals m))" for rq sc reuse
    by (simp add: open_request_same)
  then have same: "open_request sha ts rq False sc reuse (sm_approvals m) = (r, am) \<Longrightarrow> am = sm_approvals m" for rq sc reuse r am
    by (metis snd_conv)
  have *: "\<And>c'. (jid, c') \<in> set (sm_jobs m) \<Longrightarrow> c' = c" using cell_unique assms(1,2) by metis
  show ?thesis
    unfolding run_begin_def Let_def
    by (auto split: sum.splits prod.splits prompt_state.splits dest!: same * intro!: update_cell_calm simp: assms(3))
qed

lemma run_answer_calm:
  assumes "distinct (map fst (sm_jobs m))" "map_of (sm_jobs m) jid = Some c" "unlaunched (jc_phase c)"
  shows "calm k m (run_answer msg now out tk jid m)"
proof -
  obtain r am where d: "decide now tk out (sm_approvals m) = (r, am)" by fastforce
  have i: "idempotency (manager_db am) = idempotency (shell_db m)"
    using decide_idempotency [of now tk out "sm_approvals m"] d by (simp add: shell_db_manager)
  then have i': "idempotency (manager_db (add_session_grant now rq am)) = idempotency (shell_db m)" for rq
    by (simp add: add_session_grant_def manager_db_def)
  have *: "\<And>c'. (jid, c') \<in> set (sm_jobs m) \<Longrightarrow> c' = c" using cell_unique assms(1,2) by metis
  show ?thesis
  proof (cases r)
    case (Inl e)
    show ?thesis unfolding run_answer_def d Inl prod.case sum.case
      by (rule calm_approvals [OF i], rule update_cell_calm) auto
  next
    case (Inr b)
    show ?thesis unfolding run_answer_def d Inr prod.case sum.case
      by (rule calm_approvals [of "if b then am else add_session_grant now (tk_request tk) am"], simp add: i i',
          rule update_cell_calm) (use * assms(3) in auto)
  qed
qed

lemma put_job_calm: "put_job now st j (shell_db m) = (r, d) \<Longrightarrow> calm k m (set_db d m)"
  unfolding put_job_def using journaled_put [of now] by (intro calm_same) (auto simp: set_db_def)

lemma cancel_end_calm: "calm k m (snd (cancel_end now pid jid c m))"
proof -
  let ?m = "(update_cell jid (\<lambda>c. (set_state JOB_CANCELLED c)\<lparr>jc_cancel := (jc_phase c \<noteq> Done), jc_cancelling := jc_cancelling c - 1\<rparr>) m)"
  let ?m' = "?m\<lparr>sm_gate := release (sj_resource (jc_job c)) (shell_owner (sj_key (jc_job c))) (sm_gate ?m)\<rparr>"
  have a: "calm k m ?m'" unfolding calm_simps by (rule update_cell_calm) simp
  obtain r d where p: "put_job now CANCELLED ((jc_job c)\<lparr>sj_state := JOB_CANCELLED\<rparr>) (shell_db ?m') = (r, d)" by fastforce
  have e: "snd (cancel_end now pid jid c m) = set_db d ?m'"
    unfolding cancel_end_def Let_def using p by (cases r) simp_all
  show ?thesis unfolding e by (rule calm_trans [OF a put_job_calm [OF p]])
qed

lemma waiting_filter: "waiting k (filter P js) \<le> waiting k js"
  by (induction js) (auto simp: waiting_def)

lemma run_evict_calm: "calm k m (run_evict jid m)"
proof -
  let ?m = "update_cell jid (\<lambda>c. c\<lparr>jc_phase := Done\<rparr>) m"
  have "calm k m ?m" by (rule update_cell_calm) simp
  moreover have "calm k ?m (run_evict jid m)"
    by (simp add: calm_def run_evict_def Let_def waiting_filter journaled_def shell_db_def distinct_map_filter)
  ultimately show ?thesis by (rule calm_trans)
qed

lemma waiting_launch:
  assumes "distinct (map fst js)" "map_of js jid = Some c" "unlaunched (jc_phase c)"
  shows "waiting k (map (\<lambda>(j, c). (j, if j = jid then c\<lparr>jc_phase := Launching\<rparr> else c)) js)
    + (if id_of (jc_plan c) = k then 1 else 0) = waiting k js"
  using assms
proof (induction js)
  case (Cons x js)
  obtain j c' where x: "x = (j, c')" by fastforce
  show ?case
  proof (cases "j = jid")
    case True
    then have "c' = c" "jid \<notin> fst ` set js" using Cons.prems x by auto
    then have "map (\<lambda>(j, c). (j, if j = jid then c\<lparr>jc_phase := Launching\<rparr> else c)) js = js"
      by (intro map_idI) (auto simp: rev_image_eqI)
    then show ?thesis using True x \<open>c' = c\<close> Cons.prems(3) by (simp add: waiting_def)
  next
    case False
    then show ?thesis using Cons x by (auto simp: waiting_def)
  qed
qed simp

lemma run_launch_once:
  assumes "once_inv k m" "map_of (sm_jobs m) jid = Some c" "jc_phase c = Enabled"
  shows "once_inv k (run_launch msg x jid c m)"
proof -
  have dist: "distinct (map fst (sm_jobs m))" using assms(1) by (simp add: once_inv_def)
  show ?thesis
  proof (cases "\<exists>current. get_project (pl_project (jc_plan c)) (shell_db m) = Inr current \<and> mode current = pl_original (jc_plan c)
      \<and> \<not> (pl_needs (jc_plan c) \<and> x \<noteq> pl_executor (jc_plan c))")
    case True
    then have "sm_jobs (run_launch msg x jid c m)
        = map (\<lambda>(j, c). (j, if j = jid then c\<lparr>jc_phase := Launching\<rparr> else c)) (sm_jobs m)"
      "launched k (sm_launches (run_launch msg x jid c m)) = launched k (sm_launches m) + (if id_of (jc_plan c) = k then 1 else 0)"
      "journaled k (run_launch msg x jid c m) = journaled k m"
      by (auto simp: run_launch_def Let_def update_cell_def launched_def journaled_def shell_db_def)
    then show ?thesis using assms(1) waiting_launch [OF dist assms(2), of k] assms(3) by (simp add: once_inv_def)
  next
    case False
    then have "calm k m (run_launch msg x jid c m)"
      unfolding run_launch_def Let_def by (auto split: sum.splits intro!: update_cell_calm)
    then show ?thesis using assms(1) by (rule calm_inv)
  qed
qed

lemma admit_start_once:
  assumes "once_inv k m" "sj_id (new_job c p) \<notin> fst ` set (sm_jobs m)"
  shows "once_inv k (snd (admit_start c p m))"
proof (cases "\<exists>g d. get_idempotency (pl_project p) SHELL (pl_key p) (pl_binding p) (shell_db m) = Inr None
    \<and> reserve (pl_resource p) (shell_owner (pl_key p)) (sm_gate m) = Inr g
    \<and> put_idempotency (st_now c) (pl_project p) SHELL (pl_key p) (pl_digest p) RUNNING
        (Some (start_response (new_job c p))) (pl_binding p) (shell_db m) = (Inr (), d)
    \<and> ensure_current (st_locked c) (pl_generation p) (pl_deadline p) (sm_approvals m) = Inr () \<and> \<not> pl_deadline p \<le> st_locked c")
  case True
  then obtain g d where h: "get_idempotency (pl_project p) SHELL (pl_key p) (pl_binding p) (shell_db m) = Inr None"
    "put_idempotency (st_now c) (pl_project p) SHELL (pl_key p) (pl_digest p) RUNNING
        (Some (start_response (new_job c p))) (pl_binding p) (shell_db m) = (Inr (), d)"
    and m': "snd (admit_start c p m) = set_db d (m\<lparr>sm_gate := g,
      sm_jobs := sm_jobs m @ [(sj_id (new_job c p), \<lparr>jc_job = new_job c p, jc_plan = p, jc_phase = Created, jc_process = None,
        jc_cancel = False, jc_cancelling = 0, jc_killer = False, jc_killing = False, jc_consent = None\<rparr>)]\<rparr>)"
    by (auto simp: admit_start_def Let_def)
  have "\<not> journaled (id_of p) m" using h(1) by (auto simp: journaled_def get_idempotency_def split: option.splits if_splits)
  moreover have "journaled (id_of p) (snd (admit_start c p m))"
    using put_idempotency_stores [of "st_now c" "pl_project p" SHELL "pl_key p" "pl_digest p" RUNNING
        "Some (start_response (new_job c p))" "pl_binding p" "shell_db m"] h(2)
    unfolding m' journaled_set_db by auto
  moreover have "journaled k m \<Longrightarrow> journaled k (snd (admit_start c p m))" unfolding m' by (rule journaled_put [OF h(2)])
  moreover have "waiting k (sm_jobs (snd (admit_start c p m))) = waiting k (sm_jobs m) + (if id_of p = k then 1 else 0)"
    "sm_launches (snd (admit_start c p m)) = sm_launches m"
    "distinct (map fst (sm_jobs m)) \<Longrightarrow> distinct (map fst (sm_jobs (snd (admit_start c p m))))"
    unfolding m' using assms(2) by (auto simp: set_db_def waiting_def)
  ultimately show ?thesis using assms(1) by (auto simp: once_inv_def split: if_splits)
next
  case False
  have "calm k m (snd (admit_start c p m))"
  proof (cases "put_idempotency (st_now c) (pl_project p) SHELL (pl_key p) (pl_digest p) RUNNING
        (Some (start_response (new_job c p))) (pl_binding p) (shell_db m)")
    case (Pair r d)
    have "calm k m (set_db d (m\<lparr>sm_gate := g\<rparr>))" for g
      by (rule calm_same, simp add: set_db_def, simp add: set_db_def, rule journaled_put [OF Pair])
    then show ?thesis using False Pair unfolding admit_start_def Let_def
      by (cases r) (auto split: sum.splits option.splits)
  qed
  then show ?thesis using assms(1) by (rule calm_inv)
qed

lemma once_inv_starting [simp]: "once_inv k (m\<lparr>sm_starting := x\<rparr>) = once_inv k m"
  by (simp add: once_inv_def journaled_def shell_db_def)

lemma admit_once: "once_inv k m \<Longrightarrow> once_inv k (admit n m)"
  by (auto simp: admit_def Let_def split: prod.splits intro!: admit_start_once)

text \<open>The identity of a job is in use for good as long as its record is.\<close>

definition keeps_record :: "shell_id \<Rightarrow> shell_event \<Rightarrow> bool" where
  "keeps_record k ev = (case ev of Store c \<Rightarrow> retains (fst k, SHELL, snd k) c | _ \<Rightarrow> True)"

lemma at_phase_once:
  assumes "once_inv k m"
    and "\<And>c. map_of (sm_jobs m) jid = Some c \<Longrightarrow> P (jc_phase c) \<Longrightarrow> once_inv k (f c m)"
  shows "once_inv k (at_phase jid P f m)"
  using assms by (auto simp: at_phase_def split: option.splits)

lemma update_once:
  "once_inv k m \<Longrightarrow> (\<And>c. jc_plan (f c) = jc_plan c \<and> (unlaunched (jc_phase (f c)) \<longrightarrow> unlaunched (jc_phase c)))
     \<Longrightarrow> once_inv k (update_cell jid f m)"
  using calm_inv update_cell_calm by blast

lemma later_steps_once:
  assumes "once_inv k m" "map_of (sm_jobs m) jid = Some c"
  shows "jc_phase c = Ready \<Longrightarrow> once_inv k (run_check msg now jid c m)"
    "jc_phase c = Checked \<Longrightarrow> once_inv k (run_enabled msg jid c m)"
    "once_inv k (run_started msg r jid m)" "once_inv k (run_exit rc kd jid m)" "once_inv k (run_collect jid m)"
    "once_inv k (run_release jid c m)" "once_inv k (run_journal now jid c m)" "once_inv k (run_evict jid m)"
    "once_inv k (run_cancelled kd jid c m)"
proof -
  have dist: "distinct (map fst (sm_jobs m))" using assms(1) by (simp add: once_inv_def)
  have *: "\<And>c'. (jid, c') \<in> set (sm_jobs m) \<Longrightarrow> c' = c" using cell_unique [OF dist assms(2)] .
  have fail: "once_inv k (update_cell jid (fail_cell msg e) m)" for e by (rule update_once [OF assms(1)]) simp
  show "once_inv k (run_check msg now jid c m)" if "jc_phase c = Ready"
    unfolding run_check_def
    by (cases "ensure_current now (pl_generation (jc_plan c)) (ap_deadline (pl_approval (jc_plan c))) (sm_approvals m)")
      (use fail that * in \<open>auto intro!: calm_inv [OF update_cell_calm assms(1)]\<close>)
  show "once_inv k (run_enabled msg jid c m)" if "jc_phase c = Checked"
    unfolding run_enabled_def
    by (cases "require_enabled (pl_project (jc_plan c)) (shell_db m)")
      (use fail that * in \<open>auto intro!: calm_inv [OF update_cell_calm assms(1)]\<close>)
  show "once_inv k (run_started msg r jid m)" unfolding run_started_def
    by (cases r) (use fail in \<open>auto intro!: update_once [OF assms(1)]\<close>)
  show "once_inv k (run_exit rc kd jid m)" unfolding run_exit_def
    by (cases rc) (auto intro!: update_once [OF assms(1)] simp: Let_def)
  show "once_inv k (run_collect jid m)" unfolding run_collect_def by (rule update_once [OF assms(1)]) simp
  have "calm k m (run_release jid c m)" unfolding run_release_def calm_simps by (rule update_cell_calm) simp
  then show "once_inv k (run_release jid c m)" using assms(1) by (rule calm_inv)
  show "once_inv k (run_journal now jid c m)"
  proof -
    obtain r d where p: "put_job now (terminal_state (sj_state (jc_job c))) (jc_job c) (shell_db m) = (r, d)" by fastforce
    have "once_inv k (set_db d m)" by (rule calm_inv [OF put_job_calm [OF p] assms(1)])
    then show ?thesis unfolding run_journal_def p by (cases r) (auto intro!: update_once)
  qed
  show "once_inv k (run_evict jid m)" by (rule calm_inv [OF run_evict_calm assms(1)])
  show "once_inv k (run_cancelled kd jid c m)" unfolding run_cancelled_def by (auto intro!: update_once [OF assms(1)])
qed

lemma step_once:
  assumes i: "once_inv k m" and "keeps_record k ev"
  shows "once_inv k (shell_step sha msg ev m)"
proof -
  have dist: "distinct (map fst (sm_jobs m))" using i by (simp add: once_inv_def)
  show ?thesis
  proof (cases ev)
    case (Start h c inp)
    then show ?thesis using i by (auto split: sum.splits)
  next
    case (Admit n)
    then show ?thesis using admit_once [OF i] by simp
  next
    case (Run_begin u ts pin jid)
    show ?thesis unfolding Run_begin shell_step.simps
      by (rule at_phase_once [OF i], rule calm_inv [OF run_begin_calm [OF dist] i])
  next
    case (Run_answer now out jid)
    have "once_inv k (run_answer msg now out tk jid m)"
      if "map_of (sm_jobs m) jid = Some c" "jc_phase c = Prompting tk" for c tk
      by (rule calm_inv [OF run_answer_calm [OF dist that(1)] i]) (simp add: that(2))
    then show ?thesis unfolding Run_answer shell_step.simps
      by (intro at_phase_once [OF i]) (auto split: phase.splits)
  next
    case (Run_launch x jid)
    show ?thesis unfolding Run_launch shell_step.simps
      by (rule at_phase_once [OF i], rule run_launch_once [OF i])
  next
    case (Cancel_begin rc pid jid g l)
    then show ?thesis using i by (auto simp: cancel_begin_def split: sum.splits option.splits intro!: update_once)
  next
    case (Cancel_end now pid jid)
    show ?thesis unfolding Cancel_end shell_step.simps
      by (rule at_phase_once [OF i]) (simp add: i calm_inv [OF cancel_end_calm i])
  next
    case Disconnected
    have "calm k m (disconnected m)"
      unfolding calm_def disconnected_def
      by (simp add: journaled_def shell_db_def) (rule waiting_map, simp add: disconnect_cell_def)
    then show ?thesis using Disconnected calm_inv [OF _ i] by simp
  next
    case Reconnected
    have "calm k m (reconnected m)"
      unfolding calm_def reconnected_def by (simp add: journaled_def shell_db_def) (rule waiting_map, simp)
    then show ?thesis using Reconnected calm_inv [OF _ i] by simp
  next
    case (Store c)
    have "journaled k (set_db (exec sha c (shell_db m)) m)" if "journaled k m"
      using that exec_keeps_idem [of "(fst k, SHELL, snd k)" "shell_db m" _ c sha] assms(2) Store
      unfolding journaled_set_db by (auto simp: journaled_def keeps_record_def)
    then show ?thesis using Store i calm_inv [OF calm_same [of "set_db (exec sha c (shell_db m)) m" m k]] by (simp add: set_db_def)
  next
    case Agent_restart
    then show ?thesis using i by (auto simp: restart_shell_def once_inv_def waiting_def journaled_def shell_db_def new_manager_def split: if_splits)
  next
    case (Kill_begin rc jid)
    then show ?thesis using i by (auto simp: kill_begin_def intro!: update_once split: if_splits)
  next
    case (Kill_end jid)
    then show ?thesis using i by (auto simp: kill_end_def intro!: update_once split: if_splits)
  next
    case Security_event
    then show ?thesis using i by (auto simp: once_inv_def journaled_def shell_db_def clear_def bump_def)
  next
    case (Other_reserve k' v)
    then show ?thesis using i by (auto simp: once_inv_def journaled_def shell_db_def split: sum.splits)
  next
    case (Other_release k' v)
    then show ?thesis using i by (auto simp: once_inv_def journaled_def shell_db_def)
  next
    case (Run_output s t jid)
    then show ?thesis using i by (auto intro!: at_phase_once update_once)
  qed (use i later_steps_once [OF i] in \<open>auto intro!: at_phase_once\<close>)
qed

text \<open>
  C4. A start request launches its command at most once: whatever is polled, cancelled, answered,
  disconnected or killed, whatever else happens in the database, and however often the agent is
  restarted and the request repeated, the process starter is called at most once for one project
  and idempotency key, as long as the key's record is not deleted.
\<close>

theorem command_started_once:
  assumes "\<forall>ev\<in>set es. keeps_record (pid, key) ev"
  shows "length (filter (\<lambda>l. pl_project (la_plan l) = pid \<and> pl_key (la_plan l) = key)
    (sm_launches (shell_run sha msg es (new_shell account device g am)))) \<le> 1"
proof -
  have "once_inv (pid, key) (shell_run sha msg es m)" if "once_inv (pid, key) m" for m
    using assms that unfolding shell_run_def by (induction es arbitrary: m) (simp_all add: step_once)
  moreover have "once_inv (pid, key) (new_shell account device g am)"
    by (simp add: once_inv_def new_shell_def waiting_def launched_def)
  ultimately have "launched (pid, key) (sm_launches (shell_run sha msg es (new_shell account device g am))) \<le> 1"
    by (fastforce simp: once_inv_def split: if_splits)
  then show ?thesis by (simp add: launched_def)
qed

theorem command_started_once_witness:
  "let es = launch_steps ''a'' @ [Agent_restart] @ launch_steps ''b'' in
   length (filter (\<lambda>l. pl_project (la_plan l) = lit ''p1'' \<and> pl_key (la_plan l) = lit ''k'')
     (sm_launches (shell_session NATIVE_APPROVAL es))) \<le> 1 \<and> sm_launches (shell_session NATIVE_APPROVAL es) \<noteq> []"
proof -
  let ?es = "launch_steps ''a'' @ [Agent_restart] @ launch_steps ''b''"
  have "\<forall>ev\<in>set ?es. keeps_record (lit ''p1'', lit ''k'') ev" by (simp add: launch_steps_def keeps_record_def Let_def)
  note once = command_started_once [OF this, of "take 30" "\<lambda>_. lit ''m''" "lit ''acct''" "lit ''device''" new_gate]
  have "length (sm_launches (shell_session NATIVE_APPROVAL ?es)) = 1" by code_simp
  then have "sm_launches (shell_session NATIVE_APPROVAL ?es) \<noteq> []" by auto
  then show ?thesis unfolding Let_def shell_session_def shell_example_def using once by blast
qed

end
