(* ===== verification/Shell_Consent.thy ===== *)
theory Shell_Consent
  imports Shell_Laws
begin

text \<open>
  Consent to shell commands: what \<open>start\<close> plans is what the approval names, the approval is answered
  or found saved before the launch, and what is launched is what was planned.
\<close>

section \<open>Plans\<close>

definition plan_ok :: "(bytes \<Rightarrow> pystr) \<Rightarrow> plan \<Rightarrow> bool" where
  "plan_ok sha p \<longleftrightarrow>
     compute_action_digest sha (approved_execution (pl_project p) (pl_mode p) (pl_spec p) (pl_executor p) (pl_references p)
       (pl_uncertainty p)) = Inr (ap_digest (pl_approval p))
     \<and> ap_binding (pl_approval p) = pl_binding p
     \<and> (\<exists>u declared. outside_references u (cs_root (pl_spec p)) (cs_directory (pl_spec p)) (pl_command p) declared = Inr (pl_references p)
          \<and> uncertain_constructs u (pl_command p) = pl_uncertainty p)
     \<and> command_spec (pl_command p) = Inr (cs_command (pl_spec p))
     \<and> (pl_needs p \<or> pl_mode p = pl_original p
          \<and> (pl_mode p = FULL_ACCESS
             \<or> pl_mode p = NATIVE_PROJECT \<and> \<not> pl_external p \<and> pl_references p = [] \<and> pl_uncertainty p = []))"

lemma build_specification_fields:
  "build_specification h n pr dir command timeout limit native = Inr sp \<Longrightarrow>
     cs_root sp = root pr \<and> cs_directory sp = dir \<and> command_spec command = Inr (cs_command sp)"
  by (auto simp: build_specification_def res_simps split: option.splits json.splits)

lemma policy_silent:
  "project_access_policy (pr\<lparr>mode := md\<rparr>) inside uncertain = Inr pol \<Longrightarrow> \<not> requires_approval pol \<Longrightarrow>
     md = FULL_ACCESS \<or> md = NATIVE_PROJECT \<and> inside \<and> \<not> uncertain"
  by (auto simp: project_access_policy_def split: if_splits project_mode.splits)

lemma plan_start_ok:
  assumes "plan_start sha h c b inp pr md gen = Inr p" "md = mode pr \<or> md = NATIVE_APPROVAL"
  shows "plan_ok sha p"
proof -
  obtain pid key purpose command timeout limit at dir resource references pol sp dg where
    h: "outside_references (ho_unicode h) (root pr) dir command (declared_paths inp) = Inr references"
      "project_access_policy (pr\<lparr>mode := md\<rparr>) (external_cwd inp = None \<and> references = [])
         (uncertain_constructs (ho_unicode h) command \<noteq> []) = Inr pol"
      "build_specification h (st_nonce c) pr dir command timeout limit (md \<noteq> ISOLATED) = Inr sp"
      "compute_action_digest sha (approved_execution pid md sp (st_executor c) references
         (uncertain_constructs (ho_unicode h) command)) = Inr dg"
    and p: "pl_project p = pid" "pl_mode p = md" "pl_original p = mode pr" "pl_spec p = sp" "pl_command p = command"
      "pl_executor p = st_executor c" "pl_references p = references" "pl_needs p = requires_approval pol"
      "pl_uncertainty p = uncertain_constructs (ho_unicode h) command" "ap_digest (pl_approval p) = dg"
      "ap_binding (pl_approval p) = b" "pl_binding p = b" "pl_external p = (external_cwd inp \<noteq> None)"
    using assms(1) by (auto simp: plan_start_def res_simps Let_def shell_approval_def split: if_splits)
  note sp = build_specification_fields [OF h(3)]
  show ?thesis unfolding plan_ok_def p using h sp policy_silent [OF h(2)] assms(2) by auto
qed

lemma execution_mode_cases: "execution_mode pr inp = Inr md \<Longrightarrow> md = mode pr \<or> md = NATIVE_APPROVAL"
  by (auto simp: execution_mode_def split: option.splits json.splits if_splits)

lemma prepare_start_ok:
  assumes "prepare_start sha h c inp m = Inr (Inr p)" shows "plan_ok sha p"
proof -
  obtain b pr md gen where "plan_start sha h c b inp pr md gen = Inr p" "execution_mode pr inp = Inr md"
    using assms by (auto simp: prepare_start_def Let_def res_simps split: option.splits)
  then show ?thesis using plan_start_ok execution_mode_cases by blast
qed

section \<open>Cells\<close>

definition consent_ok :: "plan \<Rightarrow> consent option \<Rightarrow> bool" where
  "consent_ok p cn \<longleftrightarrow> cn = Some Unneeded \<and> \<not> pl_needs p
     \<or> pl_needs p \<and> (\<exists>rq. ap_digest rq = ap_digest (pl_approval p) \<and> ap_binding rq = ap_binding (pl_approval p)
         \<and> (cn = Some (Saved rq) \<or> (\<exists>d\<in>{ALLOW_ONCE, ALLOW_ALWAYS_SHELL}. cn = Some (Answered rq (Decided d)))))"

definition ticket_ok :: "plan \<Rightarrow> ticket \<Rightarrow> bool" where
  "ticket_ok p tk \<longleftrightarrow> pl_needs p \<and> \<not> tk_session tk \<and> sc_read (tk_scopes tk) = None \<and> sc_screen (tk_scopes tk) = None
     \<and> ap_digest (tk_request tk) = ap_digest (pl_approval p) \<and> ap_binding (tk_request tk) = ap_binding (pl_approval p)"

definition cell_ok :: "(bytes \<Rightarrow> pystr) \<Rightarrow> job_cell \<Rightarrow> bool" where
  "cell_ok sha c \<longleftrightarrow> plan_ok sha (jc_plan c)
     \<and> (case jc_phase c of Prompting tk \<Rightarrow> ticket_ok (jc_plan c) tk
        | Ready \<Rightarrow> consent_ok (jc_plan c) (jc_consent c) | Checked \<Rightarrow> consent_ok (jc_plan c) (jc_consent c)
        | Enabled \<Rightarrow> consent_ok (jc_plan c) (jc_consent c) | _ \<Rightarrow> True)"

definition launch_ok :: "(bytes \<Rightarrow> pystr) \<Rightarrow> launch \<Rightarrow> bool" where
  "launch_ok sha l \<longleftrightarrow> (let p = la_plan l in plan_ok sha p \<and> consent_ok p (la_consent l) \<and> la_mode l = pl_original p
     \<and> (pl_needs p \<longrightarrow> la_executor l = pl_executor p) \<and> la_spec l = (pl_spec p)\<lparr>cs_external := pl_external p\<rparr>)"

definition consent_inv :: "(bytes \<Rightarrow> pystr) \<Rightarrow> shell_manager \<Rightarrow> bool" where
  "consent_inv sha m \<longleftrightarrow> distinct (map fst (sm_jobs m)) \<and> (\<forall>c p. (c, p) \<in> set (sm_starting m) \<longrightarrow> plan_ok sha p)
     \<and> (\<forall>j c. (j, c) \<in> set (sm_jobs m) \<longrightarrow> cell_ok sha c) \<and> (\<forall>l\<in>set (sm_launches m). launch_ok sha l)"

lemma open_request_ticket:
  "open_request sha ts rq False sc reuse am = (Inr (Waiting tk), am') \<Longrightarrow>
     \<not> tk_session tk \<and> tk_scopes tk = sc \<and> ap_digest (tk_request tk) = ap_digest rq \<and> ap_binding (tk_request tk) = ap_binding rq"
  by (cases ts) (auto simp: open_request_def open_prompt_def split: sum.splits option.splits if_splits)

lemma decide_allows:
  "decide now tk out am = (Inr b, am') \<Longrightarrow> \<not> tk_session tk \<Longrightarrow> sc_read (tk_scopes tk) = None \<Longrightarrow> sc_screen (tk_scopes tk) = None \<Longrightarrow>
     \<exists>d\<in>{ALLOW_ONCE, ALLOW_ALWAYS_SHELL}. out = Decided d"
  by (auto simp: decide_def locked_decision_def always_def Let_def
      split: prompt_outcome.splits sum.splits approval_decision.splits option.splits if_splits)

lemma update_cell_consent:
  assumes "consent_inv sha m" "\<And>c. (jid, c) \<in> set (sm_jobs m) \<Longrightarrow> cell_ok sha c \<Longrightarrow> cell_ok sha (f c)"
  shows "consent_inv sha (update_cell jid f m)"
  using assms by (auto simp: consent_inv_def update_cell_def)

lemma consent_inv_frame [simp]:
  "consent_inv sha (m\<lparr>sm_gate := g\<rparr>) = consent_inv sha m" "consent_inv sha (m\<lparr>sm_approvals := am\<rparr>) = consent_inv sha m"
  "consent_inv sha (m\<lparr>sm_terminal := ts\<rparr>) = consent_inv sha m" "consent_inv sha (set_db d m) = consent_inv sha m"
  by (simp_all add: consent_inv_def set_db_def)

text \<open>Updates that leave the plan alone and do not lead to a phase before the launch.\<close>

lemma past_cell_ok: "cell_ok sha c \<Longrightarrow> jc_plan c' = jc_plan c \<Longrightarrow> \<not> unlaunched (jc_phase c') \<Longrightarrow> cell_ok sha c'"
  by (auto simp: cell_ok_def split: phase.splits)

lemma same_cell_ok:
  "cell_ok sha c \<Longrightarrow> jc_plan c' = jc_plan c \<Longrightarrow> jc_phase c' = jc_phase c \<Longrightarrow> jc_consent c' = jc_consent c \<Longrightarrow> cell_ok sha c'"
  by (cases "jc_phase c") (simp_all add: cell_ok_def)

lemma fail_consent: "consent_inv sha m \<Longrightarrow> consent_inv sha (update_cell jid (fail_cell msg e) m)"
  by (erule update_cell_consent) (erule past_cell_ok, simp_all)

lemma update_past:
  "consent_inv sha m \<Longrightarrow> (\<And>c. jc_plan (f c) = jc_plan c) \<Longrightarrow> (\<And>c. \<not> unlaunched (jc_phase (f c))) \<Longrightarrow> consent_inv sha (update_cell jid f m)"
  by (erule update_cell_consent) (erule past_cell_ok, auto)

lemma update_same:
  "consent_inv sha m \<Longrightarrow> (\<And>c. jc_plan (f c) = jc_plan c \<and> jc_phase (f c) = jc_phase c \<and> jc_consent (f c) = jc_consent c)
     \<Longrightarrow> consent_inv sha (update_cell jid f m)"
  by (erule update_cell_consent) (erule same_cell_ok, auto)

section \<open>Steps\<close>

lemma run_begin_consent:
  assumes "consent_inv sha m" "map_of (sm_jobs m) jid = Some c" "jc_phase c = Created"
  shows "consent_inv sha (run_begin sha msg u ts pin jid c m)"
proof -
  have dist: "distinct (map fst (sm_jobs m))" using assms(1) by (simp add: consent_inv_def)
  have *: "\<And>c'. (jid, c') \<in> set (sm_jobs m) \<Longrightarrow> c' = c" using cell_unique [OF dist assms(2)] .
  let ?p = "jc_plan c"
  let ?id = "bindE (require_enabled (pl_project ?p) (shell_db m)) (\<lambda>_.
      if pl_external ?p then bindE pin (\<lambda>i. Inr (cs_fingerprint (pl_spec ?p) @ [58] @ i)) else Inr (cs_fingerprint (pl_spec ?p)))"
  show ?thesis
  proof (cases ?id)
    case (Inl e)
    then show ?thesis using assms(1) by (simp add: run_begin_def Let_def fail_consent)
  next
    case (Inr identity)
    show ?thesis
    proof (cases "pl_needs ?p")
      case False
      then have "cell_ok sha (c\<lparr>jc_phase := Ready, jc_consent := Some Unneeded\<rparr>)" if "cell_ok sha c"
        using that by (simp add: cell_ok_def consent_ok_def)
      then show ?thesis using False Inr assms(1) * by (auto simp: run_begin_def Let_def intro!: update_cell_consent)
    next
      case True
      let ?sc = "shell_scopes u ?p identity (pl_reuse ?p \<and> am_db (sm_approvals m) \<noteq> None)"
      obtain r am where o: "open_request sha ts (pl_approval ?p) False ?sc (pl_reuse ?p) (sm_approvals m) = (r, am)" by fastforce
      have e: "run_begin sha msg u ts pin jid c m = (case r of
          Inl e \<Rightarrow> update_cell jid (fail_cell msg e) (m\<lparr>sm_approvals := am\<rparr>)
        | Inr Granted \<Rightarrow> update_cell jid (\<lambda>c. (set_state QUEUED c)\<lparr>jc_phase := Ready, jc_consent := Some (Saved (pl_approval ?p))\<rparr>)
            (m\<lparr>sm_approvals := am\<rparr>)
        | Inr (Waiting tk) \<Rightarrow> update_cell jid (\<lambda>c. c\<lparr>jc_phase := Prompting tk\<rparr>) (m\<lparr>sm_approvals := am\<rparr>))"
        using True Inr o by (auto simp: run_begin_def Let_def split: sum.splits prompt_state.splits)
      have "cell_ok sha ((set_state QUEUED c)\<lparr>jc_phase := Ready, jc_consent := Some (Saved (pl_approval ?p))\<rparr>)" if "cell_ok sha c"
        using that True by (auto simp: cell_ok_def consent_ok_def)
      moreover have "cell_ok sha (c\<lparr>jc_phase := Prompting tk\<rparr>)" if "cell_ok sha c" "r = Inr (Waiting tk)" for tk
        using that True open_request_ticket [OF o [unfolded that(2)]] by (simp add: cell_ok_def ticket_ok_def shell_scopes_def)
      ultimately show ?thesis unfolding e using assms(1) *
        by (auto simp: fail_consent intro!: update_cell_consent split: sum.splits prompt_state.splits)
    qed
  qed
qed

lemma run_answer_consent:
  assumes "consent_inv sha m" "map_of (sm_jobs m) jid = Some c" "jc_phase c = Prompting tk"
  shows "consent_inv sha (run_answer msg now out tk jid m)"
proof -
  have dist: "distinct (map fst (sm_jobs m))" using assms(1) by (simp add: consent_inv_def)
  have *: "\<And>c'. (jid, c') \<in> set (sm_jobs m) \<Longrightarrow> c' = c" using cell_unique [OF dist assms(2)] .
  have ok: "cell_ok sha c" using assms(1) map_of_SomeD [OF assms(2)] by (auto simp: consent_inv_def)
  then have tk: "ticket_ok (jc_plan c) tk" using assms(3) by (simp add: cell_ok_def)
  obtain r am where d: "decide now tk out (sm_approvals m) = (r, am)" by fastforce
  show ?thesis
  proof (cases r)
    case (Inl e)
    then show ?thesis using assms(1) d by (simp add: run_answer_def fail_consent)
  next
    case (Inr b)
    have "\<exists>d\<in>{ALLOW_ONCE, ALLOW_ALWAYS_SHELL}. out = Decided d"
      using decide_allows [OF d [unfolded Inr]] tk by (simp add: ticket_ok_def)
    then have "cell_ok sha ((set_state QUEUED c)\<lparr>jc_phase := Ready, jc_consent := Some (Answered (tk_request tk) out)\<rparr>)"
      using ok tk by (auto simp: cell_ok_def consent_ok_def ticket_ok_def)
    then show ?thesis using Inr d assms(1) * by (auto simp: run_answer_def intro!: update_cell_consent)
  qed
qed

lemma run_launch_consent:
  assumes "consent_inv sha m" "map_of (sm_jobs m) jid = Some c" "jc_phase c = Enabled"
  shows "consent_inv sha (run_launch msg x jid c m)"
proof -
  have "cell_ok sha c" using assms(1) map_of_SomeD [OF assms(2)] by (auto simp: consent_inv_def)
  then have ok: "plan_ok sha (jc_plan c)" "consent_ok (jc_plan c) (jc_consent c)" using assms(3) by (simp_all add: cell_ok_def)
  have up: "consent_inv sha (update_cell jid (\<lambda>c. c\<lparr>jc_phase := Launching\<rparr>) m)" by (rule update_past [OF assms(1)]) simp_all
  have "consent_inv sha ((update_cell jid (\<lambda>c. c\<lparr>jc_phase := Launching\<rparr>) m)\<lparr>sm_launches := sm_launches m @ [l]\<rparr>)" if "launch_ok sha l" for l
    using up that assms(1) by (auto simp: consent_inv_def)
  then show ?thesis using ok assms(1)
    by (auto simp: run_launch_def Let_def fail_consent launch_ok_def split: sum.splits)
qed

lemma admit_consent: "consent_inv sha m \<Longrightarrow> consent_inv sha (admit n m)"
proof (cases "n < length (sm_starting m)")
  case True
  assume i: "consent_inv sha m"
  obtain c p where cp: "sm_starting m ! n = (c, p)" by fastforce
  let ?m = "m\<lparr>sm_starting := take n (sm_starting m) @ drop (Suc n) (sm_starting m)\<rparr>"
  have p: "plan_ok sha p" using i True cp nth_mem [OF True] by (auto simp: consent_inv_def)
  have i': "consent_inv sha ?m" using i by (auto simp: consent_inv_def dest: in_set_takeD in_set_dropD)
  have "consent_inv sha (snd (admit_start c p ?m))" if "sj_id (new_job c p) \<notin> fst ` set (sm_jobs m)"
  proof -
    have "consent_inv sha (?m\<lparr>sm_gate := g, sm_jobs := sm_jobs m @ [(sj_id (new_job c p), \<lparr>jc_job = new_job c p, jc_plan = p,
        jc_phase = Created, jc_process = None, jc_cancel = False, jc_cancelling = 0, jc_killer = False, jc_killing = False,
        jc_consent = None\<rparr>)]\<rparr>)" for g
      using i' p that by (auto simp: consent_inv_def cell_ok_def)
    then show ?thesis using i' by (auto simp: admit_start_def Let_def split: sum.splits option.splits prod.splits)
  qed
  then show ?thesis using True cp i' by (simp add: admit_def Let_def)
qed (simp add: admit_def)

lemma at_phase_consent:
  assumes "consent_inv sha m"
    and "\<And>c. map_of (sm_jobs m) jid = Some c \<Longrightarrow> P (jc_phase c) \<Longrightarrow> consent_inv sha (f c m)"
  shows "consent_inv sha (at_phase jid P f m)"
  using assms by (auto simp: at_phase_def split: option.splits)

text \<open>A step from one phase after the consent to the next keeps the cell.\<close>

lemma advance_consent:
  assumes "consent_inv sha m" "map_of (sm_jobs m) jid = Some c" "jc_phase c \<in> {Ready, Checked}" "ph \<in> {Checked, Enabled}"
  shows "consent_inv sha (update_cell jid (\<lambda>c. c\<lparr>jc_phase := ph\<rparr>) m)"
proof -
  have dist: "distinct (map fst (sm_jobs m))" using assms(1) by (simp add: consent_inv_def)
  have "cell_ok sha (c\<lparr>jc_phase := ph\<rparr>)" if "cell_ok sha c" using that assms(3,4) by (auto simp: cell_ok_def)
  then show ?thesis using assms(1) cell_unique [OF dist assms(2)] by (auto intro!: update_cell_consent)
qed

lemma map_cells_consent:
  assumes "consent_inv sha m" "\<And>c. cell_ok sha c \<Longrightarrow> cell_ok sha (f c)"
  shows "consent_inv sha (m\<lparr>sm_jobs := map (\<lambda>(k, c). (k, f c)) (sm_jobs m)\<rparr>)"
  using assms by (auto simp: consent_inv_def)

lemma step_consent:
  assumes i: "consent_inv sha m"
  shows "consent_inv sha (shell_step sha msg ev m)"
proof (cases ev)
  case (Start h c inp)
  have "consent_inv sha (m\<lparr>sm_starting := sm_starting m @ [(c, p)]\<rparr>)" if "prepare_start sha h c inp m = Inr (Inr p)" for p
    using i prepare_start_ok [OF that] by (auto simp: consent_inv_def)
  then show ?thesis using Start i by (auto split: sum.splits)
next
  case (Admit n)
  then show ?thesis using admit_consent [OF i] by simp
next
  case (Run_begin u ts pin jid)
  show ?thesis unfolding Run_begin shell_step.simps
    by (rule at_phase_consent [OF i], rule run_begin_consent [OF i])
next
  case (Run_answer now out jid)
  show ?thesis unfolding Run_answer shell_step.simps
    by (rule at_phase_consent [OF i]) (auto split: phase.splits intro: run_answer_consent [OF i])
next
  case (Run_check now jid)
  show ?thesis unfolding Run_check shell_step.simps run_check_def
    by (rule at_phase_consent [OF i]) (auto simp: fail_consent i split: sum.splits intro: advance_consent [OF i])
next
  case (Run_enabled jid)
  show ?thesis unfolding Run_enabled shell_step.simps run_enabled_def
    by (rule at_phase_consent [OF i]) (auto simp: fail_consent i split: sum.splits intro: advance_consent [OF i])
next
  case (Run_launch x jid)
  show ?thesis unfolding Run_launch shell_step.simps
    by (rule at_phase_consent [OF i], rule run_launch_consent [OF i])
next
  case (Run_started r jid)
  show ?thesis unfolding Run_started shell_step.simps run_started_def
    by (rule at_phase_consent [OF i]) (auto simp: fail_consent i split: sum.splits intro!: update_past [OF i])
next
  case (Run_output s t jid)
  show ?thesis unfolding Run_output shell_step.simps
    by (rule at_phase_consent [OF i]) (auto intro!: update_same [OF i])
next
  case (Run_exit rc kd jid)
  show ?thesis unfolding Run_exit shell_step.simps run_exit_def
    by (rule at_phase_consent [OF i]) (auto simp: Let_def split: option.splits intro!: update_past [OF i])
next
  case (Run_collect jid)
  show ?thesis unfolding Run_collect shell_step.simps run_collect_def
    by (rule at_phase_consent [OF i]) (auto intro!: update_past [OF i])
next
  case (Run_release jid)
  show ?thesis unfolding Run_release shell_step.simps run_release_def
    by (rule at_phase_consent [OF i]) (auto intro!: update_past [OF i])
next
  case (Run_journal now jid)
  have "consent_inv sha (update_cell jid (\<lambda>c. c\<lparr>jc_phase := ph\<rparr>) (set_db d m))" if "\<not> unlaunched ph" for ph d
    using that i by (intro update_past) auto
  then show ?thesis unfolding Run_journal shell_step.simps run_journal_def
    by (intro at_phase_consent [OF i]) (auto split: prod.splits sum.splits)
next
  case (Run_evict jid)
  have "consent_inv sha (update_cell jid (\<lambda>c. c\<lparr>jc_phase := Done\<rparr>) m)" by (rule update_past [OF i]) simp_all
  then have "consent_inv sha (run_evict jid m)"
    by (auto simp: run_evict_def Let_def consent_inv_def distinct_map_filter)
  then show ?thesis unfolding Run_evict shell_step.simps by (intro at_phase_consent [OF i])
next
  case (Run_cancelled rc jid)
  show ?thesis unfolding Run_cancelled shell_step.simps run_cancelled_def
    by (rule at_phase_consent [OF i]) (auto simp: i intro!: update_past [OF i])
next
  case (Cancel_begin rc pid jid g l)
  then show ?thesis using i by (auto simp: cancel_begin_def split: sum.splits option.splits intro!: update_same [OF i])
next
  case (Cancel_end now pid jid)
  have "consent_inv sha (snd (cancel_end now pid jid c m))" for c
  proof -
    have "consent_inv sha (update_cell jid (\<lambda>c. (set_state JOB_CANCELLED c)\<lparr>jc_cancel := (jc_phase c \<noteq> Done),
        jc_cancelling := jc_cancelling c - 1\<rparr>) m)" by (rule update_same [OF i]) simp
    then show ?thesis unfolding cancel_end_def Let_def by (auto split: prod.splits sum.splits)
  qed
  then show ?thesis unfolding Cancel_end shell_step.simps by (intro at_phase_consent [OF i]) (simp add: i)
next
  case Disconnected
  have "cell_ok sha c \<Longrightarrow> cell_ok sha (disconnect_cell c)" for c by (erule same_cell_ok) (simp_all add: disconnect_cell_def)
  then show ?thesis unfolding Disconnected shell_step.simps disconnected_def by (rule map_cells_consent [OF i])
next
  case Reconnected
  show ?thesis unfolding Reconnected shell_step.simps reconnected_def
    by (rule map_cells_consent [OF i], erule same_cell_ok) simp_all
next
  case (Kill_begin rc jid)
  then show ?thesis using i by (auto simp: kill_begin_def intro!: update_same)
next
  case (Kill_end jid)
  then show ?thesis using i by (auto simp: kill_end_def intro!: update_same)
next
  case (Other_reserve k v)
  then show ?thesis using i by (auto split: sum.splits)
next
  case Agent_restart
  then show ?thesis using i by (auto simp: restart_shell_def consent_inv_def)
qed (use i in simp_all)

text \<open>
  C5. A command is launched only with consent to exactly this execution: either the project is, at
  the launch, in full-access mode or in project mode with a command in which the review found
  neither a reference outside the project nor an uncertain construct and which has no external
  working directory; or the user allowed, now or permanently, a request of the same authorization
  whose digest is the digest of the launched command, its environment, directory, limits and the
  executable found just before the launch.  The mode is the one the request was planned under.
\<close>

theorem command_consented:
  assumes "l \<in> set (sm_launches (shell_run sha msg es (new_shell account device g am)))" "p = la_plan l"
  shows "la_mode l = pl_original p
    \<and> (la_consent l = Some Unneeded
         \<and> (la_mode l = FULL_ACCESS
            \<or> la_mode l = NATIVE_PROJECT \<and> \<not> cs_external (la_spec l)
              \<and> command_spec (pl_command p) = Inr (cs_command (la_spec l))
              \<and> (\<exists>u declared. outside_references u (cs_root (la_spec l)) (cs_directory (la_spec l)) (pl_command p) declared = Inr []
                   \<and> uncertain_constructs u (pl_command p) = []))
       \<or> (\<exists>rq. ap_binding rq = pl_binding p
            \<and> compute_action_digest sha (approved_execution (pl_project p) (pl_mode p) (la_spec l) (la_executor l)
                 (pl_references p) (pl_uncertainty p)) = Inr (ap_digest rq)
            \<and> (la_consent l = Some (Saved rq)
               \<or> (\<exists>d\<in>{ALLOW_ONCE, ALLOW_ALWAYS_SHELL}. la_consent l = Some (Answered rq (Decided d))))))"
proof -
  have "consent_inv sha (shell_run sha msg es m)" if "consent_inv sha m" for m
    using that unfolding shell_run_def by (induction es arbitrary: m) (simp_all add: step_consent)
  moreover have "consent_inv sha (new_shell account device g am)" by (simp add: consent_inv_def new_shell_def)
  ultimately have "launch_ok sha l" using assms(1) unfolding consent_inv_def by blast
  then have l: "plan_ok sha p" "consent_ok p (la_consent l)" "la_mode l = pl_original p"
    "pl_needs p \<Longrightarrow> la_executor l = pl_executor p" "la_spec l = (pl_spec p)\<lparr>cs_external := pl_external p\<rparr>"
    unfolding launch_ok_def Let_def assms(2) by blast+
  have ae: "approved_execution i md (la_spec l) x rs us = approved_execution i md (pl_spec p) x rs us" for i md x rs us
    by (simp add: l(5) approved_execution_def)
  show ?thesis
  proof (cases "pl_needs p")
    case True
    then obtain rq where rq: "ap_digest rq = ap_digest (pl_approval p)" "ap_binding rq = ap_binding (pl_approval p)"
      "la_consent l = Some (Saved rq) \<or> (\<exists>d\<in>{ALLOW_ONCE, ALLOW_ALWAYS_SHELL}. la_consent l = Some (Answered rq (Decided d)))"
      using l(2) unfolding consent_ok_def by blast
    have "ap_binding rq = pl_binding p" using l(1) rq(2) by (simp add: plan_ok_def)
    moreover have "compute_action_digest sha (approved_execution (pl_project p) (pl_mode p) (la_spec l) (la_executor l)
                 (pl_references p) (pl_uncertainty p)) = Inr (ap_digest rq)"
      unfolding ae l(4) [OF True] rq(1) using l(1) by (simp add: plan_ok_def)
    ultimately show ?thesis using l(3) rq(3) by blast
  next
    case False
    then have "la_consent l = Some Unneeded" using l(2) by (simp add: consent_ok_def)
    moreover have "la_mode l = FULL_ACCESS \<or> la_mode l = NATIVE_PROJECT \<and> \<not> cs_external (la_spec l)
        \<and> pl_references p = [] \<and> pl_uncertainty p = []"
      using l(1,3) False by (auto simp: plan_ok_def l(5))
    moreover have "command_spec (pl_command p) = Inr (cs_command (la_spec l))"
      "\<exists>u declared. outside_references u (cs_root (la_spec l)) (cs_directory (la_spec l)) (pl_command p) declared = Inr (pl_references p)
         \<and> uncertain_constructs u (pl_command p) = pl_uncertainty p"
      using l(1) by (simp_all add: plan_ok_def l(5))
    ultimately show ?thesis using l(3) by metis
  qed
qed

theorem command_consented_witness:
  "let l = hd (sm_launches (shell_session NATIVE_APPROVAL (launch_steps ''a''))); p = la_plan l in
   \<exists>rq :: approval_request. ap_binding rq = pl_binding p
     \<and> compute_action_digest (take 30) (approved_execution (pl_project p) (pl_mode p) (la_spec l) (la_executor l)
          (pl_references p) (pl_uncertainty p)) = Inr (ap_digest rq)"
proof -
  define l where "l = hd (sm_launches (shell_session NATIVE_APPROVAL (launch_steps ''a'')))"
  have "length (sm_launches (shell_session NATIVE_APPROVAL (launch_steps ''a''))) = 1" by code_simp
  then have "l \<in> set (sm_launches (shell_session NATIVE_APPROVAL (launch_steps ''a'')))"
    unfolding l_def by (intro hd_in_set) auto
  note consent = command_consented [OF this [unfolded shell_session_def shell_example_def] refl]
  have "la_mode l = NATIVE_APPROVAL" unfolding l_def by code_simp
  then have "la_mode l \<noteq> FULL_ACCESS" "la_mode l \<noteq> NATIVE_PROJECT" by simp_all
  then show ?thesis unfolding Let_def l_def [symmetric] using consent by metis
qed

end
