(* ===== verification/Relay_Store.thy ===== *)
theory Relay_Store
  imports Agent_Tunnel
begin

text \<open>
  The relay's database (\<open>relay/codito_relay/core/models.py\<close>): devices, device links, projects,
  operations, connection tickets and access tokens as tables of rows in the order of their
  creation, with the queries the dispatcher and the device sockets share, and the authentication of
  a caller (\<open>core/authz.py\<close>).  Times are microseconds; UUIDs are their texts.  Audit events are
  only ever written and are not part of the state.
\<close>

section \<open>Rows\<close>

datatype device_status = ENROLLING | ONLINE | OFFLINE | REVOKED

record device_row =
  dv_id :: pystr
  dv_account :: nat
  dv_name :: pystr
  dv_key :: json
  dv_thumbprint :: pystr
  dv_status :: device_status
  dv_epoch :: nat
  dv_last_seen :: "int option"
  dv_revoked :: "int option"

definition dv_active :: "device_row \<Rightarrow> bool" where
  "dv_active v \<longleftrightarrow> dv_revoked v = None \<and> dv_status v \<noteq> REVOKED"

record link_row =
  lk_id :: pystr
  lk_link :: pystr
  lk_account :: nat
  lk_device :: pystr
  lk_revoked :: "int option"

datatype project_status = AVAILABLE | UNAVAILABLE | PROJECT_REVOKED

record relay_project =
  pj_id :: pystr
  pj_account :: nat
  pj_device :: pystr
  pj_title :: pystr
  pj_fingerprint :: pystr
  pj_mode :: pystr
  pj_status :: project_status

definition project_modes :: "pystr list" where
  "project_modes = map lit [''isolated'', ''native_approval'', ''native_trusted'', ''full_access'', ''native_project'']"

datatype operation_status =
    St_accepted | St_dispatched | St_received | St_running
  | St_succeeded | St_failed | St_cancelled | St_expired | St_outcome_unknown

record relay_op =
  ro_id :: pystr
  ro_account :: nat
  ro_grant :: pystr
  ro_device :: pystr
  ro_link :: pystr
  ro_project :: "pystr option"
  ro_kind :: pystr
  ro_status :: operation_status
  ro_message :: pystr
  ro_correlation :: pystr
  ro_epoch :: nat
  ro_idempotency :: pystr
  ro_action_digest :: pystr
  ro_request_digest :: pystr
  ro_payload :: json
  ro_deadline :: int
  ro_attempted :: "int option"
  ro_sent_at :: "int option"
  ro_sent_epoch :: "nat option"
  ro_sequence :: nat
  ro_sequence_epoch :: nat
  ro_error :: pystr
  ro_result :: "json option"
  ro_created :: int

record ticket_row =
  ct_hash :: pystr
  ct_device :: pystr
  ct_challenge :: pystr
  ct_expires :: int
  ct_used :: "int option"

text \<open>An access token of the OAuth library, with its Codito binding when it has one.\<close>

record grant_binding =
  gb_account :: nat
  gb_link :: pystr
  gb_resource :: pystr
  gb_grant :: pystr
  gb_revoked :: "int option"

record token_row =
  at_id :: nat
  at_checksum :: pystr
  at_expires :: int
  at_user :: "nat option"
  at_resource :: "pystr list"
  at_scopes :: "pystr list"
  at_binding :: "grant_binding option"

record relay_db =
  rd_devices :: "device_row list"
  rd_links :: "link_row list"
  rd_projects :: "relay_project list"
  rd_ops :: "relay_op list"
  rd_tickets :: "ticket_row list"
  rd_tokens :: "token_row list"

record relay_settings =
  DEVICE_QUEUE_LIMIT :: nat
  DEVICE_OFFLINE_AFTER_SECONDS :: int
  OPERATION_TIMEOUT_SECONDS :: int
  FRONTEND_START_TIMEOUT_SECONDS :: int
  WS_TICKET_TTL_SECONDS :: int
  PUBLIC_BASE_URL :: pystr

text \<open>Status sets the code writes out at each use.\<close>

definition pending_status :: "operation_status \<Rightarrow> bool" where
  "pending_status s \<longleftrightarrow> s \<in> {St_accepted, St_dispatched, St_received, St_running}"

definition terminal_status :: "operation_status \<Rightarrow> bool" where
  "terminal_status s \<longleftrightarrow> s \<in> {St_succeeded, St_failed, St_cancelled, St_expired, St_outcome_unknown}"

lemma pending_or_terminal: "terminal_status s \<longleftrightarrow> \<not> pending_status s"
  by (cases s) (simp_all add: pending_status_def terminal_status_def)

section \<open>Queries and updates\<close>

definition find_device :: "pystr \<Rightarrow> relay_db \<Rightarrow> device_row option" where
  "find_device k d = find (\<lambda>v. dv_id v = k) (rd_devices d)"

definition find_link :: "pystr \<Rightarrow> relay_db \<Rightarrow> link_row option" where
  "find_link k d = find (\<lambda>l. lk_id l = k) (rd_links d)"

definition update_devices :: "(device_row \<Rightarrow> bool) \<Rightarrow> (device_row \<Rightarrow> device_row) \<Rightarrow> relay_db \<Rightarrow> relay_db" where
  "update_devices p g d = d\<lparr>rd_devices := map (\<lambda>v. if p v then g v else v) (rd_devices d)\<rparr>"

definition update_ops :: "(relay_op \<Rightarrow> bool) \<Rightarrow> (relay_op \<Rightarrow> relay_op) \<Rightarrow> relay_db \<Rightarrow> relay_db" where
  "update_ops p g d = d\<lparr>rd_ops := map (\<lambda>r. if p r then g r else r) (rd_ops d)\<rparr>"

definition revoke_links :: "int \<Rightarrow> pystr \<Rightarrow> relay_db \<Rightarrow> relay_db" where
  "revoke_links now dev d = d\<lparr>rd_links := map (\<lambda>l. if lk_device l = dev \<and> lk_revoked l = None
     then l\<lparr>lk_revoked := Some now\<rparr> else l) (rd_links d)\<rparr>"

text \<open>The account as the wire names it: \<open>f"account_{account_id:016x}"\<close>, and \<open>int(..., 16)\<close> back.\<close>

definition account_wire :: "nat \<Rightarrow> pystr" where
  "account_wire a = lit ''account_'' @ hex_pad 16 a"

definition wire_account :: "pystr \<Rightarrow> nat" where
  "wire_account w = hex_val (drop 8 w)"

lemma wire_account_account_wire [simp]: "wire_account (account_wire a) = a"
  by (simp add: wire_account_def account_wire_def lit_def hex_val_hex_pad)

lemma account_wire_inj [simp]: "account_wire a = account_wire b \<longleftrightarrow> a = b"
  by (metis wire_account_account_wire)

text \<open>\<open>str(arguments.get(key, ""))\<close> of a validated input, whose field is a text when it is present.\<close>

definition jtext :: "string \<Rightarrow> json \<Rightarrow> pystr" where
  "jtext k j = (case jget k j of Some (JStr s) \<Rightarrow> s | _ \<Rightarrow> [])"

text \<open>Equality of Python values: dictionaries without order, and \<open>True == 1\<close>.\<close>

fun numbers :: "json \<Rightarrow> json" where
  "numbers (JBool b) = JInt (if b then 1 else 0)"
| "numbers (JList xs) = JList (map numbers xs)"
| "numbers (JObj kvs) = JObj (map (\<lambda>(k, v). (k, numbers v)) kvs)"
| "numbers v = v"

definition json_eq :: "json \<Rightarrow> json \<Rightarrow> bool" where
  "json_eq a b \<longleftrightarrow> canon (numbers a) = canon (numbers b)"

lemma json_eq_refl [simp]: "json_eq a a"
  by (simp add: json_eq_def)

text \<open>\<open>_OPAQUE_ID_RE.fullmatch\<close>.\<close>

definition opaque_id :: "pystr \<Rightarrow> bool" where
  "opaque_id s \<longleftrightarrow> 16 \<le> length s \<and> length s \<le> 128
     \<and> (ascii_letter (hd s) \<or> 48 \<le> hd s \<and> hd s \<le> 57)
     \<and> list_all (\<lambda>c. ascii_letter c \<or> 48 \<le> c \<and> c \<le> 57 \<or> c = 95 \<or> c = 45) s"

section \<open>Callers\<close>

text \<open>The text of an error: fixed in the code, or the text of a validation error.\<close>

datatype error_text = Fixed string | Reported pystr

primrec message_text :: "error_text \<Rightarrow> pystr" where
  "message_text (Fixed s) = lit s"
| "message_text (Reported t) = t"

datatype relay_exn =
    ToolDispatchError (te_code: pystr) (te_message: error_text) (te_retryable: bool) (te_details: json)
  | AuthorizationFailure pystr error_text nat
  | DeviceAuthenticationError
  | ValidationFailure
  | Integrity
  | Not_found
  | Json_error string nat

type_synonym 'a rres = "relay_exn + 'a"

record mcp_principal =
  pr_account :: nat
  pr_grant :: pystr
  pr_token :: nat
  pr_device :: pystr
  pr_device_link :: pystr
  pr_link :: pystr
  pr_resource :: pystr
  pr_scopes :: "pystr list"

definition require :: "pystr \<Rightarrow> mcp_principal \<Rightarrow> unit rres" where
  "require scope p = raise_if (scope \<notin> set (pr_scopes p)) (AuthorizationFailure (lit ''insufficient_scope'')
     (Reported (lit ''The OAuth grant does not include '' @ scope)) 403)"

text \<open>\<open>authorization.partition(" ")\<close> and the checks of \<open>_bearer\<close>.\<close>

definition partition_space :: "pystr \<Rightarrow> pystr \<times> bool \<times> pystr" where
  "partition_space s = (let a = takeWhile (\<lambda>c. c \<noteq> 32) s in (a, 32 \<in> set s, drop (Suc (length a)) s))"

definition bearer :: "pystr \<Rightarrow> pystr rres" where
  "bearer authorization =
     (case partition_space authorization of
        (scheme, sep, v) \<Rightarrow>
          if \<not> sep \<or> ascii_lower scheme \<noteq> lit ''bearer'' \<or> strip v = []
          then Inl (AuthorizationFailure (lit ''invalid_token'') (Fixed ''A bearer access token is required'') 401) else Inr (strip v))"

definition lk_resource :: "relay_settings \<Rightarrow> link_row \<Rightarrow> pystr" where
  "lk_resource st l = PUBLIC_BASE_URL st @ lit ''/mcp/d/'' @ lk_link l"

text \<open>
  \<open>_authenticate\<close>.  A binding without its link or device cannot exist in the database: the foreign
  keys cascade.
\<close>

definition authenticate ::
  "(bytes \<Rightarrow> pystr) \<Rightarrow> relay_settings \<Rightarrow> int \<Rightarrow> pystr \<Rightarrow> pystr \<Rightarrow> relay_db \<Rightarrow> mcp_principal rres" where
  "authenticate sha st now raw_token lid d =
     (case find (\<lambda>t. at_checksum t = sha (utf8_encode raw_token)) (rd_tokens d) of
        None \<Rightarrow> Inl (AuthorizationFailure (lit ''invalid_token'') (Fixed ''The access token is unknown'') 401)
      | Some t \<Rightarrow>
          if at_expires t \<le> now \<or> at_user t = None then Inl (AuthorizationFailure (lit ''invalid_token'') (Fixed ''The access token is expired or unbound'') 401)
          else case at_binding t of
            None \<Rightarrow> Inl (AuthorizationFailure (lit ''invalid_token'') (Fixed ''The access token has no Codito resource binding'') 401)
          | Some b \<Rightarrow>
              (case find_link (gb_link b) d of
                 None \<Rightarrow> Inl Not_found
               | Some l \<Rightarrow>
                   (case find_device (lk_device l) d of
                      None \<Rightarrow> Inl Not_found
                    | Some v \<Rightarrow>
                        if gb_revoked b \<noteq> None \<or> lk_revoked l \<noteq> None \<or> \<not> dv_active v
                        then Inl (AuthorizationFailure (lit ''invalid_token'') (Fixed ''The grant, device link, or device was revoked'') 401)
                        else if lk_link l \<noteq> lid then Inl (AuthorizationFailure (lit ''invalid_target'') (Fixed ''The token was issued for another MCP resource'') 403)
                        else if at_user t \<noteq> Some (gb_account b) \<or> gb_account b \<noteq> lk_account l
                        then Inl (AuthorizationFailure (lit ''invalid_token'') (Fixed ''The account binding is inconsistent'') 401)
                        else if gb_resource b \<noteq> lk_resource st l then Inl (AuthorizationFailure (lit ''invalid_target'') (Fixed ''The resource audience does not exactly match'') 403)
                        else if at_resource t \<noteq> [gb_resource b] then Inl (AuthorizationFailure (lit ''invalid_target'') (Fixed ''The token resource indicator does not exactly match'') 403)
                        else Inr \<lparr>pr_account = gb_account b, pr_grant = gb_grant b, pr_token = at_id t,
                               pr_device = lk_device l, pr_device_link = lk_id l, pr_link = lk_link l,
                               pr_resource = lk_resource st l, pr_scopes = at_scopes t\<rparr>)))"

text \<open>\<open>authenticate_mcp\<close>; \<open>uuid\<close> is \<open>UUID(text)\<close> in its canonical text.\<close>

definition authenticate_mcp ::
  "(pystr \<Rightarrow> pystr option) \<Rightarrow> (bytes \<Rightarrow> pystr) \<Rightarrow> relay_settings \<Rightarrow> int \<Rightarrow> pystr \<Rightarrow> pystr \<Rightarrow> relay_db \<Rightarrow> mcp_principal rres" where
  "authenticate_mcp uuid sha st now authorization link_text d =
     (case uuid link_text of
        None \<Rightarrow> Inl (AuthorizationFailure (lit ''invalid_target'') (Fixed ''Malformed device link'') 404)
      | Some lid \<Rightarrow> bindE (bearer authorization) (\<lambda>raw. authenticate sha st now raw lid d))"

end
