(* ===== verification/Relay_Dispatch.thy ===== *)
theory Relay_Dispatch
  imports Relay_Store
begin

text \<open>
  The relay's tool dispatcher (\<open>relay/codito_relay/core/dispatch.py\<close>): the checks of a call
  before it is admitted, the admission of an operation under the device's queue limit and its
  idempotency key, the wait for the device's result, and the error that is reported when it does
  not come.  The input and result models of the tools, Django's signing and the signature check of
  the \<open>cryptography\<close> package are the parameters in \<open>relay_env\<close>.
\<close>

record relay_env =
  ev_sha :: "bytes \<Rightarrow> pystr"
  ev_input :: "pystr \<Rightarrow> json \<Rightarrow> pystr + json"
  ev_result :: "pystr \<Rightarrow> json \<Rightarrow> json option"
  ev_urlsplit :: "pystr \<Rightarrow> (pystr \<times> pystr option \<times> nat option) option"
  ev_sign :: "int \<Rightarrow> json \<Rightarrow> pystr"
  ev_unsign :: "int \<Rightarrow> pystr \<Rightarrow> json option"
  ev_uuid :: "pystr \<Rightarrow> pystr option"
  ev_verify :: "json \<Rightarrow> bytes \<Rightarrow> pystr \<Rightarrow> bool"

definition ev_valid :: "relay_env \<Rightarrow> pystr \<Rightarrow> json \<Rightarrow> bool" where
  "ev_valid ev tool inp \<longleftrightarrow> is_ok (ev_input ev tool inp)"

definition tool_error :: "string \<Rightarrow> string \<Rightarrow> bool \<Rightarrow> relay_exn" where
  "tool_error code message retryable = ToolDispatchError (lit code) (Fixed message) retryable (JObj [])"

section \<open>Results of the device\<close>

text \<open>\<open>ToolFailure.model_validate\<close> with \<open>model_dump(exclude_none=True)\<close>.\<close>

definition lax_bool :: "json \<Rightarrow> bool option" where
  "lax_bool j =
     (case j of
        JBool b \<Rightarrow> Some b
      | JInt i \<Rightarrow> if i = 0 then Some False else if i = 1 then Some True else None
      | JStr s \<Rightarrow>
          if ascii_lower s \<in> set (map lit [''0'', ''off'', ''f'', ''false'', ''n'', ''no'']) then Some False
          else if ascii_lower s \<in> set (map lit [''1'', ''on'', ''t'', ''true'', ''y'', ''yes'']) then Some True
          else None
      | _ \<Rightarrow> None)"

definition bounded_text :: "nat \<Rightarrow> json option \<Rightarrow> pystr option" where
  "bounded_text n j = (case j of Some (JStr s) \<Rightarrow> if 1 \<le> length s \<and> length s \<le> n then Some s else None | _ \<Rightarrow> None)"

definition only_keys :: "string list \<Rightarrow> json \<Rightarrow> bool" where
  "only_keys ks j = (case j of JObj kvs \<Rightarrow> set (map fst kvs) \<subseteq> set (map lit ks) | _ \<Rightarrow> False)"

definition optional_id :: "json option \<Rightarrow> pystr option option" where
  "optional_id j = (case j of
     None \<Rightarrow> Some None | Some JNull \<Rightarrow> Some None
   | Some (JStr s) \<Rightarrow> if opaque_id s then Some (Some s) else None
   | _ \<Rightarrow> None)"

definition tool_failure_json :: "pystr \<Rightarrow> pystr \<Rightarrow> pystr \<Rightarrow> bool \<Rightarrow> pystr option \<Rightarrow> json \<Rightarrow> json" where
  "tool_failure_json t code message retryable correlation details =
     JObj [(lit ''ok'', JBool False), (lit ''text'', JStr t),
       (lit ''error'', JObj ([(lit ''code'', JStr code), (lit ''message'', JStr message),
          (lit ''retryable'', JBool retryable)]
         @ (case correlation of None \<Rightarrow> [] | Some c \<Rightarrow> [(lit ''correlation_id'', JStr c)])
         @ [(lit ''details'', details)]))]"

definition validate_tool_error :: "json \<Rightarrow> (pystr \<times> pystr \<times> bool \<times> pystr option \<times> json) option" where
  "validate_tool_error e =
     (if \<not> only_keys [''code'', ''message'', ''retryable'', ''correlation_id'', ''details''] e then None
      else case (jget ''code'' e, bounded_text 1024 (jget ''message'' e),
                 (case jget ''retryable'' e of None \<Rightarrow> Some False | Some b \<Rightarrow> lax_bool b),
                 optional_id (jget ''correlation_id'' e),
                 (case jget ''details'' e of None \<Rightarrow> Some (JObj []) | Some (JObj kvs) \<Rightarrow> Some (JObj kvs) | _ \<Rightarrow> None)) of
        (Some (JStr code), Some m, Some r, Some corr, Some details) \<Rightarrow>
          if code \<in> set (map lit error_codes) then Some (code, m, r, corr, details) else None
      | _ \<Rightarrow> None)"

definition validate_tool_failure :: "json \<Rightarrow> json option" where
  "validate_tool_failure p =
     (if \<not> only_keys [''ok'', ''text'', ''error''] p then None
      else case (bounded_text 2048 (jget ''text'' p), Option.bind (jget ''error'' p) validate_tool_error) of
        (Some t, Some (code, m, r, corr, details)) \<Rightarrow> Some (tool_failure_json t code m r corr details)
      | _ \<Rightarrow> None)"

definition validate_device_result :: "relay_env \<Rightarrow> pystr \<Rightarrow> json \<Rightarrow> json rres" where
  "validate_device_result ev tool payload =
     (if jget ''ok'' payload = Some (JBool False) then
        (case validate_tool_failure payload of
           None \<Rightarrow> Inl (tool_error ''protocol_error'' ''Device returned an invalid typed failure'' False)
         | Some j \<Rightarrow> Inr j)
      else case (jget ''ok'' payload, jget ''result'' payload, payload) of
        (Some (JBool True), Some (JObj r), JObj kvs) \<Rightarrow>
          (case (if tool \<in> set tool_names then ev_result ev tool (JObj r) else None) of
             None \<Rightarrow> Inl (tool_error ''protocol_error'' ''Device result failed its shared tool contract'' False)
           | Some v \<Rightarrow> Inr (JObj (dict_put (lit ''result'') v kvs)))
      | _ \<Rightarrow> Inl (tool_error ''protocol_error'' ''Device result omitted ok/result fields'' False))"

definition RESULT_ECHO_FIELDS :: "string list" where
  "RESULT_ECHO_FIELDS = [''operation'', ''action'', ''project_id'', ''session_id'', ''snapshot_id'', ''element_id'',
     ''job_id'', ''idempotency_key'', ''path'', ''scope_path'', ''browser'', ''url'', ''display'', ''viewport'',
     ''dry_run'', ''title'']"

definition result_binding_error :: relay_exn where
  "result_binding_error = tool_error ''protocol_error'' ''Device result does not match the authorized request'' False"

text \<open>Host names of the shared result model are ASCII, where \<open>casefold\<close> is the lower case.\<close>

definition normalized_http_origin :: "relay_env \<Rightarrow> pystr \<Rightarrow> (pystr \<times> nat) option" where
  "normalized_http_origin ev url =
     (case ev_urlsplit ev url of
        Some (scheme, Some (c # cs), port) \<Rightarrow>
          let hostname = ascii_lower (c # cs) in
          if ascii_lower scheme \<noteq> lit ''http'' \<or> endswith hostname (lit ''..'') then None
          else Some (if endswith hostname (lit ''.'') then butlast hostname else hostname,
                     case port of None \<Rightarrow> 80 | Some n \<Rightarrow> if n = 0 then 80 else n)
      | _ \<Rightarrow> None)"

definition echo_mismatch :: "json \<Rightarrow> json \<Rightarrow> string \<Rightarrow> bool" where
  "echo_mismatch arguments result field =
     (case (jget field arguments, jget field result) of
        (Some a, Some r) \<Rightarrow> \<not> json_eq r a
      | _ \<Rightarrow> False)"

definition frontend_mismatch :: "relay_env \<Rightarrow> json \<Rightarrow> json \<Rightarrow> bool" where
  "frontend_mismatch ev arguments result =
     (if jget ''operation'' arguments = Some (JStr (lit ''session_start'')) then
        (case (jget ''base_url'' result, jget ''url'' result) of
           (Some (JStr b), Some (JStr u)) \<Rightarrow>
             normalized_http_origin ev b = None \<or> normalized_http_origin ev u \<noteq> normalized_http_origin ev b
         | _ \<Rightarrow> True)
      else if jget ''operation'' arguments = Some (JStr (lit ''inspect'')) then
        (case jget ''element_id'' arguments of
           Some (JStr k) \<Rightarrow>
             (case jget ''element'' result of
                Some (JObj kvs) \<Rightarrow> map_of kvs (lit ''element_id'') \<noteq> Some (JStr k)
              | _ \<Rightarrow> True)
         | _ \<Rightarrow> False)
      else False)"

definition validate_device_result_for_request :: "relay_env \<Rightarrow> pystr \<Rightarrow> json \<Rightarrow> json \<Rightarrow> json rres" where
  "validate_device_result_for_request ev tool arguments payload =
     bindE (validate_device_result ev tool payload) (\<lambda>normalized.
       if jget ''ok'' normalized \<noteq> Some (JBool True) then Inr normalized
       else case jget ''result'' normalized of
         Some (JObj r) \<Rightarrow>
           if list_ex (echo_mismatch arguments (JObj r)) RESULT_ECHO_FIELDS then Inl result_binding_error
           else if tool = lit ''project_frontend'' \<and> frontend_mismatch ev arguments (JObj r)
           then Inl result_binding_error
           else Inr normalized
       | _ \<Rightarrow> Inl result_binding_error)"

section \<open>Checks before admission\<close>

definition required_scopes :: "pystr \<Rightarrow> pystr \<Rightarrow> pystr list rres" where
  "required_scopes tool operation =
     (let sc = map lit in
      if tool = lit ''device_desktop'' then Inr (sc [''shell:execute''])
      else if tool = lit ''device_screenshot'' then Inr (sc [''screen:read''])
      else if tool = lit ''device_read'' then Inr (sc [''files:read''])
      else if tool = lit ''project_read'' then
        Inr (sc (if operation = lit ''list_projects'' then [''projects:read''] else [''projects:read'', ''files:read'']))
      else if tool = lit ''project_apply_patch'' then Inr (sc [''projects:read'', ''files:read'', ''files:write''])
      else if tool = lit ''project_shell'' then Inr (sc [''projects:read'', ''shell:execute''])
      else if tool = lit ''project_manage'' then
        Inr (sc (if operation = lit ''get_projects'' then [''projects:read''] else [''projects:read'', ''projects:write'']))
      else if tool = lit ''project_code'' then
        Inr (sc ([''projects:read'', ''files:read'']
          @ (if operation \<in> {lit ''code_intelligence_status'', lit ''code_workspace_summary''} then [] else [''shell:execute''])))
      else if tool = lit ''project_frontend'' then
        Inr (sc ([''projects:read'']
          @ (if operation = lit ''session_start'' then [''frontend:interact'', ''shell:execute'']
             else if operation \<in> {lit ''snapshot'', lit ''inspect''} then [''frontend:read'']
             else if operation = lit ''source'' then [''frontend:read'', ''files:read'']
             else if operation \<in> {lit ''act'', lit ''session_stop''} then [''frontend:interact'']
             else [])))
      else Inl (ToolDispatchError (lit ''unknown_tool'') (Reported (lit ''Unknown tool '' @ tool)) False (JObj [])))"

definition FORBIDDEN_FIELDS :: "string list" where
  "FORBIDDEN_FIELDS = [''absolute_path'', ''approved'', ''project_path'', ''root_path'', ''trusted'']"

definition validate_arguments :: "relay_env \<Rightarrow> pystr \<Rightarrow> json \<Rightarrow> json rres" where
  "validate_arguments ev tool arguments =
     (let supplied = filter (\<lambda>k. jget k arguments \<noteq> None) FORBIDDEN_FIELDS in
      if supplied \<noteq> [] then
        Inl (ToolDispatchError (lit ''invalid_request'') (Fixed ''Approval, trust, and absolute paths are controlled locally'') False
          (JObj [(lit ''fields'', JList (map (JStr \<circ> lit) supplied))]))
      else if tool \<in> set tool_names then
        (case ev_input ev tool arguments of
           Inl t \<Rightarrow> Inl (ToolDispatchError (lit ''invalid_request'') (Reported t) False (JObj []))
         | Inr a \<Rightarrow> Inr a)
      else Inr arguments)"

definition is_replay_unsafe :: "pystr \<Rightarrow> json \<Rightarrow> bool" where
  "is_replay_unsafe tool arguments \<longleftrightarrow>
     tool = lit ''device_desktop''
     \<or> tool = lit ''project_shell'' \<and> jget ''action'' arguments = Some (JStr (lit ''start''))
     \<or> tool = lit ''project_frontend''
        \<and> jget ''operation'' arguments \<in> {Some (JStr (lit ''session_start'')), Some (JStr (lit ''act''))}"

definition uncertainty_message :: "pystr \<Rightarrow> json \<Rightarrow> string" where
  "uncertainty_message tool arguments =
     (if tool = lit ''device_desktop'' then ''The browser action may have executed; do not automatically retry it''
      else if tool = lit ''project_frontend'' \<and> jget ''operation'' arguments = Some (JStr (lit ''session_start''))
      then ''The frontend session may have started; do not automatically start it again''
      else if tool = lit ''project_frontend''
      then ''The browser interaction may have executed; do not automatically retry it''
      else ''The shell command may have started; do not automatically resubmit it'')"

definition lookup_route :: "mcp_principal \<Rightarrow> pystr \<Rightarrow> json \<Rightarrow> relay_db \<Rightarrow> (device_row \<times> relay_project option) rres" where
  "lookup_route p tool arguments d =
     (case find (\<lambda>v. dv_id v = pr_device p \<and> dv_account v = pr_account p \<and> dv_revoked v = None) (rd_devices d) of
        None \<Rightarrow> Inl (tool_error ''device_not_found'' ''The bound device no longer exists'' False)
      | Some v \<Rightarrow>
          let operation = jtext ''operation'' arguments in
          if tool \<in> {lit ''device_read'', lit ''device_screenshot'', lit ''device_desktop''}
             \<and> \<not> truthy (jget ''project_id'' arguments) then Inr (v, None)
          else if tool = lit ''project_read'' \<and> operation = lit ''list_projects''
             \<or> tool = lit ''project_manage'' \<and> operation \<in> {lit ''get_projects'', lit ''request_add_project''}
          then Inr (v, None)
          else if \<not> truthy (jget ''project_id'' arguments)
          then Inl (tool_error ''invalid_request'' ''project_id is required'' False)
          else case find (\<lambda>q. pj_id q = jtext ''project_id'' arguments \<and> pj_account q = pr_account p
                   \<and> pj_device q = pr_device p \<and> pj_status q = AVAILABLE) (rd_projects d) of
            None \<Rightarrow> Inl (tool_error ''project_not_found'' ''Project is not registered on this device'' False)
          | Some q \<Rightarrow> Inr (v, Some q))"

definition is_online :: "relay_settings \<Rightarrow> int \<Rightarrow> device_row \<Rightarrow> bool" where
  "is_online st now v \<longleftrightarrow> dv_status v = ONLINE
     \<and> (case dv_last_seen v of None \<Rightarrow> False | Some t \<Rightarrow> now - t \<le> DEVICE_OFFLINE_AFTER_SECONDS st * 1000000)"

section \<open>The project list\<close>

text \<open>Identifiers are compared by their code points.\<close>

definition available_projects :: "mcp_principal \<Rightarrow> relay_db \<Rightarrow> relay_project list" where
  "available_projects p d = sort_key pj_id (filter (\<lambda>q. pj_account q = pr_account p \<and> pj_device q = pr_device p
     \<and> pj_status q = AVAILABLE) (rd_projects d))"

definition cursor_binding :: "mcp_principal \<Rightarrow> json" where
  "cursor_binding p = JList [JInt (int (pr_account p)), JStr (pr_device p), JStr (pr_link p)]"

definition cursor_value :: "mcp_principal \<Rightarrow> pystr \<Rightarrow> json" where
  "cursor_value p k = JObj [(lit ''binding'', cursor_binding p), (lit ''id'', JStr k)]"

definition read_cursor :: "relay_env \<Rightarrow> int \<Rightarrow> mcp_principal \<Rightarrow> json option \<Rightarrow> pystr option rres" where
  "read_cursor ev now p cursor =
     (if \<not> truthy cursor then Inr None
      else
        let bad = Inl (tool_error ''invalid_request'' ''Project cursor is invalid or expired'' False) in
        case cursor of
          Some (JStr c) \<Rightarrow>
            (case ev_unsign ev now c of
               Some (JObj kvs) \<Rightarrow>
                 (case (map_of kvs (lit ''binding''), map_of kvs (lit ''id'')) of
                    (Some b, Some (JStr k)) \<Rightarrow> if json_eq b (cursor_binding p) then Inr (Some k) else bad
                  | _ \<Rightarrow> bad)
             | _ \<Rightarrow> bad)
        | _ \<Rightarrow> bad)"

definition project_json :: "bool \<Rightarrow> relay_project \<Rightarrow> json" where
  "project_json online q = JObj [(lit ''project_id'', JStr (pj_id q)), (lit ''title'', JStr (pj_title q)),
     (lit ''device_id'', JStr (pj_device q)), (lit ''mode'', JStr (pj_mode q)), (lit ''online'', JBool online)]"

definition page_limit :: "json \<Rightarrow> nat" where
  "page_limit arguments = (case jget ''limit'' arguments of Some (JInt i) \<Rightarrow> nat i | _ \<Rightarrow> 50)"

text \<open>
  One page of projects with the cursor of the next.  The limit of a validated input is positive.
\<close>

definition project_page ::
  "relay_env \<Rightarrow> int \<Rightarrow> mcp_principal \<Rightarrow> json \<Rightarrow> relay_db \<Rightarrow> (relay_project list \<times> pystr option) rres" where
  "project_page ev now p arguments d =
     bindE (read_cursor ev now p (jget ''cursor'' arguments)) (\<lambda>cursor.
       let rest = (case cursor of None \<Rightarrow> available_projects p d
                   | Some k \<Rightarrow> filter (\<lambda>q. k < pj_id q) (available_projects p d));
           limit = page_limit arguments;
           page = take (Suc limit) rest in
       Inr (take limit page,
            if limit < length page
            then Some (ev_sign ev now (cursor_value p (pj_id (page ! (limit - 1)))))
            else None))"

definition list_projects_as :: "string \<Rightarrow> relay_env \<Rightarrow> relay_settings \<Rightarrow> int \<Rightarrow> mcp_principal \<Rightarrow> json \<Rightarrow> relay_db \<Rightarrow> json rres" where
  "list_projects_as operation ev st now p arguments d =
     bindE (project_page ev now p arguments d) (\<lambda>(page, next).
       case find (\<lambda>v. dv_id v = pr_device p \<and> dv_account v = pr_account p) (rd_devices d) of
         None \<Rightarrow> Inl Not_found
       | Some v \<Rightarrow>
           Inr (JObj [(lit ''operation'', JStr (lit operation)),
             (lit ''projects'', JList (map (project_json (is_online st now v)) page)),
             (lit ''continuation'', case next of None \<Rightarrow> JNull | Some c \<Rightarrow> JObj [(lit ''cursor'', JStr c)])]))"

definition relay_list_projects :: "relay_env \<Rightarrow> relay_settings \<Rightarrow> int \<Rightarrow> mcp_principal \<Rightarrow> json \<Rightarrow> relay_db \<Rightarrow> json rres" where
  "relay_list_projects = list_projects_as ''list_projects''"

definition list_managed_projects :: "relay_env \<Rightarrow> relay_settings \<Rightarrow> int \<Rightarrow> mcp_principal \<Rightarrow> json \<Rightarrow> relay_db \<Rightarrow> json rres" where
  "list_managed_projects = list_projects_as ''get_projects''"

section \<open>Admission\<close>

definition in_scope :: "mcp_principal \<Rightarrow> device_row \<Rightarrow> relay_project option \<Rightarrow> pystr \<Rightarrow> pystr \<Rightarrow> relay_op \<Rightarrow> bool" where
  "in_scope p v q tool key r \<longleftrightarrow> ro_account r = pr_account p \<and> ro_grant r = pr_grant p \<and> ro_link r = pr_device_link p
     \<and> ro_device r = dv_id v \<and> ro_project r = map_option pj_id q \<and> ro_kind r = tool \<and> ro_idempotency r = key"

definition conflict_error :: relay_exn where
  "conflict_error = tool_error ''idempotency_conflict'' ''Idempotency key was already used for another action'' False"

definition same_action :: "pystr \<Rightarrow> relay_op \<Rightarrow> relay_op rres" where
  "same_action dg r = (if ro_action_digest r \<noteq> dg then Inl conflict_error else Inr r)"

text \<open>The lookup of a used idempotency key; \<open>None\<close> when there is no key or no such row.\<close>

definition existing_operation ::
  "mcp_principal \<Rightarrow> device_row \<Rightarrow> relay_project option \<Rightarrow> pystr \<Rightarrow> pystr \<Rightarrow> pystr \<Rightarrow> relay_db \<Rightarrow> relay_op option rres" where
  "existing_operation p v q tool key dg d =
     (if key = [] then Inr None
      else case find (in_scope p v q tool key) (rd_ops d) of
        None \<Rightarrow> Inr None
      | Some r \<Rightarrow> bindE (same_action dg r) (\<lambda>r. Inr (Some r)))"

definition pending_count :: "pystr \<Rightarrow> relay_db \<Rightarrow> nat" where
  "pending_count dev d = length (filter (\<lambda>r. ro_device r = dev \<and> pending_status (ro_status r)) (rd_ops d))"

text \<open>The primary key and the unique constraints of the table.\<close>

definition same_unique :: "relay_op \<Rightarrow> relay_op \<Rightarrow> bool" where
  "same_unique r x \<longleftrightarrow> ro_id x = ro_id r \<or> ro_message x = ro_message r
     \<or> ro_idempotency r \<noteq> [] \<and> ro_idempotency x = ro_idempotency r \<and> ro_account x = ro_account r
        \<and> ro_grant x = ro_grant r \<and> ro_link x = ro_link r \<and> ro_device x = ro_device r \<and> ro_kind x = ro_kind r
        \<and> ro_project x = ro_project r"

definition insert_op :: "relay_op \<Rightarrow> relay_db \<Rightarrow> relay_db rres" where
  "insert_op r d = (if list_ex (same_unique r) (rd_ops d) then Inl Integrity else Inr (d\<lparr>rd_ops := rd_ops d @ [r]\<rparr>))"

text \<open>The random identifiers of a new row and the clock reading of its columns.\<close>

record fresh_op =
  fr_id :: pystr
  fr_message :: pystr
  fr_correlation :: pystr
  fr_now :: int

definition request_digest_of :: "relay_env \<Rightarrow> json \<Rightarrow> pystr" where
  "request_digest_of ev arguments = ev_sha ev (utf8_encode (dumps arguments))"

definition new_operation ::
  "relay_env \<Rightarrow> mcp_principal \<Rightarrow> device_row \<Rightarrow> relay_project option \<Rightarrow> pystr \<Rightarrow> json \<Rightarrow> pystr \<Rightarrow> int \<Rightarrow> fresh_op \<Rightarrow> relay_op" where
  "new_operation ev p v q tool arguments dg timeout fr =
     \<lparr>ro_id = fr_id fr, ro_account = pr_account p, ro_grant = pr_grant p, ro_device = dv_id v,
      ro_link = pr_device_link p, ro_project = map_option pj_id q, ro_kind = tool, ro_status = St_accepted,
      ro_message = fr_message fr, ro_correlation = fr_correlation fr, ro_epoch = dv_epoch v,
      ro_idempotency = jtext ''idempotency_key'' arguments, ro_action_digest = dg,
      ro_request_digest = request_digest_of ev arguments, ro_payload = action_payload tool arguments,
      ro_deadline = fr_now fr + timeout * 1000000, ro_attempted = None, ro_sent_at = None, ro_sent_epoch = None,
      ro_sequence = 0, ro_sequence_epoch = 0, ro_error = [], ro_result = None, ro_created = fr_now fr\<rparr>"

text \<open>The part of \<open>_create_operation\<close> under the device's row lock, with its handler of a lost race.\<close>

definition admit_operation ::
  "relay_env \<Rightarrow> relay_settings \<Rightarrow> mcp_principal \<Rightarrow> device_row \<Rightarrow> relay_project option \<Rightarrow> pystr \<Rightarrow> json \<Rightarrow> pystr \<Rightarrow> int \<Rightarrow> fresh_op
     \<Rightarrow> relay_db \<Rightarrow> (relay_op \<times> bool) rres \<times> relay_db" where
  "admit_operation ev st p v q tool arguments dg timeout fr d =
     (let key = jtext ''idempotency_key'' arguments in
      case find (\<lambda>u. dv_id u = dv_id v \<and> dv_account u = pr_account p) (rd_devices d) of
        None \<Rightarrow> (Inl Not_found, d)
      | Some u \<Rightarrow>
          (case existing_operation p v q tool key dg d of
             Inl e \<Rightarrow> (Inl e, d)
           | Inr (Some r) \<Rightarrow> (Inr (r, False), d)
           | Inr None \<Rightarrow>
               if DEVICE_QUEUE_LIMIT st \<le> pending_count (dv_id u) d
               then (Inl (tool_error ''device_queue_full'' ''The device pending queue is full'' True), d)
               else
                 let r = new_operation ev p v q tool arguments dg timeout fr in
                 case insert_op r d of
                   Inr d' \<Rightarrow> (Inr (r, True), d')
                 | Inl e \<Rightarrow>
                     if key = [] then (Inl e, d)
                     else case find (in_scope p v q tool key) (rd_ops d) of
                       None \<Rightarrow> (Inl Not_found, d)
                     | Some x \<Rightarrow> (bindE (same_action dg x) (\<lambda>x. Inr (x, False)), d)))"

section \<open>Status updates\<close>

definition mark_dispatched :: "pystr \<Rightarrow> relay_db \<Rightarrow> relay_db" where
  "mark_dispatched k = update_ops (\<lambda>r. ro_id r = k \<and> ro_status r = St_accepted) (\<lambda>r. r\<lparr>ro_status := St_dispatched\<rparr>)"

definition finish :: "relay_env \<Rightarrow> pystr \<Rightarrow> json \<Rightarrow> relay_db \<Rightarrow> relay_db" where
  "finish ev k result = update_ops (\<lambda>r. ro_id r = k \<and> pending_status (ro_status r))
     (\<lambda>r. r\<lparr>ro_status := (if truthy (jget ''error'' result) then St_failed else St_succeeded),
            ro_result := Some (durable_tool_result (ev_sha ev) result)\<rparr>)"

definition mark_delivery_failure :: "pystr \<Rightarrow> pystr \<Rightarrow> relay_db \<Rightarrow> relay_db" where
  "mark_delivery_failure k code = update_ops (\<lambda>r. ro_id r = k \<and> pending_status (ro_status r))
     (\<lambda>r. r\<lparr>ro_status := (if code = lit ''device_offline'' then St_failed
                          else if code = lit ''outcome_unknown'' then St_outcome_unknown else St_failed),
            ro_error := code\<rparr>)"

section \<open>A call of \<open>dispatch_tool\<close>\<close>

text \<open>
  A call runs between its awaits; \<open>call_phase\<close> says what it does next.  The rows a phase holds are
  those it has read, which may since have changed in the database.  \<open>Waiting\<close> holds the identifier
  of the last result message read.
\<close>

datatype call_phase =
    To_route
  | To_list string
  | To_create device_row "relay_project option" pystr int
  | To_admit device_row "relay_project option" pystr int
  | To_mark relay_op envelope
  | To_publish relay_op envelope
  | Waiting relay_op envelope nat
  | To_fail relay_op pystr relay_exn
  | To_finish relay_op json
  | Returned "relay_exn + pystr \<times> json"

record call =
  cl_principal :: mcp_principal
  cl_tool :: pystr
  cl_arguments :: json
  cl_phase :: call_phase

fun require_all :: "mcp_principal \<Rightarrow> pystr list \<Rightarrow> unit rres" where
  "require_all p [] = Inr ()"
| "require_all p (s # ss) = bindE (require s p) (\<lambda>_. require_all p ss)"

definition scopes_of_call :: "pystr \<Rightarrow> json \<Rightarrow> pystr list rres" where
  "scopes_of_call tool arguments =
     bindE (required_scopes tool (jtext ''operation'' arguments)) (\<lambda>scopes.
       Inr (if truthy (jget ''project_id'' arguments) then scopes @ [lit ''projects:read''] else scopes))"

definition check_call :: "relay_env \<Rightarrow> mcp_principal \<Rightarrow> pystr \<Rightarrow> json \<Rightarrow> call rres" where
  "check_call ev p tool raw =
     bindE (validate_arguments ev tool raw) (\<lambda>arguments.
     bindE (scopes_of_call tool arguments) (\<lambda>scopes.
       case require_all p scopes of
         Inl (AuthorizationFailure code m _) \<Rightarrow> Inl (ToolDispatchError code m False
           (JObj [(lit ''required_scopes'', JList (map JStr (sort (remdups scopes))))]))
       | Inl e \<Rightarrow> Inl e
       | Inr _ \<Rightarrow> Inr \<lparr>cl_principal = p, cl_tool = tool, cl_arguments = arguments, cl_phase = To_route\<rparr>))"

definition call_timeout :: "relay_settings \<Rightarrow> pystr \<Rightarrow> json \<Rightarrow> int" where
  "call_timeout st tool arguments =
     (let t = OPERATION_TIMEOUT_SECONDS st in
      if tool = lit ''project_frontend'' \<and> jtext ''operation'' arguments = lit ''session_start'' then
        let ready = (case jget ''ready_timeout_seconds'' arguments of Some (JInt i) \<Rightarrow> i | _ \<Rightarrow> 30) in
        max t (min (max (FRONTEND_START_TIMEOUT_SECONDS st + ready) 60) 420)
      else t)"

definition offline_error :: relay_exn where
  "offline_error = tool_error ''device_offline'' ''The Windows device is offline'' True"

text \<open>After the route: the lists are answered here, everything else needs the device online.\<close>

definition route_call :: "relay_env \<Rightarrow> relay_settings \<Rightarrow> int \<Rightarrow> call \<Rightarrow> relay_db \<Rightarrow> call_phase" where
  "route_call ev st now c d =
     (case lookup_route (cl_principal c) (cl_tool c) (cl_arguments c) d of
        Inl e \<Rightarrow> Returned (Inl e)
      | Inr (v, q) \<Rightarrow>
          let operation = jtext ''operation'' (cl_arguments c) in
          if cl_tool c = lit ''project_read'' \<and> operation = lit ''list_projects'' then To_list ''list_projects''
          else if cl_tool c = lit ''project_manage'' \<and> operation = lit ''get_projects'' then To_list ''get_projects''
          else if \<not> is_online st now v then Returned (Inl offline_error)
          else case compute_action_digest (ev_sha ev) (action_payload (cl_tool c) (cl_arguments c)) of
            Inl _ \<Rightarrow> Returned (Inl ValidationFailure)
          | Inr dg \<Rightarrow> To_create v q dg (call_timeout st (cl_tool c) (cl_arguments c)))"

definition list_call :: "relay_env \<Rightarrow> relay_settings \<Rightarrow> int \<Rightarrow> string \<Rightarrow> call \<Rightarrow> relay_db \<Rightarrow> call_phase" where
  "list_call ev st now operation c d =
     Returned (bindE ((if operation = ''list_projects'' then relay_list_projects else list_managed_projects)
         ev st now (cl_principal c) (cl_arguments c) d)
       (\<lambda>j. Inr (lit ''local'', j)))"

text \<open>The answer to a call whose idempotency key has an operation already.\<close>

definition terminal_code :: "relay_op \<Rightarrow> pystr" where
  "terminal_code r =
     (case ro_status r of
        St_cancelled \<Rightarrow> lit ''cancelled''
      | St_expired \<Rightarrow> lit ''operation_timeout''
      | St_outcome_unknown \<Rightarrow> lit ''outcome_unknown''
      | _ \<Rightarrow> if ro_error r = [] then lit ''protocol_error'' else ro_error r)"

definition replay_answer :: "relay_op \<Rightarrow> relay_exn + pystr \<times> json" where
  "replay_answer r =
     (case ro_result r of
        Some j \<Rightarrow> Inr (ro_id r, j)
      | None \<Rightarrow>
          if terminal_status (ro_status r) then
            Inl (ToolDispatchError (terminal_code r)
              (Fixed ''The prior operation with this idempotency key ended without a result'')
              (terminal_code r \<in> {lit ''device_offline'', lit ''operation_timeout''}) (JObj []))
          else Inl (tool_error ''operation_in_progress'' ''An operation with this idempotency key is already in progress'' True))"

definition lookup_call :: "device_row \<Rightarrow> relay_project option \<Rightarrow> pystr \<Rightarrow> int \<Rightarrow> call \<Rightarrow> relay_db \<Rightarrow> call_phase" where
  "lookup_call v q dg timeout c d =
     (case existing_operation (cl_principal c) v q (cl_tool c) (jtext ''idempotency_key'' (cl_arguments c)) dg d of
        Inl e \<Rightarrow> Returned (Inl e)
      | Inr (Some r) \<Rightarrow> Returned (replay_answer r)
      | Inr None \<Rightarrow> To_admit v q dg timeout)"

definition operation_envelope :: "mcp_principal \<Rightarrow> nat \<Rightarrow> int \<Rightarrow> relay_op \<Rightarrow> envelope" where
  "operation_envelope p epoch sent r =
     \<lparr>en_kind = OPERATION, en_message = ro_message r, en_correlation = Some (ro_correlation r), en_sequence = 0,
      en_epoch = int epoch, en_sent = sent, en_deadline = Some (ro_deadline r),
      en_bindings = \<lparr>tb_account = account_wire (pr_account p), tb_device = pr_device p, tb_link = Some (pr_link p),
        tb_grant = Some (pr_grant p), tb_project = ro_project r\<rparr>,
      en_digest = Some (ro_action_digest r), en_payload = ro_payload r\<rparr>"

definition admit_call ::
  "relay_env \<Rightarrow> relay_settings \<Rightarrow> fresh_op \<Rightarrow> int \<Rightarrow> device_row \<Rightarrow> relay_project option \<Rightarrow> pystr \<Rightarrow> int \<Rightarrow> call
     \<Rightarrow> relay_db \<Rightarrow> call_phase \<times> relay_db" where
  "admit_call ev st fr sent v q dg timeout c d =
     (case admit_operation ev st (cl_principal c) v q (cl_tool c) (cl_arguments c) dg timeout fr d of
        (Inl e, d') \<Rightarrow> (Returned (Inl e), d')
      | (Inr (r, False), d') \<Rightarrow> (Returned (replay_answer r), d')
      | (Inr (r, True), d') \<Rightarrow>
          let e = operation_envelope (cl_principal c) (dv_epoch v) sent r in
          (if envelope_ok (ev_sha ev) (ev_valid ev) e then To_mark r e
           else To_fail r (lit ''protocol_error'')
             (tool_error ''protocol_error'' ''Could not construct a valid tunnel envelope'' False), d'))"

section \<open>Waiting for the result\<close>

datatype stream_entry = No_envelope | Bad_envelope | Entry envelope

text \<open>
  One message of the result stream: an error, nothing to return yet, or the payload of the result.
\<close>

definition read_result :: "relay_env \<Rightarrow> envelope \<Rightarrow> pystr \<Rightarrow> relay_db \<Rightarrow> stream_entry \<Rightarrow> json option rres" where
  "read_result ev rq dev d entry =
     (case entry of
        No_envelope \<Rightarrow> Inl (tool_error ''protocol_error'' ''Device result omitted its envelope'' False)
      | Bad_envelope \<Rightarrow> Inl (tool_error ''protocol_error'' ''Device returned an invalid envelope'' False)
      | Entry e \<Rightarrow>
          let b = en_bindings e; w = en_bindings rq in
          if \<not> envelope_ok (ev_sha ev) (ev_valid ev) e
          then Inl (tool_error ''protocol_error'' ''Device returned an invalid envelope'' False)
          else if en_correlation e \<noteq> en_correlation rq \<or> tb_device b \<noteq> dev \<or> en_digest e \<noteq> en_digest rq
             \<or> tb_account b \<noteq> tb_account w \<or> tb_link b \<noteq> tb_link w \<or> tb_grant b \<noteq> tb_grant w
             \<or> tb_project b \<noteq> tb_project w
          then Inl (tool_error ''protocol_error'' ''Device result binding does not match the request'' False)
          else if en_kind e \<noteq> OPERATION_RESULT then Inr None
          else case find (\<lambda>r. Some (ro_correlation r) = en_correlation rq) (rd_ops d) of
            None \<Rightarrow> Inl Not_found
          | Some r \<Rightarrow>
              if en_epoch e \<noteq> int (ro_epoch r)
              then Inl (tool_error ''protocol_error'' ''Device result used a stale connection epoch'' False)
              else Inr (Some (en_payload e)))"

definition unknown_error :: "call \<Rightarrow> relay_op \<Rightarrow> relay_exn" where
  "unknown_error c r = ToolDispatchError (lit ''outcome_unknown'') (Fixed (uncertainty_message (cl_tool c) (cl_arguments c))) False
     (JObj [(lit ''operation_id'', JStr (ro_id r))])"

text \<open>The error a failed wait is reported and recorded as.\<close>

definition transport_error :: "call \<Rightarrow> relay_op \<Rightarrow> relay_exn \<Rightarrow> relay_exn" where
  "transport_error c r e =
     (let uncertain = is_replay_unsafe (cl_tool c) (cl_arguments c) in
      case e of
        ToolDispatchError code m rt dt \<Rightarrow> if uncertain \<and> code \<noteq> lit ''device_offline'' then unknown_error c r else e
      | _ \<Rightarrow>
          if uncertain then unknown_error c r
          else ToolDispatchError (lit ''relay_unavailable'') (Fixed ''The relay transport is temporarily unavailable'') True
            (JObj [(lit ''operation_id'', JStr (ro_id r))]))"

definition fail_with :: "relay_op \<Rightarrow> relay_exn \<Rightarrow> call_phase" where
  "fail_with r e = To_fail r (te_code e) e"

definition timeout_error :: relay_exn where
  "timeout_error = tool_error ''operation_timeout'' ''The device did not return a result before the deadline'' True"

definition receive_result :: "relay_env \<Rightarrow> call \<Rightarrow> relay_op \<Rightarrow> envelope \<Rightarrow> nat \<Rightarrow> stream_entry \<Rightarrow> relay_db \<Rightarrow> call_phase" where
  "receive_result ev c r rq cursor entry d =
     (case read_result ev rq (ro_device r) d entry of
        Inl e \<Rightarrow> fail_with r (transport_error c r e)
      | Inr None \<Rightarrow> Waiting r rq cursor
      | Inr (Some payload) \<Rightarrow>
          (case validate_device_result_for_request ev (cl_tool c) (cl_arguments c) payload of
             Inr j \<Rightarrow> To_finish r j
           | Inl e \<Rightarrow>
               fail_with r (if is_replay_unsafe (cl_tool c) (cl_arguments c) then unknown_error c r else e)))"

section \<open>What the caller is told\<close>

definition RELAY_ERROR_CODE_MAP :: "(string \<times> string) list" where
  "RELAY_ERROR_CODE_MAP = [
     (''authorization_context_missing'', ''unauthenticated''), (''device_not_found'', ''device_revoked''),
     (''device_offline'', ''device_offline''), (''device_queue_full'', ''queue_full''),
     (''idempotency_conflict'', ''idempotency_conflict''), (''insufficient_scope'', ''scope_missing''),
     (''invalid_request'', ''invalid_request''), (''operation_in_progress'', ''rate_limited''),
     (''operation_timeout'', ''deadline_exceeded''), (''project_not_found'', ''project_not_found''),
     (''protocol_error'', ''internal_error''), (''relay_unavailable'', ''internal_error''),
     (''unknown_tool'', ''invalid_request'')]"

definition public_code :: "pystr \<Rightarrow> pystr" where
  "public_code c = (if c \<in> set (map lit error_codes) then c
     else case find (\<lambda>kv. lit (fst kv) = c) RELAY_ERROR_CODE_MAP of
       Some kv \<Rightarrow> lit (snd kv) | None \<Rightarrow> lit ''internal_error'')"

text \<open>
  \<open>error_tool_result\<close>.  The failure is built with the validators of \<open>ToolError\<close> and
  \<open>ToolFailure\<close>; \<open>None\<close> is the validation error they raise.
\<close>

definition error_tool_result :: "pystr \<Rightarrow> error_text \<Rightarrow> bool \<Rightarrow> json \<Rightarrow> json option" where
  "error_tool_result code m retryable details =
     (let t = message_text m in
      if 1 \<le> length t \<and> length t \<le> 1024 then
        Some (JObj [(lit ''content'', JList [JObj [(lit ''type'', JStr (lit ''text'')), (lit ''text'', JStr t)]]),
          (lit ''structuredContent'', tool_failure_json t (public_code code) t retryable None details),
          (lit ''isError'', JBool True)])
      else None)"

end
