(* ===== verification/Relay_Socket.thy ===== *)
theory Relay_Socket
  imports Relay_Dispatch
begin

text \<open>
  The relay's side of the device tunnel (\<open>relay/codito_relay/core/websocket.py\<close>): tickets and
  connection epochs, delivery of operations to the device, the messages it sends back, and the
  synchronization of its projects; with the pages that revoke links and devices
  (\<open>core/views.py\<close>) and the retention command.  Every \<open>transaction.atomic\<close> block is one
  function on the database that leaves it unchanged when it raises.
\<close>

section \<open>Connections\<close>

record connection =
  cn_device :: pystr
  cn_account :: pystr
  cn_epoch :: nat

definition hash_secret :: "relay_env \<Rightarrow> pystr \<Rightarrow> pystr" where
  "hash_secret ev s = ev_sha ev (utf8_encode s)"

definition websocket_proof_message :: "pystr \<Rightarrow> pystr \<Rightarrow> bytes" where
  "websocket_proof_message ticket challenge =
     lit ''codito-ws-proof-v1'' @ [0] @ utf8_encode ticket @ [0] @ utf8_encode challenge"

definition ct_usable :: "int \<Rightarrow> device_row \<Rightarrow> ticket_row \<Rightarrow> bool" where
  "ct_usable now v t \<longleftrightarrow> ct_used t = None \<and> now < ct_expires t \<and> dv_active v"

definition consume_ticket :: "relay_env \<Rightarrow> int \<Rightarrow> pystr \<Rightarrow> pystr \<Rightarrow> relay_db \<Rightarrow> connection rres \<times> relay_db" where
  "consume_ticket ev now raw signature d =
     (case find (\<lambda>t. ct_hash t = hash_secret ev raw) (rd_tickets d) of
        None \<Rightarrow> (Inl DeviceAuthenticationError, d)
      | Some t \<Rightarrow>
          (case find_device (ct_device t) d of
             None \<Rightarrow> (Inl Not_found, d)
           | Some v \<Rightarrow>
               if \<not> ct_usable now v t then (Inl DeviceAuthenticationError, d)
               else if \<not> ev_verify ev (dv_key v) (websocket_proof_message raw (ct_challenge t)) signature
               then (Inl DeviceAuthenticationError, d)
               else
                 (Inr \<lparr>cn_device = dv_id v, cn_account = account_wire (dv_account v), cn_epoch = Suc (dv_epoch v)\<rparr>,
                  update_devices (\<lambda>u. dv_id u = dv_id v) (\<lambda>u. u\<lparr>dv_epoch := Suc (dv_epoch v), dv_status := OFFLINE\<rparr>)
                    (d\<lparr>rd_tickets := map (\<lambda>x. if ct_hash x = ct_hash t then x\<lparr>ct_used := Some now\<rparr> else x) (rd_tickets d)\<rparr>))))"

definition mark_online :: "int \<Rightarrow> connection \<Rightarrow> relay_db \<Rightarrow> relay_db" where
  "mark_online now cn = update_devices (\<lambda>v. dv_id v = cn_device cn \<and> dv_epoch v = cn_epoch cn \<and> dv_revoked v = None)
     (\<lambda>v. v\<lparr>dv_status := ONLINE, dv_last_seen := Some now\<rparr>)"

definition touch :: "int \<Rightarrow> connection \<Rightarrow> relay_db \<Rightarrow> relay_db" where
  "touch now cn = update_devices (\<lambda>v. dv_id v = cn_device cn \<and> dv_epoch v = cn_epoch cn \<and> dv_revoked v = None)
     (\<lambda>v. v\<lparr>dv_last_seen := Some now\<rparr>)"

definition mark_offline :: "connection \<Rightarrow> relay_db \<Rightarrow> relay_db" where
  "mark_offline cn = update_devices (\<lambda>v. dv_id v = cn_device cn \<and> dv_epoch v = cn_epoch cn \<and> dv_status v \<noteq> REVOKED)
     (\<lambda>v. v\<lparr>dv_status := OFFLINE\<rparr>)"

text \<open>The device still has the epoch of this connection.\<close>

definition current :: "connection \<Rightarrow> relay_db \<Rightarrow> bool" where
  "current cn d = (case find_device (cn_device cn) d of None \<Rightarrow> False | Some v \<Rightarrow> dv_epoch v = cn_epoch cn)"

section \<open>Messages of the device\<close>

definition link_of :: "relay_op \<Rightarrow> relay_db \<Rightarrow> pystr option" where
  "link_of r d = map_option lk_link (find_link (ro_link r) d)"

definition validate_operation_binding :: "connection \<Rightarrow> envelope \<Rightarrow> relay_db \<Rightarrow> relay_op rres" where
  "validate_operation_binding cn e d =
     (let b = en_bindings e in
      if tb_account b \<noteq> cn_account cn then Inl ValidationFailure
      else if tb_device b \<noteq> cn_device cn \<or> en_epoch e \<noteq> int (cn_epoch cn) then Inl ValidationFailure
      else if en_correlation e = None \<or> en_correlation e = Some [] then Inl ValidationFailure
      else case find (\<lambda>r. Some (ro_correlation r) = en_correlation e \<and> ro_account r = wire_account (cn_account cn)
                 \<and> ro_device r = cn_device cn \<and> current cn d) (rd_ops d) of
        None \<Rightarrow> Inl Not_found
      | Some r \<Rightarrow>
          if tb_project b \<noteq> ro_project r then Inl ValidationFailure
          else if tb_grant b \<noteq> Some (ro_grant r) then Inl ValidationFailure
          else if tb_link b \<noteq> link_of r d \<or> tb_link b = None then Inl ValidationFailure
          else if en_digest e \<noteq> Some (ro_action_digest r) then Inl ValidationFailure
          else Inr r)"

definition op_input :: "relay_op \<Rightarrow> json option" where
  "op_input r = (case jget ''input'' (ro_payload r) of None \<Rightarrow> Some (JObj []) | Some (JObj kvs) \<Rightarrow> Some (JObj kvs) | _ \<Rightarrow> None)"

definition op_unsafe :: "relay_op \<Rightarrow> bool" where
  "op_unsafe r = (case op_input r of None \<Rightarrow> False | Some inp \<Rightarrow> is_replay_unsafe (ro_kind r) inp)"

definition failure_payload :: "string \<Rightarrow> string \<Rightarrow> pystr \<Rightarrow> bool \<Rightarrow> json" where
  "failure_payload code message correlation retryable =
     tool_failure_json (lit message) (lit code) (lit message) retryable (Some correlation) (JObj [])"

definition op_uncertainty :: "relay_op \<Rightarrow> string" where
  "op_uncertainty r = uncertainty_message (ro_kind r) (case op_input r of None \<Rightarrow> JNull | Some inp \<Rightarrow> inp)"

definition normalize_operation_terminal :: "relay_env \<Rightarrow> relay_op \<Rightarrow> bool \<Rightarrow> envelope \<Rightarrow> envelope" where
  "normalize_operation_terminal ev r unsafe e =
     e\<lparr>en_payload :=
        (case (case op_input r of None \<Rightarrow> Inl ValidationFailure
               | Some inp \<Rightarrow> validate_device_result_for_request ev (ro_kind r) inp (en_payload e)) of
           Inr p \<Rightarrow> p
         | Inl _ \<Rightarrow>
             if unsafe
             then failure_payload ''outcome_unknown'' (''The device returned an invalid result. '' @ op_uncertainty r) (ro_correlation r) False
             else failure_payload ''internal_error''
               ''The device returned an invalid or request-mismatched result; it was discarded'' (ro_correlation r) False)\<rparr>"

text \<open>\<open>str\<close> of a value; that of a container is not spelled out.\<close>

definition py_text :: "json \<Rightarrow> pystr" where
  "py_text j = (case j of JStr s \<Rightarrow> s | JInt i \<Rightarrow> py_str i | JBool b \<Rightarrow> if b then lit ''True'' else lit ''False''
     | JNull \<Rightarrow> lit ''None'' | _ \<Rightarrow> dumps j)"

definition error_code_of :: "json \<Rightarrow> pystr" where
  "error_code_of payload =
     (case jget ''error'' payload of
        Some (JObj kvs) \<Rightarrow> (case map_of kvs (lit ''code'') of None \<Rightarrow> lit ''device_error'' | Some c \<Rightarrow> py_text c)
      | _ \<Rightarrow> [])"

definition uncertain_unknown :: "bool \<Rightarrow> json \<Rightarrow> bool" where
  "uncertain_unknown unsafe payload \<longleftrightarrow> unsafe
     \<and> (case jget ''error'' payload of Some (JObj kvs) \<Rightarrow> map_of kvs (lit ''code'') = Some (JStr (lit ''outcome_unknown'')) | _ \<Rightarrow> False)"

definition result_status :: "bool \<Rightarrow> json \<Rightarrow> operation_status" where
  "result_status unknown payload =
     (if unknown then St_outcome_unknown
      else if jget ''ok'' payload = Some (JBool False) \<or> truthy (jget ''error'' payload) then St_failed
      else St_succeeded)"

definition message_status :: "bool \<Rightarrow> envelope \<Rightarrow> relay_op \<Rightarrow> operation_status option" where
  "message_status unsafe e r =
     (case en_kind e of
        OPERATION_RECEIVED \<Rightarrow> Some St_received
      | OPERATION_STARTED \<Rightarrow> Some St_running
      | OPERATION_RESULT \<Rightarrow> Some (result_status (uncertain_unknown unsafe (en_payload e)) (en_payload e))
      | TERMINAL_ACK \<Rightarrow> Some (ro_status r)
      | _ \<Rightarrow> None)"

fun state_rank :: "operation_status \<Rightarrow> nat" where
  "state_rank St_dispatched = 1"
| "state_rank St_received = 2"
| "state_rank St_running = 3"
| "state_rank St_succeeded = 4"
| "state_rank St_failed = 4"
| "state_rank St_outcome_unknown = 4"
| "state_rank _ = 0"

definition RECONCILABLE_ERRORS :: "pystr list" where
  "RECONCILABLE_ERRORS = map lit [''device_offline'', ''operation_timeout'', ''outcome_unknown'', ''relay_unavailable'']"

definition save_op :: "relay_op \<Rightarrow> relay_db \<Rightarrow> relay_db" where
  "save_op r = update_ops (\<lambda>x. ro_id x = ro_id r) (\<lambda>_. r)"

text \<open>A result for an operation that is already terminal: repeated, reconciled or refused.\<close>

definition late_terminal :: "relay_env \<Rightarrow> connection \<Rightarrow> bool \<Rightarrow> relay_op \<Rightarrow> envelope \<Rightarrow> relay_db \<Rightarrow> relay_op rres \<times> relay_db" where
  "late_terminal ev cn unsafe r e d =
     (if (case ro_result r of None \<Rightarrow> False | Some j \<Rightarrow> json_eq j (durable_tool_result (ev_sha ev) (en_payload e)))
      then (Inr r, d)
      else if ro_result r = None \<and> ro_error r \<in> set RECONCILABLE_ERRORS then
        (case (case op_input r of None \<Rightarrow> Inl ValidationFailure
               | Some inp \<Rightarrow> validate_device_result_for_request ev (ro_kind r) inp (en_payload e)) of
           Inl _ \<Rightarrow> (Inl ValidationFailure, d)
         | Inr p \<Rightarrow>
             let r' = r\<lparr>ro_status := result_status (uncertain_unknown unsafe (en_payload e)) p,
                   ro_result := Some (durable_tool_result (ev_sha ev) p), ro_error := error_code_of p,
                   ro_epoch := cn_epoch cn, ro_sequence := en_sequence e, ro_sequence_epoch := cn_epoch cn\<rparr> in
             (Inr r', save_op r' d))
      else (Inl ValidationFailure, d))"

definition advance :: "relay_env \<Rightarrow> connection \<Rightarrow> bool \<Rightarrow> envelope \<Rightarrow> relay_op \<Rightarrow> relay_op" where
  "advance ev cn unsafe e r =
     (let r1 = (case message_status unsafe e r of
                  Some s \<Rightarrow> if state_rank (ro_status r) \<le> state_rank s then r\<lparr>ro_status := s\<rparr> else r
                | None \<Rightarrow> r);
          r2 = (if en_kind e = OPERATION_RESULT
                then r1\<lparr>ro_result := Some (durable_tool_result (ev_sha ev) (en_payload e)), ro_error := error_code_of (en_payload e)\<rparr>
                else r1) in
      r2\<lparr>ro_epoch := cn_epoch cn, ro_sequence := en_sequence e, ro_sequence_epoch := cn_epoch cn\<rparr>)"

definition record_device_message ::
  "relay_env \<Rightarrow> connection \<Rightarrow> envelope \<Rightarrow> relay_db \<Rightarrow> (relay_op \<times> envelope) rres \<times> relay_db" where
  "record_device_message ev cn e d =
     (case validate_operation_binding cn e d of
        Inl x \<Rightarrow> (Inl x, d)
      | Inr r \<Rightarrow>
          let unsafe = op_unsafe r;
              e1 = (if en_kind e = OPERATION_RESULT then normalize_operation_terminal ev r unsafe e else e) in
          if ro_sequence_epoch r = cn_epoch cn \<and> en_sequence e \<le> ro_sequence r then
            (if terminal_status (ro_status r) \<and> en_kind e = OPERATION_RESULT
                \<and> (case ro_result r of None \<Rightarrow> False | Some j \<Rightarrow> json_eq j (durable_tool_result (ev_sha ev) (en_payload e1)))
             then (Inr (r, e1), d) else (Inl ValidationFailure, d))
          else if terminal_status (ro_status r) then
            (if en_kind e = OPERATION_RESULT then
               (case late_terminal ev cn unsafe r e1 d of
                  (Inl x, d') \<Rightarrow> (Inl x, d') | (Inr r', d') \<Rightarrow> (Inr (r', e1), d'))
             else (Inr (r, e1), d))
          else let r' = advance ev cn unsafe e1 r in (Inr (r', e1), save_op r' d))"

section \<open>Delivery\<close>

datatype prepared_dispatch = Outbound pystr envelope | Terminal pystr envelope

definition op_envelope :: "message_kind \<Rightarrow> pystr \<Rightarrow> int option \<Rightarrow> int \<Rightarrow> connection \<Rightarrow> relay_op \<Rightarrow> json \<Rightarrow> relay_db \<Rightarrow> envelope" where
  "op_envelope kind message deadline sent cn r payload d =
     \<lparr>en_kind = kind, en_message = message, en_correlation = Some (ro_correlation r), en_sequence = 0,
      en_epoch = int (cn_epoch cn), en_sent = sent, en_deadline = deadline,
      en_bindings = \<lparr>tb_account = cn_account cn, tb_device = cn_device cn, tb_link = link_of r d,
        tb_grant = Some (ro_grant r), tb_project = ro_project r\<rparr>,
      en_digest = Some (ro_action_digest r), en_payload = payload\<rparr>"

text \<open>Why an operation is not delivered: its new status, error code and the payload for the caller.\<close>

definition undeliverable :: "int \<Rightarrow> relay_op \<Rightarrow> relay_db \<Rightarrow> (operation_status \<times> pystr \<times> json) option" where
  "undeliverable now r d =
     (if ro_deadline r \<le> now then
        Some (St_expired, lit ''operation_timeout'', failure_payload ''deadline_exceeded''
          ''The operation deadline elapsed before device delivery'' (ro_correlation r) True)
      else if Option.bind (find_link (ro_link r) d) lk_revoked \<noteq> None then
        Some (St_failed, lit ''link_revoked'', failure_payload ''link_revoked''
          ''The OAuth device link was revoked before delivery'' (ro_correlation r) False)
      else if ro_attempted r \<noteq> None \<and> op_unsafe r then
        Some (St_outcome_unknown, lit ''outcome_unknown'', failure_payload ''outcome_unknown'' (op_uncertainty r)
          (ro_correlation r) False)
      else None)"

text \<open>
  The clock is read once for the deadline and once more when the envelope is built; \<open>sp\<close> is the
  latter reading with the identifier of a relay message.
\<close>

definition prepare_operation_dispatch ::
  "relay_env \<Rightarrow> int \<Rightarrow> stamp \<Rightarrow> connection \<Rightarrow> pystr \<Rightarrow> relay_db \<Rightarrow> prepared_dispatch option rres \<times> relay_db" where
  "prepare_operation_dispatch ev now sp cn correlation d =
     (case find (\<lambda>r. ro_correlation r = correlation \<and> ro_account r = wire_account (cn_account cn)
              \<and> ro_device r = cn_device cn) (rd_ops d) of
        None \<Rightarrow> (Inr None, d)
      | Some r \<Rightarrow>
          if \<not> current cn d then (Inl ValidationFailure, d)
          else if terminal_status (ro_status r) then (Inr None, d)
          else case undeliverable now r d of
            Some (status, code, payload) \<Rightarrow>
              let r' = r\<lparr>ro_status := status, ro_error := code,
                    ro_result := (if code \<in> {lit ''operation_timeout'', lit ''outcome_unknown''} then None else Some payload),
                    ro_epoch := cn_epoch cn\<rparr> in
              (Inr (Some (Terminal (ro_id r) (op_envelope OPERATION_RESULT (sp_message sp) None (sp_now sp) cn r payload d))),
               save_op r' d)
          | None \<Rightarrow>
              let r' = r\<lparr>ro_epoch := cn_epoch cn, ro_attempted := Some now, ro_sent_at := None, ro_sent_epoch := None\<rparr>;
                  e = op_envelope OPERATION (ro_message r) (Some (ro_deadline r)) (sp_now sp) cn r (ro_payload r) d in
              if envelope_ok (ev_sha ev) (ev_valid ev) e then (Inr (Some (Outbound (ro_id r) e)), save_op r' d)
              else (Inl ValidationFailure, d))"

definition mark_operation_sent :: "int \<Rightarrow> pystr \<Rightarrow> connection \<Rightarrow> relay_db \<Rightarrow> relay_db" where
  "mark_operation_sent now k cn = update_ops (\<lambda>r. ro_id r = k \<and> ro_device r = cn_device cn \<and> ro_epoch r = cn_epoch cn
     \<and> ro_sent_at r = None) (\<lambda>r. r\<lparr>ro_sent_at := Some now, ro_sent_epoch := Some (cn_epoch cn)\<rparr>)"

definition recoverable_correlations :: "connection \<Rightarrow> relay_db \<Rightarrow> pystr list" where
  "recoverable_correlations cn d = take 100 (map ro_correlation (filter (\<lambda>r. ro_account r = wire_account (cn_account cn)
     \<and> ro_device r = cn_device cn \<and> ro_status r \<in> {St_dispatched, St_received, St_running}) (rd_ops d)))"

definition terminal_ack :: "stamp \<Rightarrow> connection \<Rightarrow> relay_op \<Rightarrow> envelope \<Rightarrow> envelope" where
  "terminal_ack sp cn r e =
     \<lparr>en_kind = TERMINAL_ACK, en_message = sp_message sp, en_correlation = en_correlation e, en_sequence = Suc (en_sequence e),
      en_epoch = int (cn_epoch cn), en_sent = sp_now sp, en_deadline = None, en_bindings = en_bindings e,
      en_digest = Some (ro_action_digest r), en_payload = JObj [(lit ''persisted'', JBool True)]\<rparr>"

section \<open>Projects\<close>

definition project_clash :: "relay_project \<Rightarrow> relay_project list \<Rightarrow> bool" where
  "project_clash q qs = list_ex (\<lambda>x. pj_id x \<noteq> pj_id q \<and> pj_device x = pj_device q \<and> pj_fingerprint x = pj_fingerprint q) qs"

definition put_project :: "relay_project \<Rightarrow> relay_project list \<Rightarrow> relay_project list" where
  "put_project q qs = (if list_ex (\<lambda>x. pj_id x = pj_id q) qs
     then map (\<lambda>x. if pj_id x = pj_id q then q else x) qs else qs @ [q])"

definition entry_text :: "string \<Rightarrow> string \<Rightarrow> json \<Rightarrow> pystr" where
  "entry_text k dflt item = (case jget k item of None \<Rightarrow> lit dflt | Some v \<Rightarrow> py_text v)"

definition entry_id :: "json \<Rightarrow> pystr" where
  "entry_id item = entry_text ''project_id'' [] item"

definition project_entry :: "connection \<Rightarrow> json \<Rightarrow> relay_project rres" where
  "project_entry cn item =
     (let q = \<lparr>pj_id = entry_id item, pj_account = wire_account (cn_account cn), pj_device = cn_device cn,
               pj_title = entry_text ''title'' [] item, pj_fingerprint = entry_text ''root_fingerprint'' [] item,
               pj_mode = entry_text ''mode'' ''isolated'' item, pj_status = AVAILABLE\<rparr> in
      case item of
        JObj _ \<Rightarrow>
          if opaque_id (pj_id q) \<and> 1 \<le> length (pj_title q) \<and> length (pj_title q) \<le> 160
             \<and> 32 \<le> length (pj_fingerprint q) \<and> length (pj_fingerprint q) \<le> 128 \<and> pj_mode q \<in> set project_modes
          then Inr q else Inl ValidationFailure
      | _ \<Rightarrow> Inl ValidationFailure)"

text \<open>
  One entry: the row of another account or device is never touched, and the table's unique
  constraint on the root of a device can refuse the row.
\<close>

definition sync_entry :: "connection \<Rightarrow> relay_project list \<Rightarrow> json \<Rightarrow> relay_project list rres" where
  "sync_entry cn qs item =
     bindE (project_entry cn item) (\<lambda>q.
       if list_ex (\<lambda>x. pj_id x = pj_id q \<and> (pj_account x \<noteq> pj_account q \<or> pj_device x \<noteq> pj_device q)) qs
       then Inl ValidationFailure
       else if project_clash q qs then Inl Integrity
       else Inr (put_project q qs))"

definition hide_unseen :: "connection \<Rightarrow> pystr list \<Rightarrow> relay_project list \<Rightarrow> relay_project list" where
  "hide_unseen cn seen = map (\<lambda>q. if pj_account q = wire_account (cn_account cn) \<and> pj_device q = cn_device cn
       \<and> pj_id q \<notin> set seen then q\<lparr>pj_status := UNAVAILABLE\<rparr> else q)"

definition synchronize_projects :: "connection \<Rightarrow> json \<Rightarrow> relay_db \<Rightarrow> unit rres \<times> relay_db" where
  "synchronize_projects cn payload d =
     (case jget ''projects'' payload of
        Some (JList items) \<Rightarrow>
          if 1000 < length items then (Inl ValidationFailure, d)
          else (case foldE (sync_entry cn) (rd_projects d) items of
                  Inl e \<Rightarrow> (Inl e, d)
                | Inr qs \<Rightarrow> (Inr (), d\<lparr>rd_projects := hide_unseen cn (map entry_id items) qs\<rparr>))
      | _ \<Rightarrow> (Inl ValidationFailure, d))"

section \<open>Links, devices and tickets\<close>

definition rotate_device_link :: "int \<Rightarrow> nat \<Rightarrow> pystr \<Rightarrow> pystr \<Rightarrow> pystr \<Rightarrow> relay_db \<Rightarrow> unit rres \<times> relay_db" where
  "rotate_device_link now account dev new_pk new_link d =
     (case find (\<lambda>v. dv_id v = dev \<and> dv_account v = account \<and> dv_revoked v = None) (rd_devices d) of
        None \<Rightarrow> (Inl Not_found, d)
      | Some v \<Rightarrow>
          let d' = revoke_links now dev d in
          (Inr (), d'\<lparr>rd_links := rd_links d' @
             [\<lparr>lk_id = new_pk, lk_link = new_link, lk_account = account, lk_device = dev, lk_revoked = None\<rparr>]\<rparr>))"

definition revoke_grants :: "int \<Rightarrow> pystr \<Rightarrow> relay_db \<Rightarrow> relay_db" where
  "revoke_grants now dev d = d\<lparr>rd_tokens := map (\<lambda>t.
     case at_binding t of
       None \<Rightarrow> t
     | Some b \<Rightarrow>
         if gb_revoked b = None \<and> list_ex (\<lambda>l. lk_id l = gb_link b \<and> lk_device l = dev) (rd_links d)
         then t\<lparr>at_binding := Some (b\<lparr>gb_revoked := Some now\<rparr>)\<rparr> else t) (rd_tokens d)\<rparr>"

text \<open>
  \<open>revoke_device\<close> of the web page and \<open>revoke_desktop_device\<close> of the agent; only the latter asks
  that the device is not revoked yet.
\<close>

definition revoke_device_row :: "bool \<Rightarrow> int \<Rightarrow> nat \<Rightarrow> pystr \<Rightarrow> relay_db \<Rightarrow> unit rres \<times> relay_db" where
  "revoke_device_row desktop now account dev d =
     (case find (\<lambda>v. dv_id v = dev \<and> dv_account v = account \<and> (desktop \<longrightarrow> dv_revoked v = None)) (rd_devices d) of
        None \<Rightarrow> (Inl Not_found, d)
      | Some v \<Rightarrow>
          (Inr (), revoke_grants now dev (revoke_links now dev
             (update_devices (\<lambda>u. dv_id u = dev)
                (\<lambda>u. u\<lparr>dv_status := REVOKED, dv_revoked := Some now, dv_epoch := Suc (dv_epoch v)\<rparr>) d))))"

definition revoke_device :: "int \<Rightarrow> nat \<Rightarrow> pystr \<Rightarrow> relay_db \<Rightarrow> unit rres \<times> relay_db" where
  "revoke_device = revoke_device_row False"

definition revoke_desktop_device :: "int \<Rightarrow> nat \<Rightarrow> pystr \<Rightarrow> relay_db \<Rightarrow> unit rres \<times> relay_db" where
  "revoke_desktop_device = revoke_device_row True"

definition issue_device_ticket :: "relay_env \<Rightarrow> relay_settings \<Rightarrow> int \<Rightarrow> nat \<Rightarrow> pystr \<Rightarrow> pystr \<Rightarrow> pystr \<Rightarrow> relay_db \<Rightarrow> pystr rres \<times> relay_db" where
  "issue_device_ticket ev st now account dev raw challenge d =
     (case find (\<lambda>v. dv_id v = dev \<and> dv_account v = account \<and> dv_revoked v = None) (rd_devices d) of
        None \<Rightarrow> (Inl Not_found, d)
      | Some v \<Rightarrow>
          (case filter (\<lambda>l. lk_device l = dev \<and> lk_account l = account \<and> lk_revoked l = None) (rd_links d) of
             [] \<Rightarrow> (Inl (Json_error ''active_link_required'' 409), d)
           | ls \<Rightarrow>
               if list_ex (\<lambda>t. ct_hash t = hash_secret ev raw) (rd_tickets d) then (Inl Integrity, d)
               else (Inr (lk_link (last ls)), d\<lparr>rd_tickets := rd_tickets d @
                 [\<lparr>ct_hash = hash_secret ev raw, ct_device = dev, ct_challenge = challenge,
                   ct_expires = now + WS_TICKET_TTL_SECONDS st * 1000000, ct_used = None\<rparr>]\<rparr>)))"

definition enroll_device :: "nat \<Rightarrow> pystr \<Rightarrow> json \<Rightarrow> pystr \<Rightarrow> pystr \<Rightarrow> pystr \<Rightarrow> pystr \<Rightarrow> relay_db \<Rightarrow> unit rres \<times> relay_db" where
  "enroll_device account name key thumbprint dev new_pk new_link d =
     (if strip name = [] \<or> 120 < length (strip name) \<or> \<not> (case key of JObj _ \<Rightarrow> True | _ \<Rightarrow> False) \<or> length thumbprint \<noteq> 64
      then (Inl (Json_error ''invalid_request'' 400), d)
      else if list_ex (\<lambda>v. dv_account v = account \<and> dv_name v = strip name \<and> dv_revoked v = None) (rd_devices d)
      then (Inl (Json_error ''device_name_conflict'' 409), d)
      else if list_ex (\<lambda>v. dv_account v = account \<and> dv_thumbprint v = thumbprint) (rd_devices d)
      then (Inl (Json_error ''device_key_conflict'' 409), d)
      else if list_ex (\<lambda>v. dv_id v = dev) (rd_devices d) then (Inl (Json_error ''device_conflict'' 409), d)
      else (Inr (), d\<lparr>rd_devices := rd_devices d @
          [\<lparr>dv_id = dev, dv_account = account, dv_name = strip name, dv_key = key, dv_thumbprint = thumbprint,
            dv_status = OFFLINE, dv_epoch = 0, dv_last_seen = None, dv_revoked = None\<rparr>],
        rd_links := rd_links d @
          [\<lparr>lk_id = new_pk, lk_link = new_link, lk_account = account, lk_device = dev, lk_revoked = None\<rparr>]\<rparr>))"

text \<open>The retention command: thirty days of operations, and tickets until they expire.\<close>

definition cleanup :: "int \<Rightarrow> relay_db \<Rightarrow> relay_db" where
  "cleanup now d = d\<lparr>rd_tickets := filter (\<lambda>t. now \<le> ct_expires t) (rd_tickets d),
     rd_ops := filter (\<lambda>r. now - 30 * 86400 * 1000000 \<le> ro_created r) (rd_ops d)\<rparr>"

end
