(* ===== verification/Relay_Run.thy ===== *)
theory Relay_Run
  imports Relay_Socket
begin

text \<open>
  The relay at work: calls of \<open>dispatch_tool\<close>, device sockets and pages as interleaved steps on
  one database and the Redis streams between them.  A step is what runs between two awaits; the
  database transactions are atomic in it.  The clock, the random identifiers, the arrival of
  messages and the loss of a connection are the arguments of the events.
\<close>

record relay =
  rl_db :: relay_db
  rl_queue :: "(nat \<times> pystr \<times> pystr) list"
  rl_results :: "(nat \<times> pystr \<times> stream_entry) list"
  rl_next :: nat
  rl_calls :: "call list"
  rl_conns :: "connection list"
  rl_sent :: "(pystr \<times> envelope) list"
  rl_acks :: "(connection \<times> envelope) list"
  rl_ids :: "pystr list"

definition empty_relay :: relay where
  "empty_relay = \<lparr>rl_db = \<lparr>rd_devices = [], rd_links = [], rd_projects = [], rd_ops = [], rd_tickets = [], rd_tokens = []\<rparr>,
     rl_queue = [], rl_results = [], rl_next = 1, rl_calls = [], rl_conns = [], rl_sent = [], rl_acks = [], rl_ids = []\<rparr>"

abbreviation with_db :: "(relay_db \<Rightarrow> relay_db) \<Rightarrow> relay \<Rightarrow> relay" where
  "with_db f s \<equiv> s\<lparr>rl_db := f (rl_db s)\<rparr>"

definition push_result :: "pystr \<Rightarrow> envelope \<Rightarrow> relay \<Rightarrow> relay" where
  "push_result k e s = s\<lparr>rl_results := rl_results s @ [(rl_next s, k, Entry e)], rl_next := Suc (rl_next s)\<rparr>"

section \<open>Calls\<close>

definition begin_call :: "relay_env \<Rightarrow> relay_settings \<Rightarrow> int \<Rightarrow> pystr \<Rightarrow> pystr \<Rightarrow> pystr \<Rightarrow> json \<Rightarrow> relay \<Rightarrow> relay" where
  "begin_call ev st now authorization link_text tool raw s =
     (case authenticate_mcp (ev_uuid ev) (ev_sha ev) st now authorization link_text (rl_db s) of
        Inl _ \<Rightarrow> s
      | Inr p \<Rightarrow>
          (case check_call ev p tool raw of
             Inl e \<Rightarrow> s\<lparr>rl_calls := rl_calls s @
               [\<lparr>cl_principal = p, cl_tool = tool, cl_arguments = raw, cl_phase = Returned (Inl e)\<rparr>]\<rparr>
           | Inr c \<Rightarrow> s\<lparr>rl_calls := rl_calls s @ [c]\<rparr>))"

definition set_phase :: "nat \<Rightarrow> call_phase \<Rightarrow> relay \<Rightarrow> relay" where
  "set_phase i ph s = s\<lparr>rl_calls := (rl_calls s)[i := (rl_calls s ! i)\<lparr>cl_phase := ph\<rparr>]\<rparr>"

definition publish :: "relay_op \<Rightarrow> relay \<Rightarrow> relay" where
  "publish r s = s\<lparr>rl_queue := rl_queue s @ [(rl_next s, ro_device r, ro_correlation r)], rl_next := Suc (rl_next s)\<rparr>"

text \<open>The next step of call \<open>i\<close>, unless it waits for the device or has returned.\<close>

definition step_call :: "relay_env \<Rightarrow> relay_settings \<Rightarrow> nat \<Rightarrow> int \<Rightarrow> int \<Rightarrow> fresh_op \<Rightarrow> relay \<Rightarrow> relay" where
  "step_call ev st i now sent fr s =
     (if length (rl_calls s) \<le> i then s
      else let c = rl_calls s ! i; d = rl_db s in
        case cl_phase c of
          To_route \<Rightarrow> set_phase i (route_call ev st now c d) s
        | To_list operation \<Rightarrow> set_phase i (list_call ev st now operation c d) s
        | To_create v q dg timeout \<Rightarrow> set_phase i (lookup_call v q dg timeout c d) s
        | To_admit v q dg timeout \<Rightarrow>
            (case admit_call ev st fr sent v q dg timeout c d of
               (ph, d') \<Rightarrow> (set_phase i ph s)\<lparr>rl_db := d', rl_ids := rl_ids s @ [fr_id fr, fr_message fr, fr_correlation fr]\<rparr>)
        | To_mark r e \<Rightarrow> with_db (mark_dispatched (ro_id r)) (set_phase i (To_publish r e) s)
        | To_publish r e \<Rightarrow> publish r (set_phase i (Waiting r e 0) s)
        | Waiting r e cursor \<Rightarrow> s
        | To_fail r code e \<Rightarrow> with_db (mark_delivery_failure (ro_id r) code) (set_phase i (Returned (Inl e)) s)
        | To_finish r j \<Rightarrow> with_db (finish ev (ro_id r) j) (set_phase i (Returned (Inr (ro_id r, j))) s)
        | Returned x \<Rightarrow> s)"

text \<open>The next message of the result stream, if there is one.\<close>

definition read_call :: "relay_env \<Rightarrow> nat \<Rightarrow> relay \<Rightarrow> relay" where
  "read_call ev i s =
     (if length (rl_calls s) \<le> i then s
      else case cl_phase (rl_calls s ! i) of
        Waiting r e cursor \<Rightarrow>
          (case find (\<lambda>(n, k, _). k = ro_correlation r \<and> cursor < n) (rl_results s) of
             None \<Rightarrow> s
           | Some (n, _, entry) \<Rightarrow> set_phase i (receive_result ev (rl_calls s ! i) r e n entry (rl_db s)) s)
      | _ \<Rightarrow> s)"

text \<open>The wait ends without a message: by its deadline, or by an exception of the transport.\<close>

definition abandon_call :: "nat \<Rightarrow> relay_exn \<Rightarrow> relay \<Rightarrow> relay" where
  "abandon_call i x s =
     (if length (rl_calls s) \<le> i then s
      else case cl_phase (rl_calls s ! i) of
        Waiting r e cursor \<Rightarrow> set_phase i (fail_with r (transport_error (rl_calls s ! i) r x)) s
      | To_publish r e \<Rightarrow>
          if x = timeout_error then s else set_phase i (fail_with r (transport_error (rl_calls s ! i) r x)) s
      | _ \<Rightarrow> s)"

section \<open>Sockets\<close>

definition open_socket :: "relay_env \<Rightarrow> int \<Rightarrow> pystr \<Rightarrow> pystr \<Rightarrow> relay \<Rightarrow> relay" where
  "open_socket ev now raw signature s =
     (case consume_ticket ev now raw signature (rl_db s) of
        (Inl _, d) \<Rightarrow> s\<lparr>rl_db := d\<rparr>
      | (Inr cn, d) \<Rightarrow> s\<lparr>rl_db := d, rl_conns := rl_conns s @ [cn]\<rparr>)"

definition close_socket :: "connection \<Rightarrow> relay \<Rightarrow> relay" where
  "close_socket cn s = s\<lparr>rl_db := mark_offline cn (rl_db s), rl_conns := filter (\<lambda>x. x \<noteq> cn) (rl_conns s)\<rparr>"

definition deliver_operation :: "relay_env \<Rightarrow> int \<Rightarrow> stamp \<Rightarrow> bool \<Rightarrow> connection \<Rightarrow> pystr \<Rightarrow> relay \<Rightarrow> relay" where
  "deliver_operation ev now sp ok cn k s =
     (case prepare_operation_dispatch ev now sp cn k (rl_db s) of
        (Inl _, d) \<Rightarrow> close_socket cn (s\<lparr>rl_db := d\<rparr>)
      | (Inr None, d) \<Rightarrow> s\<lparr>rl_db := d\<rparr>
      | (Inr (Some (Terminal op e)), d) \<Rightarrow> push_result k e (s\<lparr>rl_db := d\<rparr>)
      | (Inr (Some (Outbound op e)), d) \<Rightarrow>
          let s' = s\<lparr>rl_db := d, rl_sent := rl_sent s @ [(op, e)]\<rparr> in
          if ok then with_db (mark_operation_sent now op cn) s' else close_socket cn s')"

text \<open>Recovery delivers one operation after the other; an exception ends it with the socket.\<close>

fun deliver_each :: "relay_env \<Rightarrow> int \<Rightarrow> (pystr \<Rightarrow> stamp) \<Rightarrow> connection \<Rightarrow> pystr list \<Rightarrow> relay \<Rightarrow> relay" where
  "deliver_each ev now sps cn [] s = s"
| "deliver_each ev now sps cn (k # ks) s =
     (let s' = deliver_operation ev now (sps k) True cn k s in
      if cn \<in> set (rl_conns s') then deliver_each ev now sps cn ks s' else s')"

definition recover_unsent_operations :: "relay_env \<Rightarrow> int \<Rightarrow> (pystr \<Rightarrow> stamp) \<Rightarrow> connection \<Rightarrow> relay \<Rightarrow> relay" where
  "recover_unsent_operations ev now sps cn s =
     deliver_each ev now sps cn (recoverable_correlations cn (rl_db s)) s"

definition lifecycle_kinds :: "message_kind list" where
  "lifecycle_kinds = [OPERATION_RECEIVED, OPERATION_STARTED, OPERATION_PROGRESS, OPERATION_RESULT, TERMINAL_ACK]"

text \<open>
  One message of the receive loop.  \<open>published\<close> is false when the Redis write after the transaction
  fails; the socket then closes without an acknowledgement.
\<close>

definition lifecycle_message :: "relay_env \<Rightarrow> int \<Rightarrow> stamp \<Rightarrow> bool \<Rightarrow> connection \<Rightarrow> envelope \<Rightarrow> relay \<Rightarrow> relay" where
  "lifecycle_message ev now sp published cn e s =
     (case record_device_message ev cn e (rl_db s) of
        (Inl _, d) \<Rightarrow> close_socket cn (s\<lparr>rl_db := d\<rparr>)
      | (Inr (r, e1), d) \<Rightarrow>
          let s1 = s\<lparr>rl_db := d\<rparr> in
          if en_kind e \<in> {OPERATION_PROGRESS, OPERATION_RESULT} \<and> \<not> published then close_socket cn s1
          else
            let s2 = (if en_kind e \<in> {OPERATION_PROGRESS, OPERATION_RESULT} then push_result (the (en_correlation e)) e1 s1 else s1);
                s3 = (if en_kind e = OPERATION_RESULT then s2\<lparr>rl_acks := rl_acks s2 @ [(cn, terminal_ack sp cn r e1)]\<rparr> else s2) in
            with_db (touch now cn) s3)"

definition receive_message :: "relay_env \<Rightarrow> int \<Rightarrow> stamp \<Rightarrow> bool \<Rightarrow> connection \<Rightarrow> envelope option \<Rightarrow> relay \<Rightarrow> relay" where
  "receive_message ev now sp published cn raw s =
     (case raw of
        None \<Rightarrow> close_socket cn s
      | Some e \<Rightarrow>
          if \<not> envelope_ok (ev_sha ev) (ev_valid ev) e \<or> en_epoch e \<noteq> int (cn_epoch cn)
             \<or> tb_account (en_bindings e) \<noteq> cn_account cn \<or> tb_device (en_bindings e) \<noteq> cn_device cn
          then close_socket cn s
          else if en_kind e = HELLO \<and> jget ''projects'' (en_payload e) \<noteq> None then
            (case synchronize_projects cn (en_payload e) (rl_db s) of
               (Inl _, d) \<Rightarrow> close_socket cn (s\<lparr>rl_db := d\<rparr>)
             | (Inr _, d) \<Rightarrow> with_db (touch now cn) (s\<lparr>rl_db := d\<rparr>))
          else if en_kind e \<in> set lifecycle_kinds then lifecycle_message ev now sp published cn e s
          else with_db (touch now cn) s)"

section \<open>Runs\<close>

datatype relay_event =
    Call int pystr pystr pystr json
  | Call_step nat int int fresh_op
  | Call_read nat
  | Call_abandon nat relay_exn
  | Socket_open int pystr pystr
  | Socket_online int connection
  | Socket_message int stamp bool connection "envelope option"
  | Socket_deliver int stamp bool connection pystr
  | Socket_recover int "pystr \<Rightarrow> stamp" connection
  | Socket_close connection
  | Rotate_link int nat pystr pystr pystr
  | Revoke_device bool int nat pystr
  | Issue_ticket int nat pystr pystr pystr
  | Enroll nat pystr json pystr pystr pystr pystr
  | Tokens "token_row list"
  | Cleanup int
  | Trim nat

fun relay_step :: "relay_env \<Rightarrow> relay_settings \<Rightarrow> relay_event \<Rightarrow> relay \<Rightarrow> relay" where
  "relay_step ev st (Call now authorization link_text tool raw) s = begin_call ev st now authorization link_text tool raw s"
| "relay_step ev st (Call_step i now sent fr) s = step_call ev st i now sent fr s"
| "relay_step ev st (Call_read i) s = read_call ev i s"
| "relay_step ev st (Call_abandon i x) s = abandon_call i x s"
| "relay_step ev st (Socket_open now raw signature) s = open_socket ev now raw signature s"
| "relay_step ev st (Socket_online now cn) s = with_db (mark_online now cn) s"
| "relay_step ev st (Socket_message now sp published cn raw) s = receive_message ev now sp published cn raw s"
| "relay_step ev st (Socket_deliver now sp ok cn k) s = deliver_operation ev now sp ok cn k s"
| "relay_step ev st (Socket_recover now sps cn) s = recover_unsent_operations ev now sps cn s"
| "relay_step ev st (Socket_close cn) s = close_socket cn s"
| "relay_step ev st (Rotate_link now account dev pk lid) s = with_db (snd \<circ> rotate_device_link now account dev pk lid) s"
| "relay_step ev st (Revoke_device desktop now account dev) s = with_db (snd \<circ> (if desktop then revoke_desktop_device else revoke_device) now account dev) s"
| "relay_step ev st (Issue_ticket now account dev raw challenge) s =
     with_db (snd \<circ> issue_device_ticket ev st now account dev raw challenge) s"
| "relay_step ev st (Enroll account name key thumbprint dev pk lid) s =
     with_db (snd \<circ> enroll_device account name key thumbprint dev pk lid) s"
| "relay_step ev st (Tokens ts) s = with_db (\<lambda>d. d\<lparr>rd_tokens := ts\<rparr>) s"
| "relay_step ev st (Cleanup now) s = with_db (cleanup now) s"
| "relay_step ev st (Trim n) s = s\<lparr>rl_queue := filter (\<lambda>(k, _). n \<le> k) (rl_queue s), rl_results := filter (\<lambda>(k, _). n \<le> k) (rl_results s)\<rparr>"

text \<open>
  Which events can happen: identifiers are drawn fresh, a call that waits ends with a timeout or an
  exception of the transport, only an open socket has events, and what it delivers comes from the
  stream of its device.
\<close>

definition enabled :: "relay_event \<Rightarrow> relay \<Rightarrow> bool" where
  "enabled e s =
     (case e of
        Call_step i now sent fr \<Rightarrow> distinct [fr_id fr, fr_message fr, fr_correlation fr]
          \<and> list_all (\<lambda>k. k \<notin> set (rl_ids s)) [fr_id fr, fr_message fr, fr_correlation fr] \<and> fr_correlation fr \<noteq> []
      | Call_abandon i x \<Rightarrow> (case x of ToolDispatchError _ _ _ _ \<Rightarrow> x = timeout_error | _ \<Rightarrow> True)
      | Socket_online now cn \<Rightarrow> cn \<in> set (rl_conns s)
      | Socket_message now sp published cn raw \<Rightarrow> cn \<in> set (rl_conns s)
      | Socket_deliver now sp ok cn k \<Rightarrow> cn \<in> set (rl_conns s) \<and> list_ex (\<lambda>(_, dev, k'). dev = cn_device cn \<and> k' = k) (rl_queue s)
      | Socket_recover now sps cn \<Rightarrow> cn \<in> set (rl_conns s)
      | Socket_close cn \<Rightarrow> cn \<in> set (rl_conns s)
      | Rotate_link now account dev pk lid \<Rightarrow> list_all (\<lambda>l. lk_id l \<noteq> pk) (rd_links (rl_db s))
      | Enroll account name key thumbprint dev pk lid \<Rightarrow> list_all (\<lambda>l. lk_id l \<noteq> pk) (rd_links (rl_db s))
      | _ \<Rightarrow> True)"

inductive relay_steps :: "relay_env \<Rightarrow> relay_settings \<Rightarrow> relay \<Rightarrow> relay_event list \<Rightarrow> relay \<Rightarrow> bool" for ev st s0 where
  start: "relay_steps ev st s0 [] s0"
| step: "relay_steps ev st s0 es s \<Longrightarrow> enabled e s \<Longrightarrow> relay_steps ev st s0 (es @ [e]) (relay_step ev st e s)"

abbreviation relay_run :: "relay_env \<Rightarrow> relay_settings \<Rightarrow> relay_event list \<Rightarrow> relay \<Rightarrow> bool" where
  "relay_run ev st es s \<equiv> relay_steps ev st empty_relay es s"

section \<open>An example\<close>

text \<open>Runs that can be evaluated.\<close>

fun exec_relay :: "relay_env \<Rightarrow> relay_settings \<Rightarrow> relay_event list \<Rightarrow> relay \<Rightarrow> relay option" where
  "exec_relay ev st [] s = Some s"
| "exec_relay ev st (e # es) s = (if enabled e s then exec_relay ev st es (relay_step ev st e s) else None)"

lemma exec_relay_steps: "exec_relay ev st es s = Some s' \<Longrightarrow> relay_steps ev st s es s'"
proof (induction es arbitrary: s' rule: rev_induct)
  case Nil
  then show ?case using relay_steps.start by fastforce
next
  case (snoc e es)
  have app: "exec_relay ev st (xs @ [e]) s0 = Option.bind (exec_relay ev st xs s0) (\<lambda>t. if enabled e t then Some (relay_step ev st e t) else None)" for xs s0
    by (induction xs arbitrary: s0) auto
  from snoc.prems obtain t where t: "exec_relay ev st es s = Some t" "enabled e t" "s' = relay_step ev st e t"
    by (auto simp: app bind_eq_Some_conv split: if_splits)
  show ?case unfolding t(3) by (rule relay_steps.step [OF snoc.IH [OF t(1)] t(2)])
qed

definition demo_principal :: mcp_principal where
  "demo_principal = \<lparr>pr_account = 7, pr_grant = [103], pr_token = 1, pr_device = [100], pr_device_link = [108], pr_link = [107],
     pr_resource = lit ''/mcp/d/k'', pr_scopes = [lit ''shell:execute'']\<rparr>"

definition demo_env :: relay_env where
  "demo_env = \<lparr>ev_sha = (\<lambda>b. b), ev_input = (\<lambda>_ a. Inr a), ev_result = (\<lambda>_ r. Some r), ev_urlsplit = (\<lambda>_. None),
     ev_sign = (\<lambda>_ j. 46 # jtext ''id'' j),
     ev_unsign = (\<lambda>_ c. Some (cursor_value demo_principal (tl c))), ev_uuid = Some, ev_verify = (\<lambda>_ _ _. True)\<rparr>"

definition demo_settings :: relay_settings where
  "demo_settings = \<lparr>DEVICE_QUEUE_LIMIT = 1, DEVICE_OFFLINE_AFTER_SECONDS = 75, OPERATION_TIMEOUT_SECONDS = 45,
     FRONTEND_START_TIMEOUT_SECONDS = 180, WS_TICKET_TTL_SECONDS = 60, PUBLIC_BASE_URL = []\<rparr>"

text \<open>Account 7 with device \<open>d\<close> and link \<open>k\<close>, and a token for desktop actions.\<close>

definition demo_token :: token_row where
  "demo_token = \<lparr>at_id = 1, at_checksum = [116], at_expires = 1000, at_user = Some 7, at_resource = [lit ''/mcp/d/k''],
     at_scopes = [lit ''shell:execute''],
     at_binding = Some \<lparr>gb_account = 7, gb_link = [108], gb_resource = lit ''/mcp/d/k'', gb_grant = [103], gb_revoked = None\<rparr>\<rparr>"

definition demo_conn :: "nat \<Rightarrow> connection" where
  "demo_conn n = \<lparr>cn_device = [100], cn_account = account_wire 7, cn_epoch = n\<rparr>"

definition connecting :: "relay_event list" where
  "connecting = [Issue_ticket 0 7 [100] [120] [121], Socket_open 1 [120] [], Socket_online 2 (demo_conn 1)]"

definition demo_setup :: "relay_event list" where
  "demo_setup = [Enroll 7 [110] (JObj []) (replicate 64 97) [100] [108] [107], Tokens [demo_token]] @ connecting"

definition demo_fresh :: "pystr \<Rightarrow> fresh_op" where
  "demo_fresh k = \<lparr>fr_id = 1 # k, fr_message = 2 # k, fr_correlation = 3 # k, fr_now = 4\<rparr>"

definition demo_arguments :: json where
  "demo_arguments = JObj [(lit ''idempotency_key'', JStr [97])]"

definition desktop_call :: "nat \<Rightarrow> pystr \<Rightarrow> relay_event list" where
  "desktop_call i k = Call 3 (lit ''Bearer t'') [107] (lit ''device_desktop'') demo_arguments
     # map (\<lambda>x. Call_step i 4 5 (demo_fresh x)) [k, k, k, 9 # k, 9 # k]"

definition demo_result :: "relay_event" where
  "demo_result = Socket_message 7 \<lparr>sp_now = 7, sp_message = [5]\<rparr> True (demo_conn 1)
     (Some \<lparr>en_kind = OPERATION_RESULT, en_message = [6], en_correlation = Some [3, 1], en_sequence = 1, en_epoch = 1,
        en_sent = 6, en_deadline = None, en_bindings = \<lparr>tb_account = account_wire 7, tb_device = [100], tb_link = Some [107],
        tb_grant = Some [103], tb_project = None\<rparr>,
        en_digest = Some (DOMAIN_SEPARATOR @ utf8_encode (dumps (action_payload (lit ''device_desktop'') demo_arguments))),
        en_payload = JObj [(lit ''ok'', JBool True), (lit ''result'', JObj [])]\<rparr>)"

definition demo_deliver :: relay_event where
  "demo_deliver = Socket_deliver 6 \<lparr>sp_now = 6, sp_message = [4]\<rparr> True (demo_conn 1) [3, 1]"

text \<open>The states of the example: the call waits, the device has it, the device has answered.\<close>

definition after :: "relay_event list \<Rightarrow> relay \<Rightarrow> relay" where
  "after es s = the (exec_relay demo_env demo_settings es s)"

definition demo_waiting :: relay where
  "demo_waiting = after (demo_setup @ desktop_call 0 [1]) empty_relay"

definition delivered :: relay where
  "delivered = after [demo_deliver] demo_waiting"

definition answered :: relay where
  "answered = after [demo_result] delivered"

lemma after_steps: "exec_relay demo_env demo_settings es s \<noteq> None \<Longrightarrow> relay_steps demo_env demo_settings s es (after es s)"
  using exec_relay_steps by (force simp: after_def)

lemma steps_append:
  assumes "relay_steps ev st s es t" and "relay_steps ev st t es' u"
  shows "relay_steps ev st s (es @ es') u"
  using assms(2)
proof (induction rule: relay_steps.induct)
  case start
  then show ?case using assms(1) by simp
next
  case (step es' u e)
  then show ?case using relay_steps.step [OF step.IH] by simp
qed

lemma waiting_run: "relay_run demo_env demo_settings (demo_setup @ desktop_call 0 [1]) demo_waiting"
  unfolding demo_waiting_def by (rule after_steps) code_simp

lemma delivered_steps: "relay_steps demo_env demo_settings demo_waiting [demo_deliver] delivered"
  unfolding delivered_def by (rule after_steps) code_simp

lemma answered_steps: "relay_steps demo_env demo_settings delivered [demo_result] answered"
  unfolding answered_def by (rule after_steps) code_simp

lemmas delivered_run = steps_append [OF waiting_run delivered_steps]
lemmas answered_run = steps_append [OF delivered_run answered_steps]

end
