(* ===== verification/Relay_Laws.thy ===== *)
theory Relay_Laws
  imports Relay_Run
begin

text \<open>
  What holds of the relay in every run.  Every transaction moves the rows of the operation table
  by \<open>op_move\<close> and appends at most one row; the laws follow from that.
\<close>

section \<open>Moves of an operation\<close>

definition row_ok :: "relay_op \<Rightarrow> bool" where
  "row_ok r \<longleftrightarrow> (ro_result r \<noteq> None \<longrightarrow> terminal_status (ro_status r))"

definition same_identity :: "relay_op \<Rightarrow> relay_op \<Rightarrow> bool" where
  "same_identity r r' \<longleftrightarrow> ro_id r' = ro_id r \<and> ro_account r' = ro_account r \<and> ro_grant r' = ro_grant r
     \<and> ro_device r' = ro_device r \<and> ro_link r' = ro_link r \<and> ro_project r' = ro_project r \<and> ro_kind r' = ro_kind r
     \<and> ro_message r' = ro_message r \<and> ro_correlation r' = ro_correlation r \<and> ro_idempotency r' = ro_idempotency r
     \<and> ro_action_digest r' = ro_action_digest r \<and> ro_payload r' = ro_payload r \<and> ro_deadline r' = ro_deadline r"

definition op_move :: "relay_op \<Rightarrow> relay_op \<Rightarrow> bool" where
  "op_move r r' \<longleftrightarrow> same_identity r r'
     \<and> (ro_result r \<noteq> None \<longrightarrow> ro_result r' = ro_result r \<and> ro_status r' = ro_status r)
     \<and> (terminal_status (ro_status r) \<longrightarrow> terminal_status (ro_status r'))
     \<and> (ro_attempted r \<noteq> None \<longrightarrow> ro_attempted r' \<noteq> None)
     \<and> row_ok r'"

lemma op_move_refl [simp]: "op_move r r \<longleftrightarrow> row_ok r"
  by (simp add: op_move_def same_identity_def)

lemma op_move_trans: "op_move a b \<Longrightarrow> op_move b c \<Longrightarrow> op_move a c"
  by (auto simp: op_move_def same_identity_def)

definition moved :: "relay_db \<Rightarrow> relay_db \<Rightarrow> bool" where
  "moved d d' \<longleftrightarrow> list_all2 op_move (rd_ops d) (rd_ops d')"

definition rows_ok :: "relay_db \<Rightarrow> bool" where
  "rows_ok d \<longleftrightarrow> list_all row_ok (rd_ops d) \<and> distinct (map ro_id (rd_ops d))"

lemma list_all2_op_move_refl: "list_all row_ok rs \<Longrightarrow> list_all2 op_move rs rs"
  by (induction rs) auto

lemma moved_refl: "rows_ok d \<Longrightarrow> moved d d"
  by (simp add: moved_def rows_ok_def list_all2_op_move_refl)

lemma moved_same_ops: "rows_ok d \<Longrightarrow> rd_ops d' = rd_ops d \<Longrightarrow> moved d d'"
  by (simp add: moved_def rows_ok_def list_all2_op_move_refl)

lemma moved_trans: "moved a b \<Longrightarrow> moved b c \<Longrightarrow> moved a c"
  unfolding moved_def by (rule list_all2_trans [OF op_move_trans])

lemma moved_ids: "moved d d' \<Longrightarrow> map ro_id (rd_ops d') = map ro_id (rd_ops d)"
  unfolding moved_def by (induction rule: list_all2_induct) (auto simp: op_move_def same_identity_def)

lemma moved_rows_ok: "moved d d' \<Longrightarrow> rows_ok d \<Longrightarrow> rows_ok d'"
proof -
  assume m: "moved d d'" and ok: "rows_ok d"
  have "list_all row_ok (rd_ops d')"
    using m unfolding moved_def by (induction rule: list_all2_induct) (auto simp: op_move_def)
  then show ?thesis using ok moved_ids [OF m] by (simp add: rows_ok_def)
qed

lemma moved_update_ops:
  assumes "rows_ok d" and "\<And>r. r \<in> set (rd_ops d) \<Longrightarrow> p r \<Longrightarrow> row_ok r \<Longrightarrow> op_move r (g r)"
  shows "moved d (update_ops p g d)"
  using assms by (auto simp: moved_def update_ops_def rows_ok_def list_all2_conv_all_nth list_all_length)

lemma moved_save_op:
  assumes "rows_ok d" and "r \<in> set (rd_ops d)" and "op_move r r'"
  shows "moved d (save_op r' d)"
  unfolding save_op_def
proof (rule moved_update_ops [OF assms(1)])
  fix x assume "x \<in> set (rd_ops d)" "ro_id x = ro_id r'"
  then have "x = r" using assms
    by (auto simp: rows_ok_def op_move_def same_identity_def distinct_map inj_on_def)
  then show "op_move x r'" using assms(3) by simp
qed

lemma moved_pending_count: "moved d d' \<Longrightarrow> pending_count dev d' \<le> pending_count dev d"
  unfolding moved_def pending_count_def
  by (induction rule: list_all2_induct) (auto simp: op_move_def same_identity_def pending_or_terminal)

section \<open>Transactions move rows\<close>

lemma mark_dispatched_moved: "rows_ok d \<Longrightarrow> moved d (mark_dispatched k d)"
  unfolding mark_dispatched_def
  by (rule moved_update_ops) (auto simp: op_move_def same_identity_def row_ok_def terminal_status_def)

lemma finish_moved: "rows_ok d \<Longrightarrow> moved d (finish ev k j d)"
  unfolding finish_def
  by (rule moved_update_ops) (auto simp: op_move_def same_identity_def row_ok_def terminal_status_def pending_status_def)

lemma mark_delivery_failure_moved: "rows_ok d \<Longrightarrow> moved d (mark_delivery_failure k code d)"
  unfolding mark_delivery_failure_def
  by (rule moved_update_ops) (auto simp: op_move_def same_identity_def row_ok_def terminal_status_def pending_status_def)

lemma mark_operation_sent_moved: "rows_ok d \<Longrightarrow> moved d (mark_operation_sent now k cn d)"
  unfolding mark_operation_sent_def
  by (rule moved_update_ops) (auto simp: op_move_def same_identity_def row_ok_def)

lemma update_devices_ops [simp]: "rd_ops (update_devices p g d) = rd_ops d"
  by (simp add: update_devices_def)

lemma find_member: "find p xs = Some x \<Longrightarrow> x \<in> set xs \<and> p x"
  by (auto simp: find_Some_iff)

lemma validate_operation_binding_member:
  "validate_operation_binding cn e d = Inr r \<Longrightarrow> r \<in> set (rd_ops d) \<and> current cn d \<and> ro_device r = cn_device cn"
  by (auto simp: validate_operation_binding_def Let_def split: if_splits option.splits dest!: find_member)

lemma result_status_terminal [simp]: "terminal_status (result_status u p)"
  by (simp add: result_status_def terminal_status_def)

lemma advance_move:
  assumes "\<not> terminal_status (ro_status r)" and "row_ok r"
  shows "op_move r (advance ev cn u e r)"
proof -
  have rank: "state_rank (ro_status r) \<le> 4" by (cases "ro_status r") simp_all
  have four: "state_rank (result_status b p) = 4" for b p by (simp add: result_status_def)
  have none: "ro_result r = None" using assms by (auto simp: row_ok_def)
  show ?thesis
    using assms(1) none
    by (auto simp: advance_def op_move_def same_identity_def row_ok_def message_status_def four rank Let_def
        split: message_kind.split)
qed

lemma late_terminal_moved:
  assumes "rows_ok d" and "r \<in> set (rd_ops d)" and "terminal_status (ro_status r)"
  shows "moved d (snd (late_terminal ev cn u r e d))"
proof -
  have move: "op_move r (r\<lparr>ro_status := result_status b p, ro_result := x, ro_error := c,
      ro_epoch := n, ro_sequence := k, ro_sequence_epoch := n\<rparr>)" if "ro_result r = None" for b p x c n k
    using that assms(3) by (simp add: op_move_def same_identity_def row_ok_def)
  show ?thesis
    by (auto simp: late_terminal_def Let_def moved_refl [OF assms(1)] split: sum.splits
        intro!: moved_save_op [OF assms(1,2) move])
qed

lemma record_device_message_moved:
  assumes "rows_ok d"
  shows "moved d (snd (record_device_message ev cn e d))"
proof (cases "validate_operation_binding cn e d")
  case (Inl x)
  then show ?thesis using moved_refl [OF assms] by (simp add: record_device_message_def)
next
  case (Inr r)
  then have r: "r \<in> set (rd_ops d)" using validate_operation_binding_member by blast
  then have "row_ok r" using assms by (auto simp: rows_ok_def list_all_iff)
  then show ?thesis
    using Inr r assms late_terminal_moved [OF assms r] moved_save_op [OF assms r advance_move]
    by (auto simp: record_device_message_def Let_def moved_refl split: sum.splits prod.splits)
      (metis snd_conv)+
qed

lemma undeliverable_terminal: "undeliverable now r d = Some (st, code, p) \<Longrightarrow> terminal_status st"
  by (auto simp: undeliverable_def terminal_status_def split: if_splits)

lemma prepare_moved:
  assumes "rows_ok d"
  shows "moved d (snd (prepare_operation_dispatch ev now sp cn k d))"
proof (cases "find (\<lambda>r. ro_correlation r = k \<and> ro_account r = wire_account (cn_account cn) \<and> ro_device r = cn_device cn) (rd_ops d)")
  case None
  then show ?thesis using moved_refl [OF assms] by (simp add: prepare_operation_dispatch_def)
next
  case (Some r)
  then have r: "r \<in> set (rd_ops d)" using find_member by fastforce
  then have ok: "row_ok r" using assms by (auto simp: rows_ok_def list_all_iff)
  have gone: "op_move r (r\<lparr>ro_status := s, ro_error := c, ro_result := x, ro_epoch := n\<rparr>)"
    if "terminal_status s" "\<not> terminal_status (ro_status r)" for s c x n
    using that ok by (auto simp: op_move_def same_identity_def row_ok_def)
  have sent: "op_move r (r\<lparr>ro_epoch := n, ro_attempted := Some t, ro_sent_at := None, ro_sent_epoch := None\<rparr>)" for n t
    using ok by (simp add: op_move_def same_identity_def row_ok_def)
  show ?thesis
    using Some moved_refl [OF assms]
    by (auto simp: prepare_operation_dispatch_def Let_def split: option.split
        intro!: moved_save_op [OF assms r] gone sent dest: undeliverable_terminal)
qed

section \<open>Steps of the table\<close>

lemma new_operation_simps [simp]:
  "ro_id (new_operation ev p v q tool arguments dg timeout fr) = fr_id fr"
  "ro_message (new_operation ev p v q tool arguments dg timeout fr) = fr_message fr"
  "ro_correlation (new_operation ev p v q tool arguments dg timeout fr) = fr_correlation fr"
  "ro_device (new_operation ev p v q tool arguments dg timeout fr) = dv_id v"
  "ro_account (new_operation ev p v q tool arguments dg timeout fr) = pr_account p"
  "ro_grant (new_operation ev p v q tool arguments dg timeout fr) = pr_grant p"
  "ro_link (new_operation ev p v q tool arguments dg timeout fr) = pr_device_link p"
  "ro_project (new_operation ev p v q tool arguments dg timeout fr) = map_option pj_id q"
  "ro_kind (new_operation ev p v q tool arguments dg timeout fr) = tool"
  "ro_payload (new_operation ev p v q tool arguments dg timeout fr) = action_payload tool arguments"
  "ro_action_digest (new_operation ev p v q tool arguments dg timeout fr) = dg"
  "ro_idempotency (new_operation ev p v q tool arguments dg timeout fr) = jtext ''idempotency_key'' arguments"
  "ro_status (new_operation ev p v q tool arguments dg timeout fr) = St_accepted"
  "ro_attempted (new_operation ev p v q tool arguments dg timeout fr) = None"
  "ro_result (new_operation ev p v q tool arguments dg timeout fr) = None"
  by (simp_all add: new_operation_def)

definition drawn :: "relay_op \<Rightarrow> pystr list" where
  "drawn r = [ro_id r, ro_message r, ro_correlation r]"

text \<open>One step of the table; \<open>ids\<close> are the identifiers drawn before it, \<open>ids'\<close> those after it.\<close>

inductive row_step :: "nat \<Rightarrow> pystr set \<Rightarrow> pystr set \<Rightarrow> relay_db \<Rightarrow> relay_db \<Rightarrow> bool" for limit ids ids' d d' where
  moves: "moved d d' \<Longrightarrow> ids \<subseteq> ids' \<Longrightarrow> row_step limit ids ids' d d'"
| drops: "rd_ops d' = filter p (rd_ops d) \<Longrightarrow> ids \<subseteq> ids' \<Longrightarrow> row_step limit ids ids' d d'"
| admits: "r = new_operation ev p v q tool arguments dg timeout fr \<Longrightarrow> rd_ops d' = rd_ops d @ [r]
     \<Longrightarrow> pending_count (ro_device r) d < limit \<Longrightarrow> \<not> list_ex (same_unique r) (rd_ops d)
     \<Longrightarrow> ro_correlation r \<noteq> [] \<Longrightarrow> set (drawn r) \<inter> ids = {} \<Longrightarrow> ids' = ids \<union> set (drawn r) \<Longrightarrow> row_step limit ids ids' d d'"

lemma pending_count_append: "rd_ops d' = rd_ops d @ [r] \<Longrightarrow> pending_count dev d' \<le> pending_count dev d + (if ro_device r = dev then 1 else 0)"
  by (simp add: pending_count_def)

lemma pending_count_filter: "rd_ops d' = filter p (rd_ops d) \<Longrightarrow> pending_count dev d' \<le> pending_count dev d"
  by (simp add: pending_count_def conj_commute) (metis (no_types, lifting) filter_filter length_filter_le filter_cong)

lemma row_step_rows_ok: "row_step n ids ids' d d' \<Longrightarrow> rows_ok d \<Longrightarrow> rows_ok d'"
proof (induction rule: row_step.induct)
  case moves
  then show ?case using moved_rows_ok by blast
next
  case (drops p)
  then show ?case by (auto simp: rows_ok_def list_all_iff distinct_map intro: inj_on_subset)
next
  case (admits r)
  then show ?case by (auto simp: rows_ok_def list_ex_iff same_unique_def row_ok_def)
qed

lemma row_step_pending:
  assumes "row_step n ids ids' d d'" and "\<And>dev. pending_count dev d \<le> n"
  shows "pending_count dev d' \<le> n"
  using assms
proof (induction rule: row_step.induct)
  case moves
  then show ?case using moved_pending_count le_trans by blast
next
  case (drops p)
  then show ?case using pending_count_filter le_trans by blast
next
  case (admits r)
  then show ?case using pending_count_append [OF admits(2), of dev]
    by (auto split: if_splits) (meson le_trans)
qed

lemma row_step_same: "rows_ok d \<Longrightarrow> rd_ops d' = rd_ops d \<Longrightarrow> ids \<subseteq> ids' \<Longrightarrow> row_step n ids ids' d d'"
  by (rule row_step.moves) (simp_all add: moved_same_ops)

section \<open>The operation table through a step\<close>

lemma touch_ops [simp]: "rd_ops (touch now cn d) = rd_ops d" by (simp add: touch_def)
lemma mark_online_ops [simp]: "rd_ops (mark_online now cn d) = rd_ops d" by (simp add: mark_online_def)
lemma mark_offline_ops [simp]: "rd_ops (mark_offline cn d) = rd_ops d" by (simp add: mark_offline_def)

lemma consume_ticket_ops [simp]: "rd_ops (snd (consume_ticket ev now raw sig d)) = rd_ops d"
  by (simp add: consume_ticket_def split: option.split)

lemma synchronize_projects_ops [simp]: "rd_ops (snd (synchronize_projects cn p d)) = rd_ops d"
  by (simp add: synchronize_projects_def split: option.split json.split sum.split)

lemma rotate_device_link_ops [simp]: "rd_ops (snd (rotate_device_link now a dev pk lid d)) = rd_ops d"
  by (simp add: rotate_device_link_def revoke_links_def Let_def split: option.split)

lemma revoke_device_ops [simp]:
  "rd_ops (snd (revoke_device now a dev d)) = rd_ops d" "rd_ops (snd (revoke_desktop_device now a dev d)) = rd_ops d"
  by (simp_all add: revoke_device_def revoke_desktop_device_def revoke_device_row_def revoke_grants_def revoke_links_def split: option.split)

lemma issue_device_ticket_ops [simp]: "rd_ops (snd (issue_device_ticket ev st now a dev raw ch d)) = rd_ops d"
  by (simp add: issue_device_ticket_def split: option.split list.split)

lemma enroll_device_ops [simp]: "rd_ops (snd (enroll_device a n k t dev pk lid d)) = rd_ops d"
  by (simp add: enroll_device_def)

lemma set_phase_db [simp]: "rl_db (set_phase i ph s) = rl_db s" by (simp add: set_phase_def)
lemma publish_db [simp]: "rl_db (publish r s) = rl_db s" by (simp add: publish_def)
lemma push_result_db [simp]: "rl_db (push_result k e s) = rl_db s" by (simp add: push_result_def)
lemma close_socket_ops [simp]: "rd_ops (rl_db (close_socket cn s)) = rd_ops (rl_db s)" by (simp add: close_socket_def)

lemma moved_ops_cong: "rd_ops b' = rd_ops b \<Longrightarrow> moved a b' \<longleftrightarrow> moved a b"
  by (simp add: moved_def)

lemma deliver_moved:
  assumes "rows_ok (rl_db s)"
  shows "moved (rl_db s) (rl_db (deliver_operation ev now sp ok cn k s))"
proof -
  obtain x d where p: "prepare_operation_dispatch ev now sp cn k (rl_db s) = (x, d)" by force
  have m: "moved (rl_db s) d" using prepare_moved [OF assms, of ev now sp cn k] p by simp
  have m': "moved (rl_db s) (mark_operation_sent now op cn d)" for op
    using m mark_operation_sent_moved [OF moved_rows_ok [OF m assms]] moved_trans by blast
  show ?thesis using m m'
    by (auto simp: deliver_operation_def p Let_def moved_ops_cong [of "rl_db (close_socket cn t)" "rl_db t" for cn t]
        split: sum.split option.split prepared_dispatch.split)
qed

lemma deliver_each_moved: "rows_ok (rl_db s) \<Longrightarrow> moved (rl_db s) (rl_db (deliver_each ev now sps cn ks s))"
proof (induction ks arbitrary: s)
  case (Cons k ks)
  let ?s = "deliver_operation ev now (sps k) True cn k s"
  have one: "moved (rl_db s) (rl_db ?s)" by (rule deliver_moved [OF Cons.prems])
  show ?case
    using one moved_trans [OF one Cons.IH [OF moved_rows_ok [OF one Cons.prems]]] by (simp add: Let_def)
qed (simp add: moved_refl)

lemma lifecycle_moved:
  assumes "rows_ok (rl_db s)"
  shows "moved (rl_db s) (rl_db (lifecycle_message ev now sp pub cn e s))"
proof -
  obtain x d where p: "record_device_message ev cn e (rl_db s) = (x, d)" by force
  have m: "moved (rl_db s) d" using record_device_message_moved [OF assms, of ev cn e] p by simp
  have m': "moved (rl_db s) d'" if "rd_ops d' = rd_ops d" for d' using that m moved_ops_cong by blast
  show ?thesis by (auto simp: lifecycle_message_def p Let_def push_result_def close_socket_def intro!: m' split: sum.split)
qed

lemma receive_message_moved:
  assumes "rows_ok (rl_db s)"
  shows "moved (rl_db s) (rl_db (receive_message ev now sp pub cn raw s))"
proof -
  have same: "moved (rl_db s) d" if "rd_ops d = rd_ops (rl_db s)" for d using that moved_same_ops [OF assms] by simp
  have sync: "rd_ops d = rd_ops (rl_db s)" if "synchronize_projects cn p (rl_db s) = (x, d)" for p x d
    using synchronize_projects_ops [of cn p "rl_db s"] that by simp
  show ?thesis
    by (auto simp: receive_message_def lifecycle_moved [OF assms] intro!: same dest: sync
        split: option.split prod.split sum.split)
qed

text \<open>Admission either leaves the database alone or appends the new row.\<close>

lemma admit_operation_cases:
  assumes "admit_operation ev st p v q tool arguments dg timeout fr d = (x, d')"
  obtains (kept) "d' = d" "\<And>r. x \<noteq> Inr (r, True)"
  | (created) r where "r = new_operation ev p v q tool arguments dg timeout fr" "x = Inr (r, True)"
      "d' = d\<lparr>rd_ops := rd_ops d @ [r]\<rparr>" "pending_count (dv_id v) d < DEVICE_QUEUE_LIMIT st"
      "\<not> list_ex (same_unique r) (rd_ops d)"
      "\<exists>u \<in> set (rd_devices d). dv_id u = dv_id v \<and> dv_account u = pr_account p"
proof (cases "d' = d \<and> (\<forall>r. x \<noteq> Inr (r, True))")
  case True
  then show thesis using kept by blast
next
  case False
  let ?key = "jtext ''idempotency_key'' arguments"
  let ?r = "new_operation ev p v q tool arguments dg timeout fr"
  obtain u where u: "find (\<lambda>u. dv_id u = dv_id v \<and> dv_account u = pr_account p) (rd_devices d) = Some u"
    using False assms by (cases "find (\<lambda>u. dv_id u = dv_id v \<and> dv_account u = pr_account p) (rd_devices d)")
      (auto simp: admit_operation_def Let_def)
  have ex: "existing_operation p v q tool ?key dg d = Inr None"
    using False assms u by (cases "existing_operation p v q tool ?key dg d") (auto simp: admit_operation_def Let_def split: option.splits)
  have cap: "pending_count (dv_id u) d < DEVICE_QUEUE_LIMIT st"
    using False assms u ex by (auto simp: admit_operation_def Let_def not_le split: if_splits)
  have ins: "\<not> list_ex (same_unique ?r) (rd_ops d)"
    using False assms u ex cap
    by (auto simp: admit_operation_def Let_def insert_op_def same_action_def split: if_splits option.splits)
  have "x = Inr (?r, True) \<and> d' = d\<lparr>rd_ops := rd_ops d @ [?r]\<rparr>"
    using assms u ex cap ins by (simp add: admit_operation_def Let_def insert_op_def not_le)
  then show thesis using created [of ?r] cap ins find_member [OF u] by auto
qed

lemma admit_call_db:
  assumes "admit_call ev st fr sent v q dg timeout c d = (ph, d')"
  shows "\<exists>x. admit_operation ev st (cl_principal c) v q (cl_tool c) (cl_arguments c) dg timeout fr d = (x, d')"
  using assms
  by (cases "admit_operation ev st (cl_principal c) v q (cl_tool c) (cl_arguments c) dg timeout fr d")
    (auto simp: admit_call_def Let_def split: sum.splits prod.splits bool.splits)

lemma admit_call_row_step:
  assumes "rows_ok d" and "admit_call ev st fr sent v q dg timeout c d = (ph, d')"
    and "set [fr_id fr, fr_message fr, fr_correlation fr] \<inter> ids = {}" and "fr_correlation fr \<noteq> []"
  shows "row_step (DEVICE_QUEUE_LIMIT st) ids (ids \<union> set [fr_id fr, fr_message fr, fr_correlation fr]) d d'"
proof -
  obtain x where "admit_operation ev st (cl_principal c) v q (cl_tool c) (cl_arguments c) dg timeout fr d = (x, d')"
    using admit_call_db [OF assms(2)] by blast
  then show ?thesis
  proof (cases rule: admit_operation_cases)
    case kept
    then show ?thesis by (intro row_step_same [OF assms(1)]) auto
  next
    case (created r)
    then show ?thesis using assms(3,4) by (intro row_step.admits [OF created(1)]) (simp_all add: drawn_def)
  qed
qed

abbreviation table_step :: "relay_settings \<Rightarrow> relay \<Rightarrow> relay \<Rightarrow> bool" where
  "table_step st s s' \<equiv> row_step (DEVICE_QUEUE_LIMIT st) (set (rl_ids s)) (set (rl_ids s')) (rl_db s) (rl_db s')"

lemma set_phase_ids [simp]: "rl_ids (set_phase i ph s) = rl_ids s" by (simp add: set_phase_def)
lemma publish_ids [simp]: "rl_ids (publish r s) = rl_ids s" by (simp add: publish_def)
lemma push_result_ids [simp]: "rl_ids (push_result k e s) = rl_ids s" by (simp add: push_result_def)
lemma close_socket_ids [simp]: "rl_ids (close_socket cn s) = rl_ids s" by (simp add: close_socket_def)

lemma deliver_ids [simp]: "rl_ids (deliver_operation ev now sp ok cn k s) = rl_ids s"
  by (simp add: deliver_operation_def Let_def split: prod.split sum.split option.split prepared_dispatch.split)

lemma deliver_each_ids [simp]: "rl_ids (deliver_each ev now sps cn ks s) = rl_ids s"
  by (induction ks arbitrary: s) (simp_all add: Let_def)

lemma receive_message_ids [simp]: "rl_ids (receive_message ev now sp pub cn raw s) = rl_ids s"
  by (simp add: receive_message_def lifecycle_message_def Let_def split: option.split prod.split sum.split)

lemma step_call_row_step:
  assumes "rows_ok (rl_db s)" and "enabled (Call_step i now sent fr) s"
  shows "table_step st s (step_call ev st i now sent fr s)"
proof -
  have "set [fr_id fr, fr_message fr, fr_correlation fr] \<inter> set (rl_ids s) = {}" "fr_correlation fr \<noteq> []"
    using assms(2) by (auto simp: enabled_def)
  then show ?thesis
    using admit_call_row_step [OF assms(1)] row_step.moves mark_dispatched_moved [OF assms(1)] finish_moved [OF assms(1)]
      mark_delivery_failure_moved [OF assms(1)] row_step_same [OF assms(1)]
    by (simp add: step_call_def Let_def split: call_phase.split prod.split)
qed

lemma relay_step_row_step:
  assumes "rows_ok (rl_db s)" and "enabled e s"
  shows "table_step st s (relay_step ev st e s)"
proof -
  have same: "rd_ops (rl_db s') = rd_ops (rl_db s) \<Longrightarrow> rl_ids s' = rl_ids s \<Longrightarrow> table_step st s s'" for s'
    by (rule row_step_same [OF assms(1)]) simp_all
  show ?thesis
  proof (cases e)
    case (Call now a l t j)
    show ?thesis by (rule same) (simp_all add: Call begin_call_def split: sum.split)
  next
    case (Call_step i now sent fr)
    then show ?thesis using step_call_row_step [OF assms(1)] assms(2) by simp
  next
    case (Call_read i)
    show ?thesis by (rule same) (simp_all add: Call_read read_call_def split: call_phase.split option.split prod.split)
  next
    case (Call_abandon i x)
    show ?thesis by (rule same) (simp_all add: Call_abandon abandon_call_def split: call_phase.split)
  next
    case (Socket_open now raw sig)
    obtain x d where p: "consume_ticket ev now raw sig (rl_db s) = (x, d)" by force
    have "rd_ops d = rd_ops (rl_db s)" using consume_ticket_ops [of ev now raw sig "rl_db s"] p by simp
    then show ?thesis by (intro same) (simp_all add: Socket_open open_socket_def p split: sum.split)
  next
    case (Socket_message now sp pub cn raw)
    then show ?thesis using receive_message_moved [OF assms(1)] row_step.moves by simp
  next
    case (Socket_deliver now sp ok cn k)
    then show ?thesis using deliver_moved [OF assms(1)] row_step.moves by simp
  next
    case (Socket_recover now sps cn)
    then show ?thesis using deliver_each_moved [OF assms(1)] row_step.moves by (simp add: recover_unsent_operations_def)
  next
    case (Cleanup now)
    show ?thesis by (rule row_step.drops [where p = "\<lambda>r. now - 30 * 86400 * 1000000 \<le> ro_created r"])
      (simp_all add: Cleanup cleanup_def)
  qed (rule same; simp)+
qed

lemma empty_rows_ok: "rows_ok (rl_db empty_relay)" "pending_count dev (rl_db empty_relay) = 0"
  by (simp_all add: empty_relay_def rows_ok_def pending_count_def)

lemma steps_rows_ok: "relay_steps ev st s0 es s \<Longrightarrow> rows_ok (rl_db s0) \<Longrightarrow> rows_ok (rl_db s)"
  by (induction rule: relay_steps.induct) (auto intro: row_step_rows_ok relay_step_row_step)

lemmas run_rows_ok = steps_rows_ok [OF _ empty_rows_ok(1)]

definition ids_ok :: "pystr set \<Rightarrow> relay_db \<Rightarrow> bool" where
  "ids_ok ids d \<longleftrightarrow> (\<forall>r \<in> set (rd_ops d). set (drawn r) \<subseteq> ids \<and> ro_correlation r \<noteq> []) \<and> distinct (map ro_correlation (rd_ops d))"

lemma moved_back:
  assumes "moved d d'" and "x \<in> set (rd_ops d')"
  obtains y where "y \<in> set (rd_ops d)" "op_move y x"
  using assms unfolding moved_def by (metis in_set_conv_nth list_all2_conv_all_nth)

lemma moved_correlations: "moved d d' \<Longrightarrow> map ro_correlation (rd_ops d') = map ro_correlation (rd_ops d)"
  unfolding moved_def by (induction rule: list_all2_induct) (auto simp: op_move_def same_identity_def)

lemma row_step_ids_ok:
  assumes "row_step n ids ids' d d'" and "ids_ok ids d"
  shows "ids_ok ids' d'"
  using assms(1)
proof cases
  case moves
  have "set (drawn x) \<subseteq> ids' \<and> ro_correlation x \<noteq> []" if "x \<in> set (rd_ops d')" for x
  proof -
    obtain y where "y \<in> set (rd_ops d)" "op_move y x" using moved_back [OF moves(1) \<open>x \<in> set (rd_ops d')\<close>] .
    then show ?thesis using assms(2) moves(2) by (auto simp: ids_ok_def drawn_def op_move_def same_identity_def)
  qed
  then show ?thesis using assms(2) moved_correlations [OF moves(1)] by (simp add: ids_ok_def)
next
  case (drops p)
  then show ?thesis using assms(2) by (fastforce simp: ids_ok_def distinct_map intro: inj_on_subset)
next
  case (admits r)
  then show ?thesis using assms(2) by (fastforce simp: ids_ok_def drawn_def)
qed

lemma steps_ids_ok:
  "relay_steps ev st s0 es s \<Longrightarrow> rows_ok (rl_db s0) \<Longrightarrow> ids_ok (set (rl_ids s0)) (rl_db s0) \<Longrightarrow> ids_ok (set (rl_ids s)) (rl_db s)"
proof (induction rule: relay_steps.induct)
  case (step es s e)
  then show ?case using row_step_ids_ok [OF relay_step_row_step [OF steps_rows_ok]] by blast
qed

lemma empty_ids_ok: "ids_ok (set (rl_ids empty_relay)) (rl_db empty_relay)"
  by (simp add: empty_relay_def ids_ok_def)

lemmas run_ids_ok = steps_ids_ok [OF _ empty_rows_ok(1) empty_ids_ok]

section \<open>Invariants of runs\<close>

text \<open>
  A property of the relay's states that holds at the start and that every event keeps, given the
  laws of the operation table, holds in every run.
\<close>

locale run_invariant =
  fixes ev :: relay_env and st :: relay_settings and inv :: "relay \<Rightarrow> bool"
  assumes initially: "inv empty_relay"
    and kept: "\<And>e s. inv s \<Longrightarrow> rows_ok (rl_db s) \<Longrightarrow> ids_ok (set (rl_ids s)) (rl_db s) \<Longrightarrow> enabled e s
      \<Longrightarrow> inv (relay_step ev st e s)"
begin

lemma holds: "relay_run ev st es s \<Longrightarrow> inv s"
proof (induction rule: relay_steps.induct)
  case start
  then show ?case by (rule initially)
next
  case (step es s e)
  then show ?case using kept run_rows_ok run_ids_ok by blast
qed

end

interpretation bounded_queue: run_invariant ev st "\<lambda>s. \<forall>dev. pending_count dev (rl_db s) \<le> DEVICE_QUEUE_LIMIT st" for ev st
proof unfold_locales
  show "\<forall>dev. pending_count dev (rl_db empty_relay) \<le> DEVICE_QUEUE_LIMIT st" by (simp add: empty_rows_ok)
next
  fix e s assume "\<forall>dev. pending_count dev (rl_db s) \<le> DEVICE_QUEUE_LIMIT st" "rows_ok (rl_db s)" "enabled e s"
  then show "\<forall>dev. pending_count dev (rl_db (relay_step ev st e s)) \<le> DEVICE_QUEUE_LIMIT st"
    using row_step_pending [OF relay_step_row_step] by blast
qed

text \<open>
  C14. In every run of the relay no device ever has more unfinished operations than
  \<open>DEVICE_QUEUE_LIMIT\<close>, however calls, deliveries, results, reconnections and revocations interleave.
\<close>

theorem queue_bounded:
  assumes "relay_run ev st es s"
  shows "pending_count dev (rl_db s) \<le> DEVICE_QUEUE_LIMIT st"
  using bounded_queue.holds [OF assms] by blast

theorem queue_bounded_witness:
  "pending_count [100] (rl_db demo_waiting) = 1 \<and> pending_count [100] (rl_db demo_waiting) \<le> DEVICE_QUEUE_LIMIT demo_settings"
proof
  show "pending_count [100] (rl_db demo_waiting) = 1" by code_simp
  show "pending_count [100] (rl_db demo_waiting) \<le> DEVICE_QUEUE_LIMIT demo_settings" by (rule queue_bounded [OF waiting_run])
qed

section \<open>Results are final\<close>

definition keeps_result :: "relay_op \<Rightarrow> relay_db \<Rightarrow> bool" where
  "keeps_result r d \<longleftrightarrow> (\<forall>x \<in> set (rd_ops d). ro_id x = ro_id r \<longrightarrow> ro_result x = ro_result r \<and> ro_status x = ro_status r)"

lemma row_step_keeps_result:
  assumes "row_step n ids ids' d d'" and "ro_result r \<noteq> None" and "keeps_result r d" and "ro_id r \<in> ids"
  shows "keeps_result r d' \<and> ro_id r \<in> ids'"
  using assms(1)
proof cases
  case moves
  have "ro_result x = ro_result r \<and> ro_status x = ro_status r" if x: "x \<in> set (rd_ops d')" "ro_id x = ro_id r" for x
  proof -
    obtain y where "y \<in> set (rd_ops d)" "op_move y x" using moved_back [OF moves(1) x(1)] .
    then show ?thesis using assms(2,3) x(2) by (auto simp: keeps_result_def op_move_def same_identity_def)
  qed
  then show ?thesis using moves(2) assms(4) by (auto simp: keeps_result_def)
next
  case (drops p)
  then show ?thesis using assms(3,4) by (auto simp: keeps_result_def)
next
  case (admits x)
  then show ?thesis using assms(3,4) by (auto simp: keeps_result_def drawn_def)
qed

text \<open>
  C11. Once the relay has recorded a result for an operation, no later event of any kind changes
  the result or the status: a repeated or late device message, a timeout of the waiting call, a
  recovery after a reconnection and a link revocation all leave it.  Only the retention command
  removes the row, and its identifier is not used again.
\<close>

theorem result_final:
  assumes "relay_run ev st es s" and "relay_steps ev st s es' s'"
    and "r \<in> set (rd_ops (rl_db s))" and "ro_result r = Some j"
    and "x \<in> set (rd_ops (rl_db s'))" and "ro_id x = ro_id r"
  shows "ro_result x = Some j \<and> ro_status x = ro_status r"
proof -
  have "keeps_result r (rl_db s)"
    using run_rows_ok [OF assms(1)] assms(3) by (auto simp: keeps_result_def rows_ok_def distinct_map inj_on_def)
  moreover have "ro_id r \<in> set (rl_ids s)"
    using run_ids_ok [OF assms(1)] assms(3) by (auto simp: ids_ok_def drawn_def)
  ultimately have start: "keeps_result r (rl_db s) \<and> ro_id r \<in> set (rl_ids s)" by blast
  have "keeps_result r (rl_db s') \<and> ro_id r \<in> set (rl_ids s')"
    using assms(2)
  proof (induction rule: relay_steps.induct)
    case (step es1 s1 e)
    have "rows_ok (rl_db s1)" using steps_rows_ok [OF step.hyps(1) run_rows_ok [OF assms(1)]] .
    then show ?case using row_step_keeps_result [OF relay_step_row_step] step assms(4) by blast
  qed (rule start)
  then show ?thesis using assms(4-6) by (auto simp: keeps_result_def)
qed

definition finished :: relay where
  "finished = after [Call_read 0, Call_step 0 4 5 (demo_fresh [8])] answered"

lemma finished_steps: "relay_steps demo_env demo_settings answered [Call_read 0, Call_step 0 4 5 (demo_fresh [8])] finished"
  unfolding finished_def by (rule after_steps) code_simp

theorem result_final_witness:
  "\<exists>j. map ro_result (rd_ops (rl_db answered)) = [Some j] \<and> map ro_result (rd_ops (rl_db finished)) = [Some j]"
proof -
  have "length (rd_ops (rl_db answered)) = 1 \<and> length (rd_ops (rl_db finished)) = 1
      \<and> ro_id (hd (rd_ops (rl_db finished))) = ro_id (hd (rd_ops (rl_db answered))) \<and> ro_result (hd (rd_ops (rl_db answered))) \<noteq> None"
    by code_simp
  then obtain r x j where "rd_ops (rl_db answered) = [r]" "rd_ops (rl_db finished) = [x]" "ro_id x = ro_id r" "ro_result r = Some j"
    by (auto simp: length_Suc_conv)
  then show ?thesis using result_final [OF answered_run finished_steps, of r j x] by simp
qed

end
