(* ===== verification/Relay_Delivery.thy ===== *)
theory Relay_Delivery
  imports Relay_Laws
begin

text \<open>
  Delivery of operations to the device: an action that must not run twice is written to a socket at
  most once, and relay and device agree on what is delivered and answered.
\<close>

section \<open>Delivery at most once\<close>

definition unsafe_action :: "envelope \<Rightarrow> bool" where
  "unsafe_action e =
     (case (jget ''tool_name'' (en_payload e), jget ''input'' (en_payload e)) of
        (Some (JStr t), Some inp) \<Rightarrow> is_replay_unsafe t inp
      | _ \<Rightarrow> False)"

definition deliveries :: "pystr \<Rightarrow> relay \<Rightarrow> envelope list" where
  "deliveries k s = map snd (filter (\<lambda>(k', e). k' = k \<and> unsafe_action e) (rl_sent s))"

definition payload_ok :: "relay_op \<Rightarrow> bool" where
  "payload_ok r \<longleftrightarrow> (\<exists>a. ro_payload r = action_payload (ro_kind r) a)"

lemma jget_action_payload [simp]:
  "jget ''tool_name'' (action_payload t a) = Some (JStr t)" "jget ''input'' (action_payload t a) = Some a"
  by (simp_all add: jget_def action_payload_def lit_def)

lemma prepare_outbound:
  assumes "prepare_operation_dispatch ev now sp cn k d = (Inr (Some (Outbound i e)), d')"
  obtains r where "r \<in> set (rd_ops d)" "i = ro_id r" "ro_correlation r = k" "ro_device r = cn_device cn" "ro_account r = wire_account (cn_account cn)"
    "current cn d" "\<not> terminal_status (ro_status r)" "undeliverable now r d = None"
    "e = op_envelope OPERATION (ro_message r) (Some (ro_deadline r)) (sp_now sp) cn r (ro_payload r) d"
    "envelope_ok (ev_sha ev) (ev_valid ev) e"
    "d' = save_op (r\<lparr>ro_epoch := cn_epoch cn, ro_attempted := Some now, ro_sent_at := None, ro_sent_epoch := None\<rparr>) d"
  using assms
  by (auto simp: prepare_operation_dispatch_def Let_def split: option.splits if_splits dest!: find_member)

lemma outbound_unsafe:
  assumes "payload_ok r" and "e = op_envelope OPERATION m dl t cn r (ro_payload r) d" and "envelope_ok sha valid e" and "unsafe_action e"
  shows "op_unsafe r"
proof -
  obtain a where a: "ro_payload r = action_payload (ro_kind r) a" using assms(1) by (auto simp: payload_ok_def)
  have "\<exists>kvs. a = JObj kvs"
    using assms(2,3) a
    by (cases a) (auto simp: envelope_ok_def op_envelope_def operation_kinds_def operation_payload_def action_payload_def lit_def split: option.splits)
  then show ?thesis using assms(2,4) a by (auto simp: unsafe_action_def op_envelope_def op_unsafe_def op_input_def)
qed

lemma op_move_keeps:
  assumes "op_move r r'"
  shows "ro_id r' = ro_id r" "payload_ok r' = payload_ok r" "ro_attempted r' = None \<Longrightarrow> ro_attempted r = None"
  using assms by (auto simp: op_move_def same_identity_def payload_ok_def)

text \<open>The log of deliveries against the table.\<close>

definition sent_ok :: "relay \<Rightarrow> bool" where
  "sent_ok s \<longleftrightarrow> (\<forall>k. length (deliveries k s) \<le> 1)
     \<and> (\<forall>(k, e) \<in> set (rl_sent s). k \<in> set (rl_ids s))
     \<and> (\<forall>r \<in> set (rd_ops (rl_db s)). payload_ok r \<and> (ro_attempted r = None \<longrightarrow> ro_id r \<notin> fst ` set (rl_sent s)))"

lemma row_step_sent_ok:
  assumes "row_step n (set (rl_ids s)) (set (rl_ids s')) (rl_db s) (rl_db s')" and "sent_ok s" and "rl_sent s' = rl_sent s"
  shows "sent_ok s'"
proof -
  have del: "deliveries k s' = deliveries k s" for k by (simp add: deliveries_def assms(3))
  have ids: "set (rl_ids s) \<subseteq> set (rl_ids s')" using assms(1) by cases auto
  have "payload_ok r \<and> (ro_attempted r = None \<longrightarrow> ro_id r \<notin> fst ` set (rl_sent s))" if r: "r \<in> set (rd_ops (rl_db s'))" for r
    using assms(1)
  proof cases
    case moves
    obtain y where "y \<in> set (rd_ops (rl_db s))" "op_move y r" using moved_back [OF moves(1) r] .
    then show ?thesis using assms(2) by (auto simp: sent_ok_def op_move_def same_identity_def payload_ok_def)
  next
    case (drops p)
    then show ?thesis using assms(2) r by (auto simp: sent_ok_def)
  next
    case (admits x)
    have "ro_id x \<notin> fst ` set (rl_sent s)" using admits(6) assms(2) by (auto simp: sent_ok_def drawn_def)
    moreover have "payload_ok x" by (auto simp: payload_ok_def admits(1))
    ultimately show ?thesis using assms(2) r admits(2) by (auto simp: sent_ok_def)
  qed
  then show ?thesis using assms(2,3) ids del by (fastforce simp: sent_ok_def)
qed

lemma deliver_sent:
  "rl_sent (deliver_operation ev now sp ok cn k s) =
     (case prepare_operation_dispatch ev now sp cn k (rl_db s) of
        (Inr (Some (Outbound i e)), d) \<Rightarrow> rl_sent s @ [(i, e)] | _ \<Rightarrow> rl_sent s)"
  by (simp add: deliver_operation_def push_result_def close_socket_def Let_def
      split: prod.split sum.split option.split prepared_dispatch.split)

lemma deliver_sent_ok:
  assumes "sent_ok s" and "rows_ok (rl_db s)" and "ids_ok (set (rl_ids s)) (rl_db s)"
  shows "sent_ok (deliver_operation ev now sp ok cn k s)"
proof (cases "\<exists>i e d'. prepare_operation_dispatch ev now sp cn k (rl_db s) = (Inr (Some (Outbound i e)), d')")
  case False
  then have "rl_sent (deliver_operation ev now sp ok cn k s) = rl_sent s"
    by (auto simp: deliver_sent split: prod.split sum.split option.split prepared_dispatch.split)
  then show ?thesis
    using row_step_sent_ok [of 0 s] row_step.moves [OF deliver_moved [OF assms(2)]] assms(1) by simp
next
  case True
  then obtain i e d' where p: "prepare_operation_dispatch ev now sp cn k (rl_db s) = (Inr (Some (Outbound i e)), d')" by blast
  obtain r where r: "r \<in> set (rd_ops (rl_db s))" "i = ro_id r" "undeliverable now r (rl_db s) = None"
      "e = op_envelope OPERATION (ro_message r) (Some (ro_deadline r)) (sp_now sp) cn r (ro_payload r) (rl_db s)"
      "envelope_ok (ev_sha ev) (ev_valid ev) e"
      "d' = save_op (r\<lparr>ro_epoch := cn_epoch cn, ro_attempted := Some now, ro_sent_at := None, ro_sent_epoch := None\<rparr>) (rl_db s)"
    using prepare_outbound [OF p] by metis
  let ?s = "deliver_operation ev now sp ok cn k s"
  have sent: "rl_sent ?s = rl_sent s @ [(i, e)]" by (simp add: deliver_sent p)
  have first: "unsafe_action e \<Longrightarrow> i \<notin> fst ` set (rl_sent s)"
    using outbound_unsafe [OF _ r(4,5)] assms(1) r(1-3) by (auto simp: sent_ok_def undeliverable_def split: if_splits)
  then have "unsafe_action e \<Longrightarrow> deliveries i s = []"
    by (force simp: deliveries_def filter_empty_conv)
  then have once: "length (deliveries x ?s) \<le> 1" for x
    using assms(1) sent by (auto simp: deliveries_def sent_ok_def)
  have ops: "\<exists>y \<in> set (rd_ops (rl_db s)). op_move y x \<and> (ro_id x = i \<longrightarrow> ro_attempted x \<noteq> None)" if x: "x \<in> set (rd_ops (rl_db ?s))" for x
  proof -
    obtain y where y: "y \<in> set (rd_ops (rl_db s))" "op_move y x" using moved_back [OF deliver_moved [OF assms(2)] x] .
    have "moved (rl_db s) d'" using prepare_moved [OF assms(2), of ev now sp cn k] p by simp
    then have "rows_ok d'" using moved_rows_ok assms(2) by blast
    then have "moved d' (rl_db ?s)"
      by (simp add: deliver_operation_def p Let_def mark_operation_sent_moved moved_same_ops)
    then obtain z where z: "z \<in> set (rd_ops d')" "op_move z x" using moved_back x by blast
    have "ro_attempted z \<noteq> None" if "ro_id z = i"
      using that z(1) r(2,6) by (auto simp: save_op_def update_ops_def)
    then have "ro_id x = i \<longrightarrow> ro_attempted x \<noteq> None" using z(2) by (auto simp: op_move_def same_identity_def)
    then show ?thesis using y by blast
  qed
  have "payload_ok x \<and> (ro_attempted x = None \<longrightarrow> ro_id x \<notin> fst ` set (rl_sent ?s))" if x: "x \<in> set (rd_ops (rl_db ?s))" for x
  proof -
    obtain y where y: "y \<in> set (rd_ops (rl_db s))" "op_move y x" "ro_id x = i \<longrightarrow> ro_attempted x \<noteq> None"
      using ops [OF x] by blast
    have "payload_ok y" "ro_attempted y = None \<longrightarrow> ro_id y \<notin> fst ` set (rl_sent s)"
      using assms(1) y(1) by (simp_all add: sent_ok_def)
    then show ?thesis using op_move_keeps [OF y(2)] y(3) sent by auto
  qed
  moreover have "i \<in> set (rl_ids s)" using assms(3) r(1,2) by (auto simp: ids_ok_def drawn_def)
  ultimately show ?thesis using once assms(1) sent by (auto simp: sent_ok_def)
qed

lemma deliver_each_sent_ok:
  "sent_ok s \<Longrightarrow> rows_ok (rl_db s) \<Longrightarrow> ids_ok (set (rl_ids s)) (rl_db s) \<Longrightarrow> sent_ok (deliver_each ev now sps cn ks s)"
proof (induction ks arbitrary: s)
  case (Cons k ks)
  let ?s = "deliver_operation ev now (sps k) True cn k s"
  have m: "moved (rl_db s) (rl_db ?s)" by (rule deliver_moved [OF Cons.prems(2)])
  have "ids_ok (set (rl_ids ?s)) (rl_db ?s)"
    using row_step_ids_ok [OF row_step.moves [OF m] Cons.prems(3), of "set (rl_ids s)"] by simp
  then show ?case
    using Cons.IH [OF _ moved_rows_ok [OF m Cons.prems(2)]] deliver_sent_ok [OF Cons.prems] by (simp add: Let_def)
qed simp

lemma set_phase_sent [simp]: "rl_sent (set_phase i ph s) = rl_sent s" by (simp add: set_phase_def)
lemma publish_sent [simp]: "rl_sent (publish r s) = rl_sent s" by (simp add: publish_def)
lemma push_result_sent [simp]: "rl_sent (push_result k e s) = rl_sent s" by (simp add: push_result_def)
lemma close_socket_sent [simp]: "rl_sent (close_socket cn s) = rl_sent s" by (simp add: close_socket_def)

lemma receive_message_sent [simp]: "rl_sent (receive_message ev now sp pub cn raw s) = rl_sent s"
  by (simp add: receive_message_def lifecycle_message_def Let_def split: option.split prod.split sum.split)

lemma step_call_sent [simp]: "rl_sent (step_call ev st i now sent fr s) = rl_sent s"
  by (simp add: step_call_def Let_def split: call_phase.split prod.split)

lemma relay_step_sent:
  assumes "case e of Socket_deliver _ _ _ _ _ \<Rightarrow> False | Socket_recover _ _ _ \<Rightarrow> False | _ \<Rightarrow> True"
  shows "rl_sent (relay_step ev st e s) = rl_sent s"
  using assms
  by (cases e) (simp_all add: begin_call_def read_call_def abandon_call_def open_socket_def
      split: sum.split call_phase.split option.split prod.split)

lemma relay_step_sent_ok:
  assumes "sent_ok s" and "rows_ok (rl_db s)" and "ids_ok (set (rl_ids s)) (rl_db s)" and "enabled e s"
  shows "sent_ok (relay_step ev st e s)"
proof (cases "case e of Socket_deliver _ _ _ _ _ \<Rightarrow> False | Socket_recover _ _ _ \<Rightarrow> False | _ \<Rightarrow> True")
  case True
  show ?thesis
    by (rule row_step_sent_ok [OF relay_step_row_step [OF assms(2,4)] assms(1) relay_step_sent [OF True]])
next
  case False
  then show ?thesis using deliver_sent_ok [OF assms(1-3)] deliver_each_sent_ok [OF assms(1-3)]
    by (auto simp: recover_unsent_operations_def split: relay_event.splits)
qed

interpretation delivery: run_invariant ev st sent_ok for ev st
proof unfold_locales
  show "sent_ok empty_relay" by (simp add: sent_ok_def deliveries_def empty_relay_def)
qed (rule relay_step_sent_ok)

text \<open>
  C9. The relay writes a shell start, a browser session start, a browser interaction or a desktop
  action to a device socket at most once, over any number of reconnections, stream re-reads and
  recoveries: after the first attempt the operation becomes \<open>outcome_unknown\<close> instead.
\<close>

theorem unsafe_delivered_once:
  assumes "relay_run ev st es s"
  shows "length (deliveries k s) \<le> 1"
  using delivery.holds [OF assms] by (simp add: sent_ok_def)

theorem unsafe_delivered_once_witness:
  "length (deliveries [1, 1] delivered) = 1 \<and> length (deliveries [1, 1] delivered) \<le> 1"
proof
  show "length (deliveries [1, 1] delivered) = 1" by code_simp
  show "length (deliveries [1, 1] delivered) \<le> 1" by (rule unsafe_delivered_once [OF delivered_run])
qed

section \<open>Relay and device\<close>

lemma save_op_links [simp]: "rd_links (save_op r d) = rd_links d"
  by (simp add: save_op_def update_ops_def)

lemma find_correlation:
  assumes "distinct (map ro_correlation rs)" and "r \<in> set rs" and "P r"
  shows "find (\<lambda>x. Some (ro_correlation x) = Some (ro_correlation r) \<and> P x) rs = Some r"
  using assms by (induction rs) auto

text \<open>
  C15. Relay and device agree on an operation: what the relay delivers over a current socket passes
  the device's envelope and binding checks when the device holds the ticket of that socket and its
  link, and whatever the device answers to it (any kind, any payload) passes the relay's binding
  checks and is attributed to the same operation.
\<close>

theorem delivery_and_answer_agree:
  assumes "relay_run ev st es s" and "prepare_operation_dispatch ev now sp cn k (rl_db s) = (Inr (Some (Outbound i e)), d')"
    and "tu_ticket c = Some tk" and "wt_account tk = cn_account cn" and "wt_device tk = cn_device cn"
    and "tb_link (en_bindings e) = Some (wt_link tk)" and "tu_epoch c = int (cn_epoch cn)" and "tu_connected c"
  shows "envelope_ok (ev_sha ev) (ev_valid ev) e \<and> validate_bindings e c = Inr ()
    \<and> (\<exists>r. validate_operation_binding cn (last (tu_sent (send_about sp' e kind payload final c))) d' = Inr r \<and> ro_id r = i)"
proof -
  obtain r where r: "r \<in> set (rd_ops (rl_db s))" "i = ro_id r" "ro_correlation r = k" "ro_device r = cn_device cn"
      "ro_account r = wire_account (cn_account cn)" "current cn (rl_db s)"
      "e = op_envelope OPERATION (ro_message r) (Some (ro_deadline r)) (sp_now sp) cn r (ro_payload r) (rl_db s)"
      "envelope_ok (ev_sha ev) (ev_valid ev) e"
      "d' = save_op (r\<lparr>ro_epoch := cn_epoch cn, ro_attempted := Some now, ro_sent_at := None, ro_sent_epoch := None\<rparr>) (rl_db s)"
    using prepare_outbound [OF assms(2)] by metis
  let ?r = "r\<lparr>ro_epoch := cn_epoch cn, ro_attempted := Some now, ro_sent_at := None, ro_sent_epoch := None\<rparr>"
  let ?a = "last (tu_sent (send_about sp' e kind payload final c))"
  have e: "en_epoch e = int (cn_epoch cn)" "en_correlation e = Some (ro_correlation r)" "en_digest e = Some (ro_action_digest r)"
      "en_bindings e = \<lparr>tb_account = cn_account cn, tb_device = cn_device cn, tb_link = link_of r (rl_db s),
        tb_grant = Some (ro_grant r), tb_project = ro_project r\<rparr>"
    by (simp_all add: r(7) op_envelope_def)
  have bind: "validate_bindings e c = Inr ()" using assms(3-7) e by (simp add: validate_bindings_def)
  have a: "en_bindings ?a = en_bindings e" "en_correlation ?a = en_correlation e" "en_digest ?a = en_digest e"
      "en_epoch ?a = int (cn_epoch cn)"
    using assms(3,7,8) by (simp_all add: send_about_def send_new_def send_def Let_def split: option.split)
  have mv: "moved (rl_db s) d'" using prepare_moved [OF run_rows_ok [OF assms(1)], of ev now sp cn k] assms(2) by simp
  have mem: "?r \<in> set (rd_ops d')" using r(1) by (force simp: r(9) save_op_def update_ops_def)
  have ids: "ids_ok (set (rl_ids s)) (rl_db s)" by (rule run_ids_ok [OF assms(1)])
  then have dist: "distinct (map ro_correlation (rd_ops d'))" using moved_correlations [OF mv] by (simp add: ids_ok_def)
  have ne: "ro_correlation r \<noteq> []" using ids r(1) by (simp add: ids_ok_def)
  have cur: "current cn d'" using r(6) by (simp add: r(9) current_def find_device_def save_op_def update_ops_def)
  have lnk: "link_of ?r d' = link_of r (rl_db s)" by (simp add: r(9) link_of_def find_link_def)
  have "find (\<lambda>x. Some (ro_correlation x) = Some (ro_correlation ?r) \<and> (ro_account x = wire_account (cn_account cn)
      \<and> ro_device x = cn_device cn \<and> current cn d')) (rd_ops d') = Some ?r"
    by (rule find_correlation [OF dist mem]) (use r(4,5) cur in simp)
  then have "validate_operation_binding cn ?a d' = Inr ?r"
    using a e ne lnk assms(6) by (simp add: validate_operation_binding_def)
  then show ?thesis using r(2,8) bind by auto
qed

definition demo_ticket :: websocket_ticket where
  "demo_ticket = \<lparr>wt_value = [120], wt_account = account_wire 7, wt_device = [100], wt_link = [107], wt_challenge = [121],
     wt_expires = 60000000\<rparr>"

definition demo_tunnel :: tunnel where
  "demo_tunnel = (new_tunnel 8 empty_db)\<lparr>tu_ticket := Some demo_ticket, tu_epoch := 1, tu_connected := True\<rparr>"

definition demo_prepared :: "prepared_dispatch option rres \<times> relay_db" where
  "demo_prepared = prepare_operation_dispatch demo_env 6 \<lparr>sp_now = 6, sp_message = [4]\<rparr> (demo_conn 1) [3, 1] (rl_db demo_waiting)"

definition prepared_envelope :: "prepared_dispatch option rres \<times> relay_db \<Rightarrow> envelope option" where
  "prepared_envelope x = (case fst x of Inr (Some (Outbound i e)) \<Rightarrow> Some e | _ \<Rightarrow> None)"

theorem delivery_and_answer_agree_witness:
  "\<exists>i e d'. demo_prepared = (Inr (Some (Outbound i e)), d') \<and> validate_bindings e demo_tunnel = Inr ()
     \<and> (\<exists>r. validate_operation_binding (demo_conn 1) (last (tu_sent (send_about \<lparr>sp_now = 7, sp_message = [5]\<rparr> e
           OPERATION_RECEIVED (JObj []) False demo_tunnel))) d' = Inr r \<and> ro_id r = i)"
proof -
  have l: "map_option (tb_link \<circ> en_bindings) (prepared_envelope demo_prepared) = Some (Some [107])" by code_simp
  obtain a d' where ab: "demo_prepared = (a, d')" by (rule prod.exhaust)
  obtain i e where "a = Inr (Some (Outbound i e))" and l: "tb_link (en_bindings e) = Some [107]"
    using l [unfolded ab] by (auto simp: prepared_envelope_def split: sum.splits option.splits prepared_dispatch.splits)
  then have p: "demo_prepared = (Inr (Some (Outbound i e)), d')" using ab by simp
  show ?thesis
    using delivery_and_answer_agree [OF waiting_run p [unfolded demo_prepared_def], of demo_tunnel demo_ticket
        "\<lparr>sp_now = 7, sp_message = [5]\<rparr>" OPERATION_RECEIVED "JObj []" False] l p
    by (auto simp: demo_tunnel_def demo_ticket_def demo_conn_def)
qed

end
