(* ===== verification/Relay_Fence.thy ===== *)
theory Relay_Fence
  imports Relay_Laws
begin

text \<open>
  Connection epochs: tickets give a device ever greater epochs, and a socket whose epoch is not the
  device's cannot act on its operations.
\<close>

section \<open>Fencing\<close>

text \<open>Device identifiers stay unique, devices only gain epochs, and their account never changes.\<close>

definition devices_unique :: "relay_db \<Rightarrow> bool" where
  "devices_unique d \<longleftrightarrow> distinct (map dv_id (rd_devices d))"
definition devices_move :: "relay_db \<Rightarrow> relay_db \<Rightarrow> bool" where
  "devices_move d d' \<longleftrightarrow> (devices_unique d \<longrightarrow> devices_unique d') \<and> (\<forall>k v. find_device k d = Some v \<longrightarrow>
     (\<exists>v'. find_device k d' = Some v' \<and> dv_epoch v \<le> dv_epoch v' \<and> dv_account v' = dv_account v))"

lemma devices_move_refl: "rd_devices d' = rd_devices d \<Longrightarrow> devices_move d d'"
  by (simp add: devices_move_def find_device_def devices_unique_def)

lemma devices_move_trans:
  assumes "devices_move a b" and "devices_move b c"
  shows "devices_move a c"
  unfolding devices_move_def
proof (intro conjI allI impI)
  show "devices_unique c" if "devices_unique a" using assms that by (simp add: devices_move_def)
next
  fix k v assume "find_device k a = Some v"
  then obtain u where u: "find_device k b = Some u" "dv_epoch v \<le> dv_epoch u" "dv_account u = dv_account v"
    using assms(1) by (auto simp: devices_move_def)
  obtain w where "find_device k c = Some w" "dv_epoch u \<le> dv_epoch w" "dv_account w = dv_account u"
    using assms(2) u(1) unfolding devices_move_def by metis
  then show "\<exists>w. find_device k c = Some w \<and> dv_epoch v \<le> dv_epoch w \<and> dv_account w = dv_account v"
    using u by auto
qed

lemma find_map_id:
  assumes "\<And>v. dv_id (h v) = dv_id v"
  shows "find (\<lambda>v. dv_id v = k) (map h vs) = map_option h (find (\<lambda>v. dv_id v = k) vs)"
  by (induction vs) (simp_all add: assms)

lemma devices_move_update:
  assumes "\<And>v. dv_id (g v) = dv_id v" and "\<And>v. dv_account (g v) = dv_account v"
    and "\<And>v. find_device (dv_id v) d = Some v \<Longrightarrow> p v \<Longrightarrow> dv_epoch v \<le> dv_epoch (g v)"
  shows "devices_move d (update_devices p g d)"
proof -
  have id: "dv_id (if p v then g v else v) = dv_id v" for v by (simp add: assms(1))
  have "find_device k (update_devices p g d) = map_option (\<lambda>v. if p v then g v else v) (find_device k d)" for k
    unfolding find_device_def update_devices_def using find_map_id [of "\<lambda>v. if p v then g v else v", OF id] by simp
  moreover have "find_device k d = Some v \<Longrightarrow> dv_id v = k" for k v
    unfolding find_device_def by (drule find_member) simp
  moreover have "map dv_id (rd_devices (update_devices p g d)) = map dv_id (rd_devices d)"
    using id by (simp add: update_devices_def)
  ultimately show ?thesis using assms by (auto simp: devices_move_def devices_unique_def)
qed

lemma touch_devices: "devices_move d (touch now cn d)"
  unfolding touch_def by (rule devices_move_update) simp_all

lemma mark_online_devices: "devices_move d (mark_online now cn d)"
  unfolding mark_online_def by (rule devices_move_update) simp_all

lemma mark_offline_devices: "devices_move d (mark_offline cn d)"
  unfolding mark_offline_def by (rule devices_move_update) simp_all

lemma find_device_id: "find_device k d = Some v \<Longrightarrow> dv_id v = k"
  unfolding find_device_def by (drule find_member) simp

text \<open>An update that gives the device \<open>dev\<close> the epoch after that of its row \<open>v\<close>.\<close>

lemma devices_move_bump:
  assumes "find_device dev d = Some v" and "\<And>u. dv_id (g u) = dv_id u" and "\<And>u. dv_account (g u) = dv_account u"
    and "\<And>u. dv_epoch (g u) = Suc (dv_epoch v)"
  shows "devices_move d (update_devices (\<lambda>u. dv_id u = dev) g d)"
  by (rule devices_move_update) (use assms in auto)

lemma same_devices [simp]:
  "rd_devices (update_ops p g d) = rd_devices d" "rd_devices (save_op r d) = rd_devices d"
  "rd_devices (mark_dispatched k d) = rd_devices d" "rd_devices (finish ev k j d) = rd_devices d"
  "rd_devices (mark_delivery_failure k c d) = rd_devices d" "rd_devices (mark_operation_sent now k cn d) = rd_devices d"
  "rd_devices (snd (late_terminal ev cn u r e d)) = rd_devices d"
  by (simp_all add: update_ops_def save_op_def mark_dispatched_def finish_def mark_delivery_failure_def
      mark_operation_sent_def late_terminal_def Let_def split: sum.split option.split)

lemma record_devices: "rd_devices (snd (record_device_message ev cn e d)) = rd_devices d"
proof -
  have "rd_devices d' = rd_devices d" if "late_terminal ev cn u r x d = (y, d')" for u r x y d'
    using same_devices(7) [of ev cn u r x d] that by simp
  then show ?thesis by (auto simp: record_device_message_def Let_def split: sum.split option.split prod.split)
qed

lemma prepare_devices: "rd_devices (snd (prepare_operation_dispatch ev now sp cn k d)) = rd_devices d"
  by (simp add: prepare_operation_dispatch_def Let_def split: sum.split option.split prod.split)

lemma admit_call_devices:
  assumes "admit_call ev st fr sent v q dg timeout c d = (ph, d')"
  shows "rd_devices d' = rd_devices d"
proof -
  obtain x where "admit_operation ev st (cl_principal c) v q (cl_tool c) (cl_arguments c) dg timeout fr d = (x, d')"
    using admit_call_db [OF assms] by blast
  then show ?thesis by (cases rule: admit_operation_cases) simp_all
qed

lemma sync_devices: "rd_devices (snd (synchronize_projects cn p d)) = rd_devices d"
  by (simp add: synchronize_projects_def split: option.split json.split sum.split)

lemma consume_ticket_devices:
  assumes "consume_ticket ev now raw sig d = (x, d')"
  shows "devices_move d d'" and "x = Inr cn \<Longrightarrow> (\<exists>v w. find_device (cn_device cn) d = Some v \<and> cn_epoch cn = Suc (dv_epoch v)
    \<and> cn_account cn = account_wire (dv_account v) \<and> find_device (cn_device cn) d' = Some w \<and> dv_epoch w = cn_epoch cn)"
proof -
  have "devices_move d d' \<and> (x = Inr cn \<longrightarrow> (\<exists>v w. find_device (cn_device cn) d = Some v \<and> cn_epoch cn = Suc (dv_epoch v)
    \<and> cn_account cn = account_wire (dv_account v) \<and> find_device (cn_device cn) d' = Some w \<and> dv_epoch w = cn_epoch cn))"
  proof (cases "\<exists>t v. find (\<lambda>t. ct_hash t = hash_secret ev raw) (rd_tickets d) = Some t \<and> find_device (ct_device t) d = Some v
      \<and> ct_usable now v t \<and> ev_verify ev (dv_key v) (websocket_proof_message raw (ct_challenge t)) sig")
    case False
    then have "d' = d \<and> (\<forall>cn. x \<noteq> Inr cn)"
      using assms by (auto simp: consume_ticket_def split: option.splits if_splits)
    then show ?thesis using devices_move_refl by blast
  next
    case True
    then obtain t v where tv: "find (\<lambda>t. ct_hash t = hash_secret ev raw) (rd_tickets d) = Some t" "find_device (ct_device t) d = Some v"
      "ct_usable now v t" "ev_verify ev (dv_key v) (websocket_proof_message raw (ct_challenge t)) sig" by blast
    let ?d = "d\<lparr>rd_tickets := map (\<lambda>x. if ct_hash x = ct_hash t then x\<lparr>ct_used := Some now\<rparr> else x) (rd_tickets d)\<rparr>"
    let ?g = "\<lambda>u. u\<lparr>dv_epoch := Suc (dv_epoch v), dv_status := OFFLINE\<rparr>"
    have fd: "find_device k ?d = find_device k d" for k by (simp add: find_device_def)
    have dv: "dv_id v = ct_device t" using find_device_id tv(2) by blast
    have x: "x = Inr \<lparr>cn_device = ct_device t, cn_account = account_wire (dv_account v), cn_epoch = Suc (dv_epoch v)\<rparr>"
      and d': "d' = update_devices (\<lambda>u. dv_id u = ct_device t) ?g ?d"
      using assms tv dv by (auto simp: consume_ticket_def)
    have "devices_move ?d d'" unfolding d' by (rule devices_move_bump) (use tv(2) fd in simp_all)
    then have "devices_move d d'" using devices_move_trans devices_move_refl [of ?d d] by simp
    moreover have "find_device (ct_device t) d' = Some (?g v)"
      using find_map_id [of "\<lambda>u. if dv_id u = ct_device t then ?g u else u" "ct_device t" "rd_devices d"] tv(2) dv
      by (simp add: d' update_devices_def find_device_def)
    ultimately show ?thesis using x tv(2) by auto
  qed
  then show "devices_move d d'" "x = Inr cn \<Longrightarrow> (\<exists>v w. find_device (cn_device cn) d = Some v \<and> cn_epoch cn = Suc (dv_epoch v)
    \<and> cn_account cn = account_wire (dv_account v) \<and> find_device (cn_device cn) d' = Some w \<and> dv_epoch w = cn_epoch cn)" by blast+
qed

lemma find_append_some: "find p xs = Some x \<Longrightarrow> find p (xs @ ys) = Some x"
  by (induction xs) (auto split: if_splits)

lemma enroll_devices: "devices_move d (snd (enroll_device a n k t dev pk lid d))"
  by (auto simp: enroll_device_def devices_move_def devices_unique_def find_device_def find_append_some list_ex_iff)

lemma find_device_unique:
  assumes "devices_unique d" and "v \<in> set (rd_devices d)"
  shows "find_device (dv_id v) d = Some v"
proof -
  obtain u where u: "find_device (dv_id v) d = Some u"
    using assms(2) unfolding find_device_def
    by (cases "find (\<lambda>u. dv_id u = dv_id v) (rd_devices d)") (auto simp: find_None_iff)
  have "dv_id u = dv_id v" "u \<in> set (rd_devices d)" using u unfolding find_device_def by (auto dest: find_member)
  then have "u = v" using assms by (auto simp: devices_unique_def distinct_map inj_on_def)
  then show ?thesis using u by simp
qed

lemma revoke_devices:
  assumes "devices_unique d"
  shows "devices_move d (snd (revoke_device_row desk now a dev d))"
proof (cases "find (\<lambda>v. dv_id v = dev \<and> dv_account v = a \<and> (desk \<longrightarrow> dv_revoked v = None)) (rd_devices d)")
  case None
  then show ?thesis by (simp add: revoke_device_row_def devices_move_refl)
next
  case (Some v)
  then have v: "v \<in> set (rd_devices d)" "dv_id v = dev" by (auto dest: find_member)
  have "devices_move d (update_devices (\<lambda>u. dv_id u = dev)
      (\<lambda>u. u\<lparr>dv_status := REVOKED, dv_revoked := Some now, dv_epoch := Suc (dv_epoch v)\<rparr>) d)"
    by (rule devices_move_bump) (use find_device_unique [OF assms v(1)] v(2) in simp_all)
  then show ?thesis using Some
    by (simp add: revoke_device_row_def revoke_grants_def revoke_links_def devices_move_def devices_unique_def find_device_def)
qed

lemmas revoke_device_moves = revoke_devices [of _ False, folded revoke_device_def] revoke_devices [of _ True, folded revoke_desktop_device_def]

text \<open>All effects of a step on the devices and the open sockets.\<close>

lemma deliver_devices: "devices_move (rl_db s) (rl_db (deliver_operation ev now sp ok cn k s))"
proof -
  obtain x d where p: "prepare_operation_dispatch ev now sp cn k (rl_db s) = (x, d)" by force
  have d: "rd_devices d = rd_devices (rl_db s)" using prepare_devices [of ev now sp cn k "rl_db s"] p by simp
  have m: "devices_move (rl_db s) d'" if "rd_devices d' = rd_devices d" for d' using that d devices_move_refl by simp
  have off: "devices_move (rl_db s) (mark_offline cn d)" using devices_move_trans [OF m mark_offline_devices] by blast
  show ?thesis
    by (auto simp: deliver_operation_def p Let_def close_socket_def m off split: sum.split option.split prepared_dispatch.split)
qed

lemma deliver_each_devices: "devices_move (rl_db s) (rl_db (deliver_each ev now sps cn ks s))"
proof (induction ks arbitrary: s)
  case (Cons k ks)
  show ?case using deliver_devices devices_move_trans [OF deliver_devices Cons.IH] by (simp add: Let_def)
qed (simp add: devices_move_refl)

lemma receive_message_devices: "devices_move (rl_db s) (rl_db (receive_message ev now sp pub cn raw s))"
proof -
  have same: "devices_move (rl_db s) (touch now cn d)" "devices_move (rl_db s) (mark_offline cn d)"
    if "rd_devices d = rd_devices (rl_db s)" for d
    using that devices_move_trans [OF devices_move_refl touch_devices] devices_move_trans [OF devices_move_refl mark_offline_devices]
    by simp_all
  have rec: "rd_devices d = rd_devices (rl_db s)" if "record_device_message ev cn e (rl_db s) = (x, d)" for e x d
    using record_devices [of ev cn e "rl_db s"] that by simp
  have sync: "rd_devices d = rd_devices (rl_db s)" if "synchronize_projects cn p (rl_db s) = (x, d)" for p x d
    using sync_devices [of cn p "rl_db s"] that by simp
  show ?thesis
    by (auto simp: receive_message_def lifecycle_message_def close_socket_def Let_def intro!: same dest: rec sync
        split: option.split prod.split sum.split)
qed

lemma relay_step_devices:
  assumes "devices_unique (rl_db s)"
  shows "devices_move (rl_db s) (rl_db (relay_step ev st e s))"
proof (cases e)
  case (Call_step i now sent fr)
  have "rd_devices (rl_db (step_call ev st i now sent fr s)) = rd_devices (rl_db s)"
    by (auto simp: step_call_def Let_def split: call_phase.split prod.split dest: admit_call_devices)
  then show ?thesis using Call_step devices_move_refl by simp
next
  case (Socket_open now raw sig)
  obtain x d where p: "consume_ticket ev now raw sig (rl_db s) = (x, d)" by force
  show ?thesis using consume_ticket_devices(1) [OF p] by (simp add: Socket_open open_socket_def p split: sum.split)
qed (simp_all add: devices_move_refl begin_call_def read_call_def abandon_call_def mark_online_devices mark_offline_devices
    receive_message_devices deliver_devices deliver_each_devices recover_unsent_operations_def close_socket_def
    revoke_device_moves [OF assms] enroll_devices rotate_device_link_def revoke_links_def issue_device_ticket_def cleanup_def Let_def
    split: sum.split call_phase.split option.split prod.split list.split)

definition conns_ok :: "relay \<Rightarrow> bool" where
  "conns_ok s \<longleftrightarrow> devices_unique (rl_db s)
     \<and> (\<forall>cn \<in> set (rl_conns s). \<exists>v. find_device (cn_device cn) (rl_db s) = Some v \<and> cn_epoch cn \<le> dv_epoch v)
     \<and> (\<forall>cn \<in> set (rl_conns s). \<forall>cn' \<in> set (rl_conns s). cn_device cn = cn_device cn' \<longrightarrow> cn_epoch cn = cn_epoch cn' \<longrightarrow> cn = cn')"

lemma conns_ok_device:
  "conns_ok s \<Longrightarrow> cn \<in> set (rl_conns s) \<Longrightarrow> \<exists>v. find_device (cn_device cn) (rl_db s) = Some v \<and> cn_epoch cn \<le> dv_epoch v"
  by (simp add: conns_ok_def)

lemma relay_step_conns:
  "set (rl_conns (relay_step ev st e s)) \<subseteq> set (rl_conns s)
   \<or> (\<exists>now raw sig cn. e = Socket_open now raw sig \<and> fst (consume_ticket ev now raw sig (rl_db s)) = Inr cn
        \<and> set (rl_conns (relay_step ev st e s)) = insert cn (set (rl_conns s)))"
proof -
  have del: "set (rl_conns (deliver_operation ev now sp ok cn k t)) \<subseteq> set (rl_conns t)" for now sp ok cn k t
    by (auto simp: deliver_operation_def push_result_def close_socket_def Let_def
        split: prod.split sum.split option.split prepared_dispatch.split)
  have each: "set (rl_conns (deliver_each ev now sps cn ks t)) \<subseteq> set (rl_conns t)" for now sps cn ks t
    using del by (induction ks arbitrary: t) (auto simp: Let_def, blast+)
  have msg: "set (rl_conns (receive_message ev now sp pub cn raw t)) \<subseteq> set (rl_conns t)" for now sp pub cn raw t
    by (auto simp: receive_message_def lifecycle_message_def push_result_def close_socket_def Let_def
        split: option.split prod.split sum.split)
  show ?thesis
  proof (cases e)
    case (Socket_open now raw sig)
    obtain x d where p: "consume_ticket ev now raw sig (rl_db s) = (x, d)" by force
    show ?thesis by (cases x) (simp_all add: Socket_open open_socket_def p)
  next
    case (Call_step i now sent fr)
    have "rl_conns (step_call ev st i now sent fr s) = rl_conns s"
      by (simp add: step_call_def set_phase_def publish_def Let_def split: call_phase.split prod.split)
    then show ?thesis by (simp add: Call_step)
  next
    case (Call now a l t j)
    show ?thesis by (simp add: Call begin_call_def split: sum.split)
  next
    case (Call_read i)
    have "rl_conns (read_call ev i s) = rl_conns s"
      by (simp add: read_call_def set_phase_def split: call_phase.split option.split prod.split)
    then show ?thesis by (simp add: Call_read)
  next
    case (Call_abandon i x)
    have "rl_conns (abandon_call i x s) = rl_conns s" by (simp add: abandon_call_def set_phase_def split: call_phase.split)
    then show ?thesis by (simp add: Call_abandon)
  qed (simp_all add: del each msg recover_unsent_operations_def close_socket_def)
qed

lemma relay_step_conns_ok:
  assumes "conns_ok s"
  shows "conns_ok (relay_step ev st e s)"
proof -
  let ?s = "relay_step ev st e s"
  have m: "devices_move (rl_db s) (rl_db ?s)" using relay_step_devices assms by (simp add: conns_ok_def)
  have old: "\<exists>v. find_device (cn_device cn) (rl_db ?s) = Some v \<and> cn_epoch cn \<le> dv_epoch v" if cn: "cn \<in> set (rl_conns s)" for cn
  proof -
    obtain v where "find_device (cn_device cn) (rl_db s) = Some v" "cn_epoch cn \<le> dv_epoch v"
      using conns_ok_device [OF assms cn] by blast
    moreover obtain w where "find_device (cn_device cn) (rl_db ?s) = Some w" "dv_epoch v \<le> dv_epoch w"
      using m calculation(1) unfolding devices_move_def by blast
    ultimately show ?thesis by auto
  qed
  have uniq: "devices_unique (rl_db ?s)" using m assms by (simp add: devices_move_def conns_ok_def)
  consider "set (rl_conns ?s) \<subseteq> set (rl_conns s)"
    | now raw sig cn where "e = Socket_open now raw sig" "fst (consume_ticket ev now raw sig (rl_db s)) = Inr cn"
        "set (rl_conns ?s) = insert cn (set (rl_conns s))"
    using relay_step_conns [of ev st e s] by blast
  then show ?thesis
  proof cases
    case 1
    then show ?thesis using old uniq assms by (auto simp: conns_ok_def subset_iff)
  next
    case 2
    obtain d where p: "consume_ticket ev now raw sig (rl_db s) = (Inr cn, d)" using 2(2) by (metis prod.collapse)
    obtain v w where vw: "find_device (cn_device cn) (rl_db s) = Some v" "cn_epoch cn = Suc (dv_epoch v)"
        "find_device (cn_device cn) d = Some w" "dv_epoch w = cn_epoch cn"
      using consume_ticket_devices(2) [OF p refl] by blast
    have "rl_db ?s = d" by (simp add: 2(1) open_socket_def p)
    then have new: "\<exists>w. find_device (cn_device cn) (rl_db ?s) = Some w \<and> cn_epoch cn \<le> dv_epoch w" using vw by simp
    have "cn_epoch x < cn_epoch cn" if "x \<in> set (rl_conns s)" "cn_device x = cn_device cn" for x
      using that assms vw(1,2) by (fastforce simp: conns_ok_def)
    then show ?thesis using old new uniq assms 2(3) by (fastforce simp: conns_ok_def)
  qed
qed

interpretation sockets: run_invariant ev st conns_ok for ev st
proof unfold_locales
  show "conns_ok empty_relay" by (simp add: conns_ok_def devices_unique_def empty_relay_def)
qed (rule relay_step_conns_ok)

lemma stale_message_ops:
  assumes "\<not> current cn (rl_db s)"
  shows "rd_ops (rl_db (receive_message ev now sp pub cn raw s)) = rd_ops (rl_db s)"
proof -
  have "\<exists>x. record_device_message ev cn e (rl_db s) = (Inl x, rl_db s)" for e
    using assms validate_operation_binding_member
    by (cases "validate_operation_binding cn e (rl_db s)") (auto simp: record_device_message_def)
  then have "rd_ops (rl_db (lifecycle_message ev now sp pub cn e s)) = rd_ops (rl_db s)" for e
  proof -
    obtain x where "record_device_message ev cn e (rl_db s) = (Inl x, rl_db s)"
      using \<open>\<And>e. \<exists>x. record_device_message ev cn e (rl_db s) = (Inl x, rl_db s)\<close> by blast
    then show ?thesis by (simp add: lifecycle_message_def)
  qed
  moreover have "rd_ops d = rd_ops (rl_db s)" if "synchronize_projects cn p (rl_db s) = (x, d)" for p x d
    using synchronize_projects_ops [of cn p "rl_db s"] that by simp
  ultimately show ?thesis
    by (auto simp: receive_message_def split: option.split prod.split sum.split)
qed

lemma stale_delivery:
  assumes "\<not> current cn (rl_db s)"
  shows "rd_ops (rl_db (deliver_operation ev now sp ok cn k s)) = rd_ops (rl_db s)"
    and "rl_sent (deliver_operation ev now sp ok cn k s) = rl_sent s"
  using assms by (simp_all add: deliver_operation_def prepare_operation_dispatch_def close_socket_def split: option.split)


definition reopened :: relay where
  "reopened = after [Issue_ticket 5 7 [100] [122] [121], Socket_open 6 [122] []] demo_waiting"

lemma reopened_steps:
  "relay_steps demo_env demo_settings demo_waiting [Issue_ticket 5 7 [100] [122] [121], Socket_open 6 [122] []] reopened"
  unfolding reopened_def by (rule after_steps) code_simp


end
