(* ===== verification/Relay_Projects.thy ===== *)
theory Relay_Projects
  imports Relay_Laws
begin

text \<open>
  The relay's copy of a device's projects: synchronization by the device's \<open>hello\<close>, and the
  paged list a caller reads.
\<close>

section \<open>Project synchronization\<close>

definition owned :: "connection \<Rightarrow> relay_project \<Rightarrow> bool" where
  "owned cn q \<longleftrightarrow> pj_account q = wire_account (cn_account cn) \<and> pj_device q = cn_device cn"

lemma project_entry_owned: "project_entry cn item = Inr q \<Longrightarrow> owned cn q \<and> pj_id q = entry_id item \<and> pj_status q = AVAILABLE"
  by (auto simp: project_entry_def owned_def Let_def split: json.splits if_splits)

text \<open>The rows after some of the entries.\<close>

definition synced :: "connection \<Rightarrow> relay_project list \<Rightarrow> json list \<Rightarrow> relay_project list \<Rightarrow> bool" where
  "synced cn qs0 items qs \<longleftrightarrow> distinct (map pj_id qs)
     \<and> filter (\<lambda>q. \<not> owned cn q) qs = filter (\<lambda>q. \<not> owned cn q) qs0
     \<and> (\<forall>q \<in> set qs. owned cn q \<longrightarrow> (if pj_id q \<in> set (map entry_id items)
          then project_entry cn (last (filter (\<lambda>i. entry_id i = pj_id q) items)) = Inr q else q \<in> set qs0))
     \<and> (\<forall>i \<in> set items. \<exists>q \<in> set qs. owned cn q \<and> pj_id q = entry_id i)"

lemma synced_entry:
  assumes "synced cn qs0 items qs" and "sync_entry cn qs item = Inr qs'"
  shows "synced cn qs0 (items @ [item]) qs'"
proof -
  obtain n where n: "project_entry cn item = Inr n" "qs' = put_project n qs"
      "\<forall>x \<in> set qs. pj_id x = pj_id n \<longrightarrow> pj_account x = pj_account n \<and> pj_device x = pj_device n"
    using assms(2) by (auto simp: sync_entry_def bindE_def list_ex_iff split: sum.splits if_splits)
  have own: "owned cn n" "pj_id n = entry_id item" using project_entry_owned [OF n(1)] by auto
  then have same: "\<forall>x \<in> set qs. pj_id x = pj_id n \<longrightarrow> owned cn x" using n(3) by (auto simp: owned_def)
  have d: "distinct (map pj_id qs)" using assms(1) by (simp add: synced_def)
  have ids: "map pj_id (map (\<lambda>x. if pj_id x = pj_id n then n else x) xs) = map pj_id xs" for xs by (induction xs) auto
  have "distinct (map pj_id qs')"
  proof (cases "list_ex (\<lambda>x. pj_id x = pj_id n) qs")
    case True
    then show ?thesis using d by (simp only: n(2) put_project_def ids if_True)
  next
    case False
    then show ?thesis using d by (auto simp: n(2) put_project_def list_ex_iff)
  qed
  moreover have "filter (\<lambda>q. \<not> owned cn q) (map (\<lambda>x. if pj_id x = pj_id n then n else x) xs) = filter (\<lambda>q. \<not> owned cn q) xs"
    if "\<forall>x \<in> set xs. pj_id x = pj_id n \<longrightarrow> owned cn x" for xs using that own by (induction xs) auto
  then have "filter (\<lambda>q. \<not> owned cn q) qs' = filter (\<lambda>q. \<not> owned cn q) qs0"
    using same own assms(1) by (auto simp: n(2) put_project_def synced_def)
  moreover have mem: "q \<in> set qs' \<longleftrightarrow> q = n \<or> q \<in> set qs \<and> pj_id q \<noteq> pj_id n" for q
    by (auto simp: n(2) put_project_def list_ex_iff)
  have old1: "\<forall>q \<in> set qs. owned cn q \<longrightarrow> (if pj_id q \<in> set (map entry_id items)
      then project_entry cn (last (filter (\<lambda>i. entry_id i = pj_id q) items)) = Inr q else q \<in> set qs0)"
    using assms(1) unfolding synced_def by (elim conjE)
  have old2: "\<forall>i \<in> set items. \<exists>q \<in> set qs. owned cn q \<and> pj_id q = entry_id i"
    using assms(1) unfolding synced_def by (elim conjE)
  have "owned cn q \<longrightarrow> (if pj_id q \<in> set (map entry_id (items @ [item]))
      then project_entry cn (last (filter (\<lambda>i. entry_id i = pj_id q) (items @ [item]))) = Inr q else q \<in> set qs0)"
    if q: "q \<in> set qs'" for q
  proof (cases "q = n")
    case True
    then show ?thesis using own n(1) by simp
  next
    case False
    then have "q \<in> set qs" "entry_id item \<noteq> pj_id q" using q mem own by auto
    then show ?thesis using bspec [OF old1] by simp
  qed
  moreover have "\<exists>q \<in> set qs'. owned cn q \<and> pj_id q = entry_id i" if "i \<in> set (items @ [item])" for i
    using that old2 mem own by (metis Un_iff set_append set_ConsD empty_iff list.set(1))
  ultimately show ?thesis unfolding synced_def by (intro conjI ballI)
qed

lemma synced_fold: "distinct (map pj_id qs0) \<Longrightarrow> foldE (sync_entry cn) qs0 items = Inr qs \<Longrightarrow> synced cn qs0 items qs"
proof (induction items arbitrary: qs rule: rev_induct)
  case Nil
  then show ?case by (simp add: synced_def)
next
  case (snoc item items)
  then obtain qs1 where "foldE (sync_entry cn) qs0 items = Inr qs1" "sync_entry cn qs1 item = Inr qs"
    by (auto simp: foldE_append bindE_def split: sum.splits)
  then show ?case using snoc synced_entry by blast
qed

text \<open>
  After a device's \<open>hello\<close> its available projects at the relay are exactly the listed ones, each
  with the title, root and mode of its last entry; its other projects are unavailable; and no row
  of another account or device has changed.
\<close>

theorem projects_synchronized:
  assumes "synchronize_projects cn payload d = (Inr (), d')" and "jget ''projects'' payload = Some (JList items)"
    and "distinct (map pj_id (rd_projects d))"
  shows "filter (\<lambda>q. \<not> owned cn q) (rd_projects d') = filter (\<lambda>q. \<not> owned cn q) (rd_projects d)
    \<and> (\<forall>i \<in> set items. \<exists>q \<in> set (rd_projects d'). owned cn q \<and> pj_id q = entry_id i)
    \<and> (\<forall>q \<in> set (rd_projects d'). owned cn q \<longrightarrow>
         (if pj_id q \<in> set (map entry_id items)
          then pj_status q = AVAILABLE \<and> project_entry cn (last (filter (\<lambda>i. entry_id i = pj_id q) items)) = Inr q
          else pj_status q = UNAVAILABLE))"
proof -
  obtain qs where f: "foldE (sync_entry cn) (rd_projects d) items = Inr qs"
      and d': "rd_projects d' = hide_unseen cn (map entry_id items) qs"
    using assms(1,2) by (auto simp: synchronize_projects_def split: if_splits sum.splits)
  have s: "synced cn (rd_projects d) items qs" by (rule synced_fold [OF assms(3) f])
  have "filter (\<lambda>q. \<not> owned cn q) (hide_unseen cn seen xs) = filter (\<lambda>q. \<not> owned cn q) xs" for seen xs
    by (induction xs) (auto simp: hide_unseen_def owned_def)
  then have other: "filter (\<lambda>q. \<not> owned cn q) (rd_projects d') = filter (\<lambda>q. \<not> owned cn q) (rd_projects d)"
    using s by (simp add: d' synced_def)
  have mem: "q \<in> set (rd_projects d') \<longleftrightarrow> (\<exists>x \<in> set qs. q = (if owned cn x \<and> pj_id x \<notin> set (map entry_id items)
      then x\<lparr>pj_status := UNAVAILABLE\<rparr> else x))" for q
    by (simp only: d' hide_unseen_def owned_def set_map image_iff conj_assoc)
  have rule: "\<forall>q \<in> set qs. owned cn q \<longrightarrow> (if pj_id q \<in> set (map entry_id items)
      then project_entry cn (last (filter (\<lambda>i. entry_id i = pj_id q) items)) = Inr q else q \<in> set (rd_projects d))"
    using s unfolding synced_def by (elim conjE)
  have rows: "if pj_id q \<in> set (map entry_id items)
          then pj_status q = AVAILABLE \<and> project_entry cn (last (filter (\<lambda>i. entry_id i = pj_id q) items)) = Inr q
          else pj_status q = UNAVAILABLE" if q: "q \<in> set (rd_projects d')" "owned cn q" for q
  proof -
    obtain x where x: "x \<in> set qs" "q = (if owned cn x \<and> pj_id x \<notin> set (map entry_id items) then x\<lparr>pj_status := UNAVAILABLE\<rparr> else x)"
      using q(1) mem by blast
    have own: "owned cn x" using q(2) x(2) by (auto simp: owned_def split: if_splits)
    show ?thesis
    proof (cases "pj_id x \<in> set (map entry_id items)")
      case True
      then have p: "project_entry cn (last (filter (\<lambda>i. entry_id i = pj_id x) items)) = Inr x"
        using bspec [OF rule x(1)] own by simp
      moreover have "q = x" using True x(2) by simp
      moreover have "pj_status x = AVAILABLE" using project_entry_owned [OF p] by blast
      ultimately show ?thesis using True by simp
    qed (use x(2) own in auto)
  qed
  have listed: "\<exists>q \<in> set (rd_projects d'). owned cn q \<and> pj_id q = entry_id i" if i: "i \<in> set items" for i
  proof -
    have "\<forall>i \<in> set items. \<exists>q \<in> set qs. owned cn q \<and> pj_id q = entry_id i" using s unfolding synced_def by (elim conjE)
    then obtain x where x: "x \<in> set qs" "owned cn x" "pj_id x = entry_id i" using i by blast
    have "x = (if owned cn x \<and> pj_id x \<notin> set (map entry_id items) then x\<lparr>pj_status := UNAVAILABLE\<rparr> else x)"
      using i x(3) by simp
    then have "x \<in> set (rd_projects d')" using x(1) by (intro mem [THEN iffD2]) (rule bexI)
    then show ?thesis using x by blast
  qed
  show ?thesis by (intro conjI ballI impI) (rule other, erule listed, erule (1) rows)
qed

definition demo_item :: "nat \<Rightarrow> json" where
  "demo_item c = JObj [(lit ''project_id'', JStr (replicate 16 c)), (lit ''title'', JStr [c]),
     (lit ''root_fingerprint'', JStr (replicate 32 c))]"

definition demo_hello :: json where
  "demo_hello = JObj [(lit ''projects'', JList [demo_item 98, demo_item 97])]"

definition demo_projects :: relay_db where
  "demo_projects = snd (synchronize_projects (demo_conn 1) demo_hello (rl_db demo_waiting))"

theorem projects_synchronized_witness:
  "map pj_id (rd_projects demo_projects) = [replicate 16 98, replicate 16 97]
   \<and> list_all (\<lambda>q. owned (demo_conn 1) q \<and> pj_status q = AVAILABLE) (rd_projects demo_projects)"
proof
  show "map pj_id (rd_projects demo_projects) = [replicate 16 98, replicate 16 97]" by code_simp
  have "fst (synchronize_projects (demo_conn 1) demo_hello (rl_db demo_waiting)) = Inr ()" by code_simp
  then have s: "synchronize_projects (demo_conn 1) demo_hello (rl_db demo_waiting) = (Inr (), demo_projects)"
    by (simp add: demo_projects_def prod_eq_iff)
  have j: "jget ''projects'' demo_hello = Some (JList [demo_item 98, demo_item 97])" by (simp add: demo_hello_def jget_def)
  have "distinct (map pj_id (rd_projects (rl_db demo_waiting)))" by code_simp
  note law = projects_synchronized [OF s j this, THEN conjunct2, THEN conjunct2, rule_format]
  have "list_all (\<lambda>q. owned (demo_conn 1) q \<and> pj_id q \<in> set (map entry_id [demo_item 98, demo_item 97])) (rd_projects demo_projects)"
    by code_simp
  then show "list_all (\<lambda>q. owned (demo_conn 1) q \<and> pj_status q = AVAILABLE) (rd_projects demo_projects)"
    unfolding list_all_iff using law by (metis (no_types, lifting))
qed

section \<open>Paging through the projects\<close>

definition page_arguments :: "nat \<Rightarrow> pystr option \<Rightarrow> json" where
  "page_arguments limit cursor = JObj ((lit ''limit'', JInt (int limit))
     # (case cursor of None \<Rightarrow> [] | Some c \<Rightarrow> [(lit ''cursor'', JStr c)]))"

text \<open>A client that follows the continuation cursor, for at most the given number of calls.\<close>

fun all_pages :: "nat \<Rightarrow> relay_env \<Rightarrow> int \<Rightarrow> mcp_principal \<Rightarrow> nat \<Rightarrow> relay_db \<Rightarrow> pystr option \<Rightarrow> relay_project list option" where
  "all_pages 0 ev now p limit d cursor = None"
| "all_pages (Suc n) ev now p limit d cursor =
     (case project_page ev now p (page_arguments limit cursor) d of
        Inl _ \<Rightarrow> None
      | Inr (page, None) \<Rightarrow> Some page
      | Inr (page, Some c) \<Rightarrow> map_option ((@) page) (all_pages n ev now p limit d (Some c)))"

definition cursor_at :: "relay_env \<Rightarrow> int \<Rightarrow> mcp_principal \<Rightarrow> relay_project \<Rightarrow> pystr" where
  "cursor_at ev now p q = ev_sign ev now (cursor_value p (pj_id q))"

lemma page_arguments_simps [simp]:
  "page_limit (page_arguments limit cursor) = limit"
  "jget ''cursor'' (page_arguments limit cursor) = map_option JStr cursor"
  by (auto simp: page_limit_def page_arguments_def jget_def lit_def split: option.split)

lemma read_cursor_at:
  assumes "\<And>k. ev_unsign ev now (ev_sign ev now (cursor_value p k)) = Some (cursor_value p k)"
    and "\<And>k. ev_sign ev now (cursor_value p k) \<noteq> []"
  shows "read_cursor ev now p (Some (JStr (cursor_at ev now p q))) = Inr (Some (pj_id q))"
  using assms by (simp add: read_cursor_def cursor_at_def truthy_def) (simp add: cursor_value_def lit_def)

lemma strict_after:
  fixes f :: "'a \<Rightarrow> 'b :: linorder"
  assumes "sorted_wrt (<) (map f xs)" and "0 < m" and "m \<le> length xs"
  shows "filter (\<lambda>x. f (xs ! (m - 1)) < f x) xs = drop m xs"
proof -
  have le: "f x \<le> f (xs ! (m - 1))" if x: "x \<in> set (take m xs)" for x
  proof -
    obtain i where i: "i < m" "x = xs ! i" using x assms(3) by (auto simp: in_set_conv_nth)
    then consider "i = m - 1" | "i < m - 1" by linarith
    then show ?thesis
    proof cases
      case 2
      then have "map f xs ! i < map f xs ! (m - 1)" using assms(2,3) by (intro sorted_wrt_nth_less [OF assms(1)]) auto
      then show ?thesis using 2 i(2) assms(2,3) by simp
    qed (simp add: i(2))
  qed
  have gt: "f (xs ! (m - 1)) < f x" if x: "x \<in> set (drop m xs)" for x
  proof -
    obtain i where i: "i < length xs - m" "x = xs ! (m + i)" using x assms(3) by (auto simp: in_set_conv_nth)
    then show ?thesis using sorted_wrt_nth_less [OF assms(1), of "m - 1" "m + i"] assms(2) by auto
  qed
  have "filter (\<lambda>x. f (xs ! (m - 1)) < f x) (take m xs) = []" using le by (auto simp: filter_empty_conv not_less)
  moreover have "filter (\<lambda>x. f (xs ! (m - 1)) < f x) (drop m xs) = drop m xs" using gt by (simp add: filter_id_conv)
  ultimately show ?thesis by (metis append_take_drop_id filter_append append_Nil)
qed

lemma available_strict:
  assumes "distinct (map pj_id (rd_projects d))"
  shows "sorted_wrt (<) (map pj_id (available_projects p d))"
proof -
  have "distinct (map pj_id (available_projects p d))"
    using assms by (simp add: available_projects_def distinct_map inj_on_def)
  moreover have "sorted (map pj_id (available_projects p d))" by (simp add: available_projects_def)
  ultimately show ?thesis by (simp add: strict_sorted_iff)
qed

lemma all_pages_from:
  fixes p :: mcp_principal and d :: relay_db
  assumes "\<And>k. ev_unsign ev now (ev_sign ev now (cursor_value p k)) = Some (cursor_value p k)"
    and "\<And>k. ev_sign ev now (cursor_value p k) \<noteq> []"
    and "distinct (map pj_id (rd_projects d))" and "0 < limit"
  defines "all \<equiv> available_projects p d"
  shows "length all - m < n \<Longrightarrow> m \<le> length all \<Longrightarrow> cursor = (if m = 0 then None else Some (cursor_at ev now p (all ! (m - 1))))
    \<Longrightarrow> all_pages n ev now p limit d cursor = Some (drop m all)"
proof (induction n arbitrary: m cursor)
  case (Suc n)
  have rest: "(case (if m = 0 then None else Some (pj_id (all ! (m - 1)))) of None \<Rightarrow> all
      | Some k \<Rightarrow> filter (\<lambda>q. k < pj_id q) all) = drop m all"
    using strict_after [OF available_strict [OF assms(3), of p]] Suc.prems(2) by (auto simp: all_def)
  have cur: "read_cursor ev now p (map_option JStr cursor) = Inr (if m = 0 then None else Some (pj_id (all ! (m - 1))))"
    using read_cursor_at [of ev now p "all ! (m - 1)", OF assms(1,2)] Suc.prems(3)
    by (cases "m = 0") (simp_all add: read_cursor_def [of _ _ _ None] truthy_def)
  have page: "project_page ev now p (page_arguments limit cursor) d = Inr (take limit (drop m all),
      if limit < length all - m then Some (cursor_at ev now p (all ! (m + limit - 1))) else None)"
    using rest cur assms(4)
    by (auto simp: project_page_def Let_def cursor_at_def all_def [symmetric] min_def nth_append add_diff_assoc)
  show ?case
  proof (cases "limit < length all - m")
    case True
    have "all_pages n ev now p limit d (Some (cursor_at ev now p (all ! (m + limit - 1)))) = Some (drop (m + limit) all)"
      by (rule Suc.IH) (use True Suc.prems assms(4) in auto)
    then show ?thesis using True page by simp (metis append_take_drop_id drop_drop add.commute)
  next
    case False
    then show ?thesis using page by simp
  qed
qed simp

text \<open>
  Following the continuation cursors of the project list from the start ends and returns every
  available project of the caller's device exactly once, in the order of their identifiers, for
  every page size.
\<close>

theorem project_pages_complete:
  assumes "\<And>k. ev_unsign ev now (ev_sign ev now (cursor_value p k)) = Some (cursor_value p k)"
    and "\<And>k. ev_sign ev now (cursor_value p k) \<noteq> []"
    and "distinct (map pj_id (rd_projects d))" and "0 < limit"
  shows "all_pages (Suc (length (available_projects p d))) ev now p limit d None = Some (available_projects p d)"
  using all_pages_from [OF assms, where m = 0 and cursor = None] by (simp del: all_pages.simps)

theorem project_pages_complete_witness:
  "length (available_projects demo_principal demo_projects) = 2
   \<and> all_pages 3 demo_env 0 demo_principal 1 demo_projects None = Some (available_projects demo_principal demo_projects)"
proof -
  have sign: "ev_unsign demo_env 0 (ev_sign demo_env 0 (cursor_value demo_principal k)) = Some (cursor_value demo_principal k)"
    "ev_sign demo_env 0 (cursor_value demo_principal k) \<noteq> []" for k
    by (simp_all add: demo_env_def cursor_value_def jtext_def jget_def lit_def)
  have two: "length (available_projects demo_principal demo_projects) = 2" by code_simp
  have "distinct (map pj_id (rd_projects demo_projects))" by code_simp
  then show ?thesis
    using project_pages_complete [OF sign, of demo_projects 1] two by (simp add: numeral_3_eq_3 del: all_pages.simps)
qed

end
