(* ===== verification/Relay_Findings.thy ===== *)
theory Relay_Findings
  imports Relay_Delivery Relay_Fence Relay_Projects
begin

text \<open>
  Behaviours of the relay that its comments and messages do not intend, each shown on a run or as a
  law of the functions.
\<close>

section \<open>Long validation errors\<close>

text \<open>
  The text of a tool's validation error becomes the message of the failure unbounded, and the
  failure model refuses more than 1024 characters: such a call gets no tool result at all.
\<close>

lemma long_report_unanswered:
  assumes "tool \<in> set tool_names" and "\<forall>k \<in> set FORBIDDEN_FIELDS. jget k raw = None"
    and "ev_input ev tool raw = Inl t" and "1024 < length t"
  shows "\<exists>code m rt dt. check_call ev p tool raw = Inl (ToolDispatchError code m rt dt) \<and> error_tool_result code m rt dt = None"
proof -
  have "filter (\<lambda>k. jget k raw \<noteq> None) FORBIDDEN_FIELDS = []" using assms(2) by (simp add: filter_empty_conv)
  then have "validate_arguments ev tool raw = Inl (ToolDispatchError (lit ''invalid_request'') (Reported t) False (JObj []))"
    unfolding validate_arguments_def using assms(1,3) by simp
  then show ?thesis using assms(4) by (auto simp: check_call_def error_tool_result_def)
qed

section \<open>Results nobody waits for\<close>

text \<open>
  A result for an operation that retention has removed closes the socket without an
  acknowledgement, so the device sends it again on the next connection.
\<close>

lemma unknown_terminal_closes:
  assumes "\<forall>r \<in> set (rd_ops (rl_db s)). Some (ro_correlation r) \<noteq> en_correlation e"
  shows "lifecycle_message ev now sp published cn e s = close_socket cn s"
proof -
  have "find (\<lambda>r. Some (ro_correlation r) = en_correlation e \<and> ro_account r = wire_account (cn_account cn)
      \<and> ro_device r = cn_device cn \<and> current cn (rl_db s)) (rd_ops (rl_db s)) = None"
    using assms by (auto simp: find_None_iff)
  then have "\<exists>x. validate_operation_binding cn e (rl_db s) = Inl x"
    unfolding validate_operation_binding_def by (simp add: Let_def)
  then show ?thesis by (auto simp: lifecycle_message_def record_device_message_def)
qed

text \<open>
  Rotating the link while the device works on an operation, followed by a reconnection, records
  \<open>link_revoked\<close> (``before delivery'') for an operation that was delivered; the device's own result
  is then refused and closes the socket, on this and on every later connection.
\<close>

definition rotated :: relay where
  "rotated = after [Rotate_link 7 7 [100] [109] [106], Issue_ticket 8 7 [100] [122] [121], Socket_open 9 [122] [],
     Socket_recover 10 (\<lambda>_. \<lparr>sp_now = 10, sp_message = [5]\<rparr>) (demo_conn 2)] delivered"

definition late_result :: envelope where
  "late_result = \<lparr>en_kind = OPERATION_RESULT, en_message = [6], en_correlation = Some [3, 1], en_sequence = 1, en_epoch = 2,
     en_sent = 11, en_deadline = None, en_bindings = \<lparr>tb_account = account_wire 7, tb_device = [100], tb_link = Some [107],
     tb_grant = Some [103], tb_project = None\<rparr>,
     en_digest = Some (DOMAIN_SEPARATOR @ utf8_encode (dumps (action_payload (lit ''device_desktop'') demo_arguments))),
     en_payload = JObj [(lit ''ok'', JBool True), (lit ''result'', JObj [])]\<rparr>"

definition refused_result :: relay where
  "refused_result = after [Socket_message 11 \<lparr>sp_now = 11, sp_message = [7]\<rparr> True (demo_conn 2) (Some late_result)] rotated"

lemma delivered_result_refused:
  "length (rl_sent rotated) = 1 \<and> map ro_error (rd_ops (rl_db rotated)) = [lit ''link_revoked'']
   \<and> demo_conn 2 \<in> set (rl_conns rotated) \<and> demo_conn 2 \<notin> set (rl_conns refused_result) \<and> rl_acks refused_result = []"
  by code_simp

section \<open>Links rotated under an open socket\<close>

text \<open>
  Rotating the link leaves the device's socket open with the old link.  A call under the new link is
  delivered over it, the device refuses the binding, and after a reconnection the relay reports
  that the action may have executed.
\<close>

definition new_token :: token_row where
  "new_token = demo_token\<lparr>at_resource := [lit ''/mcp/d/j''],
     at_binding := Some \<lparr>gb_account = 7, gb_link = [109], gb_resource = lit ''/mcp/d/j'', gb_grant = [103], gb_revoked = None\<rparr>\<rparr>"

definition relinked :: relay where
  "relinked = after (demo_setup @ [Rotate_link 2 7 [100] [109] [106], Tokens [new_token],
     Call 3 (lit ''Bearer t'') [106] (lit ''device_desktop'') demo_arguments]
     @ map (\<lambda>x. Call_step 0 4 5 (demo_fresh x)) [[1], [1], [1], [9], [9]] @ [demo_deliver]) empty_relay"

definition resumed :: relay where
  "resumed = after [Socket_close (demo_conn 1), Issue_ticket 8 7 [100] [122] [121], Socket_open 9 [122] [],
     Socket_recover 10 (\<lambda>_. \<lparr>sp_now = 10, sp_message = [5]\<rparr>) (demo_conn 2)] relinked"

lemma relinked_refused:
  "map (\<lambda>(_, e). validate_bindings e demo_tunnel) (rl_sent relinked) = [Inl (raise ''binding_mismatch'')]
   \<and> map ro_status (rd_ops (rl_db resumed)) = [St_outcome_unknown]"
  by code_simp

section \<open>A project list from a superseded socket\<close>

text \<open>Only operations are fenced: the \<open>hello\<close> of an older socket still replaces the project list.\<close>

definition stale_hello :: relay where
  "stale_hello = after [Socket_message 7 \<lparr>sp_now = 7, sp_message = [7]\<rparr> True (demo_conn 1)
     (Some \<lparr>en_kind = HELLO, en_message = [6], en_correlation = None, en_sequence = 1, en_epoch = 1, en_sent = 7,
        en_deadline = None, en_bindings = \<lparr>tb_account = account_wire 7, tb_device = [100], tb_link = None, tb_grant = None,
        tb_project = None\<rparr>, en_digest = None, en_payload = demo_hello\<rparr>)] reopened"

lemma stale_hello_accepted:
  "\<not> current (demo_conn 1) (rl_db reopened) \<and> length (rd_projects (rl_db reopened)) = 0
   \<and> length (rd_projects (rl_db stale_hello)) = 2"
  by code_simp

end
