(* ===== verification/Relay_Calls.thy ===== *)
theory Relay_Calls
  imports Relay_Laws
begin

text \<open>
  Calls of the dispatcher: idempotency keys, the authorization of every operation that is created,
  and what a caller is told when the result of an action is lost.
\<close>

section \<open>Idempotency\<close>

text \<open>No two rows share a used idempotency scope.\<close>

definition key_scope :: "relay_op \<Rightarrow> nat \<times> pystr \<times> pystr \<times> pystr \<times> pystr option \<times> pystr \<times> pystr" where
  "key_scope r = (ro_account r, ro_grant r, ro_link r, ro_device r, ro_project r, ro_kind r, ro_idempotency r)"

definition scopes_unique :: "relay_db \<Rightarrow> bool" where
  "scopes_unique d \<longleftrightarrow> distinct (map key_scope (filter (\<lambda>r. ro_idempotency r \<noteq> []) (rd_ops d)))"

lemma moved_scopes: "moved d d' \<Longrightarrow> map key_scope (filter (\<lambda>r. ro_idempotency r \<noteq> []) (rd_ops d'))
     = map key_scope (filter (\<lambda>r. ro_idempotency r \<noteq> []) (rd_ops d))"
  unfolding moved_def
  by (induction rule: list_all2_induct) (auto simp: op_move_def same_identity_def key_scope_def)

lemma row_step_scopes:
  assumes "row_step n ids ids' d d'" and "scopes_unique d"
  shows "scopes_unique d'"
  using assms(1)
proof cases
  case moves
  then show ?thesis using assms(2) moved_scopes by (simp add: scopes_unique_def)
next
  case (drops p)
  have "filter (\<lambda>r. ro_idempotency r \<noteq> []) (filter p xs) = filter p (filter (\<lambda>r. ro_idempotency r \<noteq> []) xs)" for xs
    by (induction xs) auto
  then have "map key_scope (filter (\<lambda>r. ro_idempotency r \<noteq> []) (rd_ops d'))
      = map key_scope (filter p (filter (\<lambda>r. ro_idempotency r \<noteq> []) (rd_ops d)))"
    by (simp only: drops(1))
  then show ?thesis using assms(2) unfolding scopes_unique_def by (simp only: distinct_map_filter)
next
  case (admits r)
  have "key_scope r \<notin> key_scope ` set (rd_ops d)" if "ro_idempotency r \<noteq> []"
    using admits(4) that by (auto simp: list_ex_iff same_unique_def key_scope_def)
  then show ?thesis using assms(2) admits(2) by (auto simp: scopes_unique_def)
qed

interpretation idempotency: run_invariant ev st "\<lambda>s. scopes_unique (rl_db s)" for ev st
proof unfold_locales
  show "scopes_unique (rl_db empty_relay)" by (simp add: scopes_unique_def empty_relay_def)
next
  fix e s assume "scopes_unique (rl_db s)" "rows_ok (rl_db s)" "enabled e s"
  then show "scopes_unique (rl_db (relay_step ev st e s))" using row_step_scopes [OF relay_step_row_step] by blast
qed

lemma in_scope_key_scope: "in_scope p v q tool key r \<longleftrightarrow>
   key_scope r = (pr_account p, pr_grant p, pr_device_link p, dv_id v, map_option pj_id q, tool, key)"
  by (auto simp: in_scope_def key_scope_def)

lemma find_in_scope:
  assumes "scopes_unique d" and "r \<in> set (rd_ops d)" and "in_scope p v q tool key r" and "key \<noteq> []"
  shows "find (in_scope p v q tool key) (rd_ops d) = Some r"
proof -
  obtain x where x: "find (in_scope p v q tool key) (rd_ops d) = Some x"
    using assms(2,3) by (cases "find (in_scope p v q tool key) (rd_ops d)") (auto simp: find_None_iff)
  have "key_scope x = key_scope r" "ro_idempotency x \<noteq> []" "ro_idempotency r \<noteq> []" "x \<in> set (rd_ops d)"
    using find_member [OF x] assms(3,4) by (auto simp: in_scope_key_scope) (auto simp: key_scope_def)
  then have "x = r" using assms(1,2) by (auto simp: scopes_unique_def distinct_map inj_on_def)
  then show ?thesis using x by simp
qed

text \<open>
  A used idempotency key is bound to one operation of the relay: a call in the same scope with
  the same action is answered from that operation, one with another action is a conflict, and
  neither lookup nor admission changes the database, whether the queue is full or not.
\<close>

theorem idempotency_key_bound:
  assumes "relay_run ev st es s" and "r \<in> set (rd_ops (rl_db s))"
    and "in_scope p v q tool (jtext ''idempotency_key'' arguments) r" and "jtext ''idempotency_key'' arguments \<noteq> []"
    and "find (\<lambda>u. dv_id u = dv_id v \<and> dv_account u = pr_account p) (rd_devices (rl_db s)) \<noteq> None"
  shows "existing_operation p v q tool (jtext ''idempotency_key'' arguments) dg (rl_db s) =
      (if dg = ro_action_digest r then Inr (Some r) else Inl conflict_error)
    \<and> admit_operation ev st p v q tool arguments dg timeout fr (rl_db s) =
      (if dg = ro_action_digest r then Inr (r, False) else Inl conflict_error, rl_db s)"
proof -
  have ex: "existing_operation p v q tool (jtext ''idempotency_key'' arguments) dg (rl_db s) =
      (if dg = ro_action_digest r then Inr (Some r) else Inl conflict_error)"
    using find_in_scope [OF idempotency.holds [OF assms(1)] assms(2-4)] assms(4)
    by (simp add: existing_operation_def same_action_def)
  have "admit_operation ev st p v q tool arguments dg timeout fr (rl_db s) =
      (if dg = ro_action_digest r then Inr (r, False) else Inl conflict_error, rl_db s)"
    using ex assms(5) by (auto simp: admit_operation_def Let_def)
  then show ?thesis using ex by blast
qed

theorem idempotency_key_bound_witness:
  "\<exists>r v. in_scope demo_principal v None (lit ''device_desktop'') [97] r \<and>
     admit_operation demo_env demo_settings demo_principal v None (lit ''device_desktop'') demo_arguments [] 45 (demo_fresh [2]) (rl_db demo_waiting)
       = (if [] = ro_action_digest r then Inr (r, False) else Inl conflict_error, rl_db demo_waiting)"
proof -
  let ?v = "hd (rd_devices (rl_db demo_waiting))" and ?r = "hd (rd_ops (rl_db demo_waiting))"
  have key: "jtext ''idempotency_key'' demo_arguments = [97]" by code_simp
  have "in_scope demo_principal ?v None (lit ''device_desktop'') (jtext ''idempotency_key'' demo_arguments) ?r" by code_simp
  moreover have "rd_ops (rl_db demo_waiting) \<noteq> []" by code_simp
  moreover have "find (\<lambda>u. dv_id u = dv_id ?v \<and> dv_account u = pr_account demo_principal) (rd_devices (rl_db demo_waiting)) \<noteq> None" by code_simp
  ultimately show ?thesis
    using idempotency_key_bound [OF waiting_run, of ?r demo_principal ?v None "lit ''device_desktop''" demo_arguments "[]" 45 "demo_fresh [2]"] key
    by (intro exI [of _ ?r] exI [of _ ?v]) simp
qed

section \<open>Authorization\<close>

definition link_known :: "relay_db \<Rightarrow> mcp_principal \<Rightarrow> bool" where
  "link_known d p \<longleftrightarrow> (\<exists>l \<in> set (rd_links d). lk_id l = pr_device_link p \<and> lk_link l = pr_link p
     \<and> lk_account l = pr_account p \<and> lk_device l = pr_device p)"

definition project_known :: "relay_db \<Rightarrow> mcp_principal \<Rightarrow> pystr \<Rightarrow> bool" where
  "project_known d p k \<longleftrightarrow> (\<exists>q \<in> set (rd_projects d). pj_id q = k \<and> pj_account q = pr_account p \<and> pj_device q = pr_device p)"

definition world_move :: "relay_db \<Rightarrow> relay_db \<Rightarrow> bool" where
  "world_move d d' \<longleftrightarrow> (\<forall>p. link_known d p \<longrightarrow> link_known d' p) \<and> (\<forall>p k. project_known d p k \<longrightarrow> project_known d' p k)"

lemma world_move_refl: "rd_links d' = rd_links d \<Longrightarrow> rd_projects d' = rd_projects d \<Longrightarrow> world_move d d'"
  by (simp add: world_move_def link_known_def project_known_def)

lemma world_move_trans: "world_move a b \<Longrightarrow> world_move b c \<Longrightarrow> world_move a c"
  by (simp add: world_move_def)

lemma same_world [simp]:
  "rd_links (update_ops p g d) = rd_links d" "rd_projects (update_ops p g d) = rd_projects d"
  "rd_links (update_devices f h d) = rd_links d" "rd_projects (update_devices f h d) = rd_projects d"
  by (simp_all add: update_ops_def update_devices_def)

lemma same_world_late [simp]:
  "rd_links (snd (late_terminal ev cn u r e d)) = rd_links d" "rd_projects (snd (late_terminal ev cn u r e d)) = rd_projects d"
  by (simp_all add: late_terminal_def save_op_def Let_def split: sum.split option.split)

lemma record_world: "world_move d (snd (record_device_message ev cn e d))"
proof -
  have "rd_links d' = rd_links d \<and> rd_projects d' = rd_projects d" if "late_terminal ev cn u r x d = (y, d')" for u r x y d'
    using same_world_late [of ev cn u r x d] that by simp
  then show ?thesis
    by (auto simp: record_device_message_def save_op_def Let_def intro!: world_move_refl split: sum.split option.split prod.split)
qed

lemma prepare_world: "world_move d (snd (prepare_operation_dispatch ev now sp cn k d))"
  by (simp add: prepare_operation_dispatch_def save_op_def Let_def world_move_refl split: sum.split option.split prod.split)

lemma revoke_links_known: "link_known (revoke_links now dev d) p \<longleftrightarrow> link_known d p"
  by (simp add: link_known_def revoke_links_def if_distrib [of lk_id] if_distrib [of lk_link] if_distrib [of lk_account]
      if_distrib [of lk_device] del: if_image_distrib) (rule bex_cong, auto)

lemma revoke_links_projects: "project_known (revoke_links now dev d) p k \<longleftrightarrow> project_known d p k"
  by (simp add: project_known_def revoke_links_def)

lemma sync_entry_known:
  assumes "sync_entry cn qs item = Inr qs'" and "q \<in> set qs"
  shows "\<exists>q' \<in> set qs'. pj_id q' = pj_id q \<and> pj_account q' = pj_account q \<and> pj_device q' = pj_device q"
proof -
  obtain n where n: "project_entry cn item = Inr n"
      "\<not> list_ex (\<lambda>x. pj_id x = pj_id n \<and> (pj_account x \<noteq> pj_account n \<or> pj_device x \<noteq> pj_device n)) qs" "qs' = put_project n qs"
    using assms(1) by (auto simp: sync_entry_def bindE_def split: sum.splits if_splits)
  show ?thesis
  proof (cases "pj_id q = pj_id n")
    case True
    then show ?thesis using n(2,3) assms(2) by (auto simp: put_project_def list_ex_iff)
  next
    case False
    then show ?thesis using n(3) assms(2) by (auto simp: put_project_def)
  qed
qed

lemma sync_fold_known:
  "foldE (sync_entry cn) qs items = Inr qs' \<Longrightarrow> q \<in> set qs \<Longrightarrow>
     \<exists>q' \<in> set qs'. pj_id q' = pj_id q \<and> pj_account q' = pj_account q \<and> pj_device q' = pj_device q"
proof (induction items arbitrary: qs q)
  case (Cons item items)
  then obtain qs1 where s: "sync_entry cn qs item = Inr qs1" "foldE (sync_entry cn) qs1 items = Inr qs'"
    by (auto simp: bindE_def split: sum.splits)
  obtain q1 where q1: "q1 \<in> set qs1" "pj_id q1 = pj_id q" "pj_account q1 = pj_account q" "pj_device q1 = pj_device q"
    using sync_entry_known [OF s(1) Cons.prems(2)] by blast
  show ?case using Cons.IH [OF s(2) q1(1)] q1(2-4) by simp
qed auto

lemma hide_unseen_known:
  "project_known (d\<lparr>rd_projects := hide_unseen cn seen qs\<rparr>) p k \<longleftrightarrow> project_known (d\<lparr>rd_projects := qs\<rparr>) p k"
  by (simp add: project_known_def hide_unseen_def if_distrib [of pj_id] if_distrib [of pj_account] if_distrib [of pj_device]
      del: if_image_distrib) (rule bex_cong, auto)

lemma sync_world: "world_move d (snd (synchronize_projects cn p d))"
proof -
  have "project_known (d\<lparr>rd_projects := hide_unseen cn seen qs\<rparr>) p k"
    if known: "project_known d p k" and f: "foldE (sync_entry cn) (rd_projects d) items = Inr qs" for p k items qs seen
  proof -
    obtain q where q: "q \<in> set (rd_projects d)" "pj_id q = k" "pj_account q = pr_account p" "pj_device q = pr_device p"
      using known by (auto simp: project_known_def)
    obtain x where "x \<in> set qs" "pj_id x = k" "pj_account x = pr_account p" "pj_device x = pr_device p"
      using sync_fold_known [OF f q(1)] q(2-4) by auto
    then show ?thesis unfolding hide_unseen_known by (auto simp: project_known_def)
  qed
  then show ?thesis
    by (auto simp: synchronize_projects_def world_move_def link_known_def split: option.split json.split sum.split)
qed

lemma admit_call_world:
  assumes "admit_call ev st fr sent v q dg timeout c d = (ph, d')"
  shows "world_move d d'"
proof -
  obtain x where "admit_operation ev st (cl_principal c) v q (cl_tool c) (cl_arguments c) dg timeout fr d = (x, d')"
    using admit_call_db [OF assms] by blast
  then show ?thesis by (cases rule: admit_operation_cases) (simp_all add: world_move_refl)
qed

lemma deliver_world: "world_move (rl_db s) (rl_db (deliver_operation ev now sp ok cn k s))"
proof -
  obtain x d where p: "prepare_operation_dispatch ev now sp cn k (rl_db s) = (x, d)" by force
  have d: "world_move (rl_db s) d" using prepare_world [of "rl_db s" ev now sp cn k] p by simp
  have m: "world_move (rl_db s) d'" if "rd_links d' = rd_links d" "rd_projects d' = rd_projects d" for d'
    using world_move_trans [OF d world_move_refl] that by blast
  show ?thesis
    by (auto simp: deliver_operation_def p Let_def close_socket_def mark_operation_sent_def mark_offline_def intro!: m
        split: sum.split option.split prepared_dispatch.split)
qed

lemma deliver_each_world: "world_move (rl_db s) (rl_db (deliver_each ev now sps cn ks s))"
proof (induction ks arbitrary: s)
  case (Cons k ks)
  show ?case using deliver_world world_move_trans [OF deliver_world Cons.IH] by (simp add: Let_def)
qed (simp add: world_move_refl)

lemma receive_message_world: "world_move (rl_db s) (rl_db (receive_message ev now sp pub cn raw s))"
proof -
  have m: "world_move (rl_db s) (touch now cn d)" "world_move (rl_db s) (mark_offline cn d)" if "world_move (rl_db s) d" for d
    using that world_move_trans [OF that world_move_refl] by (simp_all add: touch_def mark_offline_def)
  have rec: "world_move (rl_db s) d" if "record_device_message ev cn e (rl_db s) = (x, d)" for e x d
    using record_world [of "rl_db s" ev cn e] that by simp
  have sync: "world_move (rl_db s) d" if "synchronize_projects cn p (rl_db s) = (x, d)" for p x d
    using sync_world [of "rl_db s" cn p] that by simp
  show ?thesis
    by (auto simp: receive_message_def lifecycle_message_def close_socket_def Let_def world_move_refl intro!: m dest: rec sync
        split: option.split prod.split sum.split)
qed

lemma relay_step_world: "world_move (rl_db s) (rl_db (relay_step ev st e s))"
proof (cases e)
  case (Call_step i now sent fr)
  have "world_move (rl_db s) (rl_db (step_call ev st i now sent fr s))"
    by (auto simp: step_call_def mark_dispatched_def finish_def mark_delivery_failure_def Let_def world_move_refl
        split: call_phase.split prod.split dest: admit_call_world)
  then show ?thesis using Call_step by simp
next
  case (Socket_open now raw sig)
  obtain x d where p: "consume_ticket ev now raw sig (rl_db s) = (x, d)" by force
  then have "world_move (rl_db s) d" by (auto simp: consume_ticket_def intro!: world_move_refl split: option.splits if_splits)
  then show ?thesis by (simp add: Socket_open open_socket_def p split: sum.split)
next
  case (Rotate_link now a dev pk lid)
  have "link_known d p \<Longrightarrow> link_known (d\<lparr>rd_links := rd_links d @ ls\<rparr>) p" for d p ls by (auto simp: link_known_def)
  then show ?thesis
    using Rotate_link revoke_links_projects
    by (simp add: rotate_device_link_def world_move_def revoke_links_known Let_def split: option.split)
      (simp add: project_known_def)
next
  case (Revoke_device desk now a dev)
  have "link_known (revoke_grants now dev d) p = link_known d p" "project_known (revoke_grants now dev d) p k = project_known d p k"
    "project_known (revoke_links now dev d) p k = project_known d p k" for d p k
    by (simp_all add: link_known_def project_known_def revoke_grants_def revoke_links_def)
  then show ?thesis using Revoke_device
    by (simp add: revoke_device_def revoke_desktop_device_def revoke_device_row_def world_move_def revoke_links_known split: option.split)
      (simp add: link_known_def project_known_def)
next
  case (Enroll a n k t dev pk lid)
  then show ?thesis by (auto simp: enroll_device_def world_move_def link_known_def project_known_def)
qed (simp_all add: begin_call_def read_call_def abandon_call_def mark_online_def mark_offline_def touch_def world_move_refl
    receive_message_world deliver_world deliver_each_world recover_unsent_operations_def close_socket_def
    issue_device_ticket_def cleanup_def Let_def split: sum.split call_phase.split option.split prod.split list.split)

fun op_of_phase :: "call_phase \<Rightarrow> relay_op option" where
  "op_of_phase (To_mark r e) = Some r"
| "op_of_phase (To_publish r e) = Some r"
| "op_of_phase (Waiting r e n) = Some r"
| "op_of_phase (To_fail r code e) = Some r"
| "op_of_phase (To_finish r j) = Some r"
| "op_of_phase _ = None"

fun route_of_phase :: "call_phase \<Rightarrow> (device_row \<times> relay_project option) option" where
  "route_of_phase (To_create v q dg t) = Some (v, q)"
| "route_of_phase (To_admit v q dg t) = Some (v, q)"
| "route_of_phase _ = None"

definition scopes_granted :: "call \<Rightarrow> bool" where
  "scopes_granted c \<longleftrightarrow> (\<exists>scopes. scopes_of_call (cl_tool c) (cl_arguments c) = Inr scopes
     \<and> set scopes \<subseteq> set (pr_scopes (cl_principal c)))"

definition op_for :: "relay_db \<Rightarrow> call \<Rightarrow> relay_op \<Rightarrow> bool" where
  "op_for d c r \<longleftrightarrow> (let p = cl_principal c in
     ro_account r = pr_account p \<and> ro_grant r = pr_grant p \<and> ro_link r = pr_device_link p \<and> ro_device r = pr_device p
     \<and> ro_kind r = cl_tool c \<and> ro_payload r = action_payload (cl_tool c) (cl_arguments c)
     \<and> (\<forall>k. ro_project r = Some k \<longrightarrow> project_known d p k))"

definition refused :: "call_phase \<Rightarrow> bool" where
  "refused ph = (case ph of Returned (Inl e) \<Rightarrow> True | _ \<Rightarrow> False)"

definition construct_error :: relay_exn where
  "construct_error = tool_error ''protocol_error'' ''Could not construct a valid tunnel envelope'' False"

definition phase_ok :: "relay_db \<Rightarrow> call \<Rightarrow> call_phase \<Rightarrow> bool" where
  "phase_ok d c ph \<longleftrightarrow>
     (\<forall>v q. route_of_phase ph = Some (v, q) \<longrightarrow>
        dv_id v = pr_device (cl_principal c) \<and> (\<forall>x. q = Some x \<longrightarrow> project_known d (cl_principal c) (pj_id x)))
     \<and> (\<forall>r. op_of_phase ph = Some r \<longrightarrow> op_for d c r)
     \<and> (\<forall>r code e. ph = To_fail r code e \<longrightarrow> code = te_code e
          \<and> (e \<noteq> construct_error \<longrightarrow> is_replay_unsafe (cl_tool c) (cl_arguments c)
               \<longrightarrow> code = lit ''outcome_unknown'' \<and> \<not> te_retryable e))"

definition call_ok :: "relay_db \<Rightarrow> call \<Rightarrow> bool" where
  "call_ok d c \<longleftrightarrow> link_known d (cl_principal c) \<and> (\<not> refused (cl_phase c) \<longrightarrow> scopes_granted c) \<and> phase_ok d c (cl_phase c)"

lemma phase_ok_cong [simp]: "phase_ok d (c\<lparr>cl_phase := ph'\<rparr>) ph \<longleftrightarrow> phase_ok d c ph"
  by (simp add: phase_ok_def op_for_def)

lemma call_ok_phase:
  "call_ok d c \<Longrightarrow> phase_ok d c ph \<Longrightarrow> \<not> refused (cl_phase c) \<or> refused ph \<Longrightarrow> call_ok d (c\<lparr>cl_phase := ph\<rparr>)"
  by (auto simp: call_ok_def scopes_granted_def)

lemma call_ok_world: "world_move d d' \<Longrightarrow> call_ok d c \<Longrightarrow> call_ok d' c"
  by (auto simp: call_ok_def phase_ok_def op_for_def world_move_def Let_def)

lemma phase_ok_world: "world_move d d' \<Longrightarrow> phase_ok d c ph \<Longrightarrow> phase_ok d' c ph"
  by (auto simp: phase_ok_def op_for_def world_move_def Let_def)

lemma phase_ok_returned [simp]: "phase_ok d c (Returned x)" "phase_ok d c (To_list l)" "phase_ok d c To_route"
  by (simp_all add: phase_ok_def)

text \<open>Each step of a call.\<close>

lemma require_all_granted: "require_all p scopes = Inr () \<longleftrightarrow> set scopes \<subseteq> set (pr_scopes p)"
  by (induction scopes) (auto simp: require_def raise_if_def)

lemma check_call_granted: "check_call ev p tool raw = Inr c \<Longrightarrow> cl_principal c = p \<and> scopes_granted c \<and> cl_phase c = To_route"
  using require_all_granted
  by (auto simp: check_call_def scopes_granted_def bindE_def split: sum.splits relay_exn.splits)

lemma authenticate_link: "authenticate sha st now raw lid d = Inr p \<Longrightarrow> link_known d p"
  by (auto simp: authenticate_def find_link_def link_known_def split: option.splits if_splits dest!: find_member)

lemma route_phase_ok:
  assumes "cl_phase c = To_route"
  shows "phase_ok d c (route_call ev st now c d)"
proof -
  have "dv_id v = pr_device (cl_principal c) \<and> (\<forall>x. q = Some x \<longrightarrow> project_known d (cl_principal c) (pj_id x))"
    if "lookup_route (cl_principal c) (cl_tool c) (cl_arguments c) d = Inr (v, q)" for v q
    using that
    by (auto simp: lookup_route_def project_known_def Let_def split: option.splits if_splits dest!: find_member)
  then show ?thesis
    by (auto simp: route_call_def phase_ok_def Let_def split: sum.splits prod.splits if_splits)
qed

lemma lookup_phase_ok:
  assumes "phase_ok d c (To_create v q dg t)"
  shows "phase_ok d c (lookup_call v q dg t c d)"
  using assms by (auto simp: lookup_call_def phase_ok_def split: sum.split option.split)

lemma new_operation_for:
  assumes "phase_ok d c (To_admit v q dg t)"
  shows "op_for d c (new_operation ev (cl_principal c) v q (cl_tool c) (cl_arguments c) dg t fr)"
  using assms by (auto simp: phase_ok_def op_for_def Let_def)

lemma admit_phase_ok:
  assumes "phase_ok d c (To_admit v q dg t)" and "admit_call ev st fr sent v q dg t c d = (ph, d')"
  shows "phase_ok d c ph"
proof -
  obtain x d1 where a: "admit_operation ev st (cl_principal c) v q (cl_tool c) (cl_arguments c) dg t fr d = (x, d1)" by force
  then show ?thesis
  proof (cases rule: admit_operation_cases)
    case kept
    then show ?thesis using assms(2) a by (auto simp: admit_call_def split: sum.splits bool.splits prod.splits)
  next
    case (created r)
    then show ?thesis using assms(2) a new_operation_for [OF assms(1)]
      by (auto simp: admit_call_def phase_ok_def Let_def construct_error_def tool_error_def split: if_splits)
  qed
qed

lemma transport_error_unknown:
  assumes "is_replay_unsafe (cl_tool c) (cl_arguments c)"
    and "\<And>m rt dt. x \<noteq> ToolDispatchError (lit ''device_offline'') m rt dt"
  shows "te_code (transport_error c r x) = lit ''outcome_unknown'' \<and> \<not> te_retryable (transport_error c r x)"
  using assms by (cases x) (auto simp: transport_error_def unknown_error_def Let_def)

lemma fail_phase_ok:
  assumes "op_for d c r" and "is_replay_unsafe (cl_tool c) (cl_arguments c) \<Longrightarrow> te_code e = lit ''outcome_unknown'' \<and> \<not> te_retryable e"
  shows "phase_ok d c (fail_with r e)"
  using assms by (simp add: phase_ok_def fail_with_def)

lemma not_offline: "lit ''protocol_error'' \<noteq> lit ''device_offline''" "lit ''operation_timeout'' \<noteq> lit ''device_offline''"
  by (simp_all add: lit_def)

lemma read_result_not_offline: "read_result ev rq dev d entry = Inl x \<Longrightarrow> x \<noteq> ToolDispatchError (lit ''device_offline'') m rt dt"
  by (auto simp: read_result_def tool_error_def not_offline Let_def split: stream_entry.splits if_splits option.splits)

lemma receive_phase_ok:
  assumes "op_for d c r"
  shows "phase_ok d c (receive_result ev c r rq n entry d)"
proof (cases "read_result ev rq (ro_device r) d entry")
  case (Inl x)
  have "phase_ok d c (fail_with r (transport_error c r x))"
    by (rule fail_phase_ok [OF assms]) (use transport_error_unknown read_result_not_offline [OF Inl] in blast)
  then show ?thesis using Inl by (simp add: receive_result_def)
next
  case (Inr y)
  have "phase_ok d c (fail_with r (if is_replay_unsafe (cl_tool c) (cl_arguments c) then unknown_error c r else x))" for x
    by (rule fail_phase_ok [OF assms]) (simp add: unknown_error_def)
  then show ?thesis using Inr assms
    by (auto simp: receive_result_def phase_ok_def split: option.split sum.split)
qed

definition calls_ok :: "relay \<Rightarrow> bool" where
  "calls_ok s \<longleftrightarrow> (\<forall>c \<in> set (rl_calls s). call_ok (rl_db s) c)"

lemma calls_ok_world:
  "calls_ok s \<Longrightarrow> world_move (rl_db s) (rl_db s') \<Longrightarrow> rl_calls s' = rl_calls s \<Longrightarrow> calls_ok s'"
  by (auto simp: calls_ok_def intro: call_ok_world)

lemma calls_ok_set_phase:
  assumes "calls_ok s" and "i < length (rl_calls s)" and "phase_ok (rl_db s) (rl_calls s ! i) ph"
    and "\<not> refused (cl_phase (rl_calls s ! i))"
  shows "calls_ok (set_phase i ph s)"
proof -
  have "call_ok (rl_db s) ((rl_calls s ! i)\<lparr>cl_phase := ph\<rparr>)"
    using call_ok_phase assms nth_mem by (auto simp: calls_ok_def)
  then show ?thesis using assms(1) by (auto simp: calls_ok_def set_phase_def dest!: set_update_subset_insert [THEN subsetD])
qed

lemma calls_ok_op: "calls_ok s \<Longrightarrow> i < length (rl_calls s) \<Longrightarrow> op_of_phase (cl_phase (rl_calls s ! i)) = Some r
     \<Longrightarrow> op_for (rl_db s) (rl_calls s ! i) r"
  using nth_mem by (fastforce simp: calls_ok_def call_ok_def phase_ok_def)

lemma step_call_calls_ok:
  assumes "calls_ok s"
  shows "calls_ok (step_call ev st i now sent fr s)"
proof (cases "i < length (rl_calls s)")
  case True
  let ?c = "rl_calls s ! i"
  note set = calls_ok_set_phase [OF assms True]
  have ph: "phase_ok (rl_db s) ?c (cl_phase ?c)" using assms True nth_mem by (auto simp: calls_ok_def call_ok_def)
  have w: "calls_ok t \<Longrightarrow> calls_ok (t\<lparr>rl_db := d\<rparr>)" if "world_move (rl_db s) d" "rl_db t = rl_db s" for t d
    by (rule calls_ok_world [of t]) (use that in simp_all)
  have ops: "world_move (rl_db s) (mark_dispatched k (rl_db s))" "world_move (rl_db s) (finish ev k j (rl_db s))"
    "world_move (rl_db s) (mark_delivery_failure k code (rl_db s))" for k j code
    by (simp_all add: world_move_refl mark_dispatched_def finish_def mark_delivery_failure_def)
  show ?thesis
  proof (cases "cl_phase ?c")
    case To_route
    then show ?thesis using True set [OF route_phase_ok] by (simp add: step_call_def refused_def)
  next
    case (To_list l)
    then show ?thesis using True set by (simp add: step_call_def refused_def list_call_def Let_def)
  next
    case (To_create v q dg t)
    then show ?thesis using True set [OF lookup_phase_ok] ph by (simp add: step_call_def refused_def)
  next
    case (To_admit v q dg t)
    obtain p d where a: "admit_call ev st fr sent v q dg t ?c (rl_db s) = (p, d)" by force
    have ok: "calls_ok (set_phase i p s)" using set [OF admit_phase_ok [OF _ a]] ph To_admit by (simp add: refused_def)
    have "calls_ok ((set_phase i p s)\<lparr>rl_db := d, rl_ids := ids\<rparr>)" for ids
      by (rule calls_ok_world [OF ok]) (use admit_call_world [OF a] in simp_all)
    then show ?thesis using True To_admit a by (simp add: step_call_def)
  next
    case (To_mark r e)
    have "calls_ok (set_phase i (To_publish r e) s)" using set ph To_mark by (simp add: refused_def phase_ok_def)
    then show ?thesis using True To_mark w ops(1) by (simp add: step_call_def)
  next
    case (To_publish r e)
    have "calls_ok (set_phase i (Waiting r e 0) s)" using set ph To_publish by (simp add: refused_def phase_ok_def)
    then show ?thesis using True To_publish by (simp add: step_call_def publish_def calls_ok_def)
  next
    case (To_fail r code e)
    have "calls_ok (set_phase i (Returned (Inl e)) s)" using set To_fail by (simp add: refused_def)
    then show ?thesis using True To_fail w ops(3) by (simp add: step_call_def)
  next
    case (To_finish r j)
    have "calls_ok (set_phase i (Returned (Inr (ro_id r, j))) s)" using set To_finish by (simp add: refused_def)
    then show ?thesis using True To_finish w ops(2) by (simp add: step_call_def)
  qed (use assms True in \<open>simp_all add: step_call_def\<close>)
qed (use assms in \<open>simp add: step_call_def\<close>)

lemma read_call_calls_ok:
  assumes "calls_ok s"
  shows "calls_ok (read_call ev i s)"
proof (cases "i < length (rl_calls s) \<and> (\<exists>r e n. cl_phase (rl_calls s ! i) = Waiting r e n)")
  case True
  then obtain r e n where i: "i < length (rl_calls s)" and ph: "cl_phase (rl_calls s ! i) = Waiting r e n" by blast
  have "calls_ok (set_phase i (receive_result ev (rl_calls s ! i) r e m entry (rl_db s)) s)" for m entry
    using calls_ok_set_phase [OF assms i receive_phase_ok] calls_ok_op [OF assms i] ph by (simp add: refused_def)
  then show ?thesis using i ph assms by (auto simp: read_call_def split: option.split)
next
  case False
  then show ?thesis using assms by (auto simp: read_call_def split: call_phase.splits)
qed

lemma abandon_call_calls_ok:
  assumes "calls_ok s" and "enabled (Call_abandon i x) s"
  shows "calls_ok (abandon_call i x s)"
proof (cases "i < length (rl_calls s) \<and> (\<exists>r. op_of_phase (cl_phase (rl_calls s ! i)) = Some r) \<and> \<not> refused (cl_phase (rl_calls s ! i))")
  case True
  then obtain r where i: "i < length (rl_calls s)" and r: "op_of_phase (cl_phase (rl_calls s ! i)) = Some r"
    and live: "\<not> refused (cl_phase (rl_calls s ! i))" by blast
  have x: "x \<noteq> ToolDispatchError (lit ''device_offline'') m rt dt" for m rt dt
    using assms(2) not_offline by (auto simp: enabled_def timeout_error_def tool_error_def)
  have "calls_ok (set_phase i (fail_with r (transport_error (rl_calls s ! i) r x)) s)"
    by (rule calls_ok_set_phase [OF assms(1) i fail_phase_ok live])
      (use calls_ok_op [OF assms(1) i r] transport_error_unknown x in blast)+
  then show ?thesis using i r assms(1) by (auto simp: abandon_call_def split: call_phase.splits)
next
  case False
  then show ?thesis using assms(1) by (auto simp: abandon_call_def refused_def split: call_phase.splits)
qed

lemma begin_call_calls_ok:
  assumes "calls_ok s"
  shows "calls_ok (begin_call ev st now a l tool raw s)"
proof (cases "authenticate_mcp (ev_uuid ev) (ev_sha ev) st now a l (rl_db s)")
  case (Inr p)
  then have "link_known (rl_db s) p"
    by (auto simp: authenticate_mcp_def bindE_def split: option.splits sum.splits dest: authenticate_link)
  then show ?thesis using assms Inr
    by (auto simp: begin_call_def calls_ok_def call_ok_def refused_def split: sum.split dest!: check_call_granted)
qed (use assms in \<open>simp add: begin_call_def\<close>)

lemma deliver_calls: "rl_calls (deliver_operation ev now sp ok cn k s) = rl_calls s"
  by (simp add: deliver_operation_def push_result_def close_socket_def Let_def
      split: prod.split sum.split option.split prepared_dispatch.split)

lemma deliver_each_calls: "rl_calls (deliver_each ev now sps cn ks s) = rl_calls s"
  by (induction ks arbitrary: s) (simp_all add: deliver_calls Let_def)

lemma receive_message_calls: "rl_calls (receive_message ev now sp pub cn raw s) = rl_calls s"
  by (simp add: receive_message_def lifecycle_message_def push_result_def close_socket_def Let_def
      split: option.split prod.split sum.split)

lemma relay_step_calls_ok:
  assumes "calls_ok s" and "enabled e s"
  shows "calls_ok (relay_step ev st e s)"
proof -
  have other: "rl_calls (relay_step ev st e s) = rl_calls s \<Longrightarrow> ?thesis"
    by (rule calls_ok_world [OF assms(1) relay_step_world])
  show ?thesis
  proof (cases e)
    case (Socket_open now raw sig)
    then show ?thesis by (intro other) (simp add: open_socket_def split: prod.split sum.split)
  next
    case (Call now a l t j)
    then show ?thesis using begin_call_calls_ok [OF assms(1)] by simp
  next
    case (Call_step i now sent fr)
    then show ?thesis using step_call_calls_ok [OF assms(1)] by simp
  next
    case (Call_read i)
    then show ?thesis using read_call_calls_ok [OF assms(1)] by simp
  next
    case (Call_abandon i x)
    then show ?thesis using abandon_call_calls_ok [OF assms(1)] assms(2) by simp
  qed (rule other; simp add: deliver_calls deliver_each_calls receive_message_calls recover_unsent_operations_def close_socket_def)+
qed

interpretation calls: run_invariant ev st calls_ok for ev st
proof unfold_locales
  show "calls_ok empty_relay" by (simp add: calls_ok_def empty_relay_def)
qed (rule relay_step_calls_ok)




definition timed_out :: relay where
  "timed_out = after [Call_abandon 0 timeout_error] delivered"

lemma timed_out_steps: "relay_steps demo_env demo_settings delivered [Call_abandon 0 timeout_error] timed_out"
  unfolding timed_out_def by (rule after_steps) code_simp

definition failure_of :: "call_phase \<Rightarrow> (relay_op \<times> pystr \<times> relay_exn) option" where
  "failure_of ph = (case ph of To_fail r code e \<Rightarrow> Some (r, code, e) | _ \<Rightarrow> None)"


end
