(* ===== verification/Read_Slots.thy ===== *)
theory Read_Slots
  imports Codito_Base "HOL-Library.Multiset"
begin

text \<open>
  The two semaphores of \<open>AgentProtocolAdapter._read_slot\<close> (\<open>protocol_adapter.py\<close>): a reading tool
  takes the lane of its project first and then one of the device's slots.  \<open>asyncio.Semaphore\<close> is a
  value and a queue of waiting tasks, and hands what is released to the first one that waits.
\<close>

section \<open>Semaphores\<close>

record semaphore =
  sm_value :: nat
  sm_waiters :: "nat list"

definition new_semaphore :: "nat \<Rightarrow> semaphore" where
  "new_semaphore n = \<lparr>sm_value = n, sm_waiters = []\<rparr>"

definition acquire :: "nat \<Rightarrow> semaphore \<Rightarrow> bool \<times> semaphore" where
  "acquire t s = (if 0 < sm_value s \<and> sm_waiters s = [] then (True, s\<lparr>sm_value := sm_value s - 1\<rparr>)
     else (False, s\<lparr>sm_waiters := sm_waiters s @ [t]\<rparr>))"

definition release_next :: "semaphore \<Rightarrow> nat option \<times> semaphore" where
  "release_next s = (case sm_waiters s of [] \<Rightarrow> (None, s\<lparr>sm_value := Suc (sm_value s)\<rparr>) | t # ts \<Rightarrow> (Some t, s\<lparr>sm_waiters := ts\<rparr>))"

text \<open>A slot is given out whenever one is free.\<close>

definition sem_ok :: "nat \<Rightarrow> nat \<Rightarrow> semaphore \<Rightarrow> bool" where
  "sem_ok limit held s \<longleftrightarrow> sm_value s + held = limit \<and> (0 < sm_value s \<longrightarrow> sm_waiters s = [])"

section \<open>Slots\<close>

text \<open>
  The lanes that exist, the device's slots, and who holds what: the tasks inside a lane with their
  lanes, and those among them that read.
\<close>

record slots =
  sl_lanes :: "pystr \<rightharpoonup> semaphore"
  sl_device :: semaphore
  sl_inside :: "(nat \<times> pystr) list"
  sl_reading :: "nat list"

text \<open>The limits of \<open>__init__\<close>.\<close>

definition lane_limit :: "nat \<Rightarrow> nat option \<Rightarrow> nat" where
  "lane_limit concurrency per_project = min concurrency (case per_project of Some n \<Rightarrow> n | None \<Rightarrow> min 4 concurrency)"

definition new_slots :: "nat \<Rightarrow> nat option \<Rightarrow> slots res" where
  "new_slots concurrency per_project =
     (if concurrency < 1 \<or> per_project = Some 0 then Inl ValueError
      else Inr \<lparr>sl_lanes = Map.empty, sl_device = new_semaphore concurrency, sl_inside = [], sl_reading = []\<rparr>)"

definition slot_key :: "pystr option \<Rightarrow> pystr" where
  "slot_key pid = (case pid of None \<Rightarrow> lit ''__device__'' | Some [] \<Rightarrow> lit ''__device__'' | Some p \<Rightarrow> p)"

definition lane :: "nat \<Rightarrow> pystr \<Rightarrow> slots \<Rightarrow> semaphore" where
  "lane limit k st = (case sl_lanes st k of Some s \<Rightarrow> s | None \<Rightarrow> new_semaphore limit)"

text \<open>A task that has its lane asks for a slot of the device.\<close>

definition got_lane :: "nat \<Rightarrow> pystr \<Rightarrow> slots \<Rightarrow> slots" where
  "got_lane t k st =
     (case acquire t (sl_device st) of
        (got, g) \<Rightarrow> st\<lparr>sl_device := g, sl_inside := (t, k) # sl_inside st, sl_reading := (if got then t # sl_reading st else sl_reading st)\<rparr>)"

definition enter_slot :: "nat \<Rightarrow> nat \<Rightarrow> pystr option \<Rightarrow> slots \<Rightarrow> slots" where
  "enter_slot limit t pid st =
     (let k = slot_key pid in
      case acquire t (lane limit k st) of
        (got, s) \<Rightarrow> let st' = st\<lparr>sl_lanes := (sl_lanes st)(k \<mapsto> s)\<rparr> in if got then got_lane t k st' else st')"

text \<open>A lane is given back: its next task asks for a slot.\<close>

definition leave_lane :: "nat \<Rightarrow> nat \<Rightarrow> pystr \<Rightarrow> slots \<Rightarrow> slots" where
  "leave_lane limit t k st =
     (case release_next (lane limit k st) of
        (nxt, s) \<Rightarrow>
          let st' = st\<lparr>sl_lanes := (sl_lanes st)(k \<mapsto> s), sl_inside := remove1 (t, k) (sl_inside st)\<rparr> in
          case nxt of None \<Rightarrow> st' | Some u \<Rightarrow> got_lane u k st')"

definition leave_device :: "nat \<Rightarrow> slots \<Rightarrow> slots" where
  "leave_device t st =
     (case release_next (sl_device st) of
        (nxt, g) \<Rightarrow> st\<lparr>sl_device := g, sl_reading := (case nxt of None \<Rightarrow> [] | Some u \<Rightarrow> [u]) @ remove1 t (sl_reading st)\<rparr>)"

text \<open>
  The steps: a call arrives; one that reads is done, or fails, and leaves the device's slot and then
  its lane; one that waits is cancelled.
\<close>

inductive slot_step :: "nat \<Rightarrow> slots \<Rightarrow> slots \<Rightarrow> bool" for limit where
  Arrives: "slot_step limit st (enter_slot limit t pid st)"
| Leaves: "t \<in> set (sl_reading st) \<Longrightarrow> (t, k) \<in> set (sl_inside st) \<Longrightarrow> slot_step limit st (leave_lane limit t k (leave_device t st))"
| Cancelled_in_lane: "sl_lanes st k = Some s \<Longrightarrow>
    slot_step limit st (st\<lparr>sl_lanes := (sl_lanes st)(k \<mapsto> s\<lparr>sm_waiters := remove1 t (sm_waiters s)\<rparr>)\<rparr>)"
| Cancelled_at_device: "t \<in> set (sm_waiters (sl_device st)) \<Longrightarrow> (t, k) \<in> set (sl_inside st) \<Longrightarrow>
    slot_step limit st (leave_lane limit t k (st\<lparr>sl_device := (sl_device st)\<lparr>sm_waiters := remove1 t (sm_waiters (sl_device st))\<rparr>\<rparr>))"

inductive slots_run :: "nat \<Rightarrow> nat option \<Rightarrow> slots \<Rightarrow> bool" for n pp where
  Start: "new_slots n pp = Inr st \<Longrightarrow> slots_run n pp st"
| Step: "slots_run n pp st \<Longrightarrow> slot_step (lane_limit n pp) st st' \<Longrightarrow> slots_run n pp st'"

definition lane_holders :: "pystr \<Rightarrow> slots \<Rightarrow> nat" where
  "lane_holders k st = length (filter (\<lambda>p. snd p = k) (sl_inside st))"

definition slots_ok :: "nat \<Rightarrow> nat \<Rightarrow> slots \<Rightarrow> bool" where
  "slots_ok n limit st \<longleftrightarrow> sem_ok n (length (sl_reading st)) (sl_device st)
     \<and> (\<forall>k. sem_ok limit (lane_holders k st) (lane limit k st))
     \<and> mset (map fst (sl_inside st)) = mset (sl_reading st) + mset (sm_waiters (sl_device st))"

lemma acquire_ok:
  assumes "sem_ok limit held s" and "acquire t s = (got, s')"
  shows "sem_ok limit (if got then Suc held else held) s'" and "sm_waiters s' = (if got then sm_waiters s else sm_waiters s @ [t])"
  using assms by (auto simp: acquire_def sem_ok_def split: if_splits)

lemma release_ok:
  assumes "sem_ok limit (Suc held) s" and "release_next s = (nxt, s')"
  shows "sem_ok limit (if nxt = None then held else Suc held) s'" and "sm_waiters s = (case nxt of None \<Rightarrow> [] | Some u \<Rightarrow> [u]) @ sm_waiters s'"
  using assms by (auto simp: release_next_def sem_ok_def split: list.splits)

lemma lane_upd [simp]: "lane limit j (st\<lparr>sl_lanes := m\<rparr>) = (case m j of Some s \<Rightarrow> s | None \<Rightarrow> new_semaphore limit)"
  by (simp add: lane_def)

lemma got_lane_ok:
  assumes "sem_ok n (length (sl_reading st)) (sl_device st)"
    and "\<And>j. sem_ok limit (lane_holders j st + (if j = k then 1 else 0)) (lane limit j st)"
    and "mset (map fst (sl_inside st)) = mset (sl_reading st) + mset (sm_waiters (sl_device st))"
  shows "slots_ok n limit (got_lane t k st)"
proof -
  obtain got g where a: "acquire t (sl_device st) = (got, g)" by (cases "acquire t (sl_device st)")
  have "lane_holders j (got_lane t k st) = lane_holders j st + (if j = k then 1 else 0)" "lane limit j (got_lane t k st) = lane limit j st" for j
    by (auto simp: got_lane_def a lane_holders_def lane_def)
  then show ?thesis using acquire_ok [OF assms(1) a] assms(2,3)
    by (auto simp: slots_ok_def got_lane_def a)
qed

lemma enter_slot_ok:
  assumes "slots_ok n limit st"
  shows "slots_ok n limit (enter_slot limit t pid st)"
proof -
  let ?k = "slot_key pid"
  obtain got s where a: "acquire t (lane limit ?k st) = (got, s)" by (cases "acquire t (lane limit ?k st)")
  have l: "sem_ok limit (lane_holders ?k st) (lane limit ?k st)" using assms by (simp add: slots_ok_def)
  note r = acquire_ok [OF l a]
  show ?thesis
  proof (cases got)
    case True
    let ?st = "st\<lparr>sl_lanes := (sl_lanes st)(?k \<mapsto> s)\<rparr>"
    have "lane_holders j ?st = lane_holders j st" for j by (simp add: lane_holders_def)
    then have "slots_ok n limit (got_lane t ?k ?st)"
      using r(1) True assms by (intro got_lane_ok) (auto simp: slots_ok_def lane_def)
    then show ?thesis using a True by (simp add: enter_slot_def Let_def)
  next
    case False
    then show ?thesis using a r assms by (auto simp: enter_slot_def Let_def slots_ok_def lane_holders_def lane_def)
  qed
qed

lemma leave_lane_ok:
  assumes "sem_ok n (length (sl_reading st)) (sl_device st)" and "\<And>j. sem_ok limit (lane_holders j st) (lane limit j st)"
    and "(t, k) \<in> set (sl_inside st)"
    and "mset (map fst (sl_inside st)) = add_mset t (mset (sl_reading st) + mset (sm_waiters (sl_device st)))"
  shows "slots_ok n limit (leave_lane limit t k st)"
proof -
  obtain nxt s where r: "release_next (lane limit k st) = (nxt, s)" by (cases "release_next (lane limit k st)")
  define st' where "st' = st\<lparr>sl_lanes := (sl_lanes st)(k \<mapsto> s), sl_inside := remove1 (t, k) (sl_inside st)\<rparr>"
  obtain xs ys where p: "sl_inside st = xs @ (t, k) # ys" "(t, k) \<notin> set xs" using assms(3) by (meson split_list_first)
  then have h: "lane_holders j st = lane_holders j st' + (if j = k then 1 else 0)" for j
    by (simp add: st'_def lane_holders_def remove1_append)
  have inside: "mset (map fst (sl_inside st')) = mset (sl_reading st') + mset (sm_waiters (sl_device st'))"
    using assms(4) p by (simp add: st'_def remove1_append)
  have dev: "sem_ok n (length (sl_reading st')) (sl_device st')" using assms(1) by (simp add: st'_def)
  have "sem_ok limit (Suc (lane_holders k st')) (lane limit k st)" using assms(2) [of k] h [of k] by simp
  note rel = release_ok [OF this r]
  have lanes: "sem_ok limit (lane_holders j st' + (if j = k then (if nxt = None then 0 else 1) else 0)) (lane limit j st')" for j
  proof (cases "j = k")
    case True
    then show ?thesis using rel(1) by (cases nxt) (simp_all add: st'_def lane_def)
  next
    case False
    then show ?thesis using assms(2) [of j] h [of j] by (simp add: st'_def lane_def)
  qed
  show ?thesis
  proof (cases nxt)
    case None
    have "sem_ok limit (lane_holders j st') (lane limit j st')" for j using lanes [of j] None by (simp split: if_splits)
    then show ?thesis using None dev inside by (simp add: leave_lane_def r Let_def st'_def [symmetric] slots_ok_def)
  next
    case (Some u)
    have "sem_ok limit (lane_holders j st' + (if j = k then 1 else 0)) (lane limit j st')" for j using lanes [of j] Some by (simp split: if_splits)
    then have "slots_ok n limit (got_lane u k st')" by (rule got_lane_ok [OF dev _ inside])
    then show ?thesis using Some by (simp add: leave_lane_def r Let_def st'_def [symmetric])
  qed
qed

lemma leave_device_ok:
  assumes "slots_ok n limit st" and "t \<in> set (sl_reading st)"
  shows "sem_ok n (length (sl_reading (leave_device t st))) (sl_device (leave_device t st))"
    and "add_mset t (mset (sl_reading (leave_device t st)) + mset (sm_waiters (sl_device (leave_device t st)))) = mset (map fst (sl_inside st))"
proof -
  obtain nxt g where r: "release_next (sl_device st) = (nxt, g)" by (cases "release_next (sl_device st)")
  have len: "length (sl_reading st) = Suc (length (remove1 t (sl_reading st)))"
    using length_pos_if_in_set [OF assms(2)] assms(2) by (simp add: length_remove1)
  have "sem_ok n (length (sl_reading st)) (sl_device st)" using assms(1) by (simp add: slots_ok_def)
  then have "sem_ok n (Suc (length (remove1 t (sl_reading st)))) (sl_device st)" by (simp only: len)
  note rel = release_ok [OF this r]
  show "sem_ok n (length (sl_reading (leave_device t st))) (sl_device (leave_device t st))"
    using rel(1) by (cases nxt) (simp_all add: leave_device_def r)
  have "mset (sl_reading st) = add_mset t (mset (remove1 t (sl_reading st)))" using assms(2) by simp
  moreover have "mset (map fst (sl_inside st)) = mset (sl_reading st) + mset (sm_waiters (sl_device st))" using assms(1) by (simp add: slots_ok_def)
  moreover have "sl_reading (leave_device t st) = (case nxt of None \<Rightarrow> [] | Some u \<Rightarrow> [u]) @ remove1 t (sl_reading st)"
      "sl_device (leave_device t st) = g"
    by (simp_all add: leave_device_def r)
  moreover have "mset (sm_waiters (sl_device st)) = mset (case nxt of None \<Rightarrow> [] | Some u \<Rightarrow> [u]) + mset (sm_waiters g)"
    using rel(2) by (cases nxt) simp_all
  ultimately show "add_mset t (mset (sl_reading (leave_device t st)) + mset (sm_waiters (sl_device (leave_device t st)))) = mset (map fst (sl_inside st))"
    by (simp only: mset_append) simp
qed

lemma slot_step_ok:
  assumes "slot_step limit st st'" and "slots_ok n limit st"
  shows "slots_ok n limit st'"
  using assms(1)
proof cases
  case (Arrives t pid)
  then show ?thesis using enter_slot_ok [OF assms(2)] by simp
next
  case (Leaves t k)
  have same: "lane_holders j (leave_device t st) = lane_holders j st" "lane limit j (leave_device t st) = lane limit j st"
      "sl_inside (leave_device t st) = sl_inside st" for j
    by (auto simp: leave_device_def lane_holders_def lane_def split: prod.split)
  show ?thesis unfolding Leaves(1)
    using leave_device_ok [OF assms(2) Leaves(2)] assms(2) Leaves(3) same by (intro leave_lane_ok) (auto simp: slots_ok_def)
next
  case (Cancelled_in_lane k s t)
  have "sem_ok limit (lane_holders j st') (lane limit j st')" for j
  proof -
    have "sem_ok limit (lane_holders j st) (lane limit j st)" using assms(2) by (simp add: slots_ok_def)
    then show ?thesis using Cancelled_in_lane by (auto simp: sem_ok_def lane_holders_def lane_def split: if_splits)
  qed
  then show ?thesis using assms(2) Cancelled_in_lane(1) by (simp add: slots_ok_def)
next
  case (Cancelled_at_device t k)
  let ?st = "st\<lparr>sl_device := (sl_device st)\<lparr>sm_waiters := remove1 t (sm_waiters (sl_device st))\<rparr>\<rparr>"
  have "lane_holders j ?st = lane_holders j st" "lane limit j ?st = lane limit j st" for j by (simp_all add: lane_holders_def lane_def)
  moreover have "add_mset t (mset (remove1 t (sm_waiters (sl_device st)))) = mset (sm_waiters (sl_device st))" using Cancelled_at_device(2) by simp
  ultimately show ?thesis unfolding Cancelled_at_device(1)
    using assms(2) Cancelled_at_device(2,3) by (intro leave_lane_ok) (auto simp: slots_ok_def sem_ok_def)
qed

lemma slots_run_ok: "slots_run n pp st \<Longrightarrow> slots_ok n (lane_limit n pp) st"
proof (induction rule: slots_run.induct)
  case (Start st)
  then show ?case by (auto simp: new_slots_def slots_ok_def sem_ok_def new_semaphore_def lane_holders_def lane_def split: if_splits)
next
  case (Step st st')
  then show ?case using slot_step_ok by blast
qed

text \<open>
  C24. Reads are bounded and do not block each other for good: whatever calls arrive, finish and are
  cancelled in whatever order, at most \<open>read_concurrency\<close> tools read on the device and at most the
  lane's limit of one project are past their lane, every reader holds a lane slot, and when a task
  waits anywhere some task reads, so a slot will be handed on.
\<close>

theorem read_slots_bounded:
  assumes "slots_run n pp st"
  shows "length (sl_reading st) \<le> n \<and> lane_holders k st \<le> lane_limit n pp \<and> set (sl_reading st) \<subseteq> fst ` set (sl_inside st)
    \<and> (sm_waiters (sl_device st) \<noteq> [] \<or> sm_waiters (lane (lane_limit n pp) k st) \<noteq> [] \<longrightarrow> sl_reading st \<noteq> [])"
proof -
  have ok: "slots_ok n (lane_limit n pp) st" by (rule slots_run_ok [OF assms])
  have dev: "sem_ok n (length (sl_reading st)) (sl_device st)" and ln: "sem_ok (lane_limit n pp) (lane_holders k st) (lane (lane_limit n pp) k st)"
    and ins: "mset (map fst (sl_inside st)) = mset (sl_reading st) + mset (sm_waiters (sl_device st))"
    using ok by (simp_all add: slots_ok_def)
  have pos: "1 \<le> n \<and> pp \<noteq> Some 0" using assms by (induction rule: slots_run.induct) (auto simp: new_slots_def split: if_splits)
  then have lim: "1 \<le> lane_limit n pp" by (cases pp) (auto simp: lane_limit_def)
  have "fst ` set (sl_inside st) = set (sl_reading st) \<union> set (sm_waiters (sl_device st))"
    using arg_cong [OF ins, of set_mset] by simp
  moreover have "sl_reading st \<noteq> []" if "sm_waiters (sl_device st) \<noteq> []" using dev that pos by (auto simp: sem_ok_def)
  moreover have "sl_inside st \<noteq> []" if "sm_waiters (lane (lane_limit n pp) k st) \<noteq> []"
    using ln that lim by (auto simp: sem_ok_def lane_holders_def)
  ultimately have "sm_waiters (sl_device st) \<noteq> [] \<or> sm_waiters (lane (lane_limit n pp) k st) \<noteq> [] \<Longrightarrow> sl_reading st \<noteq> []"
    by (cases "sl_reading st = []") (simp_all, metis empty_set image_is_empty set_empty)
  moreover have "set (sl_reading st) \<subseteq> fst ` set (sl_inside st)" using arg_cong [OF ins, of set_mset] by auto
  ultimately show ?thesis using dev ln by (simp add: sem_ok_def)
qed

definition demo_slots :: slots where
  "demo_slots = enter_slot 1 3 None (enter_slot 1 2 (Some [112]) (enter_slot 1 1 (Some [112])
     \<lparr>sl_lanes = Map.empty, sl_device = new_semaphore 1, sl_inside = [], sl_reading = []\<rparr>))"

theorem read_slots_bounded_witness:
  "length (sl_reading demo_slots) \<le> 1 \<and> lane_holders [112] demo_slots \<le> lane_limit 1 None
   \<and> sm_waiters (sl_device demo_slots) = [3] \<and> sm_waiters (lane 1 [112] demo_slots) = [2]"
proof -
  have l: "lane_limit 1 None = 1" by (simp add: lane_limit_def)
  have arrives: "slots_run 1 None (enter_slot 1 t pid st)" if "slots_run 1 None st" for t pid st
    using slots_run.Step [OF that slot_step.Arrives] by (simp only: l)
  have "slots_run 1 None \<lparr>sl_lanes = Map.empty, sl_device = new_semaphore 1, sl_inside = [], sl_reading = []\<rparr>"
    by (rule slots_run.Start) (simp add: new_slots_def)
  then have "slots_run 1 None demo_slots" unfolding demo_slots_def by (intro arrives)
  then have "length (sl_reading demo_slots) \<le> 1 \<and> lane_holders [112] demo_slots \<le> lane_limit 1 None"
    using read_slots_bounded [of 1 None demo_slots "[112]"] by blast
  moreover have "sm_waiters (sl_device demo_slots) = [3]" "sm_waiters (lane 1 [112] demo_slots) = [2]" by code_simp+
  ultimately show ?thesis by blast
qed

end
