(* ===== verification/Read_Codec.thy ===== *)
theory Read_Codec
  imports Agent_Db_Inv
begin

text \<open>
  The codecs of the read tools (\<open>agent/src/codito_agent/read_tools.py\<close>, first part): continuation
  cursors in URL-safe base64, and the detection of a file's text encoding with the UTF-16 codec.
  Of the standard library, \<open>base64.urlsafe_b64decode\<close> is \<open>binascii.a2b_base64\<close> in its lenient mode,
  and \<open>int\<close> reads the decimal digits of every script.
\<close>

section \<open>Base64\<close>

definition b64_char :: "nat \<Rightarrow> nat" where
  "b64_char v = (if v < 26 then 65 + v else if v < 52 then 71 + v else if v < 62 then v - 4
     else if v = 62 then 45 else 95)"

text \<open>The decoder first turns \<open>-\<close> and \<open>_\<close> into \<open>+\<close> and \<open>/\<close>, so it takes both alphabets.\<close>

definition b64_value :: "nat \<Rightarrow> nat option" where
  "b64_value c = (if 65 \<le> c \<and> c \<le> 90 then Some (c - 65) else if 97 \<le> c \<and> c \<le> 122 then Some (c - 71)
     else if 48 \<le> c \<and> c \<le> 57 then Some (c + 4) else if c = 45 \<or> c = 43 then Some 62
     else if c = 95 \<or> c = 47 then Some 63 else None)"

text \<open>\<open>urlsafe_b64encode\<close> with the padding already stripped.\<close>

fun urlsafe_b64encode :: "bytes \<Rightarrow> pystr" where
  "urlsafe_b64encode [] = []"
| "urlsafe_b64encode [a] = [b64_char (a div 4), b64_char (a mod 4 * 16)]"
| "urlsafe_b64encode [a, b] = [b64_char (a div 4), b64_char (a mod 4 * 16 + b div 16), b64_char (b mod 16 * 4)]"
| "urlsafe_b64encode (a # b # c # r) = [b64_char (a div 4), b64_char (a mod 4 * 16 + b div 16),
     b64_char (b mod 16 * 4 + c div 64), b64_char (c mod 64)] @ urlsafe_b64encode r"

text \<open>
  The loop of the decoder: the position in the group of four, the bits left over and the number of
  padding characters seen.  Characters outside the alphabet are skipped.
\<close>

fun a2b_base64 :: "nat \<Rightarrow> nat \<Rightarrow> nat \<Rightarrow> pystr \<Rightarrow> bytes option" where
  "a2b_base64 quad left pads [] = (if quad = 0 then Some [] else None)"
| "a2b_base64 quad left pads (c # cs) =
     (if c = 61 then
        (if 2 \<le> quad \<and> 4 \<le> quad + Suc pads then Some []
         else a2b_base64 quad left (if 2 \<le> quad then Suc pads else pads) cs)
      else case b64_value c of
        None \<Rightarrow> a2b_base64 quad left pads cs
      | Some v \<Rightarrow>
          if quad = 0 then a2b_base64 1 v 0 cs
          else if quad = 1 then map_option (Cons (left * 4 + v div 16)) (a2b_base64 2 (v mod 16) 0 cs)
          else if quad = 2 then map_option (Cons (left * 16 + v div 4)) (a2b_base64 3 (v mod 4) 0 cs)
          else map_option (Cons (left * 64 + v)) (a2b_base64 0 0 0 cs))"

definition urlsafe_b64decode :: "pystr \<Rightarrow> bytes option" where
  "urlsafe_b64decode s = (if list_all (\<lambda>c. c < 128) s then a2b_base64 0 0 0 s else None)"

definition padded :: "pystr \<Rightarrow> pystr" where
  "padded s = s @ replicate ((4 - length s mod 4) mod 4) 61"

lemma b64_value_char: "v < 64 \<Longrightarrow> b64_value (b64_char v) = Some v \<and> b64_char v \<noteq> 61 \<and> b64_char v < 128"
  by (auto simp: b64_value_def b64_char_def)

lemma b64_length: "length (urlsafe_b64encode bs) mod 4 = (if length bs mod 3 = 0 then 0 else Suc (length bs mod 3))"
proof (induction bs rule: urlsafe_b64encode.induct)
  case (4 a b c r)
  then show ?case by (simp add: mod_Suc_eq)
qed auto

lemma b64_ascii: "list_all (\<lambda>b. b < 256) bs \<Longrightarrow> list_all (\<lambda>c. c < 128) (urlsafe_b64encode bs)"
  by (induction bs rule: urlsafe_b64encode.induct) (auto simp: b64_value_char)

lemma a2b_encode: "list_all (\<lambda>b. b < 256) bs \<Longrightarrow>
    a2b_base64 0 0 0 (urlsafe_b64encode bs @ replicate ((4 - length (urlsafe_b64encode bs) mod 4) mod 4) 61) = Some bs"
proof (induction bs rule: urlsafe_b64encode.induct)
  case (2 a)
  then have "a div 4 < 64" "a mod 4 * 16 < 64" by auto
  then show ?case by (simp add: b64_value_char numeral_2_eq_2)
next
  case (3 a b)
  then have "a div 4 < 64" "a mod 4 * 16 + b div 16 < 64" "b mod 16 * 4 < 64" by auto
  moreover have "a mod 4 * 16 div 16 = a mod 4" by simp
  moreover have "(a mod 4 * 16 + b div 16) div 16 = a mod 4" "(a mod 4 * 16 + b div 16) mod 16 = b div 16"
    using 3 by auto
  ultimately show ?case by (simp add: b64_value_char)
next
  case (4 a b c r)
  then have "a div 4 < 64" "a mod 4 * 16 + b div 16 < 64" "b mod 16 * 4 + c div 64 < 64" "c mod 64 < 64" by auto
  moreover have "(a mod 4 * 16 + b div 16) div 16 = a mod 4" "(a mod 4 * 16 + b div 16) mod 16 = b div 16"
    "(b mod 16 * 4 + c div 64) div 4 = b mod 16" "(b mod 16 * 4 + c div 64) mod 4 = c div 64"
    using 4 by auto
  ultimately show ?case using 4 by (simp add: b64_value_char)
qed simp

lemma b64_roundtrip [simp]:
  "list_all (\<lambda>b. b < 256) bs \<Longrightarrow> urlsafe_b64decode (padded (urlsafe_b64encode bs)) = Some bs"
  using a2b_encode [of bs] b64_ascii [of bs] by (auto simp: urlsafe_b64decode_def padded_def list_all_iff)

lemma b64_nonempty: "bs \<noteq> [] \<Longrightarrow> urlsafe_b64encode bs \<noteq> []"
  by (cases bs rule: urlsafe_b64encode.cases) auto

section \<open>Integers\<close>

text \<open>The zeros of the decimal digits of Unicode 15.0, the version of Python 3.12.\<close>

definition decimal_zeros :: "nat list" where
  "decimal_zeros = [0x30, 0x660, 0x6f0, 0x7c0, 0x966, 0x9e6, 0xa66, 0xae6, 0xb66, 0xbe6, 0xc66, 0xce6, 0xd66, 0xde6,
     0xe50, 0xed0, 0xf20, 0x1040, 0x1090, 0x17e0, 0x1810, 0x1946, 0x19d0, 0x1a80, 0x1a90, 0x1b50, 0x1bb0, 0x1c40,
     0x1c50, 0xa620, 0xa8d0, 0xa900, 0xa9d0, 0xa9f0, 0xaa50, 0xabf0, 0xff10, 0x104a0, 0x10d30, 0x11066, 0x110f0,
     0x11136, 0x111d0, 0x112f0, 0x11450, 0x114d0, 0x11650, 0x116c0, 0x11730, 0x118e0, 0x11950, 0x11c50, 0x11d50,
     0x11da0, 0x11f50, 0x16a60, 0x16ac0, 0x16b50, 0x1d7ce, 0x1d7d8, 0x1d7e2, 0x1d7ec, 0x1d7f6, 0x1e140, 0x1e2f0,
     0x1e4f0, 0x1e950, 0x1fbf0]"

definition ascii_digit :: "nat \<Rightarrow> nat" where
  "ascii_digit c = (case find (\<lambda>z. z \<le> c \<and> c < z + 10) decimal_zeros of Some z \<Rightarrow> 48 + (c - z) | None \<Rightarrow> c)"

definition int_of_text :: "pystr \<Rightarrow> int option" where
  "int_of_text s = py_int (map ascii_digit s)"

lemma ascii_digit_low: "c < 128 \<Longrightarrow> ascii_digit c = c"
  by (auto simp: ascii_digit_def decimal_zeros_def)

lemma int_of_py_str [simp]: "int_of_text (py_str_nat n) = Some (int n)"
proof -
  have "map ascii_digit (py_str_nat n) = py_str_nat n"
    using py_str_nat_digits [of n] by (intro map_idI ascii_digit_low) (auto simp: list_all_iff)
  moreover have "py_str (int n) = py_str_nat n" by (simp add: py_str_def)
  ultimately show ?thesis using py_int_str [of "int n"] by (simp add: int_of_text_def)
qed

section \<open>Cursors\<close>

definition invalid_cursor :: exn where
  "invalid_cursor = raise ''invalid_cursor''"

definition decoded_cursor :: "pystr \<Rightarrow> pystr res" where
  "decoded_cursor s = (case Option.bind (urlsafe_b64decode (padded s)) utf8_decode of
     None \<Rightarrow> Inl invalid_cursor | Some t \<Rightarrow> Inr t)"

definition encode_cursor :: "nat \<Rightarrow> pystr" where
  "encode_cursor n = urlsafe_b64encode (utf8_encode (py_str_nat n))"

definition decode_cursor :: "pystr option \<Rightarrow> nat res" where
  "decode_cursor value =
     (if value = None \<or> value = Some [] then Inr 0
      else bindE (decoded_cursor (the value)) (\<lambda>t.
        case int_of_text t of
          None \<Rightarrow> Inl invalid_cursor
        | Some i \<Rightarrow> if i < 0 then Inl invalid_cursor else Inr (nat i)))"

definition encode_search_cursor :: "nat \<Rightarrow> nat \<Rightarrow> pystr" where
  "encode_search_cursor candidate line =
     urlsafe_b64encode (utf8_encode (lit ''search-v2:'' @ py_str_nat candidate @ [58] @ py_str_nat line))"

text \<open>Both numbers of a pair, neither negative.\<close>

definition natural_pair :: "pystr \<Rightarrow> pystr \<Rightarrow> (nat \<times> nat) res" where
  "natural_pair a b =
     (case (int_of_text a, int_of_text b) of
        (Some i, Some j) \<Rightarrow> if i < 0 \<or> j < 0 then Inl invalid_cursor else Inr (nat i, nat j)
      | _ \<Rightarrow> Inl invalid_cursor)"

definition decode_search_cursor :: "pystr option \<Rightarrow> (nat \<times> nat) res" where
  "decode_search_cursor value =
     (if value = None \<or> value = Some [] then Inr (0, 0)
      else bindE (decoded_cursor (the value)) (\<lambda>t.
        case split_on 58 t of
          [version, candidate, line] \<Rightarrow>
            bindE (natural_pair candidate line) (\<lambda>p. if version \<noteq> lit ''search-v2'' then Inl invalid_cursor else Inr p)
        | _ \<Rightarrow> Inl invalid_cursor))"

definition encode_read_cursor :: "nat \<Rightarrow> nat \<Rightarrow> pystr" where
  "encode_read_cursor line character = urlsafe_b64encode (utf8_encode (py_str_nat line @ [58] @ py_str_nat character))"

text \<open>\<open>decoded.split(":", 1)\<close> keeps every later colon in the second part, where \<open>int\<close> refuses it.\<close>

definition decode_read_cursor :: "pystr \<Rightarrow> (nat \<times> nat) res" where
  "decode_read_cursor value =
     bindE (decoded_cursor value) (\<lambda>t.
       case split_on 58 t of
         line # part # parts \<Rightarrow> natural_pair line (join [58] (part # parts))
       | _ \<Rightarrow> Inl invalid_cursor)"

lemma ascii_text: "list_all (\<lambda>c. c < 128) s \<Longrightarrow> utf8_encode s = s \<and> list_all scalar s"
  by (induction s) (auto simp: utf8_char_def scalar_def)

lemma digits_ascii: "list_all (\<lambda>c. c < 128) (py_str_nat n)"
  using py_str_nat_digits [of n] by (auto simp: list_all_iff)

lemma decoded_cursor_encode:
  assumes "list_all (\<lambda>c. c < 128) s"
  shows "decoded_cursor (urlsafe_b64encode (utf8_encode s)) = Inr s"
proof -
  have "list_all (\<lambda>b. b < 256) (utf8_encode s)" using assms ascii_text by (auto simp: list_all_iff)
  moreover have "utf8_decode (utf8_encode s) = Some s" using ascii_text [OF assms] utf8_decode_encode by blast
  ultimately show ?thesis by (simp add: decoded_cursor_def)
qed

lemma natural_pair_str [simp]: "natural_pair (py_str_nat i) (py_str_nat j) = Inr (i, j)"
  by (simp add: natural_pair_def)

lemma no_colon: "58 \<notin> set (py_str_nat n)"
  using py_str_nat_digits [of n] by (auto simp: list_all_iff)

lemma cursor_roundtrip [simp]: "decode_cursor (Some (encode_cursor n)) = Inr n"
proof -
  have "encode_cursor n \<noteq> []"
    using py_str_nat_digits [of n] digits_ascii by (simp add: encode_cursor_def ascii_text b64_nonempty)
  then show ?thesis by (simp add: decode_cursor_def encode_cursor_def decoded_cursor_encode digits_ascii)
qed

lemma read_cursor_roundtrip [simp]: "decode_read_cursor (encode_read_cursor l c) = Inr (l, c)"
proof -
  have "list_all (\<lambda>x. x < 128) (py_str_nat l @ [58] @ py_str_nat c)" using digits_ascii by simp
  then show ?thesis
    by (simp add: decode_read_cursor_def encode_read_cursor_def decoded_cursor_encode split_on_append
        split_on_whole no_colon del: append_Cons append.simps utf8_encode_simps) (simp add: split_on_append split_on_whole no_colon)
qed

lemma read_cursor_nonempty [simp]: "encode_read_cursor l c \<noteq> []"
proof -
  have "list_all (\<lambda>x. x < 128) (py_str_nat l @ [58] @ py_str_nat c)" using digits_ascii by simp
  then show ?thesis unfolding encode_read_cursor_def by (intro b64_nonempty) (metis ascii_text append_is_Nil_conv not_Cons_self2)
qed

lemma search_cursor_roundtrip [simp]: "decode_search_cursor (Some (encode_search_cursor i l)) = Inr (i, l)"
proof -
  let ?s = "lit ''search-v2:'' @ py_str_nat i @ [58] @ py_str_nat l"
  have a: "list_all (\<lambda>x. x < 128) ?s" using digits_ascii by (simp add: lit_def)
  then have "encode_search_cursor i l \<noteq> []"
    unfolding encode_search_cursor_def by (intro b64_nonempty) (metis ascii_text append_is_Nil_conv not_Cons_self2)
  moreover have "?s = lit ''search-v2'' @ 58 # (py_str_nat i @ 58 # py_str_nat l)" by (simp add: lit_def)
  moreover have "58 \<notin> set (lit ''search-v2'')" by (simp add: lit_def)
  ultimately have "split_on 58 ?s = [lit ''search-v2'', py_str_nat i, py_str_nat l]"
    by (simp only: split_on_append no_colon split_on_whole not_False_eq_True)
  then show ?thesis
    using \<open>encode_search_cursor i l \<noteq> []\<close> decoded_cursor_encode [OF a]
    by (simp add: decode_search_cursor_def encode_search_cursor_def)
qed

section \<open>Text encodings\<close>

datatype encoding = Utf8 | Utf8_sig | Utf16_le | Utf16_be

definition encoding_name :: "encoding \<Rightarrow> pystr" where
  "encoding_name e = (case e of Utf8 \<Rightarrow> lit ''utf-8'' | Utf8_sig \<Rightarrow> lit ''utf-8-sig''
     | Utf16_le \<Rightarrow> lit ''utf-16-le'' | Utf16_be \<Rightarrow> lit ''utf-16-be'')"

definition utf16_units :: "nat \<Rightarrow> nat list" where
  "utf16_units c = (if c < 0x10000 then [c] else [0xD800 + (c - 0x10000) div 1024, 0xDC00 + (c - 0x10000) mod 1024])"

definition unit_bytes :: "bool \<Rightarrow> nat \<Rightarrow> bytes" where
  "unit_bytes big u = (if big then [u div 256, u mod 256] else [u mod 256, u div 256])"

definition utf16_encode :: "bool \<Rightarrow> pystr \<Rightarrow> bytes" where
  "utf16_encode big s = concat (map (unit_bytes big) (concat (map utf16_units s)))"

fun utf16_units_of :: "bool \<Rightarrow> bytes \<Rightarrow> nat list option" where
  "utf16_units_of big [] = Some []"
| "utf16_units_of big [b] = None"
| "utf16_units_of big (a # b # r) =
     map_option (Cons (if big then 256 * a + b else 256 * b + a)) (utf16_units_of big r)"

fun utf16_chars :: "nat list \<Rightarrow> pystr option" where
  "utf16_chars [] = Some []"
| "utf16_chars (u # us) =
     (if u < 0xD800 \<or> 0xE000 \<le> u then map_option (Cons u) (utf16_chars us)
      else if 0xDC00 \<le> u then None
      else case us of
        [] \<Rightarrow> None
      | v # vs \<Rightarrow>
          if 0xDC00 \<le> v \<and> v < 0xE000
          then map_option (Cons (0x10000 + (u - 0xD800) * 1024 + (v - 0xDC00))) (utf16_chars vs)
          else None)"

definition utf16_decode :: "bool \<Rightarrow> bytes \<Rightarrow> pystr option" where
  "utf16_decode big bs = Option.bind (utf16_units_of big bs) utf16_chars"

definition bom :: "encoding \<Rightarrow> bytes" where
  "bom e = (case e of Utf8 \<Rightarrow> [] | Utf8_sig \<Rightarrow> [0xEF, 0xBB, 0xBF] | Utf16_le \<Rightarrow> [0xFF, 0xFE] | Utf16_be \<Rightarrow> [0xFE, 0xFF])"

text \<open>\<open>part.encode(_payload_codec(encoding))\<close>: the content without the mark at its front.\<close>

definition payload :: "encoding \<Rightarrow> pystr \<Rightarrow> bytes" where
  "payload e s = (case e of Utf16_le \<Rightarrow> utf16_encode False s | Utf16_be \<Rightarrow> utf16_encode True s | _ \<Rightarrow> utf8_encode s)"

definition unsupported_encoding :: exn where
  "unsupported_encoding = raise ''unsupported_encoding''"

definition detect_text :: "bytes \<Rightarrow> (pystr \<times> encoding) res" where
  "detect_text raw =
     (let wide = prefix (bom Utf16_le) raw \<or> prefix (bom Utf16_be) raw in
      if 0 \<in> set (take 8192 raw) \<and> \<not> wide then Inl (raise ''binary_file'')
      else if prefix (bom Utf8_sig) raw then
        (case utf8_decode (drop 3 raw) of None \<Rightarrow> Inl unsupported_encoding | Some t \<Rightarrow> Inr (t, Utf8_sig))
      else if wide then
        (let big = prefix (bom Utf16_be) raw in
         case utf16_decode big (drop 2 raw) of
           None \<Rightarrow> Inl unsupported_encoding
         | Some t \<Rightarrow> Inr (t, if big then Utf16_be else Utf16_le))
      else (case utf8_decode raw of None \<Rightarrow> Inl unsupported_encoding | Some t \<Rightarrow> Inr (t, Utf8)))"

fun count_crlf :: "pystr \<Rightarrow> nat" where
  "count_crlf (a # b # s) = (if a = 13 \<and> b = 10 then Suc (count_crlf s) else count_crlf (b # s))"
| "count_crlf _ = 0"

datatype newline_kind = Nl_lf | Nl_crlf | Nl_cr | Nl_mixed | Nl_none

definition newline_style :: "pystr \<Rightarrow> newline_kind" where
  "newline_style text =
     (let crlf = count_crlf text; lf = count_list text 10 - crlf; cr = count_list text 13 - crlf;
          kinds = length (filter (\<lambda>n. 0 < n) [crlf, lf, cr]) in
      if 1 < kinds then Nl_mixed else if 0 < crlf then Nl_crlf else if 0 < lf then Nl_lf
      else if 0 < cr then Nl_cr else Nl_none)"

lemma utf16_units_of_sound:
  "utf16_units_of big bs = Some us \<Longrightarrow> list_all (\<lambda>b. b < 256) bs \<Longrightarrow> concat (map (unit_bytes big) us) = bs"
  by (induction big bs arbitrary: us rule: utf16_units_of.induct) (auto simp: unit_bytes_def)

lemma utf16_chars_sound: "utf16_chars us = Some s \<Longrightarrow> list_all (\<lambda>u. u < 0x10000) us \<Longrightarrow> concat (map utf16_units s) = us"
proof (induction us arbitrary: s rule: utf16_chars.induct)
  case (2 u us)
  show ?case
  proof (cases "u < 0xD800 \<or> 0xE000 \<le> u")
    case True
    then show ?thesis using 2 by (auto simp: utf16_units_def)
  next
    case False
    then obtain v vs t where v: "us = v # vs" "u < 0xDC00" "0xDC00 \<le> v" "v < 0xE000"
        and t: "utf16_chars vs = Some t" "s = (0x10000 + (u - 0xD800) * 1024 + (v - 0xDC00)) # t"
      using "2.prems"(1) by (auto split: list.splits if_splits)
    have "concat (map utf16_units t) = vs" using "2.IH"(2) "2.prems"(2) False v t by auto
    moreover have "utf16_units (0x10000 + (u - 0xD800) * 1024 + (v - 0xDC00)) = [u, v]"
    proof -
      obtain a b where "u = 0xD800 + a" "v = 0xDC00 + b" using False v by (metis le_iff_add not_less)
      then show ?thesis using v(4) by (simp add: utf16_units_def)
    qed
    ultimately show ?thesis using t(2) v(1) by simp
  qed
qed simp

lemma utf16_units_of_bound: "utf16_units_of big bs = Some us \<Longrightarrow> list_all (\<lambda>b. b < 256) bs \<Longrightarrow> list_all (\<lambda>u. u < 0x10000) us"
  by (induction big bs arbitrary: us rule: utf16_units_of.induct) auto

lemma utf16_decode_sound:
  assumes "utf16_decode big bs = Some s" and "list_all (\<lambda>b. b < 256) bs"
  shows "utf16_encode big s = bs"
proof -
  obtain us where "utf16_units_of big bs = Some us" "utf16_chars us = Some s"
    using assms(1) by (auto simp: utf16_decode_def bind_eq_Some_conv)
  then show ?thesis
    using utf16_units_of_sound utf16_units_of_bound utf16_chars_sound assms(2) by (metis utf16_encode_def)
qed

text \<open>A detected text is the file: encoded again behind its mark it gives the same bytes.\<close>

lemma detect_text_exact:
  assumes "detect_text raw = Inr (t, e)" and "list_all (\<lambda>b. b < 256) raw"
  shows "bom e @ payload e t = raw"
proof -
  have 8: "utf8_decode bs = Some s \<Longrightarrow> utf8_encode s = bs" for bs s using utf8_decode_sound by blast
  have d: "list_all (\<lambda>b. b < 256) (drop n raw)" for n using assms(2) by (metis append_take_drop_id list_all_append)
  consider (sig) "prefix (bom Utf8_sig) raw" "utf8_decode (drop 3 raw) = Some t" "e = Utf8_sig"
    | (le) "prefix (bom Utf16_le) raw" "utf16_decode False (drop 2 raw) = Some t" "e = Utf16_le"
    | (be) "prefix (bom Utf16_be) raw" "utf16_decode True (drop 2 raw) = Some t" "e = Utf16_be"
    | (plain) "utf8_decode raw = Some t" "e = Utf8"
    using assms(1) by (auto simp: detect_text_def Let_def split: if_splits option.splits)
  then show ?thesis
  proof cases
    case sig
    then show ?thesis using 8 by (auto simp: payload_def bom_def prefix_def)
  next
    case le
    then show ?thesis using utf16_decode_sound [OF _ d] by (auto simp: payload_def bom_def prefix_def)
  next
    case be
    then show ?thesis using utf16_decode_sound [OF _ d] by (auto simp: payload_def bom_def prefix_def)
  next
    case plain
    then show ?thesis using 8 by (auto simp: payload_def bom_def)
  qed
qed

lemma payload_simps [simp]: "payload e [] = []" "payload e (s @ t) = payload e s @ payload e t"
  by (cases e; simp add: payload_def utf16_encode_def)+

lemma payload_char: "length (payload e [c]) \<le> 4" "0 < length (payload e [c])"
  by (cases e; simp add: payload_def utf16_encode_def utf16_units_def unit_bytes_def utf8_char_def)+

end
