(* ===== verification/Paging.thy ===== *)
theory Paging
  imports Main
begin

text \<open>
  Paged results: a client calls an operation, and while the answer has a continuation calls it again
  with that.  The locale \<open>paged\<close> states what an operation has to promise for such a client to get
  everything, and bounds the number of calls.
\<close>

fun follow :: "('c \<Rightarrow> 'e + 'a list \<times> 'c option) \<Rightarrow> nat \<Rightarrow> 'c \<Rightarrow> 'a list option" where
  "follow page 0 c = None"
| "follow page (Suc n) c =
     (case page c of
        Inl e \<Rightarrow> None
      | Inr (xs, None) \<Rightarrow> Some xs
      | Inr (xs, Some c') \<Rightarrow> map_option (append xs) (follow page n c'))"

text \<open>
  \<open>rest c\<close> is what remains from the cursor \<open>c\<close> on; a page that has a continuation leaves less of it
  to do.
\<close>

locale paged =
  fixes page :: "'c \<Rightarrow> 'e + 'a list \<times> 'c option"
    and valid :: "'c \<Rightarrow> bool"
    and rest :: "'c \<Rightarrow> 'a list"
    and todo :: "'c \<Rightarrow> nat"
  assumes page_answers: "valid c \<Longrightarrow> \<exists>xs n. page c = Inr (xs, n)"
    and page_last: "valid c \<Longrightarrow> page c = Inr (xs, None) \<Longrightarrow> rest c = xs"
    and page_next: "valid c \<Longrightarrow> page c = Inr (xs, Some c') \<Longrightarrow> valid c' \<and> rest c = xs @ rest c' \<and> todo c' < todo c"
begin

lemma follow_complete: "valid c \<Longrightarrow> todo c < n \<Longrightarrow> follow page n c = Some (rest c)"
proof (induction n arbitrary: c)
  case (Suc n)
  obtain xs k where p: "page c = Inr (xs, k)" using page_answers [OF Suc.prems(1)] by blast
  show ?case
  proof (cases k)
    case None
    then show ?thesis using p page_last [OF Suc.prems(1)] by simp
  next
    case (Some c')
    have "valid c'" "rest c = xs @ rest c'" "todo c' < n"
      using page_next [OF Suc.prems(1)] p Some Suc.prems(2) by fastforce+
    then show ?thesis using Suc.IH p Some by simp
  qed
qed simp

end

end
