(* ===== verification/Read_Text.thy ===== *)
theory Read_Text
  imports Read_Codec Paging Disk
begin

text \<open>
  \<open>ProjectReadService.read_file\<close> (\<open>read_tools.py\<close>): a page of a text file within a byte and a line
  budget, with the cursor of the next one.  \<open>rd\<close> is \<open>ProjectPathResolver.open_read\<close>: the bytes of a
  file of a project, by one of its two branches (\<open>open_read\<close> of the theory \<open>Disk\<close> away from Windows,
  a pinned scope on Windows).
\<close>

section \<open>Pages\<close>

type_synonym reader = "project \<Rightarrow> pystr \<Rightarrow> bytes res"

text \<open>The binary search for the longest prefix that fits.\<close>

function bisect :: "(nat \<Rightarrow> bool) \<Rightarrow> nat \<Rightarrow> nat \<Rightarrow> nat" where
  "bisect fits low high =
     (if low < high then
        let middle = (low + high + 1) div 2 in
        if fits middle then bisect fits middle high else bisect fits low (middle - 1)
      else low)"
  by pat_completeness auto
termination
  by (relation "measure (\<lambda>(fits, low, high). high - low)") auto

declare bisect.simps [simp del]

text \<open>
  The loop over the lines from the cursor: what is left of the budget, the index of the line, the
  offset into it (of the first line only), and the cursor if nothing more fits.
\<close>

fun page_loop :: "encoding \<Rightarrow> nat \<Rightarrow> nat \<Rightarrow> nat \<Rightarrow> pystr list \<Rightarrow> nat \<times> nat \<Rightarrow> pystr list \<times> nat \<times> nat" where
  "page_loop e remaining index offset [] nxt = ([], nxt)"
| "page_loop e remaining index offset (line # lines) nxt =
     (let part = drop offset line; encoded = payload e part in
      if length encoded \<le> remaining then
        (case page_loop e (remaining - length encoded) (Suc index) 0 lines (Suc index, 0) of
           (selected, n) \<Rightarrow> (part # selected, n))
      else
        let low = bisect (\<lambda>k. length (payload e (take k part)) \<le> remaining) 0 (length part) in
        if 0 < low then ([take low part], (index, offset + low)) else ([], nxt))"

definition MAX_READ_BYTES :: nat where
  "MAX_READ_BYTES = 2097152"

record read_file_request =
  rq_project :: pystr
  rq_path :: pystr
  rq_start :: "int option"
  rq_end :: "int option"
  rq_max_bytes :: int
  rq_max_lines :: "int option"
  rq_cursor :: "pystr option"

record file_page =
  fp_path :: pystr
  fp_text :: pystr
  fp_numbered :: pystr
  fp_encoding :: encoding
  fp_newline :: newline_kind
  fp_size :: nat
  fp_sha :: pystr
  fp_first :: nat
  fp_last :: nat
  fp_truncated :: bool
  fp_continuation :: "pystr option"

definition invalid_request :: exn where
  "invalid_request = raise ''invalid_request''"

text \<open>An empty cursor is as good as none.\<close>

definition cursor_given :: "pystr option \<Rightarrow> bool" where
  "cursor_given c \<longleftrightarrow> c \<noteq> None \<and> c \<noteq> Some []"

definition check_read_request :: "read_file_request \<Rightarrow> unit res" where
  "check_read_request q =
     (if \<not> (1 \<le> rq_max_bytes q \<and> rq_max_bytes q \<le> int MAX_READ_BYTES) then Inl invalid_request
      else if (case rq_max_lines q of None \<Rightarrow> False | Some n \<Rightarrow> \<not> (1 \<le> n \<and> n \<le> 2000)) then Inl invalid_request
      else if cursor_given (rq_cursor q) \<and> (rq_start q \<noteq> None \<or> rq_end q \<noteq> None) then Inl invalid_request
      else if (case rq_start q of None \<Rightarrow> False | Some n \<Rightarrow> n < 1) then Inl invalid_request
      else if (case rq_end q of None \<Rightarrow> False | Some n \<Rightarrow> n < 1) then Inl invalid_request
      else if (case (rq_start q, rq_end q) of (Some a, Some b) \<Rightarrow> b < a | _ \<Rightarrow> False) then Inl invalid_request
      else Inr ())"

definition target_or_project :: "project option \<Rightarrow> pystr \<Rightarrow> db \<Rightarrow> project res" where
  "target_or_project target pid d = (case target of Some p \<Rightarrow> Inr p | None \<Rightarrow> get_project pid d)"

definition start_position :: "read_file_request \<Rightarrow> (nat \<times> nat) res" where
  "start_position q =
     (if cursor_given (rq_cursor q) then decode_read_cursor (the (rq_cursor q))
      else Inr (nat (case rq_start q of Some n \<Rightarrow> n | None \<Rightarrow> 1) - 1, 0))"

definition end_index :: "int option \<Rightarrow> pystr list \<Rightarrow> nat" where
  "end_index stop lines = (case stop of None \<Rightarrow> length lines | Some n \<Rightarrow> min (nat n) (length lines))"

text \<open>The lines of \<open>text\<close> numbered from \<open>first\<close>, each number right-aligned in six columns.\<close>

definition numbered_lines :: "nat \<Rightarrow> pystr \<Rightarrow> pystr" where
  "numbered_lines first text =
     concat (map (\<lambda>(n, l). (let d = py_str_nat n in replicate (6 - length d) 32 @ d) @ lit '' | '' @ l)
       (enumerate first (splitlines_keep text)))"

definition last_line :: "nat \<Rightarrow> pystr \<Rightarrow> nat" where
  "last_line first text = (if text = [] then 0 else first + (length (splitlines text) - 1))"

text \<open>The lines between the cursor and the end of the range.\<close>

definition page_lines :: "pystr list \<Rightarrow> nat \<Rightarrow> nat \<Rightarrow> pystr list" where
  "page_lines lines line stop = take (stop - line) (drop line lines)"

definition page_at ::
  "(bytes \<Rightarrow> pystr) \<Rightarrow> read_file_request \<Rightarrow> pystr \<Rightarrow> bytes \<Rightarrow> pystr \<Rightarrow> encoding \<Rightarrow> nat \<Rightarrow> nat \<Rightarrow> file_page" where
  "page_at sha q path raw all_text e line character =
     (let lines = splitlines_keep all_text;
          stop0 = end_index (rq_end q) lines;
          stop = (case rq_max_lines q of None \<Rightarrow> stop0 | Some n \<Rightarrow> min stop0 (line + nat n));
          (selected, next_line, next_character) =
            page_loop e (nat (rq_max_bytes q)) line character (page_lines lines line stop) (line, character);
          text = concat selected;
          truncated = (next_line < stop \<or> 0 < next_character) in
      \<lparr>fp_path = path, fp_text = text, fp_numbered = numbered_lines (Suc line) text, fp_encoding = e,
       fp_newline = newline_style all_text, fp_size = length raw, fp_sha = sha raw, fp_first = Suc line,
       fp_last = last_line (Suc line) text, fp_truncated = truncated,
       fp_continuation = (if truncated then Some (encode_read_cursor next_line next_character) else None)\<rparr>)"

definition read_file ::
  "(bytes \<Rightarrow> pystr) \<Rightarrow> reader \<Rightarrow> db \<Rightarrow> project option \<Rightarrow> read_file_request \<Rightarrow> file_page res" where
  "read_file sha rd d target q =
     bindE (check_read_request q) (\<lambda>_.
     bindE (target_or_project target (rq_project q) d) (\<lambda>pr.
     bindE (rd pr (rq_path q)) (\<lambda>content.
     let raw = take (MAX_READ_BYTES * 8 + 1) content in
     if MAX_READ_BYTES * 8 < length raw then Inl (raise ''file_too_large'')
     else bindE (detect_text raw) (\<lambda>(all_text, e).
     bindE (start_position q) (\<lambda>(line, character).
     let count = length (splitlines_keep all_text) in
     if count < line \<or> line = count \<and> 0 < character then Inl invalid_cursor
     else bindE (validate_relative_path (rq_path q) False) (\<lambda>path.
       Inr (page_at sha q path raw all_text e line character)))))))"

section \<open>The longest prefix\<close>

lemma bisect_longest:
  assumes "\<And>i j. i \<le> j \<Longrightarrow> fits j \<Longrightarrow> fits i" and "fits low" and "low \<le> high"
  shows "low \<le> bisect fits low high \<and> bisect fits low high \<le> high \<and> fits (bisect fits low high)
     \<and> (\<forall>k. bisect fits low high < k \<and> k \<le> high \<longrightarrow> \<not> fits k)"
  using assms(2,3)
proof (induction "high - low" arbitrary: low high rule: less_induct)
  case less
  let ?m = "(low + high + 1) div 2"
  show ?case
  proof (cases "low < high")
    case True
    then have m: "low < ?m" "?m \<le> high" by auto
    show ?thesis
    proof (cases "fits ?m")
      case f: True
      then have "bisect fits low high = bisect fits ?m high" using True by (subst bisect.simps) simp
      moreover have "?m \<le> bisect fits ?m high \<and> bisect fits ?m high \<le> high \<and> fits (bisect fits ?m high)
          \<and> (\<forall>k. bisect fits ?m high < k \<and> k \<le> high \<longrightarrow> \<not> fits k)"
        using m f by (intro less.hyps) linarith+
      ultimately show ?thesis using m by (metis less_imp_le order_trans)
    next
      case f: False
      then have e: "bisect fits low high = bisect fits low (?m - 1)" using True by (subst bisect.simps) simp
      have above: "\<not> fits k" if "?m \<le> k" for k using assms(1) that f by blast
      let ?b = "bisect fits low (?m - 1)"
      have IH: "low \<le> ?b \<and> ?b \<le> ?m - 1 \<and> fits ?b \<and> (\<forall>k. ?b < k \<and> k \<le> ?m - 1 \<longrightarrow> \<not> fits k)"
        using m less.prems by (intro less.hyps) linarith+
      have "\<not> fits k" if "?b < k" for k
      proof (cases "?m \<le> k")
        case False
        then have "k \<le> ?m - 1" by linarith
        then show ?thesis using IH that by blast
      qed (rule above)
      moreover have "?b \<le> high" using IH m by linarith
      ultimately show ?thesis unfolding e using IH by blast
    qed
  next
    case False
    then show ?thesis using less.prems by (auto simp: bisect.simps)
  qed
qed

text \<open>The budget loop keeps the longest prefix of a part whose encoding still fits.\<close>

lemma payload_mono: "i \<le> j \<Longrightarrow> length (payload e (take j s)) \<le> n \<Longrightarrow> length (payload e (take i s)) \<le> n"
proof -
  assume a: "i \<le> j" "length (payload e (take j s)) \<le> n"
  have "take j s = take i s @ take (j - i) (drop i s)" using a(1) by (metis le_add_diff_inverse take_add)
  then show ?thesis using a(2) by simp
qed

lemma longest_part:
  assumes "low = bisect (\<lambda>k. length (payload e (take k part)) \<le> n) 0 (length part)"
    and "n < length (payload e part)"
  shows "low < length part" and "length (payload e (take low part)) \<le> n" and "4 \<le> n \<Longrightarrow> 0 < low"
proof -
  have b: "low \<le> length part \<and> length (payload e (take low part)) \<le> n
      \<and> (\<forall>k. low < k \<and> k \<le> length part \<longrightarrow> \<not> length (payload e (take k part)) \<le> n)"
    unfolding assms(1) using bisect_longest [of "\<lambda>k. length (payload e (take k part)) \<le> n" 0 "length part"] payload_mono
    by (simp add: payload_mono)
  then show l: "low < length part" "length (payload e (take low part)) \<le> n"
    using assms(2) by (auto simp: order_le_less)
  assume "4 \<le> n"
  moreover have "take 1 part = [hd part]" using l(1) by (cases part) auto
  ultimately have "length (payload e (take 1 part)) \<le> n" using payload_char(1) by (metis order_trans)
  then show "0 < low" using b l(1) by (metis One_nat_def Suc_leI gr0I le_numeral_extra(4) less_Suc0)
qed

section \<open>A page is a prefix of what is left\<close>

definition unread :: "nat \<Rightarrow> pystr list \<Rightarrow> pystr" where
  "unread offset lines = (case lines of [] \<Rightarrow> [] | l # ls \<Rightarrow> drop offset l @ concat ls)"

lemma unread_simps [simp]: "unread c [] = []" "unread c (l # ls) = drop c l @ concat ls" "unread 0 ls = concat ls"
  by (simp_all add: unread_def split: list.split)

lemma page_loop_split:
  assumes "page_loop e n index offset lines (index, offset) = (selected, i, c)"
    and "list_all (\<lambda>l. l \<noteq> []) lines" and "lines \<noteq> [] \<Longrightarrow> offset < length (hd lines)"
  obtains k where "i = index + k" "k \<le> length lines"
    "unread offset lines = concat selected @ unread c (drop k lines)"
    "length (payload e (concat selected)) \<le> n"
    "k = length lines \<Longrightarrow> lines \<noteq> [] \<Longrightarrow> c = 0" "k < length lines \<Longrightarrow> c < length (lines ! k)"
  using assms
proof (induction lines arbitrary: n index offset selected thesis)
  case Nil
  then show ?case by simp
next
  case (Cons line lines)
  let ?part = "drop offset line"
  show ?case
  proof (cases "length (payload e ?part) \<le> n")
    case True
    obtain sel' where s: "page_loop e (n - length (payload e ?part)) (Suc index) 0 lines (Suc index, 0) = (sel', i, c)"
        "selected = ?part # sel'"
      using Cons.prems(2) True by (auto simp: Let_def split: prod.splits)
    have ne: "list_all (\<lambda>l. l \<noteq> []) lines" "lines \<noteq> [] \<Longrightarrow> 0 < length (hd lines)"
      using Cons.prems(3) by (cases lines; simp)+
    obtain k where IH: "i = Suc index + k" "k \<le> length lines" "unread 0 lines = concat sel' @ unread c (drop k lines)"
        "length (payload e (concat sel')) \<le> n - length (payload e ?part)" "k = length lines \<Longrightarrow> lines \<noteq> [] \<Longrightarrow> c = 0"
        "k < length lines \<Longrightarrow> c < length (lines ! k)"
      using Cons.IH [OF _ s(1) ne] by blast
    have "lines = [] \<Longrightarrow> c = 0" using s(1) by simp
    then show ?thesis using IH True s(2) by (intro Cons.prems(1) [of "Suc k"]) auto
  next
    case False
    let ?low = "bisect (\<lambda>k. length (payload e (take k ?part)) \<le> n) 0 (length ?part)"
    have l: "?low < length ?part" "length (payload e (take ?low ?part)) \<le> n"
      using longest_part [OF refl, of n e ?part] False by auto
    have t: "drop offset line = take ?low ?part @ drop (offset + ?low) line"
    proof -
      have "drop (offset + ?low) line = drop ?low ?part" by (simp add: add.commute)
      then show ?thesis by (simp only: append_take_drop_id)
    qed
    show ?thesis
    proof (cases "0 < ?low")
      case low: True
      then have "selected = [take ?low ?part]" "i = index" "c = offset + ?low"
        using Cons.prems(2) False by (auto simp: Let_def)
      then show ?thesis using l t by (intro Cons.prems(1) [of 0]) auto
    next
      case low: False
      then have "selected = []" "i = index" "c = offset" using Cons.prems(2) False by (auto simp: Let_def)
      then show ?thesis using Cons.prems(4) by (intro Cons.prems(1) [of 0]) auto
    qed
  qed
qed

lemma page_loop_progress:
  assumes "page_loop e n index offset lines (index, offset) = (selected, i, c)" and "4 \<le> n"
    and "lines \<noteq> []" and "offset < length (hd lines)"
  shows "concat selected \<noteq> []"
proof (cases lines)
  case (Cons line ls)
  let ?part = "drop offset line"
  have ne: "?part \<noteq> []" using assms(4) Cons by simp
  show ?thesis
  proof (cases "length (payload e ?part) \<le> n")
    case True
    then show ?thesis using assms(1) Cons ne by (auto simp: Let_def split: prod.splits)
  next
    case False
    then have "0 < bisect (\<lambda>k. length (payload e (take k ?part)) \<le> n) 0 (length ?part)"
      using longest_part(3) [OF refl, of n e ?part] assms(2) by auto
    then show ?thesis using assms(1) Cons False ne by (auto simp: Let_def)
  qed
qed (use assms in simp)

section \<open>Following the cursor\<close>

lemma lines_nonempty: "list_all (\<lambda>l. l \<noteq> []) (splitlines_keep t)"
proof (induction t rule: splitlines_ends.induct)
  case (2 c cs)
  obtain l e r where t: "take_line (c # cs) = (l, e, r)" by (metis prod_cases3)
  then have "l @ e \<noteq> []" by (auto split: if_splits prod.splits)
  then show ?case using 2 t by (simp add: splitlines_keep_def del: take_line.simps)
qed (simp add: splitlines_keep_def)

text \<open>A read without a range, and the answer of one call as a page of the text.\<close>

definition whole_file :: "pystr \<Rightarrow> pystr \<Rightarrow> nat \<Rightarrow> pystr option \<Rightarrow> read_file_request" where
  "whole_file pid path n cursor =
     \<lparr>rq_project = pid, rq_path = path, rq_start = None, rq_end = None, rq_max_bytes = int n, rq_max_lines = None, rq_cursor = cursor\<rparr>"

definition text_page :: "file_page \<Rightarrow> pystr \<times> pystr option option" where
  "text_page p = (fp_text p, map_option Some (fp_continuation p))"

definition file_pages :: "(bytes \<Rightarrow> pystr) \<Rightarrow> reader \<Rightarrow> db \<Rightarrow> pystr \<Rightarrow> pystr \<Rightarrow> nat \<Rightarrow> pystr option \<Rightarrow> exn + pystr \<times> pystr option option" where
  "file_pages sha rd d pid path n cursor = bindE (read_file sha rd d None (whole_file pid path n cursor)) (Inr \<circ> text_page)"

text \<open>The positions a client can be at, with their cursors.\<close>

definition position :: "pystr list \<Rightarrow> nat \<times> nat \<Rightarrow> bool" where
  "position lines p \<longleftrightarrow> (case p of (l, c) \<Rightarrow> l = length lines \<and> c = 0 \<or> l < length lines \<and> c < length (lines ! l))"

definition at_cursor :: "nat \<times> nat \<Rightarrow> pystr option \<Rightarrow> bool" where
  "at_cursor p cursor \<longleftrightarrow> cursor = None \<and> p = (0, 0) \<or> cursor = Some (encode_read_cursor (fst p) (snd p))"

definition position_of :: "pystr option \<Rightarrow> nat \<times> nat" where
  "position_of cursor = (case cursor of None \<Rightarrow> (0, 0) | Some s \<Rightarrow> (case decode_read_cursor s of Inr p \<Rightarrow> p | Inl _ \<Rightarrow> (0, 0)))"

definition unread_from :: "pystr list \<Rightarrow> nat \<times> nat \<Rightarrow> pystr" where
  "unread_from lines p = unread (snd p) (drop (fst p) lines)"

lemma position_of_cursor: "at_cursor p cursor \<Longrightarrow> position_of cursor = p"
  by (auto simp: at_cursor_def position_of_def)

lemma start_position_cursor: "at_cursor p cursor \<Longrightarrow> start_position (whole_file pid path n cursor) = Inr p"
  by (auto simp: at_cursor_def start_position_def whole_file_def cursor_given_def)

lemma file_pages_eq:
  assumes "at_cursor (l, c) cursor" and "position lines (l, c)" and "lines = splitlines_keep t"
    and "1 \<le> n" and "n \<le> MAX_READ_BYTES" and "get_project pid d = Inr pr" and "rd pr path = Inr raw"
    and "length raw \<le> MAX_READ_BYTES * 8" and "detect_text raw = Inr (t, e)"
    and "validate_relative_path path False = Inr v"
    and "page_loop e n l c (drop l lines) (l, c) = (selected, i, k)"
  shows "file_pages sha rd d pid path n cursor =
    Inr (concat selected, if i < length lines \<or> 0 < k then Some (Some (encode_read_cursor i k)) else None)"
proof -
  have check: "check_read_request (whole_file pid path n cursor) = Inr ()"
    using assms(4,5) by (simp add: check_read_request_def whole_file_def)
  have raw: "take (MAX_READ_BYTES * 8 + 1) raw = raw" using assms(8) by simp
  have "\<not> (length lines < l \<or> l = length lines \<and> 0 < c)" using assms(2) by (auto simp: position_def)
  then show ?thesis
    using assms(6-11) start_position_cursor [OF assms(1)] check raw
    by (simp add: file_pages_def read_file_def whole_file_def target_or_project_def end_index_def page_lines_def
        text_page_def page_at_def Let_def flip: assms(3))
qed

definition readable :: "(bytes \<Rightarrow> pystr) \<Rightarrow> reader \<Rightarrow> db \<Rightarrow> pystr \<Rightarrow> pystr \<Rightarrow> nat \<Rightarrow> pystr \<Rightarrow> bool" where
  "readable sha rd d pid path n t \<longleftrightarrow> 4 \<le> n \<and> n \<le> MAX_READ_BYTES
     \<and> (\<exists>pr raw e. get_project pid d = Inr pr \<and> rd pr path = Inr raw \<and> length raw \<le> MAX_READ_BYTES * 8
          \<and> detect_text raw = Inr (t, e)) \<and> is_ok (validate_relative_path path False)"

definition at_position :: "pystr \<Rightarrow> nat \<times> nat \<Rightarrow> pystr option \<Rightarrow> bool" where
  "at_position t p cursor \<longleftrightarrow> at_cursor p cursor \<and> position (splitlines_keep t) p"

lemma file_page_step:
  assumes "readable sha rd d pid path n t" and "at_position t p cursor"
  obtains xs nxt where "file_pages sha rd d pid path n cursor = Inr (xs, nxt)"
    "nxt = None \<Longrightarrow> unread_from (splitlines_keep t) p = xs"
    "\<And>c'. nxt = Some c' \<Longrightarrow> \<exists>p'. at_position t p' c' \<and> unread_from (splitlines_keep t) p = xs @ unread_from (splitlines_keep t) p' \<and> xs \<noteq> []"
proof -
  define lines where "lines = splitlines_keep t"
  obtain l c where p: "p = (l, c)" by (cases p)
  have pos: "position lines (l, c)" and cur: "at_cursor (l, c) cursor" using assms(2) p by (auto simp: at_position_def lines_def)
  obtain pr raw e v where r: "get_project pid d = Inr pr" "rd pr path = Inr raw" "length raw \<le> MAX_READ_BYTES * 8"
      "detect_text raw = Inr (t, e)" "validate_relative_path path False = Inr v" and n: "4 \<le> n" "1 \<le> n" "n \<le> MAX_READ_BYTES"
    using assms(1) by (auto simp: readable_def is_ok_def split: sum.splits)
  obtain selected i k where pl: "page_loop e n l c (drop l lines) (l, c) = (selected, i, k)" by (metis prod_cases3)
  have page: "file_pages sha rd d pid path n cursor =
      Inr (concat selected, if i < length lines \<or> 0 < k then Some (Some (encode_read_cursor i k)) else None)"
    by (rule file_pages_eq [where rd = rd, OF cur pos lines_def n(2,3) r pl])
  have ne: "list_all (\<lambda>x. x \<noteq> []) (drop l lines)"
    using lines_nonempty [of t] by (metis append_take_drop_id list_all_append lines_def)
  have hd: "drop l lines \<noteq> [] \<Longrightarrow> c < length (hd (drop l lines))"
    using pos by (auto simp: position_def hd_drop_conv_nth)
  obtain m where m: "i = l + m" "m \<le> length (drop l lines)" "unread c (drop l lines) = concat selected @ unread k (drop m (drop l lines))"
      "m = length (drop l lines) \<Longrightarrow> drop l lines \<noteq> [] \<Longrightarrow> k = 0" "m < length (drop l lines) \<Longrightarrow> k < length (drop l lines ! m)"
    using page_loop_split [OF pl ne hd] by metis
  have le: "l \<le> length lines" using pos by (auto simp: position_def)
  show ?thesis
  proof (cases "i < length lines \<or> 0 < k")
    case True
    then have "drop l lines \<noteq> []" using m(1,2) pl pos by (auto simp: position_def)
    then have sel: "concat selected \<noteq> []" using page_loop_progress [OF pl n(1)] hd by blast
    have "i < length lines" using True m(1,2,4) le \<open>drop l lines \<noteq> []\<close> by fastforce
    then have "position lines (i, k)" using m(1,5) by (simp add: position_def)
    then have "at_position t (i, k) (Some (encode_read_cursor i k))" by (simp add: at_position_def at_cursor_def lines_def)
    moreover have "unread_from lines p = concat selected @ unread_from lines (i, k)"
      using m(1,3) by (simp add: unread_from_def p add.commute)
    ultimately show ?thesis using that page sel True unfolding lines_def [symmetric] by auto
  next
    case False
    then have "unread_from lines p = concat selected" using m(1,3) by (simp add: unread_from_def p add.commute)
    then show ?thesis using that page False unfolding lines_def [symmetric] by auto
  qed
qed

lemma at_position_of: "at_position t p cursor \<Longrightarrow> position_of cursor = p"
  by (simp add: at_position_def position_of_cursor)

interpretation file_reading: paged "file_pages sha rd d pid path n"
  "\<lambda>cursor. readable sha rd d pid path n t \<and> (\<exists>p. at_position t p cursor)"
  "\<lambda>cursor. unread_from (splitlines_keep t) (position_of cursor)"
  "\<lambda>cursor. length (unread_from (splitlines_keep t) (position_of cursor))" for sha rd d pid path n t
proof unfold_locales
  fix cursor assume "readable sha rd d pid path n t \<and> (\<exists>p. at_position t p cursor)"
  then obtain p where p: "readable sha rd d pid path n t" "at_position t p cursor" by blast
  obtain xs nxt where s: "file_pages sha rd d pid path n cursor = Inr (xs, nxt)"
    "nxt = None \<Longrightarrow> unread_from (splitlines_keep t) p = xs"
    "\<And>c'. nxt = Some c' \<Longrightarrow> \<exists>p'. at_position t p' c' \<and> unread_from (splitlines_keep t) p = xs @ unread_from (splitlines_keep t) p' \<and> xs \<noteq> []"
    using file_page_step [OF p] by metis
  show "\<exists>xs m. file_pages sha rd d pid path n cursor = Inr (xs, m)" using s(1) by blast
  show "unread_from (splitlines_keep t) (position_of cursor) = ys" if "file_pages sha rd d pid path n cursor = Inr (ys, None)" for ys
    using s(1,2) that at_position_of [OF p(2)] by simp
  show "(readable sha rd d pid path n t \<and> (\<exists>p. at_position t p c'))
      \<and> unread_from (splitlines_keep t) (position_of cursor) = ys @ unread_from (splitlines_keep t) (position_of c')
      \<and> length (unread_from (splitlines_keep t) (position_of c')) < length (unread_from (splitlines_keep t) (position_of cursor))"
    if a: "file_pages sha rd d pid path n cursor = Inr (ys, Some c')" for ys c'
  proof -
    obtain p' where p': "at_position t p' c'" "unread_from (splitlines_keep t) p = ys @ unread_from (splitlines_keep t) p'" "ys \<noteq> []"
      using s(1,3) a by auto
    then have "\<exists>p. at_position t p c'" by blast
    then show ?thesis using p(1) at_position_of [OF p(2)] at_position_of [OF p'(1)] p'(2,3) by simp
  qed
qed

lemma page_loop_budget: "page_loop e n index offset lines nxt = (selected, m) \<Longrightarrow> length (payload e (concat selected)) \<le> n"
proof (induction e n index offset lines nxt arbitrary: selected m rule: page_loop.induct)
  case (2 e n index offset line lines nxt)
  let ?part = "drop offset line"
  show ?case
  proof (cases "length (payload e ?part) \<le> n")
    case True
    then obtain sel' where "page_loop e (n - length (payload e ?part)) (Suc index) 0 lines (Suc index, 0) = (sel', m)" "selected = ?part # sel'"
      using "2.prems" by (auto simp: Let_def split: prod.splits)
    then show ?thesis using "2.IH" True by fastforce
  next
    case False
    then show ?thesis using "2.prems" longest_part(2) [OF refl, of n e ?part] by (auto simp: Let_def split: if_splits)
  qed
qed simp

text \<open>
  C22. A file is read completely through its pages: with a byte budget of at least four, following
  the continuation from the start ends after at most one call per character, and the pages together
  are the text of the file, of which the file's bytes are the encoding behind its byte order mark.
\<close>

theorem file_read_completely:
  assumes "get_project pid d = Inr pr" and "rd pr path = Inr raw" and "length raw \<le> MAX_READ_BYTES * 8"
    and "detect_text raw = Inr (t, e)" and "validate_relative_path path False = Inr v"
    and "4 \<le> n" and "n \<le> MAX_READ_BYTES" and "list_all (\<lambda>b. b < 256) raw"
  shows "follow (file_pages sha rd d pid path n) (Suc (length t)) None = Some t \<and> bom e @ payload e t = raw"
proof
  have "readable sha rd d pid path n t" using assms(1-7) by (auto simp: readable_def)
  moreover have "at_position t (0, 0) None"
    using lines_nonempty [of t] by (cases "splitlines_keep t") (auto simp: at_position_def at_cursor_def position_def)
  moreover have "unread_from (splitlines_keep t) (position_of None) = t"
    by (simp add: position_of_def unread_from_def concat_splitlines_keep)
  ultimately show "follow (file_pages sha rd d pid path n) (Suc (length t)) None = Some t"
    using file_reading.follow_complete [of sha rd d pid path n t None "Suc (length t)"] by auto
  show "bom e @ payload e t = raw" by (rule detect_text_exact [OF assms(4,8)])
qed

definition demo_text :: pystr where
  "demo_text = [104, 0xE9, 10, 0x1F600, 13, 10, 120]"

definition reading_disk :: filesystem where
  "reading_disk =
     \<lparr>fs_files = [[lit ''C:'', lit ''w'', lit ''t''] \<mapsto>
        \<lparr>f_bytes = utf8_encode demo_text, f_identity = \<lparr>volume_serial = 7, file_id = 3, link_count = 1\<rparr>, f_attrs = 0x20\<rparr>],
      fs_dirs = [[lit ''C:''] \<mapsto> \<lparr>d_identity = \<lparr>volume_serial = 7, file_id = 1, link_count = 1\<rparr>, d_attrs = 0x10\<rparr>,
        [lit ''C:'', lit ''w''] \<mapsto> \<lparr>d_identity = \<lparr>volume_serial = 7, file_id = 2, link_count = 1\<rparr>, d_attrs = 0x10\<rparr>],
      fs_volume = 7, fs_next = 9\<rparr>"

definition reading_db :: db where
  "reading_db = empty_db\<lparr>projects := [\<lparr>p_project = example_project, p_created = 0, p_updated = 0\<rparr>]\<rparr>"

definition demo_reader :: reader where
  "demo_reader pr path = open_read (\<lambda>b. b) pr path reading_disk"

lemma reading_setup:
  "get_project (lit ''p1'') reading_db = Inr example_project"
  "demo_reader example_project (lit ''t'') = Inr (utf8_encode demo_text)"
  by code_simp+

theorem file_read_completely_witness:
  "follow (file_pages (\<lambda>b. b) demo_reader reading_db (lit ''p1'') (lit ''t'') 4) 8 None = Some demo_text"
proof -
  have "detect_text (utf8_encode demo_text) = Inr (demo_text, Utf8)" "list_all (\<lambda>b. b < 256) (utf8_encode demo_text)"
    "length (utf8_encode demo_text) \<le> MAX_READ_BYTES * 8" "validate_relative_path (lit ''t'') False = Inr (lit ''t'')" "(4 :: nat) \<le> 4" "4 \<le> MAX_READ_BYTES" by code_simp+
  moreover have "Suc (length demo_text) = 8" by code_simp
  ultimately show ?thesis using file_read_completely [where rd = demo_reader, OF reading_setup] by metis
qed

lemma page_within_budget:
  assumes "read_file sha rd d target q = Inr p"
  shows "int (length (payload (fp_encoding p) (fp_text p))) \<le> rq_max_bytes q"
proof -
  obtain path raw t e l c where p: "p = page_at sha q path raw t e l c" and c: "check_read_request q = Inr ()"
    using assms by (auto simp: read_file_def res_simps Let_def split: if_splits)
  have "1 \<le> rq_max_bytes q" using c by (auto simp: check_read_request_def split: if_splits)
  moreover have "length (payload (fp_encoding p) (fp_text p)) \<le> nat (rq_max_bytes q)"
    using page_loop_budget by (auto simp: p page_at_def Let_def split: prod.split)
  ultimately show ?thesis by linarith
qed

section \<open>Limits of the continuation\<close>

text \<open>A budget below the next character gives an empty page whose cursor is the one it was asked with.\<close>

lemma small_budget_no_progress:
  assumes "at_position t (l, c) cursor" and "l < length (splitlines_keep t)" and "1 \<le> n" and "n \<le> MAX_READ_BYTES"
    and "get_project pid d = Inr pr" and "rd pr path = Inr raw" and "length raw \<le> MAX_READ_BYTES * 8"
    and "detect_text raw = Inr (t, e)" and "validate_relative_path path False = Inr v"
    and "n < length (payload e [splitlines_keep t ! l ! c])"
  shows "file_pages sha rd d pid path n cursor = Inr ([], Some (Some (encode_read_cursor l c)))"
proof -
  let ?lines = "splitlines_keep t"
  let ?part = "drop c (?lines ! l)"
  have c: "c < length (?lines ! l)" using assms(1,2) by (auto simp: at_position_def position_def)
  have part: "?part = (?lines ! l ! c) # drop (Suc c) (?lines ! l)" using c by (simp add: Cons_nth_drop_Suc)
  have big: "\<not> length (payload e (take k ?part)) \<le> n" if "0 < k" for k
  proof -
    have "take k ?part = [?lines ! l ! c] @ take (k - 1) (drop (Suc c) (?lines ! l))" using that by (simp add: part take_Cons')
    then have "length (payload e (take k ?part)) = length (payload e [?lines ! l ! c]) + length (payload e (take (k - 1) (drop (Suc c) (?lines ! l))))"
      by (simp only: payload_simps length_append)
    then show ?thesis using assms(10) by linarith
  qed
  have all: "\<not> length (payload e ?part) \<le> n" using big [of "length ?part"] c by simp
  have "bisect (\<lambda>k. length (payload e (take k ?part)) \<le> n) 0 (length ?part) = 0"
    using longest_part(2) [OF refl, of n e ?part] all big by (meson neq0_conv not_le)
  moreover have "drop l ?lines = ?lines ! l # drop (Suc l) ?lines" using assms(2) by (simp add: Cons_nth_drop_Suc)
  ultimately have "page_loop e n l c (drop l ?lines) (l, c) = ([], l, c)" using all by (simp add: Let_def)
  then show ?thesis
    using file_pages_eq [where rd = rd, OF _ _ refl assms(3-9)] assms(1,2) by (auto simp: at_position_def)
qed

text \<open>
  A page that ends at its line limit is reported as complete and has no continuation, although the
  file goes on.
\<close>

lemma page_loop_all:
  "length (payload e (unread offset lines)) \<le> n \<Longrightarrow> lines \<noteq> [] \<Longrightarrow>
     \<exists>selected. page_loop e n index offset lines nxt = (selected, index + length lines, 0) \<and> concat selected = unread offset lines"
proof (induction lines arbitrary: n index offset nxt)
  case (Cons line lines)
  show ?case
  proof (cases "lines = []")
    case True
    then show ?thesis using Cons.prems by (simp add: Let_def)
  next
    case False
    have "length (payload e (unread 0 lines)) \<le> n - length (payload e (drop offset line))" using Cons.prems by simp
    then show ?thesis using Cons.IH [OF _ False, of 0 "n - length (payload e (drop offset line))" "Suc index" "(Suc index, 0)"] Cons.prems
      by (auto simp: Let_def)
  qed
qed simp

lemma line_limit_hides_rest:
  assumes "rq_max_lines q = Some m" and "1 \<le> m" and "rq_end q = None" and "line + nat m < length (splitlines_keep t)"
    and "length (payload e (concat (take (nat m) (drop line (splitlines_keep t))))) \<le> nat (rq_max_bytes q)"
    and "p = page_at sha q path raw t e line 0"
  shows "fp_text p = concat (take (nat m) (drop line (splitlines_keep t))) \<and> \<not> fp_truncated p \<and> fp_continuation p = None"
proof -
  let ?ls = "take (nat m) (drop line (splitlines_keep t))"
  have len: "length ?ls = nat m" "?ls \<noteq> []" using assms(2,4) by auto
  have pl: "page_lines (splitlines_keep t) line (min (length (splitlines_keep t)) (line + nat m)) = ?ls"
    using assms(4) by (simp add: page_lines_def min_def)
  obtain selected where "page_loop e (nat (rq_max_bytes q)) line 0 ?ls (line, 0) = (selected, line + nat m, 0)" "concat selected = concat ?ls"
    using page_loop_all [of e 0 ?ls "nat (rq_max_bytes q)" line "(line, 0)"] assms(5) len by auto
  then show ?thesis using assms(1,3,4,6) pl by (simp add: page_at_def end_index_def Let_def)
qed

end
