(* ===== verification/Read_Glob.thy ===== *)
theory Read_Glob
  imports Read_Codec
begin

text \<open>
  Globs of the read tools: \<open>_validate_glob\<close> and \<open>_glob_matches\<close> of \<open>read_tools.py\<close> over
  \<open>fnmatch.fnmatchcase\<close> of Python 3.12, whose translation of a pattern to a regular expression is
  given as a list of tokens, and the glob type of the wire (\<open>types.py\<close>).
\<close>

section \<open>Patterns\<close>

datatype glob_token = Star | Any | Never | Literal nat | Class bool "pystr list"

text \<open>
  The body of a character class: \<open>pat[i:j]\<close> split into chunks at the hyphens that make ranges
  (the first character after \<open>!\<close>, and the two after a hyphen, cannot be one).
\<close>

fun find_hyphen :: "nat \<Rightarrow> pystr \<Rightarrow> nat option" where
  "find_hyphen k [] = None"
| "find_hyphen 0 (c # s) = (if c = 45 then Some 0 else map_option Suc (find_hyphen 0 s))"
| "find_hyphen (Suc k) (c # s) = map_option Suc (find_hyphen k s)"

lemma find_hyphen_bound: "find_hyphen k s = Some n \<Longrightarrow> n < length s"
  by (induction k s arbitrary: n rule: find_hyphen.induct) (auto split: if_splits)

function class_chunks :: "nat \<Rightarrow> pystr \<Rightarrow> pystr list" where
  "class_chunks k s = (case find_hyphen k s of None \<Rightarrow> [s] | Some n \<Rightarrow> take n s # class_chunks 2 (drop (Suc n) s))"
  by pat_completeness auto
termination
  by (relation "measure (\<lambda>(k, s). length s)") (auto dest: find_hyphen_bound)

declare class_chunks.simps [simp del]

text \<open>An empty last chunk is a hyphen at the end of the one before it.\<close>

definition close_chunks :: "pystr list \<Rightarrow> pystr list" where
  "close_chunks cs = (if last cs = [] then (let r = butlast cs in butlast r @ [last r @ [45]]) else cs)"

text \<open>Ranges that are empty disappear with their end points, from the last one to the first.\<close>

fun drop_empty_ranges :: "pystr list \<Rightarrow> pystr list" where
  "drop_empty_ranges (a # cs) =
     (case drop_empty_ranges cs of
        [] \<Rightarrow> [a]
      | b # ds \<Rightarrow> if hd b < last a then (butlast a @ tl b) # ds else a # b # ds)"
| "drop_empty_ranges [] = []"

definition class_body :: "pystr \<Rightarrow> pystr list" where
  "class_body s =
     (if 45 \<notin> set s then [s] else drop_empty_ranges (close_chunks (class_chunks (if hd s = 33 then 2 else 1) s)))"

definition class_token :: "pystr \<Rightarrow> glob_token" where
  "class_token s =
     (let chunks = class_body s; stuff = concat chunks in
      if stuff = [] then Never
      else if stuff = [33] then Any
      else if hd (hd chunks) = 33 then Class True (tl (hd chunks) # tl chunks)
      else Class False chunks)"

text \<open>Where the class that starts after \<open>[\<close> ends: a \<open>]\<close> that is not its first character.\<close>

definition class_end :: "pystr \<Rightarrow> nat option" where
  "class_end s =
     (let j0 = (if s \<noteq> [] \<and> hd s = 33 then 1 else 0);
          j1 = (if j0 < length s \<and> s ! j0 = 93 then Suc j0 else j0);
          j = j1 + length (takeWhile (\<lambda>c. c \<noteq> 93) (drop j1 s)) in
      if j < length s then Some j else None)"

lemma class_end_bound: "class_end s = Some j \<Longrightarrow> j < length s"
  by (simp add: class_end_def Let_def split: if_splits)

function glob_tokens :: "pystr \<Rightarrow> glob_token list" where
  "glob_tokens [] = []"
| "glob_tokens (c # s) =
     (if c = 42 then Star # glob_tokens s
      else if c = 63 then Any # glob_tokens s
      else if c = 91 then
        (case class_end s of
           None \<Rightarrow> Literal 91 # glob_tokens s
         | Some j \<Rightarrow> class_token (take j s) # glob_tokens (drop (Suc j) s))
      else Literal c # glob_tokens s)"
  by pat_completeness auto
termination
  by (relation "measure length") (auto dest: class_end_bound)

section \<open>Matching\<close>

text \<open>The ranges of a class run from the end of a chunk to the start of the next.\<close>

fun in_ranges :: "nat \<Rightarrow> pystr list \<Rightarrow> bool" where
  "in_ranges c (a # b # cs) \<longleftrightarrow> last a \<le> c \<and> c \<le> hd b \<or> in_ranges c (b # cs)"
| "in_ranges c _ \<longleftrightarrow> False"

fun token_matches :: "glob_token \<Rightarrow> nat \<Rightarrow> bool" where
  "token_matches Star c \<longleftrightarrow> False"
| "token_matches Any c \<longleftrightarrow> True"
| "token_matches Never c \<longleftrightarrow> False"
| "token_matches (Literal d) c \<longleftrightarrow> c = d"
| "token_matches (Class negated chunks) c \<longleftrightarrow> (c \<in> set (concat chunks) \<or> in_ranges c chunks) \<noteq> negated"

fun tokens_match :: "glob_token list \<Rightarrow> pystr \<Rightarrow> bool" where
  "tokens_match [] s \<longleftrightarrow> s = []"
| "tokens_match (Star # ts) [] \<longleftrightarrow> tokens_match ts []"
| "tokens_match (Star # ts) (c # s) \<longleftrightarrow> tokens_match ts (c # s) \<or> tokens_match (Star # ts) s"
| "tokens_match (t # ts) [] \<longleftrightarrow> False"
| "tokens_match (t # ts) (c # s) \<longleftrightarrow> token_matches t c \<and> tokens_match ts s"

definition fnmatchcase :: "pystr \<Rightarrow> pystr \<Rightarrow> bool" where
  "fnmatchcase name pat = tokens_match (glob_tokens pat) name"

text \<open>\<open>reduced.replace("**/", "", 1)\<close>, and the patterns it goes through.\<close>

definition double_star :: pystr where
  "double_star = lit ''**/''"

fun drop_double_star :: "pystr \<Rightarrow> pystr" where
  "drop_double_star [] = []"
| "drop_double_star (c # s) = (if prefix double_star (c # s) then drop 3 (c # s) else c # drop_double_star s)"

lemma drop_double_star_shorter: "sublist double_star s \<Longrightarrow> length (drop_double_star s) < length s"
proof (induction s)
  case (Cons c s)
  then show ?case by (auto simp: sublist_Cons_right)
qed (simp add: double_star_def lit_def)

function glob_candidates :: "pystr \<Rightarrow> pystr list" where
  "glob_candidates p = p # (if sublist double_star p then glob_candidates (drop_double_star p) else [])"
  by pat_completeness auto
termination
  by (relation "measure length") (auto simp: drop_double_star_shorter)

declare glob_candidates.simps [simp del]

definition glob_matches :: "pystr \<Rightarrow> pystr \<Rightarrow> bool" where
  "glob_matches path pattern = list_ex (fnmatchcase path) (glob_candidates pattern)"

definition validate_glob :: "pystr \<Rightarrow> unit res" where
  "validate_glob p =
     (if p = [] \<or> 200 < length p \<or> 92 \<in> set p \<or> 0 \<in> set p then Inl (raise ''invalid_glob'')
      else if prefix [47] p \<or> 58 \<in> set p then Inl (raise ''invalid_glob'')
      else if [46, 46] \<in> set (split_on 47 p) then Inl (raise ''invalid_glob'')
      else Inr ())"

text \<open>The glob of the wire: \<open>value.replace("**", "*")\<close> replaces from left to right.\<close>

fun single_stars :: "pystr \<Rightarrow> pystr" where
  "single_stars (a # b # s) = (if a = 42 \<and> b = 42 then 42 # single_stars s else a # single_stars (b # s))"
| "single_stars s = s"

definition MAX_GLOB_CHARS :: nat where
  "MAX_GLOB_CHARS = 512"

definition wire_glob :: "pystr \<Rightarrow> bool" where
  "wire_glob p \<longleftrightarrow> length p \<le> MAX_GLOB_CHARS \<and> 0 \<notin> set p \<and> 92 \<notin> set p \<and> 58 \<notin> set p \<and> \<not> prefix [47] p
     \<and> (\<forall>part \<in> set (split_on 47 (single_stars p)). part \<noteq> [] \<and> part \<noteq> [46] \<and> part \<noteq> [46, 46])"

section \<open>Laws\<close>

lemma star_matches: "tokens_match (Star # ts) s \<longleftrightarrow> (\<exists>u v. s = u @ v \<and> tokens_match ts v)"
proof (induction s)
  case (Cons c s)
  show ?case
  proof
    assume "tokens_match (Star # ts) (c # s)"
    then consider "tokens_match ts (c # s)" | "tokens_match (Star # ts) s" by auto
    then show "\<exists>u v. c # s = u @ v \<and> tokens_match ts v"
    proof cases
      case 1
      then show ?thesis by (intro exI [of _ "[]"] exI [of _ "c # s"]) simp
    next
      case 2
      then obtain u v where "s = u @ v" "tokens_match ts v" using Cons by blast
      then show ?thesis by (intro exI [of _ "c # u"] exI [of _ v]) simp
    qed
  next
    assume "\<exists>u v. c # s = u @ v \<and> tokens_match ts v"
    then obtain u v where uv: "c # s = u @ v" "tokens_match ts v" by blast
    then show "tokens_match (Star # ts) (c # s)" using Cons by (cases u) auto
  qed
qed auto

definition plain_glob :: "nat \<Rightarrow> bool" where
  "plain_glob c \<longleftrightarrow> c \<notin> {42, 63, 91}"

lemma literal_tokens: "list_all plain_glob s \<Longrightarrow> glob_tokens (s @ p) = map Literal s @ glob_tokens p"
  by (induction s) (auto simp: plain_glob_def)

lemma literals_match: "tokens_match (map Literal s @ ts) name \<longleftrightarrow> (\<exists>v. name = s @ v \<and> tokens_match ts v)"
proof (induction s arbitrary: name)
  case (Cons c s)
  then show ?case by (cases name) auto
qed simp

lemma literal_glob: "list_all plain_glob s \<Longrightarrow> fnmatchcase name s \<longleftrightarrow> name = s"
  using literal_tokens [of s "[]"] literals_match [of s "[]"] by (simp add: fnmatchcase_def)

text \<open>
  The patterns callers use: \<open>**/*\<close> and \<open>*\<close> admit every path, and \<open>**/*\<close> followed by a plain
  ending admits exactly the paths with that ending, at every depth including the root.
\<close>

lemma everything_glob: "glob_matches path (lit ''*'')" "glob_matches path (lit ''**/*'')"
proof -
  have s: "tokens_match [Star] v" for v using star_matches [of "[]"] by auto
  have "glob_candidates (lit ''*'') = [lit ''*'']" "glob_candidates (lit ''**/*'') = [lit ''**/*'', lit ''*'']" by code_simp+
  moreover have "glob_tokens (lit ''*'') = [Star]" by (simp add: lit_def)
  ultimately show "glob_matches path (lit ''*'')" "glob_matches path (lit ''**/*'')"
    using s by (simp_all add: glob_matches_def fnmatchcase_def)
qed

end
