(* ===== verification/Read_Search.thy ===== *)
theory Read_Search
  imports Read_Text Read_Glob
begin

text \<open>
  \<open>ProjectReadService.list_directory\<close>, \<open>search_text\<close> and \<open>execute\<close> (\<open>read_tools.py\<close>).  What
  \<open>os.scandir\<close> answers below a directory is a tree; attributes and sizes come from the file system,
  contents from the reader.  \<open>str.casefold\<close> and the \<open>regex\<close> package are parameters.
\<close>

section \<open>Walking a directory\<close>

text \<open>
  An entry: its name, whether it is a directory (through links), whether it is a symbolic link, and
  what is below it.
\<close>

datatype scan = Unreadable | Scan "scan_entry list"
  and scan_entry = Entry (entry_name: pystr) (entry_dir: bool) (entry_link: bool) scan

definition MAX_DIRECTORY_RESULTS :: nat where "MAX_DIRECTORY_RESULTS = 1000"
definition MAX_DIRECTORY_SCANNED :: nat where "MAX_DIRECTORY_SCANNED = 10000"
definition MAX_SEARCH_RESULTS :: nat where "MAX_SEARCH_RESULTS = 500"
definition MAX_SEARCH_FILES :: nat where "MAX_SEARCH_FILES = 10000"
definition MAX_SEARCH_FILE_BYTES :: nat where "MAX_SEARCH_FILE_BYTES = 2097152"
definition MAX_SEARCH_SCANNED_BYTES :: nat where "MAX_SEARCH_SCANNED_BYTES = 33554432"

definition DEFAULT_IGNORED_DIRECTORIES :: "pystr list" where
  "DEFAULT_IGNORED_DIRECTORIES = map lit [''.git'', ''.hg'', ''.build-check'', ''.cache'', ''.mypy_cache'', ''.next'', ''.npm'',
     ''.npm-cache'', ''.nuxt'', ''.output'', ''.pnpm-store'', ''.pytest_cache'', ''.ruff_cache'', ''.svn'', ''.tox'', ''.turbo'',
     ''.venv'', ''.vs'', ''.yarn'', ''__pycache__'', ''artifacts'', ''bin'', ''coverage'', ''dist'', ''node_modules'', ''obj'', ''target'']"

fun prune_directories :: "os_view \<Rightarrow> (pystr \<Rightarrow> pystr) \<Rightarrow> abspath \<Rightarrow> pystr list \<Rightarrow> pystr list res" where
  "prune_directories os cf p [] = Inr []"
| "prune_directories os cf p (n # ns) =
     (if cf n \<in> set DEFAULT_IGNORED_DIRECTORIES then prune_directories os cf p ns
      else bindE (is_reparse os (p @ [n])) (\<lambda>r.
        bindE (prune_directories os cf p ns) (\<lambda>kept. Inr (if r then kept else n # kept))))"

text \<open>
  \<open>os.walk(top, followlinks=False)\<close> with the pruning of its directories: what the loop receives, one
  directory after the other, where an exception ends it.
\<close>

type_synonym walk_step = "exn + abspath \<times> pystr list \<times> pystr list"

fun scan_walk :: "os_view \<Rightarrow> (pystr \<Rightarrow> pystr) \<Rightarrow> abspath \<Rightarrow> scan \<Rightarrow> walk_step list"
  and entry_walk :: "os_view \<Rightarrow> (pystr \<Rightarrow> pystr) \<Rightarrow> abspath \<Rightarrow> scan_entry \<Rightarrow> pystr \<times> walk_step list" where
  "scan_walk os cf p Unreadable = []"
| "scan_walk os cf p (Scan es) =
     (case prune_directories os cf p (map entry_name (filter entry_dir es)) of
        Inl e \<Rightarrow> [Inl e]
      | Inr kept \<Rightarrow>
          let directories = sort_key cf kept;
              files = sort_key cf (map entry_name (filter (Not \<circ> entry_dir) es));
              below = map (entry_walk os cf p) es in
          Inr (p, directories, files)
            # concat (map (\<lambda>n. case map_of below n of Some w \<Rightarrow> w | None \<Rightarrow> []) directories))"
| "entry_walk os cf p (Entry n d l s) = (n, if l then [] else scan_walk os cf (p @ [n]) s)"

definition below :: "abspath \<Rightarrow> abspath \<Rightarrow> pystr" where
  "below base p = join [47] (drop (length base) p)"

section \<open>Listing\<close>

record list_request =
  lq_project :: pystr
  lq_path :: pystr
  lq_limit :: int
  lq_cursor :: "pystr option"
  lq_glob :: "pystr option"
  lq_recursive :: bool

record listed =
  le_name :: pystr
  le_path :: pystr
  le_directory :: bool
  le_size :: "nat option"

record list_page =
  lp_path :: pystr
  lp_entries :: "listed list"
  lp_continuation :: "pystr option"

definition children_of :: "os_view \<Rightarrow> (pystr \<Rightarrow> pystr) \<Rightarrow> bool \<Rightarrow> abspath \<Rightarrow> scan \<Rightarrow> abspath list res" where
  "children_of os cf recursive directory s =
     (if recursive then
        foldE (\<lambda>acc step. bindE step (\<lambda>(p, ds, fs). Inr (acc @ map (\<lambda>n. p @ [n]) (ds @ fs)))) [] (scan_walk os cf directory s)
      else case s of Unreadable \<Rightarrow> Inl OSError | Scan es \<Rightarrow> Inr (map (\<lambda>e. directory @ [entry_name e]) es))"

definition glob_selects :: "pystr option \<Rightarrow> abspath \<Rightarrow> abspath \<Rightarrow> abspath \<Rightarrow> bool" where
  "glob_selects g rt directory p \<longleftrightarrow> (case g of None \<Rightarrow> True | Some pattern \<Rightarrow> glob_matches (below rt p) pattern \<or> glob_matches (below directory p) pattern)"

definition file_size :: "filesystem \<Rightarrow> abspath \<Rightarrow> nat option" where
  "file_size D p = map_option (length \<circ> f_bytes) (fs_files D p)"

fun list_entries :: "filesystem \<Rightarrow> pystr option \<Rightarrow> abspath \<Rightarrow> abspath \<Rightarrow> abspath list \<Rightarrow> listed list res" where
  "list_entries D g rt directory [] = Inr []"
| "list_entries D g rt directory (p # ps) =
     (if \<not> glob_selects g rt directory p then list_entries D g rt directory ps
      else bindE (is_reparse (view D) p) (\<lambda>r.
        bindE (list_entries D g rt directory ps) (\<lambda>es.
          Inr (if r then es
               else \<lparr>le_name = last p, le_path = below rt p, le_directory = os_is_dir (view D) p, le_size = file_size D p\<rparr> # es))))"

definition list_directory ::
  "(bytes \<Rightarrow> pystr) \<Rightarrow> (pystr \<Rightarrow> pystr) \<Rightarrow> (abspath \<Rightarrow> scan) \<Rightarrow> filesystem \<Rightarrow> db \<Rightarrow> project option \<Rightarrow> list_request \<Rightarrow> list_page res" where
  "list_directory sha cf scandir D d target q =
     (if \<not> (1 \<le> lq_limit q \<and> lq_limit q \<le> int MAX_DIRECTORY_RESULTS) then Inl invalid_request
      else bindE (case lq_glob q of None \<Rightarrow> Inr () | Some g \<Rightarrow> validate_glob g) (\<lambda>_.
      bindE (target_or_project target (lq_project q) d) (\<lambda>pr.
      bindE (resolve sha (view D) pr (lq_path q) True (Some True) False True) (\<lambda>v.
      bindE (children_of (view D) cf (lq_recursive q) (absolute v) (scandir (absolute v))) (\<lambda>children.
      if MAX_DIRECTORY_SCANNED < length children then Inl (raise ''result_limit'')
      else bindE (list_entries D (lq_glob q) (root pr) (absolute v) children) (\<lambda>es.
      let entries = sort_key (\<lambda>e. (\<not> le_directory e, cf (le_name e))) es in
      bindE (decode_cursor (lq_cursor q)) (\<lambda>offset.
      let page = take (nat (lq_limit q)) (drop offset entries); next_offset = offset + length page in
      bindE (validate_relative_path (lq_path q) True) (\<lambda>path.
      Inr \<lparr>lp_path = path, lp_entries = page,
            lp_continuation = (if next_offset < length entries then Some (encode_cursor next_offset) else None)\<rparr>))))))))"

section \<open>Searching\<close>

datatype regex_answer = No_match | Match nat | Timed_out

record search_request =
  sq_project :: pystr
  sq_query :: pystr
  sq_path :: pystr
  sq_globs :: "pystr list option"
  sq_case_sensitive :: bool
  sq_regex :: bool
  sq_preview :: int
  sq_limit :: int
  sq_cursor :: "pystr option"

record search_match =
  sm_path :: pystr
  sm_line :: nat
  sm_column :: nat
  sm_preview :: pystr

record search_page =
  sp_matches :: "search_match list"
  sp_continuation :: "pystr option"
  sp_scanned :: nat

definition check_search_request :: "search_request \<Rightarrow> pystr list res" where
  "check_search_request q =
     (let patterns = (case sq_globs q of None \<Rightarrow> [lit ''*''] | Some gs \<Rightarrow> gs) in
      if sq_query q = [] \<or> 4096 < length (sq_query q) then Inl invalid_request
      else if \<not> (1 \<le> sq_limit q \<and> sq_limit q \<le> int MAX_SEARCH_RESULTS) then Inl invalid_request
      else if \<not> (128 \<le> sq_preview q \<and> sq_preview q \<le> 16384) then Inl invalid_request
      else if \<not> (1 \<le> length patterns \<and> length patterns \<le> 20) then Inl invalid_request
      else bindE (foldE (\<lambda>_ g. validate_glob g) () patterns) (\<lambda>_. Inr patterns))"

definition any_glob :: "pystr list \<Rightarrow> pystr \<Rightarrow> bool" where
  "any_glob patterns path \<longleftrightarrow> list_ex (glob_matches path) patterns"

definition add_candidate :: "os_view \<Rightarrow> abspath \<Rightarrow> pystr list \<Rightarrow> pystr list \<Rightarrow> abspath \<Rightarrow> pystr list res" where
  "add_candidate os rt patterns found p =
     bindE (is_reparse os p) (\<lambda>r.
       if r \<or> \<not> any_glob patterns (below rt p) then Inr found
       else if MAX_SEARCH_FILES < Suc (length found) then Inl (raise ''result_limit'')
       else Inr (found @ [below rt p]))"

definition search_candidates ::
  "os_view \<Rightarrow> (pystr \<Rightarrow> pystr) \<Rightarrow> scan \<Rightarrow> abspath \<Rightarrow> pystr list \<Rightarrow> abspath \<Rightarrow> pystr list res" where
  "search_candidates os cf s rt patterns target =
     bindE
       (if os_is_file os target then Inr (if any_glob patterns (below rt target) then [below rt target] else [])
        else foldE (\<lambda>found step. bindE step (\<lambda>(p, _, fs). foldE (\<lambda>f n. add_candidate os rt patterns f (p @ [n])) found fs))
               [] (scan_walk os cf target s))
       (\<lambda>found. Inr (sort_key cf found))"

fun find_text :: "pystr \<Rightarrow> pystr \<Rightarrow> nat option" where
  "find_text needle [] = (if needle = [] then Some 0 else None)"
| "find_text needle (c # s) = (if prefix needle (c # s) then Some 0 else map_option Suc (find_text needle s))"

text \<open>The column of a match in a line: of the expression, or else of the query's own text.\<close>

definition match_column :: "(pystr \<Rightarrow> pystr) \<Rightarrow> (pystr \<Rightarrow> regex_answer) option \<Rightarrow> bool \<Rightarrow> pystr \<Rightarrow> pystr \<Rightarrow> nat option res" where
  "match_column cf expression case_sensitive query line =
     (let needle = (if case_sensitive then query else cf query); haystack = (if case_sensitive then line else cf line) in
      case map_option (\<lambda>f. f line) expression of
        Some Timed_out \<Rightarrow> Inl (raise ''search_timeout'')
      | Some (Match n) \<Rightarrow> Inr (Some n)
      | _ \<Rightarrow> Inr (find_text needle haystack))"

definition match_at :: "nat \<Rightarrow> pystr \<Rightarrow> nat \<Rightarrow> pystr \<Rightarrow> nat \<Rightarrow> search_match" where
  "match_at preview path i line column =
     \<lparr>sm_path = path, sm_line = Suc i, sm_column = Suc column, sm_preview = utf8_decode_ignore (take preview (utf8_encode line))\<rparr>"

text \<open>The lines of one file; the index of the line at which the limit was reached.\<close>

fun search_lines ::
  "(pystr \<Rightarrow> nat option res) \<Rightarrow> nat \<Rightarrow> nat \<Rightarrow> pystr \<Rightarrow> nat \<Rightarrow> pystr list \<Rightarrow> search_match list \<Rightarrow> (search_match list \<times> nat option) res" where
  "search_lines column limit preview path i [] ms = Inr (ms, None)"
| "search_lines column limit preview path i (line # ls) ms =
     bindE (column line) (\<lambda>found.
       case found of
         None \<Rightarrow> search_lines column limit preview path (Suc i) ls ms
       | Some c \<Rightarrow>
           let ms' = ms @ [match_at preview path i line c] in
           if limit \<le> length ms' then Inr (ms', Some i) else search_lines column limit preview path (Suc i) ls ms')"

definition skipped_error :: "exn \<Rightarrow> bool" where
  "skipped_error e = (case e of AgentError c _ _ \<Rightarrow> c \<in> {''binary_file'', ''unsupported_encoding''} | _ \<Rightarrow> False)"

definition file_lines :: "(pystr \<Rightarrow> bytes res) \<Rightarrow> pystr \<Rightarrow> pystr list option res" where
  "file_lines rdp path =
     (case bindE (rdp path) (\<lambda>raw. detect_text (take (MAX_SEARCH_FILE_BYTES + 1) raw)) of
        Inr (t, _) \<Rightarrow> Inr (Some (splitlines t))
      | Inl e \<Rightarrow> if skipped_error e then Inr None else Inl e)"

fun search_loop ::
  "(pystr \<Rightarrow> nat option) \<Rightarrow> (pystr \<Rightarrow> bytes res) \<Rightarrow> (pystr \<Rightarrow> nat option res) \<Rightarrow> nat \<Rightarrow> nat \<Rightarrow> nat \<Rightarrow> nat \<Rightarrow> pystr list
     \<Rightarrow> search_match list \<Rightarrow> nat \<Rightarrow> search_page res" where
  "search_loop stat rdp column limit preview i offset [] ms scanned =
     Inr \<lparr>sp_matches = ms, sp_continuation = None, sp_scanned = scanned\<rparr>"
| "search_loop stat rdp column limit preview i offset (path # paths) ms scanned =
     (case stat path of
        None \<Rightarrow> Inl OSError
      | Some n \<Rightarrow>
          if MAX_SEARCH_FILE_BYTES < n then search_loop stat rdp column limit preview (Suc i) 0 paths ms scanned
          else if MAX_SEARCH_SCANNED_BYTES < scanned + n then
            Inr \<lparr>sp_matches = ms, sp_continuation = Some (encode_search_cursor i offset), sp_scanned = scanned\<rparr>
          else bindE (file_lines rdp path) (\<lambda>content.
            case content of
              None \<Rightarrow> search_loop stat rdp column limit preview (Suc i) 0 paths ms (scanned + n)
            | Some lines \<Rightarrow>
                if length lines < offset then Inl invalid_cursor
                else bindE (search_lines column limit preview path offset (drop offset lines) ms) (\<lambda>(ms', hit).
                  case hit of
                    None \<Rightarrow> search_loop stat rdp column limit preview (Suc i) 0 paths ms' (scanned + n)
                  | Some l \<Rightarrow>
                      Inr \<lparr>sp_matches = ms', sp_continuation =
                        (if Suc l < length lines then Some (encode_search_cursor i (Suc l))
                         else if paths \<noteq> [] then Some (encode_search_cursor (Suc i) 0) else None),
                        sp_scanned = scanned + n\<rparr>)))"

definition search_text ::
  "(bytes \<Rightarrow> pystr) \<Rightarrow> (pystr \<Rightarrow> pystr) \<Rightarrow> (pystr \<Rightarrow> bool \<Rightarrow> (pystr \<Rightarrow> regex_answer) option) \<Rightarrow> (abspath \<Rightarrow> scan) \<Rightarrow> filesystem
     \<Rightarrow> reader \<Rightarrow> db \<Rightarrow> project option \<Rightarrow> search_request \<Rightarrow> search_page res" where
  "search_text sha cf compile scandir D rd d target q =
     bindE (check_search_request q) (\<lambda>patterns.
     bindE (target_or_project target (sq_project q) d) (\<lambda>pr.
     bindE (decode_search_cursor (sq_cursor q)) (\<lambda>(candidate_offset, line_offset).
     bindE (resolve sha (view D) pr (sq_path q) True None False True) (\<lambda>v.
     bindE (search_candidates (view D) cf (scandir (absolute v)) (root pr) patterns (absolute v)) (\<lambda>candidates.
     if length candidates < candidate_offset \<or> candidate_offset = length candidates \<and> 0 < line_offset then Inl invalid_cursor
     else
       let expression = (if sq_regex q then compile (sq_query q) (sq_case_sensitive q) else None) in
       if sq_regex q \<and> expression = None then Inl invalid_request
       else search_loop (\<lambda>p. file_size D (root pr @ split_on 47 p)) (rd pr)
              (match_column cf expression (sq_case_sensitive q) (sq_query q)) (nat (sq_limit q)) (nat (sq_preview q))
              candidate_offset line_offset (drop candidate_offset candidates) [] 0)))))"

section \<open>Dispatch\<close>

text \<open>
  \<open>execute\<close> on the validated requests: an absent key has its default in the request, and
  \<open>continuation\<close> has precedence over \<open>cursor\<close>.
\<close>

datatype read_operation = List_projects | List_directory list_request | Read_file read_file_request | Search_text search_request

datatype read_answer = Projects "project list" | Listing list_page | File_page file_page | Found search_page

definition enabled_project :: "pystr \<Rightarrow> db \<Rightarrow> project res" where
  "enabled_project pid d = bindE (get_project pid d) (\<lambda>p. if \<not> enabled p then Inl (raise ''project_disabled'') else Inr p)"

definition execute_read ::
  "(bytes \<Rightarrow> pystr) \<Rightarrow> (pystr \<Rightarrow> pystr) \<Rightarrow> (pystr \<Rightarrow> bool \<Rightarrow> (pystr \<Rightarrow> regex_answer) option) \<Rightarrow> (abspath \<Rightarrow> scan) \<Rightarrow> filesystem
     \<Rightarrow> reader \<Rightarrow> db \<Rightarrow> project option \<Rightarrow> read_operation \<Rightarrow> read_answer res" where
  "execute_read sha cf compile scandir D rd d target r =
     (case r of
        List_projects \<Rightarrow> Inr (Projects (list_projects True d))
      | List_directory q \<Rightarrow> bindE (enabled_project (lq_project q) d) (\<lambda>_.
          bindE (list_directory sha cf scandir D d target q) (Inr \<circ> Listing))
      | Read_file q \<Rightarrow> bindE (enabled_project (rq_project q) d) (\<lambda>_. bindE (read_file sha rd d target q) (Inr \<circ> File_page))
      | Search_text q \<Rightarrow> bindE (enabled_project (sq_project q) d) (\<lambda>_.
          bindE (search_text sha cf compile scandir D rd d target q) (Inr \<circ> Found)))"

section \<open>What a search finds\<close>

text \<open>The matches of a list of lines from index \<open>i\<close> on, without any limit.\<close>

fun line_matches :: "(pystr \<Rightarrow> nat option res) \<Rightarrow> nat \<Rightarrow> pystr \<Rightarrow> nat \<Rightarrow> pystr list \<Rightarrow> search_match list" where
  "line_matches column preview path i [] = []"
| "line_matches column preview path i (line # ls) =
     (case column line of Inr (Some c) \<Rightarrow> [match_at preview path i line c] | _ \<Rightarrow> []) @ line_matches column preview path (Suc i) ls"

definition searched_lines :: "(pystr \<Rightarrow> nat option) \<Rightarrow> (pystr \<Rightarrow> bytes res) \<Rightarrow> pystr \<Rightarrow> pystr list" where
  "searched_lines stat rdp path =
     (case stat path of
        None \<Rightarrow> []
      | Some n \<Rightarrow> if MAX_SEARCH_FILE_BYTES < n then [] else (case file_lines rdp path of Inr (Some ls) \<Rightarrow> ls | _ \<Rightarrow> []))"

definition matches_from :: "(pystr \<Rightarrow> nat option) \<Rightarrow> (pystr \<Rightarrow> bytes res) \<Rightarrow> (pystr \<Rightarrow> nat option res) \<Rightarrow> nat \<Rightarrow> nat \<Rightarrow> pystr list \<Rightarrow> search_match list" where
  "matches_from stat rdp column preview offset paths =
     (case paths of
        [] \<Rightarrow> []
      | p # ps \<Rightarrow> line_matches column preview p offset (drop offset (searched_lines stat rdp p))
          @ concat (map (\<lambda>p. line_matches column preview p 0 (searched_lines stat rdp p)) ps))"

text \<open>Every candidate can be read and every line can be searched.\<close>

definition searchable :: "(pystr \<Rightarrow> nat option) \<Rightarrow> (pystr \<Rightarrow> bytes res) \<Rightarrow> (pystr \<Rightarrow> nat option res) \<Rightarrow> pystr list \<Rightarrow> bool" where
  "searchable stat rdp column paths \<longleftrightarrow>
     (\<forall>p \<in> set paths. stat p \<noteq> None \<and> is_ok (file_lines rdp p) \<and> (\<forall>l \<in> set (searched_lines stat rdp p). is_ok (column l)))"

lemma matches_from_simps [simp]:
  "matches_from stat rdp column preview offset [] = []"
  "matches_from stat rdp column preview offset (p # ps) =
     line_matches column preview p offset (drop offset (searched_lines stat rdp p)) @ matches_from stat rdp column preview 0 ps"
  by (simp_all add: matches_from_def split: list.split)

lemma search_lines_limit:
  assumes "\<forall>l \<in> set ls. is_ok (column l)"
  shows "(search_lines column limit preview path i ls ms = Inr (ms @ line_matches column preview path i ls, None))
    \<or> (\<exists>k < length ls. search_lines column limit preview path i ls ms
          = Inr (ms @ line_matches column preview path i (take (Suc k) ls), Some (i + k)))"
  using assms
proof (induction ls arbitrary: i ms)
  case (Cons line ls)
  obtain found where f: "column line = Inr found" using Cons.prems by (auto simp: is_ok_def split: sum.splits)
  define ms' where "ms' = ms @ (case found of None \<Rightarrow> [] | Some c \<Rightarrow> [match_at preview path i line c])"
  show ?case
  proof (cases "found \<noteq> None \<and> limit \<le> length ms'")
    case True
    then have "search_lines column limit preview path i (line # ls) ms = Inr (ms', Some i)" using f by (auto simp: ms'_def)
    then show ?thesis using f True by (intro disjI2 exI [of _ 0]) (auto simp: ms'_def)
  next
    case False
    then have step: "search_lines column limit preview path i (line # ls) ms = search_lines column limit preview path (Suc i) ls ms'"
      using f by (auto simp: ms'_def split: option.splits)
    have all: "ms' @ line_matches column preview path (Suc i) xs = ms @ line_matches column preview path i (line # xs)" for xs
      using f by (auto simp: ms'_def split: option.splits)
    have "\<forall>l \<in> set ls. is_ok (column l)" using Cons.prems by simp
    then consider "search_lines column limit preview path (Suc i) ls ms' = Inr (ms' @ line_matches column preview path (Suc i) ls, None)"
      | k where "k < length ls" "search_lines column limit preview path (Suc i) ls ms'
          = Inr (ms' @ line_matches column preview path (Suc i) (take (Suc k) ls), Some (Suc i + k))"
      using Cons.IH by blast
    then show ?thesis
    proof cases
      case 1
      then show ?thesis by (intro disjI1) (simp only: step all)
    next
      case (2 k)
      then have "search_lines column limit preview path i (line # ls) ms
          = Inr (ms @ line_matches column preview path i (take (Suc (Suc k)) (line # ls)), Some (i + Suc k))"
        by (simp only: step all take_Suc_Cons add_Suc add_Suc_right)
      then show ?thesis using 2(1) by (intro disjI2 exI [of _ "Suc k"]) simp
    qed
  qed
qed simp

lemma line_matches_append:
  "line_matches column preview path i (xs @ ys) = line_matches column preview path i xs @ line_matches column preview path (i + length xs) ys"
  by (induction xs arbitrary: i) auto

text \<open>How much is left to search: every file counts one and its lines.\<close>

definition search_todo :: "(pystr \<Rightarrow> nat option) \<Rightarrow> (pystr \<Rightarrow> bytes res) \<Rightarrow> nat \<Rightarrow> pystr list \<Rightarrow> nat" where
  "search_todo stat rdp offset paths = sum_list (map (\<lambda>p. Suc (length (searched_lines stat rdp p))) paths) - offset"

definition search_start :: "(pystr \<Rightarrow> nat option) \<Rightarrow> (pystr \<Rightarrow> bytes res) \<Rightarrow> nat \<Rightarrow> pystr list \<Rightarrow> bool" where
  "search_start stat rdp offset paths \<longleftrightarrow> (case paths of [] \<Rightarrow> offset = 0 | p # _ \<Rightarrow> offset \<le> length (searched_lines stat rdp p))"

lemma search_todo_tail: "search_start stat rdp offset (p # ps) \<Longrightarrow> search_todo stat rdp 0 ps < search_todo stat rdp offset (p # ps)"
  by (simp add: search_todo_def search_start_def)

lemma search_start_zero [simp]: "search_start stat rdp 0 paths"
  by (simp add: search_start_def split: list.split)

text \<open>
  A page of the search: the matches it adds and what is left from its continuation are what was
  left before, and with nothing scanned yet the continuation is further on.
\<close>

definition page_splits ::
  "(pystr \<Rightarrow> nat option) \<Rightarrow> (pystr \<Rightarrow> bytes res) \<Rightarrow> (pystr \<Rightarrow> nat option res) \<Rightarrow> nat \<Rightarrow> nat \<Rightarrow> nat \<Rightarrow> pystr list \<Rightarrow> nat
     \<Rightarrow> search_match list \<Rightarrow> pystr option \<Rightarrow> bool" where
  "page_splits stat rdp column preview i offset paths scanned new nxt \<longleftrightarrow>
     (case nxt of
        None \<Rightarrow> matches_from stat rdp column preview offset paths = new
      | Some c \<Rightarrow> \<exists>k l. c = encode_search_cursor (i + k) l \<and> k \<le> length paths \<and> search_start stat rdp l (drop k paths)
          \<and> matches_from stat rdp column preview offset paths = new @ matches_from stat rdp column preview l (drop k paths)
          \<and> (search_todo stat rdp l (drop k paths) < search_todo stat rdp offset paths \<or> 0 < scanned \<and> k = 0 \<and> l = offset))"

lemma page_splits_stop:
  assumes "k \<le> length paths" and "search_start stat rdp l (drop k paths)"
    and "matches_from stat rdp column preview offset paths = new @ matches_from stat rdp column preview l (drop k paths)"
    and "search_todo stat rdp l (drop k paths) < search_todo stat rdp offset paths \<or> 0 < scanned \<and> k = 0 \<and> l = offset"
  shows "page_splits stat rdp column preview i offset paths scanned new (Some (encode_search_cursor (i + k) l))"
  unfolding page_splits_def option.case by (intro exI [of _ k] exI [of _ l]) (use assms in simp)

lemma page_splits_later:
  assumes "page_splits stat rdp column preview (Suc i) 0 paths sc new nxt"
    and "line_matches column preview path offset (drop offset (searched_lines stat rdp path)) = new0"
    and "search_start stat rdp offset (path # paths)"
  shows "page_splits stat rdp column preview i offset (path # paths) scanned (new0 @ new) nxt"
proof (cases nxt)
  case None
  then show ?thesis using assms(1,2) by (simp add: page_splits_def)
next
  case (Some c)
  then obtain k l where k: "c = encode_search_cursor (Suc i + k) l" "k \<le> length paths" "search_start stat rdp l (drop k paths)"
      "matches_from stat rdp column preview 0 paths = new @ matches_from stat rdp column preview l (drop k paths)"
      and "search_todo stat rdp l (drop k paths) < search_todo stat rdp 0 paths \<or> 0 < sc \<and> k = 0 \<and> l = 0"
    using assms(1) unfolding page_splits_def by (simp only: option.case) blast
  then have todo: "search_todo stat rdp l (drop k paths) \<le> search_todo stat rdp 0 paths" by auto
  have c: "c = encode_search_cursor (i + Suc k) l" using k(1) by simp
  show ?thesis unfolding Some c using k(2-4) todo search_todo_tail [OF assms(3)] assms(2) by (intro page_splits_stop) simp_all
qed

lemma page_splits_hit:
  assumes "k < length (drop offset lines)" and "searched_lines stat rdp path = lines" and "l = Suc (offset + k)"
    and "new = line_matches column preview path offset (take (Suc k) (drop offset lines))"
    and "search_start stat rdp offset (path # paths)"
  shows "page_splits stat rdp column preview i offset (path # paths) scanned new
    (if l < length lines then Some (encode_search_cursor i l)
     else if paths \<noteq> [] then Some (encode_search_cursor (Suc i) 0) else None)"
proof -
  have l: "offset < l" "l \<le> length lines" using assms(1,3) by auto
  have "drop offset lines = take (Suc k) (drop offset lines) @ drop l lines"
    using append_take_drop_id [of "Suc k" "drop offset lines"] by (simp add: assms(3) add.commute)
  moreover have "offset + length (take (Suc k) (drop offset lines)) = l" using assms(1,3) by simp
  ultimately have split: "line_matches column preview path offset (drop offset lines) = new @ line_matches column preview path l (drop l lines)"
    unfolding assms(4) by (metis line_matches_append)
  show ?thesis
  proof (cases "l < length lines")
    case True
    have "search_todo stat rdp l (path # paths) < search_todo stat rdp offset (path # paths)"
      using l assms(2) by (simp add: search_todo_def)
    then show ?thesis
      using page_splits_stop [of 0 "path # paths" stat rdp l column preview offset new scanned i] True split assms(2)
      by (simp add: search_start_def)
  next
    case False
    then have "line_matches column preview path offset (drop offset lines) = new" using split l by simp
    then have all: "matches_from stat rdp column preview offset (path # paths) = new @ matches_from stat rdp column preview 0 paths"
      using assms(2) by simp
    show ?thesis
    proof (cases "paths = []")
      case True
      then show ?thesis using False all unfolding page_splits_def by simp
    next
      case more: False
      then show ?thesis
        using page_splits_stop [of 1 "path # paths" stat rdp 0 column preview offset new scanned i] False all
          search_todo_tail [OF assms(5)] by simp
    qed
  qed
qed

lemma search_loop_splits:
  assumes "searchable stat rdp column paths" and "search_start stat rdp offset paths"
  shows "\<exists>new nxt sc. search_loop stat rdp column limit preview i offset paths ms scanned
      = Inr \<lparr>sp_matches = ms @ new, sp_continuation = nxt, sp_scanned = sc\<rparr>
    \<and> page_splits stat rdp column preview i offset paths scanned new nxt"
  using assms
proof (induction paths arbitrary: i offset ms scanned)
  case Nil
  then show ?case by (auto simp: page_splits_def)
next
  case (Cons path paths)
  let ?loop = "search_loop stat rdp column limit preview"
  obtain n content where n: "stat path = Some n" and c: "file_lines rdp path = Inr content"
    using Cons.prems(1) by (auto simp: searchable_def is_ok_def split: sum.splits)
  have tail: "searchable stat rdp column paths" using Cons.prems(1) by (simp add: searchable_def)
  have later: ?case if call: "?loop i offset (path # paths) ms scanned = ?loop (Suc i) 0 paths (ms @ new0) sc"
    and new0: "line_matches column preview path offset (drop offset (searched_lines stat rdp path)) = new0" for new0 sc
  proof -
    obtain new nxt sc' where "?loop (Suc i) 0 paths (ms @ new0) sc = Inr \<lparr>sp_matches = (ms @ new0) @ new, sp_continuation = nxt, sp_scanned = sc'\<rparr>"
        and split: "page_splits stat rdp column preview (Suc i) 0 paths sc new nxt"
      using Cons.IH [OF tail search_start_zero] by blast
    then have "?loop i offset (path # paths) ms scanned = Inr \<lparr>sp_matches = ms @ new0 @ new, sp_continuation = nxt, sp_scanned = sc'\<rparr>"
      using call by (simp only: append_assoc)
    then show ?thesis using page_splits_later [OF split new0 Cons.prems(2)] by blast
  qed
  consider (big) "MAX_SEARCH_FILE_BYTES < n"
    | (full) "\<not> MAX_SEARCH_FILE_BYTES < n" "MAX_SEARCH_SCANNED_BYTES < scanned + n"
    | (skip) "\<not> MAX_SEARCH_FILE_BYTES < n" "\<not> MAX_SEARCH_SCANNED_BYTES < scanned + n" "content = None"
    | (look) lines where "\<not> MAX_SEARCH_FILE_BYTES < n" "\<not> MAX_SEARCH_SCANNED_BYTES < scanned + n" "content = Some lines"
    by (cases content) auto
  then show ?case
  proof cases
    case big
    then show ?thesis using later [of "[]" scanned] n by (simp add: searched_lines_def)
  next
    case full
    then have "0 < scanned" by (simp add: MAX_SEARCH_FILE_BYTES_def MAX_SEARCH_SCANNED_BYTES_def)
    then have "page_splits stat rdp column preview i offset (path # paths) scanned [] (Some (encode_search_cursor i offset))"
      using page_splits_stop [of 0 "path # paths" stat rdp offset column preview offset "[]" scanned i] Cons.prems(2) by simp
    then show ?thesis using full n by (intro exI [of _ "[]"]) simp
  next
    case skip
    then show ?thesis using later [of "[]" "scanned + n"] n c by (simp add: searched_lines_def)
  next
    case look
    then have ls: "searched_lines stat rdp path = lines" using n c by (simp add: searched_lines_def)
    have off: "\<not> length lines < offset" using Cons.prems(2) ls by (simp add: search_start_def)
    have "\<forall>l \<in> set (drop offset lines). is_ok (column l)"
      using Cons.prems(1) ls by (auto simp: searchable_def dest: in_set_dropD)
    then consider (all) "search_lines column limit preview path offset (drop offset lines) ms
        = Inr (ms @ line_matches column preview path offset (drop offset lines), None)"
      | (hit) k where "k < length (drop offset lines)" "search_lines column limit preview path offset (drop offset lines) ms
        = Inr (ms @ line_matches column preview path offset (take (Suc k) (drop offset lines)), Some (offset + k))"
      using search_lines_limit by blast
    then show ?thesis
    proof cases
      case all
      then show ?thesis using later [of _ "scanned + n"] n c look off ls by simp
    next
      case hit
      then have "?loop i offset (path # paths) ms scanned =
          Inr \<lparr>sp_matches = ms @ line_matches column preview path offset (take (Suc k) (drop offset lines)),
            sp_continuation = (if Suc (offset + k) < length lines then Some (encode_search_cursor i (Suc (offset + k)))
              else if paths \<noteq> [] then Some (encode_search_cursor (Suc i) 0) else None), sp_scanned = scanned + n\<rparr>"
        using n c look off by simp
      then show ?thesis using page_splits_hit [OF hit(1) ls refl refl Cons.prems(2)] by blast
    qed
  qed
qed

section \<open>Following the cursor of a search\<close>

definition search_calls ::
  "(bytes \<Rightarrow> pystr) \<Rightarrow> (pystr \<Rightarrow> pystr) \<Rightarrow> (pystr \<Rightarrow> bool \<Rightarrow> (pystr \<Rightarrow> regex_answer) option) \<Rightarrow> (abspath \<Rightarrow> scan) \<Rightarrow> filesystem
     \<Rightarrow> reader \<Rightarrow> db \<Rightarrow> search_request \<Rightarrow> pystr option \<Rightarrow> exn + search_match list \<times> pystr option option" where
  "search_calls sha cf compile scandir D rd d q cursor =
     bindE (search_text sha cf compile scandir D rd d None (q\<lparr>sq_cursor := cursor\<rparr>)) (\<lambda>p. Inr (sp_matches p, map_option Some (sp_continuation p)))"

definition sizes_in :: "filesystem \<Rightarrow> project \<Rightarrow> pystr \<Rightarrow> nat option" where
  "sizes_in D pr p = file_size D (root pr @ split_on 47 p)"

definition search_column ::
  "(pystr \<Rightarrow> pystr) \<Rightarrow> (pystr \<Rightarrow> bool \<Rightarrow> (pystr \<Rightarrow> regex_answer) option) \<Rightarrow> search_request \<Rightarrow> pystr \<Rightarrow> nat option res" where
  "search_column cf compile q =
     match_column cf (if sq_regex q then compile (sq_query q) (sq_case_sensitive q) else None) (sq_case_sensitive q) (sq_query q)"

text \<open>The request is valid, its target resolves to these candidates, and all of them can be searched.\<close>

definition search_ready ::
  "(bytes \<Rightarrow> pystr) \<Rightarrow> (pystr \<Rightarrow> pystr) \<Rightarrow> (pystr \<Rightarrow> bool \<Rightarrow> (pystr \<Rightarrow> regex_answer) option) \<Rightarrow> (abspath \<Rightarrow> scan) \<Rightarrow> filesystem
     \<Rightarrow> reader \<Rightarrow> db \<Rightarrow> search_request \<Rightarrow> project \<Rightarrow> pystr list \<Rightarrow> bool" where
  "search_ready sha cf compile scandir D rd d q pr candidates \<longleftrightarrow>
     (\<exists>patterns v. check_search_request q = Inr patterns \<and> get_project (sq_project q) d = Inr pr
        \<and> resolve sha (view D) pr (sq_path q) True None False True = Inr v
        \<and> search_candidates (view D) cf (scandir (absolute v)) (root pr) patterns (absolute v) = Inr candidates)
     \<and> (sq_regex q \<longrightarrow> compile (sq_query q) (sq_case_sensitive q) \<noteq> None)
     \<and> searchable (sizes_in D pr) (rd pr) (search_column cf compile q) candidates"

definition search_position :: "pystr option \<Rightarrow> nat \<times> nat" where
  "search_position cursor = (case decode_search_cursor cursor of Inr p \<Rightarrow> p | Inl _ \<Rightarrow> (0, 0))"

definition search_at :: "filesystem \<Rightarrow> reader \<Rightarrow> project \<Rightarrow> pystr list \<Rightarrow> pystr option \<Rightarrow> bool" where
  "search_at D rd pr candidates cursor \<longleftrightarrow>
     (case decode_search_cursor cursor of
        Inl _ \<Rightarrow> False
      | Inr (i, l) \<Rightarrow> i \<le> length candidates \<and> search_start (sizes_in D pr) (rd pr) l (drop i candidates))"

lemma search_calls_eq:
  assumes "search_ready sha cf compile scandir D rd d q pr candidates" and "search_at D rd pr candidates cursor"
    and "search_position cursor = (i, l)"
  shows "search_calls sha cf compile scandir D rd d q cursor =
    bindE (search_loop (sizes_in D pr) (rd pr) (search_column cf compile q) (nat (sq_limit q)) (nat (sq_preview q)) i l (drop i candidates) [] 0)
      (\<lambda>p. Inr (sp_matches p, map_option Some (sp_continuation p)))"
proof -
  obtain patterns v where r: "check_search_request q = Inr patterns" "get_project (sq_project q) d = Inr pr"
      "resolve sha (view D) pr (sq_path q) True None False True = Inr v"
      "search_candidates (view D) cf (scandir (absolute v)) (root pr) patterns (absolute v) = Inr candidates"
      and e: "sq_regex q \<longrightarrow> compile (sq_query q) (sq_case_sensitive q) \<noteq> None"
    using assms(1) by (auto simp: search_ready_def)
  have "check_search_request (q\<lparr>sq_cursor := cursor\<rparr>) = check_search_request q" by (simp add: check_search_request_def Let_def)
  then have "check_search_request (q\<lparr>sq_cursor := cursor\<rparr>) = Inr patterns" using r(1) by simp
  moreover have "decode_search_cursor cursor = Inr (i, l)"
    using assms(2,3) by (auto simp: search_at_def search_position_def split: sum.splits)
  moreover have "\<not> (length candidates < i \<or> i = length candidates \<and> 0 < l)"
    using assms(2) calculation(2) by (auto simp: search_at_def search_start_def)
  moreover have "(\<lambda>p. file_size D (root pr @ split_on 47 p)) = sizes_in D pr" by (simp add: sizes_in_def fun_eq_iff)
  ultimately show ?thesis
    using r(2-4) e by (auto simp: search_calls_def search_text_def target_or_project_def search_column_def Let_def)
qed

lemma search_call_step:
  assumes "search_ready sha cf compile scandir D rd d q pr candidates" and "search_at D rd pr candidates cursor"
    and "search_position cursor = (i, l)"
  obtains new nxt where "search_calls sha cf compile scandir D rd d q cursor = Inr (new, map_option Some nxt)"
    "page_splits (sizes_in D pr) (rd pr) (search_column cf compile q) (nat (sq_preview q)) i l (drop i candidates) 0 new nxt"
proof -
  have "searchable (sizes_in D pr) (rd pr) (search_column cf compile q) (drop i candidates)"
    using assms(1) by (auto simp: search_ready_def searchable_def dest: in_set_dropD)
  moreover have "search_start (sizes_in D pr) (rd pr) l (drop i candidates)"
    using assms(2,3) by (auto simp: search_at_def search_position_def split: sum.splits)
  ultimately obtain new nxt sc where "search_loop (sizes_in D pr) (rd pr) (search_column cf compile q) (nat (sq_limit q)) (nat (sq_preview q))
        i l (drop i candidates) [] 0 = Inr \<lparr>sp_matches = [] @ new, sp_continuation = nxt, sp_scanned = sc\<rparr>"
      "page_splits (sizes_in D pr) (rd pr) (search_column cf compile q) (nat (sq_preview q)) i l (drop i candidates) 0 new nxt"
    using search_loop_splits by blast
  then show thesis using that search_calls_eq [OF assms] by simp
qed

definition found_from :: "(pystr \<Rightarrow> nat option) \<Rightarrow> (pystr \<Rightarrow> bytes res) \<Rightarrow> (pystr \<Rightarrow> nat option res) \<Rightarrow> nat \<Rightarrow> pystr list \<Rightarrow> nat \<times> nat \<Rightarrow> search_match list" where
  "found_from stat rdp column preview candidates p = matches_from stat rdp column preview (snd p) (drop (fst p) candidates)"

interpretation searching: paged "search_calls sha cf compile scandir D rd d q"
  "\<lambda>cursor. search_ready sha cf compile scandir D rd d q pr candidates \<and> search_at D rd pr candidates cursor"
  "\<lambda>cursor. found_from (sizes_in D pr) (rd pr) (search_column cf compile q) (nat (sq_preview q)) candidates (search_position cursor)"
  "\<lambda>cursor. search_todo (sizes_in D pr) (rd pr) (snd (search_position cursor)) (drop (fst (search_position cursor)) candidates)"
  for sha cf compile scandir D rd d q pr candidates
proof unfold_locales
  fix cursor assume v: "search_ready sha cf compile scandir D rd d q pr candidates \<and> search_at D rd pr candidates cursor"
  obtain i l where p: "search_position cursor = (i, l)" by (cases "search_position cursor")
  obtain new nxt where c: "search_calls sha cf compile scandir D rd d q cursor = Inr (new, map_option Some nxt)"
    and s: "page_splits (sizes_in D pr) (rd pr) (search_column cf compile q) (nat (sq_preview q)) i l (drop i candidates) 0 new nxt"
    by (rule search_call_step [OF conjunct1 [OF v] conjunct2 [OF v] p])
  show "\<exists>xs n. search_calls sha cf compile scandir D rd d q cursor = Inr (xs, n)" using c by blast
  show "found_from (sizes_in D pr) (rd pr) (search_column cf compile q) (nat (sq_preview q)) candidates (search_position cursor) = xs"
    if "search_calls sha cf compile scandir D rd d q cursor = Inr (xs, None)" for xs
    using that c s by (simp add: p found_from_def page_splits_def)
  show "(search_ready sha cf compile scandir D rd d q pr candidates \<and> search_at D rd pr candidates c')
      \<and> found_from (sizes_in D pr) (rd pr) (search_column cf compile q) (nat (sq_preview q)) candidates (search_position cursor)
        = xs @ found_from (sizes_in D pr) (rd pr) (search_column cf compile q) (nat (sq_preview q)) candidates (search_position c')
      \<and> search_todo (sizes_in D pr) (rd pr) (snd (search_position c')) (drop (fst (search_position c')) candidates)
        < search_todo (sizes_in D pr) (rd pr) (snd (search_position cursor)) (drop (fst (search_position cursor)) candidates)"
    if a: "search_calls sha cf compile scandir D rd d q cursor = Inr (xs, Some c')" for xs c'
  proof -
    obtain t where t: "nxt = Some t" "c' = Some t" "xs = new" using a c by auto
    then obtain k m where k: "t = encode_search_cursor (i + k) m" "k \<le> length (drop i candidates)"
        "search_start (sizes_in D pr) (rd pr) m (drop k (drop i candidates))"
        "matches_from (sizes_in D pr) (rd pr) (search_column cf compile q) (nat (sq_preview q)) l (drop i candidates)
          = new @ matches_from (sizes_in D pr) (rd pr) (search_column cf compile q) (nat (sq_preview q)) m (drop k (drop i candidates))"
        "search_todo (sizes_in D pr) (rd pr) m (drop k (drop i candidates)) < search_todo (sizes_in D pr) (rd pr) l (drop i candidates)"
      using s unfolding page_splits_def by (simp only: option.case) blast
    have "i \<le> length candidates" using v p by (auto simp: search_at_def search_position_def split: sum.splits)
    moreover have "drop k (drop i candidates) = drop (i + k) candidates" by (simp add: add.commute)
    moreover have "search_position c' = (i + k, m)" by (simp add: search_position_def t k(1))
    ultimately show ?thesis using v k(2-5) by (simp add: p found_from_def t k(1) search_at_def)
  qed
qed


definition demo_query :: search_request where
  "demo_query = \<lparr>sq_project = lit ''p1'', sq_query = [120], sq_path = [], sq_globs = None, sq_case_sensitive = False,
     sq_regex = False, sq_preview = 128, sq_limit = 1, sq_cursor = None\<rparr>"

definition demo_scan :: "abspath \<Rightarrow> scan" where
  "demo_scan p = (if p = root example_project then Scan [Entry (lit ''t'') False False Unreadable] else Unreadable)"

definition no_regex :: "pystr \<Rightarrow> bool \<Rightarrow> (pystr \<Rightarrow> regex_answer) option" where
  "no_regex q cs = None"


section \<open>Following the cursor of a listing\<close>

definition list_calls ::
  "(bytes \<Rightarrow> pystr) \<Rightarrow> (pystr \<Rightarrow> pystr) \<Rightarrow> (abspath \<Rightarrow> scan) \<Rightarrow> filesystem \<Rightarrow> db \<Rightarrow> list_request \<Rightarrow> pystr option
     \<Rightarrow> exn + listed list \<times> pystr option option" where
  "list_calls sha cf scandir D d q cursor =
     bindE (list_directory sha cf scandir D d None (q\<lparr>lq_cursor := cursor\<rparr>)) (\<lambda>p. Inr (lp_entries p, map_option Some (lp_continuation p)))"

text \<open>The sorted entries a request selects.\<close>

definition listing_of :: "(bytes \<Rightarrow> pystr) \<Rightarrow> (pystr \<Rightarrow> pystr) \<Rightarrow> (abspath \<Rightarrow> scan) \<Rightarrow> filesystem \<Rightarrow> db \<Rightarrow> list_request \<Rightarrow> listed list res" where
  "listing_of sha cf scandir D d q =
     bindE (get_project (lq_project q) d) (\<lambda>pr.
     bindE (resolve sha (view D) pr (lq_path q) True (Some True) False True) (\<lambda>v.
     bindE (children_of (view D) cf (lq_recursive q) (absolute v) (scandir (absolute v))) (\<lambda>children.
     if MAX_DIRECTORY_SCANNED < length children then Inl (raise ''result_limit'')
     else bindE (list_entries D (lq_glob q) (root pr) (absolute v) children)
            (\<lambda>es. Inr (sort_key (\<lambda>e. (\<not> le_directory e, cf (le_name e))) es)))))"

definition list_ready :: "(bytes \<Rightarrow> pystr) \<Rightarrow> (pystr \<Rightarrow> pystr) \<Rightarrow> (abspath \<Rightarrow> scan) \<Rightarrow> filesystem \<Rightarrow> db \<Rightarrow> list_request \<Rightarrow> listed list \<Rightarrow> bool" where
  "list_ready sha cf scandir D d q entries \<longleftrightarrow>
     1 \<le> lq_limit q \<and> lq_limit q \<le> int MAX_DIRECTORY_RESULTS \<and> (case lq_glob q of None \<Rightarrow> True | Some g \<Rightarrow> is_ok (validate_glob g))
     \<and> listing_of sha cf scandir D d q = Inr entries"

lemma list_calls_eq:
  assumes "list_ready sha cf scandir D d q entries" and "decode_cursor cursor = Inr offset"
  shows "list_calls sha cf scandir D d q cursor =
    (let page = take (nat (lq_limit q)) (drop offset entries) in
     Inr (page, if offset + length page < length entries then Some (Some (encode_cursor (offset + length page))) else None))"
proof -
  have "(case lq_glob q of None \<Rightarrow> Inr () | Some g \<Rightarrow> validate_glob g) = Inr ()"
    using assms(1) by (auto simp: list_ready_def is_ok_def split: option.splits sum.splits)
  moreover obtain pr v children es where "get_project (lq_project q) d = Inr pr"
      and v: "resolve sha (view D) pr (lq_path q) True (Some True) False True = Inr v"
      and "children_of (view D) cf (lq_recursive q) (absolute v) (scandir (absolute v)) = Inr children"
      "\<not> MAX_DIRECTORY_SCANNED < length children" "list_entries D (lq_glob q) (root pr) (absolute v) children = Inr es"
      "entries = sort_key (\<lambda>e. (\<not> le_directory e, cf (le_name e))) es"
    using assms(1) by (auto simp: list_ready_def listing_of_def res_simps split: if_splits)
  moreover have "is_ok (validate_relative_path (lq_path q) True)" using v by (auto simp: resolve_def res_simps is_ok_def)
  ultimately show ?thesis
    using assms by (auto simp: list_calls_def list_directory_def list_ready_def target_or_project_def Let_def is_ok_def split: sum.splits)
qed

definition list_position :: "pystr option \<Rightarrow> nat" where
  "list_position cursor = (case decode_cursor cursor of Inr n \<Rightarrow> n | Inl _ \<Rightarrow> 0)"

interpretation directory: paged "list_calls sha cf scandir D d q"
  "\<lambda>cursor. list_ready sha cf scandir D d q entries \<and> is_ok (decode_cursor cursor)"
  "\<lambda>cursor. drop (list_position cursor) entries" "\<lambda>cursor. length entries - list_position cursor"
  for sha cf scandir D d q entries
proof unfold_locales
  fix cursor assume a: "list_ready sha cf scandir D d q entries \<and> is_ok (decode_cursor cursor)"
  then obtain n where n: "decode_cursor cursor = Inr n" by (auto simp: is_ok_def split: sum.splits)
  note eq = list_calls_eq [OF conjunct1 [OF a] n]
  have p: "list_position cursor = n" by (simp add: list_position_def n)
  have l: "0 < nat (lq_limit q)" using a by (simp add: list_ready_def)
  show "\<exists>xs m. list_calls sha cf scandir D d q cursor = Inr (xs, m)" by (simp add: eq Let_def)
  show "drop (list_position cursor) entries = xs" if "list_calls sha cf scandir D d q cursor = Inr (xs, None)" for xs
    using that eq by (auto simp: p Let_def split: if_splits)
  show "(list_ready sha cf scandir D d q entries \<and> is_ok (decode_cursor c'))
      \<and> drop (list_position cursor) entries = xs @ drop (list_position c') entries
      \<and> length entries - list_position c' < length entries - list_position cursor"
    if "list_calls sha cf scandir D d q cursor = Inr (xs, Some c')" for xs c'
  proof -
    have c: "c' = Some (encode_cursor (n + length xs))" "xs = take (nat (lq_limit q)) (drop n entries)" "n + length xs < length entries"
      using that eq by (auto simp: Let_def split: if_splits)
    then have q: "list_position c' = n + length xs" by (simp add: list_position_def)
    have "drop n entries = xs @ drop (length xs) (drop n entries)" using c(2) by (metis append_eq_conv_conj append_take_drop_id)
    moreover have "0 < length xs" using c(2,3) l by auto
    ultimately show ?thesis using a c q by (simp add: p add.commute)
  qed
qed

lemma listing_complete:
  assumes "list_ready sha cf scandir D d q entries"
  shows "follow (list_calls sha cf scandir D d q) (Suc (length entries)) None = Some entries"
  using directory.follow_complete [of sha cf scandir D d q entries None] assms
  by (simp add: list_position_def decode_cursor_def del: follow.simps)

text \<open>A regular expression that does not match a line falls back to the literal text of the pattern.\<close>

lemma regex_matches_literal_text:
  "match_column cf (Some (\<lambda>_. No_match)) True query (before @ query @ after) \<noteq> Inr None"
proof -
  have start: "find_text n s \<noteq> None" if "prefix n s" for n s using that by (cases s) auto
  have "find_text n (b @ n @ a) \<noteq> None" for n b a
  proof (induction b)
    case Nil
    show ?case by (rule start) simp
  qed simp
  then show ?thesis by (simp add: match_column_def Let_def)
qed

end
