(* ===== verification/Read_Scope.thy ===== *)
theory Read_Scope
  imports Read_Text
begin

text \<open>
  \<open>WindowsReadScope\<close> (\<open>agent/src/codito_agent/device_paths.py\<close>): a directory that is approved for
  reading, pinned by open handles from the drive down, and the file reads below it.  Windows is a
  name space that other processes change at any time, between any two calls, except at paths that
  are open: the handles share neither writing nor deletion, so while one is open its path goes on
  to name the same unchanged object.  Paths are compared exactly.
\<close>

section \<open>Windows\<close>

text \<open>What \<open>GetFileInformationByHandle\<close>, \<open>GetFileType\<close> and \<open>ReadFile\<close> tell of an open object.\<close>

record file_object =
  fo_attributes :: nat
  fo_volume :: nat
  fo_index_high :: nat
  fo_index_low :: nat
  fo_links :: nat
  fo_disk :: bool
  fo_informed :: bool
  fo_bytes :: bytes

text \<open>The answer of \<open>CreateFileW\<close>: one of the two not-found errors, another error, or the object.\<close>

datatype open_answer = Not_found | Denied | Opened file_object

record windows =
  wn_names :: "abspath \<Rightarrow> bool \<Rightarrow> open_answer"
  wn_open :: "(nat \<times> abspath \<times> bool \<times> file_object) list"
  wn_next :: nat
  wn_drive_type :: "pystr \<Rightarrow> nat"
  wn_filesystem :: "pystr \<Rightarrow> pystr option"

text \<open>What other processes do before a call; \<open>keeps_pins\<close> is what Windows guarantees of it.\<close>

type_synonym others = "nat \<Rightarrow> windows \<Rightarrow> abspath \<Rightarrow> bool \<Rightarrow> open_answer"

definition keeps_pins :: "others \<Rightarrow> bool" where
  "keeps_pins env \<longleftrightarrow> (\<forall>k W h p dir n. (h, p, dir, n) \<in> set (wn_open W) \<longrightarrow> env k W p dir = wn_names W p dir)"

definition meanwhile :: "others \<Rightarrow> windows \<Rightarrow> windows" where
  "meanwhile env W = W\<lparr>wn_names := env (wn_next W) W, wn_next := Suc (wn_next W)\<rparr>"

definition close_handle :: "nat \<Rightarrow> windows \<Rightarrow> windows" where
  "close_handle h W = W\<lparr>wn_open := filter (\<lambda>e. fst e \<noteq> h) (wn_open W)\<rparr>"

section \<open>The scope\<close>

record read_scope =
  rs_root :: abspath
  rs_handles :: "nat list"
  rs_directories :: "(abspath \<times> nat \<times> file_object) list"
  rs_identity :: pystr

definition identity_text :: "file_object \<Rightarrow> pystr" where
  "identity_text n = hex_digits (fo_volume n) @ [58] @ hex_digits (fo_index_high n) @ [58] @ hex_digits (fo_index_low n)"

text \<open>Reparse points, offline files and the two kinds of cloud placeholders.\<close>

definition blocked_attributes :: "nat \<Rightarrow> bool" where
  "blocked_attributes a \<longleftrightarrow> odd (a div 0x400) \<or> placeholder_bits a"

definition is_directory :: "file_object \<Rightarrow> bool" where
  "is_directory n \<longleftrightarrow> odd (fo_attributes n div 0x10)"

definition check_object :: "bool \<Rightarrow> file_object \<Rightarrow> unit res" where
  "check_object directory n =
     (if \<not> fo_informed n then Inl (raise ''read_failed'')
      else if \<not> fo_disk n then Inl (raise ''unsafe_path'')
      else if blocked_attributes (fo_attributes n) then Inl (raise ''unsafe_path'')
      else if is_directory n \<noteq> directory then Inl (raise ''invalid_path'')
      else if \<not> directory \<and> fo_links n \<noteq> 1 then Inl (raise ''unsafe_path'')
      else Inr ())"

definition scope_open ::
  "others \<Rightarrow> abspath \<Rightarrow> bool \<Rightarrow> read_scope \<times> windows \<Rightarrow> (nat \<times> file_object) res \<times> read_scope \<times> windows" where
  "scope_open env p directory S =
     (case S of (sc, W0) \<Rightarrow>
        (case if directory then map_of (rs_directories sc) p else None of
           Some e \<Rightarrow> (Inr e, sc, W0)
         | None \<Rightarrow>
             let W = meanwhile env W0 in
             (case wn_names W p directory of
                Not_found \<Rightarrow> (Inl (raise ''path_not_found''), sc, W)
              | Denied \<Rightarrow> (Inl (raise ''read_failed''), sc, W)
              | Opened n \<Rightarrow>
                  let h = wn_next W0; W' = W\<lparr>wn_open := (h, p, directory, n) # wn_open W\<rparr>; sc' = sc\<lparr>rs_handles := rs_handles sc @ [h]\<rparr> in
                  case check_object directory n of
                    Inl e \<Rightarrow> (Inl e, sc', W')
                  | Inr _ \<Rightarrow>
                      (Inr (h, n), if directory then sc'\<lparr>rs_directories := (p, h, n) # rs_directories sc'\<rparr> else sc', W'))))"

definition scope_close :: "read_scope \<times> windows \<Rightarrow> read_scope \<times> windows" where
  "scope_close S = (case S of (sc, W) \<Rightarrow> (sc\<lparr>rs_handles := [], rs_directories := []\<rparr>, fold close_handle (rev (rs_handles sc)) W))"

text \<open>The loop over components; the handle and object of the last one.\<close>

fun open_components ::
  "others \<Rightarrow> bool \<Rightarrow> abspath \<Rightarrow> pystr list \<Rightarrow> (nat \<times> file_object) option \<Rightarrow> read_scope \<times> windows
     \<Rightarrow> (abspath \<times> (nat \<times> file_object) option) res \<times> read_scope \<times> windows" where
  "open_components env directory current [] last_open S = (Inr (current, last_open), S)"
| "open_components env directory current (c # cs) last_open S =
     (case scope_open env (current @ [c]) (directory \<or> cs \<noteq> []) S of
        (Inl e, S') \<Rightarrow> (Inl e, S')
      | (Inr opened, S') \<Rightarrow> open_components env directory (current @ [c]) cs (Some opened) S')"

text \<open>\<open>validate_relative_path\<close> gives \<open>"."\<close> for the root, and \<open>Path(".").parts\<close> is empty.\<close>

definition path_parts :: "pystr \<Rightarrow> pystr list" where
  "path_parts p = (if p = [] \<or> p = [46] then [] else split_on 47 p)"

definition scope_target ::
  "others \<Rightarrow> pystr \<Rightarrow> bool \<Rightarrow> read_scope \<times> windows \<Rightarrow> (abspath \<times> (nat \<times> file_object) option) res \<times> read_scope \<times> windows" where
  "scope_target env rel directory S =
     (case validate_relative_path rel directory of
        Inl e \<Rightarrow> (Inl e, S)
      | Inr parts \<Rightarrow> open_components env directory (rs_root (fst S)) (path_parts parts) None S)"

definition scope_directory :: "others \<Rightarrow> pystr \<Rightarrow> read_scope \<times> windows \<Rightarrow> abspath res \<times> read_scope \<times> windows" where
  "scope_directory env rel S =
     (case scope_target env rel True S of (Inl e, S') \<Rightarrow> (Inl e, S') | (Inr (p, _), S') \<Rightarrow> (Inr p, S'))"

text \<open>\<open>self._handles.remove(handle)\<close> and \<open>CloseHandle\<close>.\<close>

definition release_handle :: "nat \<Rightarrow> read_scope \<times> windows \<Rightarrow> read_scope \<times> windows" where
  "release_handle h S = (case S of (sc, W) \<Rightarrow> (sc\<lparr>rs_handles := remove1 h (rs_handles sc)\<rparr>, close_handle h W))"

definition scope_file_size :: "others \<Rightarrow> pystr \<Rightarrow> read_scope \<times> windows \<Rightarrow> nat res \<times> read_scope \<times> windows" where
  "scope_file_size env rel S =
     (case scope_target env rel False S of
        (Inl e, S') \<Rightarrow> (Inl e, S')
      | (Inr (p, None), S') \<Rightarrow> (Inl (raise ''invalid_path''), S')
      | (Inr (p, Some (h, n)), S') \<Rightarrow> (Inr (length (fo_bytes n)), release_handle h S'))"

text \<open>
  The read loop: before every block of 64 KiB the caller's \<open>check\<close> runs, and \<open>ReadFile\<close> may fail;
  both are plans over the index of the block.
\<close>

function read_blocks :: "(nat \<Rightarrow> unit res) \<Rightarrow> (nat \<Rightarrow> bool) \<Rightarrow> nat \<Rightarrow> nat \<Rightarrow> bytes \<Rightarrow> bytes \<Rightarrow> bytes res" where
  "read_blocks check broken maximum k data left =
     bindE (check k) (\<lambda>_.
       if broken k then Inl (raise ''read_failed'')
       else if left = [] then Inr data
       else
         let data' = data @ take 65536 left in
         if maximum < length data' then Inl (raise ''file_too_large'')
         else read_blocks check broken maximum (Suc k) data' (drop 65536 left))"
  by pat_completeness auto
termination
  by (relation "measure (\<lambda>(check, broken, maximum, k, data, left). length left)") auto

declare read_blocks.simps [simp del]

definition MAX_SCOPE_READ :: nat where
  "MAX_SCOPE_READ = 16 * 1024 * 1024"

definition read_handle :: "(nat \<Rightarrow> unit res) \<Rightarrow> (nat \<Rightarrow> bool) \<Rightarrow> file_object \<Rightarrow> int \<Rightarrow> bytes res" where
  "read_handle check broken n maximum =
     (if \<not> (0 \<le> maximum \<and> maximum \<le> int MAX_SCOPE_READ) then Inl invalid_request
      else if nat maximum < length (fo_bytes n) then Inl (raise ''file_too_large'')
      else read_blocks check broken (nat maximum) 0 [] (fo_bytes n))"

definition scope_read_bytes ::
  "others \<Rightarrow> (nat \<Rightarrow> unit res) \<Rightarrow> (nat \<Rightarrow> bool) \<Rightarrow> pystr \<Rightarrow> bool \<Rightarrow> int \<Rightarrow> read_scope \<times> windows \<Rightarrow> bytes res \<times> read_scope \<times> windows" where
  "scope_read_bytes env check broken rel release_file maximum S =
     (case scope_target env rel False S of
        (Inl e, S') \<Rightarrow> (Inl e, S')
      | (Inr (p, None), S') \<Rightarrow> (Inl (raise ''invalid_path''), S')
      | (Inr (p, Some (h, n)), sc, W) \<Rightarrow>
          let S' = (sc, meanwhile env W) in
          (read_handle check broken n maximum, if release_file then release_handle h S' else S'))"

text \<open>
  \<open>__init__\<close> and \<open>__enter__\<close>: the directories from the drive down are opened, and everything is
  closed again if one of them is refused.
\<close>

definition scope_root :: "pystr \<Rightarrow> abspath" where
  "scope_root value = (take 2 value @ [92]) # path_parts (drop 3 value)"

fun open_root :: "others \<Rightarrow> abspath \<Rightarrow> pystr list \<Rightarrow> file_object \<Rightarrow> read_scope \<times> windows \<Rightarrow> file_object res \<times> read_scope \<times> windows" where
  "open_root env current [] info S = (Inr info, S)"
| "open_root env current (c # cs) info S =
     (case scope_open env (current @ [c]) True S of
        (Inl e, S') \<Rightarrow> (Inl e, S')
      | (Inr (_, n), S') \<Rightarrow> open_root env (current @ [c]) cs n S')"

definition scope_enter :: "others \<Rightarrow> pystr \<Rightarrow> windows \<Rightarrow> unit res \<times> read_scope \<times> windows" where
  "scope_enter env scope_path W =
     (let empty = \<lparr>rs_root = [], rs_handles = [], rs_directories = [], rs_identity = []\<rparr> in
      case normalize_read_scope scope_path of
        Inl e \<Rightarrow> (Inl e, empty, W)
      | Inr value \<Rightarrow>
          let rt = scope_root value; sc = empty\<lparr>rs_root := rt\<rparr> in
          if wn_drive_type W (hd rt) \<noteq> 3 then (Inl (raise ''invalid_project_root''), scope_close (sc, W))
          else (case wn_filesystem W (hd rt) of
            None \<Rightarrow> (Inl OSError, scope_close (sc, W))
          | Some fs \<Rightarrow>
              if ascii_upper fs \<notin> {lit ''NTFS'', lit ''REFS''} then (Inl (raise ''invalid_project_root''), scope_close (sc, W))
              else (case scope_open env [hd rt] True (sc, W) of
                (Inl e, S) \<Rightarrow> (Inl e, scope_close S)
              | (Inr (_, n), S) \<Rightarrow>
                  (case open_root env [hd rt] (tl rt) n S of
                     (Inl e, S') \<Rightarrow> (Inl e, scope_close S')
                   | (Inr info, sc', W') \<Rightarrow> (Inr (), sc'\<lparr>rs_identity := identity_text info\<rparr>, W')))))"

text \<open>\<open>ProjectPathResolver.open_read\<close> on Windows: a scope on the project's root for one read.\<close>

definition open_read_windows ::
  "(bytes \<Rightarrow> pystr) \<Rightarrow> os_view \<Rightarrow> others \<Rightarrow> (nat \<Rightarrow> bool) \<Rightarrow> (abspath \<Rightarrow> pystr) \<Rightarrow> project \<Rightarrow> pystr \<Rightarrow> windows \<Rightarrow> bytes res \<times> windows" where
  "open_read_windows sha os env broken text pr rel W =
     (case verify_project sha os pr of
        Inl e \<Rightarrow> (Inl e, W)
      | Inr _ \<Rightarrow>
          (case scope_enter env (text (root pr)) W of
             (Inl e, sc, W') \<Rightarrow> (Inl e, W')
           | (Inr _, S) \<Rightarrow>
               (case scope_read_bytes env (\<lambda>_. Inr ()) broken rel False (int MAX_SCOPE_READ) S of
                  (r, S') \<Rightarrow> (r, snd (scope_close S')))))"

section \<open>What is pinned\<close>

definition plain_directory :: "file_object \<Rightarrow> bool" where
  "plain_directory n \<longleftrightarrow> check_object True n = Inr ()"

definition plain_file :: "file_object \<Rightarrow> bool" where
  "plain_file n \<longleftrightarrow> check_object False n = Inr ()"

text \<open>
  Every open path still names the object that was opened; the table of directories holds open plain
  directories, with every directory above one of them in the table too; and the open handles are
  those the scope will close.
\<close>

definition scope_ok :: "read_scope \<times> windows \<Rightarrow> bool" where
  "scope_ok S \<longleftrightarrow> (case S of (sc, W) \<Rightarrow> distinct (map fst (wn_open W))
     \<and> (\<forall>h p dir n. (h, p, dir, n) \<in> set (wn_open W) \<longrightarrow> wn_names W p dir = Opened n \<and> h \<in> set (rs_handles sc) \<and> h < wn_next W)
     \<and> (\<forall>p h n. (p, h, n) \<in> set (rs_directories sc) \<longrightarrow> (h, p, True, n) \<in> set (wn_open W) \<and> plain_directory n \<and> p \<noteq> [])
     \<and> (\<forall>p k. p \<in> fst ` set (rs_directories sc) \<longrightarrow> 0 < k \<longrightarrow> k \<le> length p \<longrightarrow> take k p \<in> fst ` set (rs_directories sc)))"

lemma meanwhile_open [simp]: "wn_open (meanwhile env W) = wn_open W"
  by (simp add: meanwhile_def)

lemma meanwhile_ok:
  assumes "keeps_pins env" and "scope_ok (sc, W)"
  shows "scope_ok (sc, meanwhile env W)"
  using assms unfolding scope_ok_def meanwhile_def keeps_pins_def by (simp add: less_SucI) metis

lemma scope_okD:
  assumes "scope_ok (sc, W)"
  shows "(h, p, dir, n) \<in> set (wn_open W) \<Longrightarrow> wn_names W p dir = Opened n"
    and "(q, k, m) \<in> set (rs_directories sc) \<Longrightarrow> (k, q, True, m) \<in> set (wn_open W) \<and> plain_directory m \<and> wn_names W q True = Opened m"
    and "q \<in> fst ` set (rs_directories sc) \<Longrightarrow> 0 < i \<Longrightarrow> i \<le> length q \<Longrightarrow> take i q \<in> fst ` set (rs_directories sc)"
  using assms unfolding scope_ok_def by blast+

definition known_directories :: "read_scope \<times> windows \<Rightarrow> abspath set" where
  "known_directories S = fst ` set (rs_directories (fst S))"

lemma map_of_known: "map_of (rs_directories (fst S)) p \<noteq> None \<longleftrightarrow> p \<in> known_directories S"
  by (simp add: known_directories_def map_of_eq_None_iff)

text \<open>What every operation of the scope keeps.\<close>

definition scope_keeps :: "read_scope \<times> windows \<Rightarrow> read_scope \<times> windows \<Rightarrow> bool" where
  "scope_keeps S S' \<longleftrightarrow> scope_ok S' \<and> rs_root (fst S') = rs_root (fst S) \<and> rs_identity (fst S') = rs_identity (fst S)
     \<and> (\<forall>p e. map_of (rs_directories (fst S)) p = Some e \<longrightarrow> map_of (rs_directories (fst S')) p = Some e)"

lemma scope_keeps_refl: "scope_ok S \<Longrightarrow> scope_keeps S S"
  by (simp add: scope_keeps_def)

lemma scope_keeps_trans: "scope_keeps S S' \<Longrightarrow> scope_keeps S' S'' \<Longrightarrow> scope_keeps S S''"
  by (simp add: scope_keeps_def)

lemma scope_keeps_known:
  assumes "scope_keeps S S'"
  shows "known_directories S \<subseteq> known_directories S'"
proof
  fix p assume "p \<in> known_directories S"
  then obtain e where "map_of (rs_directories (fst S)) p = Some e" using map_of_known [of S p] by auto
  then have "map_of (rs_directories (fst S')) p = Some e" using assms unfolding scope_keeps_def by blast
  then show "p \<in> known_directories S'" using map_of_known [of S' p] by simp
qed

lemma opened_ok:
  assumes "scope_ok (sc, W)" and "wn_names W p directory = Opened n" and "h < wn_next W" and "h \<notin> fst ` set (wn_open W)"
  shows "scope_ok (sc\<lparr>rs_handles := rs_handles sc @ [h]\<rparr>, W\<lparr>wn_open := (h, p, directory, n) # wn_open W\<rparr>)"
  using assms by (auto simp: scope_ok_def)

lemma directory_ok:
  assumes "scope_ok (sc, W)" and "(h, p, True, n) \<in> set (wn_open W)" and "plain_directory n" and "p \<noteq> []"
    and "butlast p = [] \<or> butlast p \<in> known_directories (sc, W)"
  shows "scope_ok (sc\<lparr>rs_directories := (p, h, n) # rs_directories sc\<rparr>, W)"
proof -
  have "take k p \<in> insert p (fst ` set (rs_directories sc))" if k: "0 < k" "k \<le> length p" for k
  proof (cases "k = length p")
    case False
    then have t: "take k p = take k (butlast p)" "k \<le> length (butlast p)" using k by (auto simp: take_butlast)
    then have "butlast p \<in> fst ` set (rs_directories sc)" using assms(5) k by (auto simp: known_directories_def)
    moreover have "take k q \<in> fst ` set (rs_directories sc)" if "q \<in> fst ` set (rs_directories sc)" "k \<le> length q" for q
      using assms(1) that k(1) unfolding scope_ok_def by simp
    ultimately show ?thesis using t by simp
  qed simp
  then show ?thesis using assms(1-4) unfolding scope_ok_def by simp
qed

lemma scope_open_keeps:
  assumes "keeps_pins env" and "scope_ok S" and "scope_open env p directory S = (r, S')"
    and "directory \<Longrightarrow> p \<noteq> [] \<and> (butlast p = [] \<or> butlast p \<in> known_directories S)"
  shows "scope_keeps S S'"
    and "r = Inr (h, n) \<Longrightarrow> check_object directory n = Inr () \<and> (h, p, directory, n) \<in> set (wn_open (snd S'))
      \<and> (directory \<longrightarrow> map_of (rs_directories (fst S')) p = Some (h, n))"
proof -
  obtain sc W0 where S: "S = (sc, W0)" by (cases S)
  define W where "W = meanwhile env W0"
  have ok: "scope_ok (sc, W)" using meanwhile_ok assms(1,2) by (simp add: S W_def)
  consider (cached) e where "directory" "map_of (rs_directories sc) p = Some e" "r = Inr e" "S' = S"
    | (failed) e where "r = Inl e" "S' = (sc, W)"
    | (opened) n where "wn_names W p directory = Opened n" "directory \<Longrightarrow> map_of (rs_directories sc) p = None"
    using assms(3) by (auto simp: S scope_open_def W_def Let_def split: option.splits open_answer.splits if_splits)
  then have "scope_keeps S S' \<and> (r = Inr (h, n) \<longrightarrow> check_object directory n = Inr () \<and> (h, p, directory, n) \<in> set (wn_open (snd S'))
      \<and> (directory \<longrightarrow> map_of (rs_directories (fst S')) p = Some (h, n)))"
  proof cases
    case cached
    then have "e \<in> {e. (p, e) \<in> set (rs_directories sc)}" by (simp add: map_of_SomeD)
    then show ?thesis using cached assms(2) scope_keeps_refl [OF assms(2)] by (auto simp: S scope_ok_def plain_directory_def)
  next
    case failed
    then show ?thesis using ok by (simp add: S scope_keeps_def)
  next
    case (opened m)
    define sc' where "sc' = sc\<lparr>rs_handles := rs_handles sc @ [wn_next W0]\<rparr>"
    define W' where "W' = W\<lparr>wn_open := (wn_next W0, p, directory, m) # wn_open W\<rparr>"
    have ok': "scope_ok (sc', W')"
    proof -
      have "wn_next W0 \<notin> fst ` set (wn_open W0)" using assms(2) unfolding S scope_ok_def by fastforce
      then show ?thesis unfolding sc'_def W'_def by (intro opened_ok [OF ok opened(1)]) (simp_all add: W_def meanwhile_def)
    qed
    have res: "scope_open env p directory S = (case check_object directory m of Inl e \<Rightarrow> (Inl e, sc', W')
        | Inr _ \<Rightarrow> (Inr (wn_next W0, m), if directory then sc'\<lparr>rs_directories := (p, wn_next W0, m) # rs_directories sc'\<rparr> else sc', W'))"
      unfolding sc'_def W'_def using opened by (auto simp: S scope_open_def W_def [symmetric] Let_def split: option.splits sum.splits)
    show ?thesis
    proof (cases "check_object directory m")
      case (Inl e)
      then show ?thesis using res assms(3) ok' by (auto simp: scope_keeps_def S sc'_def)
    next
      case (Inr u)
      show ?thesis
      proof (cases directory)
        case True
        have "scope_ok (sc'\<lparr>rs_directories := (p, wn_next W0, m) # rs_directories sc'\<rparr>, W')"
          using True Inr assms(4) by (intro directory_ok [OF ok']) (auto simp: plain_directory_def W'_def sc'_def S known_directories_def)
        then show ?thesis using res assms(3) Inr True opened(2) by (auto simp: scope_keeps_def S sc'_def W'_def)
      next
        case False
        then show ?thesis using res assms(3) Inr ok' by (auto simp: scope_keeps_def S sc'_def W'_def)
      qed
    qed
  qed
  then show "scope_keeps S S'"
    and "r = Inr (h, n) \<Longrightarrow> check_object directory n = Inr () \<and> (h, p, directory, n) \<in> set (wn_open (snd S'))
      \<and> (directory \<longrightarrow> map_of (rs_directories (fst S')) p = Some (h, n))" by blast+
qed

lemma open_components_keeps:
  assumes "keeps_pins env" and "scope_ok S" and "current \<in> known_directories S"
    and "open_components env directory current cs e S = (r, S')"
  shows "scope_keeps S S' \<and> (\<forall>p h n. r = Inr (p, Some (h, n)) \<longrightarrow> cs \<noteq> [] \<longrightarrow> p = current @ cs
      \<and> check_object directory n = Inr () \<and> (h, p, directory, n) \<in> set (wn_open (snd S')) \<and> butlast p \<in> known_directories S')
    \<and> (cs = [] \<longrightarrow> r = Inr (current, e))"
  using assms(2-4)
proof (induction cs arbitrary: current e S)
  case Nil
  then show ?case using scope_keeps_refl by simp
next
  case (Cons c cs)
  let ?dir = "directory \<or> cs \<noteq> []"
  obtain r1 S1 where o: "scope_open env (current @ [c]) ?dir S = (r1, S1)" by (cases "scope_open env (current @ [c]) ?dir S")
  have k: "scope_keeps S S1" using scope_open_keeps(1) [OF assms(1) Cons.prems(1) o] Cons.prems(2) by simp
  have ok: "scope_ok S1" and known: "known_directories S \<subseteq> known_directories S1"
    using k scope_keeps_known by (simp_all add: scope_keeps_def)
  show ?case
  proof (cases r1)
    case (Inl e1)
    then show ?thesis using Cons.prems(3) o k by auto
  next
    case (Inr o1)
    obtain h1 n1 where o1: "o1 = (h1, n1)" by (cases o1)
    have f: "check_object ?dir n1 = Inr ()" "(h1, current @ [c], ?dir, n1) \<in> set (wn_open (snd S1))"
        "?dir \<longrightarrow> map_of (rs_directories (fst S1)) (current @ [c]) = Some (h1, n1)"
      using scope_open_keeps(2) [OF assms(1) Cons.prems(1) o, of h1 n1] Cons.prems(2) Inr o1 by auto
    have rest: "open_components env directory (current @ [c]) cs (Some o1) S1 = (r, S')" using Cons.prems(3) o Inr by simp
    show ?thesis
    proof (cases "cs = []")
      case True
      then show ?thesis using rest k f o1 Cons.prems(2) known by auto
    next
      case False
      then have "current @ [c] \<in> known_directories S1" using f(3) map_of_known [of S1 "current @ [c]"] by simp
      then show ?thesis using Cons.IH [OF ok _ rest] False k scope_keeps_trans by auto
    qed
  qed
qed

definition entered :: "read_scope \<times> windows \<Rightarrow> bool" where
  "entered S \<longleftrightarrow> scope_ok S \<and> (\<exists>h n. map_of (rs_directories (fst S)) (rs_root (fst S)) = Some (h, n) \<and> rs_identity (fst S) = identity_text n)"

lemma entered_keeps: "entered S \<Longrightarrow> scope_keeps S S' \<Longrightarrow> entered S'"
  by (auto simp: entered_def scope_keeps_def)

lemma entered_root: "entered S \<Longrightarrow> scope_ok S \<and> rs_root (fst S) \<in> known_directories S"
  using map_of_known [of S "rs_root (fst S)"] by (auto simp: entered_def)

lemma scope_target_keeps:
  assumes "keeps_pins env" and "entered S" and "scope_target env rel directory S = (r, S')"
  shows "scope_keeps S S'"
    and "r = Inr (p, Some (h, n)) \<Longrightarrow> \<exists>norm. validate_relative_path rel directory = Inr norm \<and> p = rs_root (fst S) @ path_parts norm
      \<and> check_object directory n = Inr () \<and> (h, p, directory, n) \<in> set (wn_open (snd S')) \<and> butlast p \<in> known_directories S'"
proof -
  note e = entered_root [OF assms(2)]
  show "scope_keeps S S'"
    using assms(3) open_components_keeps [OF assms(1) conjunct1 [OF e] conjunct2 [OF e]] scope_keeps_refl e
    by (auto simp: scope_target_def split: sum.splits)
  assume r: "r = Inr (p, Some (h, n))"
  then obtain norm where v: "validate_relative_path rel directory = Inr norm"
      and o: "open_components env directory (rs_root (fst S)) (path_parts norm) None S = (r, S')"
    using assms(3) by (auto simp: scope_target_def split: sum.splits)
  then show "\<exists>norm. validate_relative_path rel directory = Inr norm \<and> p = rs_root (fst S) @ path_parts norm
      \<and> check_object directory n = Inr () \<and> (h, p, directory, n) \<in> set (wn_open (snd S')) \<and> butlast p \<in> known_directories S'"
    using open_components_keeps [OF assms(1) conjunct1 [OF e] conjunct2 [OF e] o] r by auto
qed

lemma read_blocks_all: "read_blocks check broken maximum k data left = Inr raw \<Longrightarrow> raw = data @ left"
proof (induction check broken maximum k data left rule: read_blocks.induct)
  case (1 check broken maximum k data left)
  show ?case
  proof (cases "left = []")
    case True
    then show ?thesis using "1.prems" by (subst (asm) read_blocks.simps) (auto simp: res_simps split: if_splits)
  next
    case False
    then have "read_blocks check broken maximum (Suc k) (data @ take 65536 left) (drop 65536 left) = Inr raw"
        "\<not> broken k" "\<not> maximum < length (data @ take 65536 left)" "check k = Inr ()"
      using "1.prems" by (subst (asm) read_blocks.simps; auto simp: res_simps Let_def split: if_splits)+
    then show ?thesis using "1.IH" False by fastforce
  qed
qed

lemma read_handle_all: "read_handle check broken n maximum = Inr raw \<Longrightarrow> raw = fo_bytes n"
  using read_blocks_all by (fastforce simp: read_handle_def split: if_splits)

lemma release_keeps:
  assumes "scope_ok S" and "(h, p, False, n) \<in> set (wn_open (snd S))"
  shows "scope_keeps S (release_handle h S)"
proof -
  obtain sc W where S: "S = (sc, W)" by (cases S)
  have "h' \<noteq> h" if "(p', h', n') \<in> set (rs_directories sc)" for p' h' n'
  proof
    assume "h' = h"
    then have "(h, p', True, n') \<in> set (wn_open W)" using assms(1) that unfolding S scope_ok_def by blast
    moreover have "distinct (map fst (wn_open W))" using assms(1) by (simp add: S scope_ok_def)
    ultimately show False using assms(2) eq_key_imp_eq_value by (fastforce simp: S)
  qed
  moreover have "distinct (map fst (filter (\<lambda>e. fst e \<noteq> h) xs))" if "distinct (map fst xs)" for xs :: "(nat \<times> abspath \<times> bool \<times> file_object) list"
    using that by (induction xs) auto
  ultimately show ?thesis
    using assms(1) unfolding S scope_keeps_def scope_ok_def close_handle_def release_handle_def
    by (simp add: in_set_remove1) blast
qed

lemma meanwhile_keeps: "keeps_pins env \<Longrightarrow> scope_ok (sc, W) \<Longrightarrow> scope_keeps (sc, W) (sc, meanwhile env W)"
  using meanwhile_ok by (simp add: scope_keeps_def)

text \<open>The calls a user of an entered scope makes.\<close>

datatype scope_call =
    Directory_call pystr
  | Size_call pystr
  | Read_call "nat \<Rightarrow> unit res" "nat \<Rightarrow> bool" pystr bool int

fun scope_step :: "others \<Rightarrow> scope_call \<Rightarrow> read_scope \<times> windows \<Rightarrow> read_scope \<times> windows" where
  "scope_step env (Directory_call rel) S = snd (scope_directory env rel S)"
| "scope_step env (Size_call rel) S = snd (scope_file_size env rel S)"
| "scope_step env (Read_call check broken rel rf maximum) S = snd (scope_read_bytes env check broken rel rf maximum S)"

lemma scope_file_keeps:
  assumes "keeps_pins env" and "entered S" and "scope_target env rel False S = (Inr (p, Some (h, n)), sc, W)"
  shows "scope_keeps S (sc, meanwhile env W)" and "scope_keeps S (release_handle h (sc, W))" and "scope_keeps S (release_handle h (sc, meanwhile env W))"
proof -
  have k: "scope_keeps S (sc, W)" and o: "(h, p, False, n) \<in> set (wn_open W)"
    using scope_target_keeps [OF assms] by auto
  have m: "scope_keeps (sc, W) (sc, meanwhile env W)" using k assms(1) meanwhile_keeps by (simp add: scope_keeps_def)
  then show k': "scope_keeps S (sc, meanwhile env W)" using k scope_keeps_trans by blast
  have "scope_keeps (sc, W) (release_handle h (sc, W))" using k o by (intro release_keeps) (auto simp: scope_keeps_def)
  then show "scope_keeps S (release_handle h (sc, W))" using k scope_keeps_trans by blast
  have "scope_keeps (sc, meanwhile env W) (release_handle h (sc, meanwhile env W))" using k' o by (intro release_keeps) (auto simp: scope_keeps_def)
  then show "scope_keeps S (release_handle h (sc, meanwhile env W))" using k' scope_keeps_trans by blast
qed

lemma scope_step_keeps:
  assumes "keeps_pins env" and "entered S"
  shows "scope_keeps S (scope_step env call S)"
proof (cases call)
  case (Directory_call rel)
  then show ?thesis using scope_target_keeps(1) [OF assms]
    by (auto simp: scope_directory_def split: prod.split sum.split)
next
  case (Size_call rel)
  obtain r sc W where t: "scope_target env rel False S = (r, sc, W)" by (metis prod_cases3)
  then show ?thesis using Size_call scope_target_keeps(1) [OF assms t]
    by (auto simp: scope_file_size_def split: sum.split option.split intro: scope_file_keeps [OF assms])
next
  case (Read_call check broken rel rf maximum)
  obtain r sc W where t: "scope_target env rel False S = (r, sc, W)" by (metis prod_cases3)
  then show ?thesis using Read_call scope_target_keeps(1) [OF assms t]
    by (auto simp: scope_read_bytes_def Let_def split: sum.split option.split intro: scope_file_keeps [OF assms])
qed

lemma scope_calls_keep:
  assumes "keeps_pins env" and "entered S"
  shows "scope_keeps S (fold (scope_step env) calls S)"
  using assms(2)
proof (induction calls arbitrary: S)
  case Nil
  then show ?case using scope_keeps_refl by (simp add: entered_def)
next
  case (Cons call calls)
  have "scope_keeps S (scope_step env call S)" by (rule scope_step_keeps [OF assms(1) Cons.prems])
  then show ?case using Cons.IH [OF entered_keeps [OF Cons.prems]] scope_keeps_trans by (metis fold_simps(2))
qed

lemma known_directory_plain:
  assumes "scope_ok (sc, W)" and "p \<in> known_directories (sc, W)"
  shows "\<exists>n. wn_names W p True = Opened n \<and> plain_directory n"
proof -
  obtain h n where "(p, h, n) \<in> set (rs_directories sc)" using assms(2) by (auto simp: known_directories_def)
  then show ?thesis using scope_okD(2) [OF assms(1)] by blast
qed

text \<open>Entering opens the directories from the drive down to the root, and remembers its identity.\<close>

lemma open_root_keeps:
  assumes "keeps_pins env" and "scope_ok S" and "map_of (rs_directories (fst S)) current = Some (h, info)" and "current \<noteq> []"
    and "open_root env current cs info S = (Inr n, S')"
  shows "scope_keeps S S' \<and> (\<exists>h. map_of (rs_directories (fst S')) (current @ cs) = Some (h, n))"
  using assms(2-5)
proof (induction cs arbitrary: current h info S)
  case Nil
  then show ?case using scope_keeps_refl by auto
next
  case (Cons c cs)
  obtain r1 S1 where o: "scope_open env (current @ [c]) True S = (r1, S1)" by (cases "scope_open env (current @ [c]) True S")
  then obtain h1 n1 where r1: "r1 = Inr (h1, n1)" and rest: "open_root env (current @ [c]) cs n1 S1 = (Inr n, S')"
    using Cons.prems(4) by (auto split: sum.splits prod.splits)
  have known: "current \<in> known_directories S" using Cons.prems(2) map_of_known [of S current] by simp
  then have k: "scope_keeps S S1" and m: "map_of (rs_directories (fst S1)) (current @ [c]) = Some (h1, n1)"
    using scope_open_keeps(1) [OF assms(1) Cons.prems(1) o] scope_open_keeps(2) [OF assms(1) Cons.prems(1) o _ r1] by auto
  then have "scope_keeps S1 S' \<and> (\<exists>h. map_of (rs_directories (fst S')) ((current @ [c]) @ cs) = Some (h, n))"
    using Cons.IH [OF _ m _ rest] by (simp add: scope_keeps_def)
  then show ?case using k scope_keeps_trans by auto
qed

lemma scope_enter_entered:
  assumes "keeps_pins env" and "wn_open W = []" and "scope_enter env scope_path W = (Inr (), S)"
  shows "entered S \<and> (\<exists>v. normalize_read_scope scope_path = Inr v \<and> rs_root (fst S) = scope_root v)"
proof -
  obtain v0 where v: "normalize_read_scope scope_path = Inr v0"
    using assms(3) by (auto simp: scope_enter_def Let_def split: sum.splits)
  let ?rt = "scope_root v0"
  let ?S0 = "(\<lparr>rs_root = ?rt, rs_handles = [], rs_directories = [], rs_identity = []\<rparr>, W)"
  obtain h n S1 info sc W' where o: "scope_open env [hd ?rt] True ?S0 = (Inr (h, n), S1)"
      and rt: "open_root env [hd ?rt] (tl ?rt) n S1 = (Inr info, sc, W')" and S: "S = (sc\<lparr>rs_identity := identity_text info\<rparr>, W')"
    using assms(3) v by (auto simp: scope_enter_def Let_def split: option.splits if_splits sum.splits prod.splits)
  have ok: "scope_ok ?S0" by (simp add: scope_ok_def assms(2))
  have k: "scope_keeps ?S0 S1" and m: "map_of (rs_directories (fst S1)) [hd ?rt] = Some (h, n)"
    using scope_open_keeps(1) [OF assms(1) ok o] scope_open_keeps(2) [OF assms(1) ok o _ refl] by auto
  then obtain h' where k': "scope_keeps S1 (sc, W')" and m': "map_of (rs_directories sc) ([hd ?rt] @ tl ?rt) = Some (h', info)"
    using open_root_keeps [OF assms(1) _ m _ rt] by (auto simp: scope_keeps_def)
  have root: "rs_root sc = ?rt" using k k' by (simp add: scope_keeps_def)
  have "[hd ?rt] @ tl ?rt = ?rt" by (simp add: scope_root_def)
  moreover have "scope_ok S" using k' by (simp add: S scope_ok_def scope_keeps_def)
  ultimately show ?thesis using m' root v by (simp add: entered_def S)
qed


definition demo_object :: "nat \<Rightarrow> nat \<Rightarrow> bytes \<Rightarrow> file_object" where
  "demo_object attributes i bs = \<lparr>fo_attributes = attributes, fo_volume = 7, fo_index_high = 0, fo_index_low = i, fo_links = 1,
     fo_disk = True, fo_informed = True, fo_bytes = bs\<rparr>"

definition demo_windows :: windows where
  "demo_windows = \<lparr>wn_names = (\<lambda>p dir. if p = [lit ''C:'' @ [92]] \<and> dir then Opened (demo_object 0x10 1 [])
       else if p = [lit ''C:'' @ [92], lit ''a''] \<and> dir then Opened (demo_object 0x10 2 [])
       else if p = [lit ''C:'' @ [92], lit ''a'', lit ''t''] \<and> \<not> dir then Opened (demo_object 0x20 3 [104, 105]) else Not_found),
     wn_open = [], wn_next = 0, wn_drive_type = (\<lambda>_. 3), wn_filesystem = (\<lambda>_. Some (lit ''NTFS''))\<rparr>"

text \<open>Someone who removes every name that is not open, from the fourth call on.\<close>

definition hostile :: others where
  "hostile k W p dir = (if list_ex (\<lambda>(h, q, d, n). q = p \<and> d = dir) (wn_open W) then wn_names W p dir
     else if 3 \<le> k then Not_found else wn_names W p dir)"

definition demo_scope :: "read_scope \<times> windows" where
  "demo_scope = snd (scope_enter hostile (lit ''C:/a'') demo_windows)"

definition demo_read :: "bytes res \<times> read_scope \<times> windows" where
  "demo_read = scope_read_bytes hostile (\<lambda>_. Inr ()) (\<lambda>_. False) (lit ''t'') False 100 (fold (scope_step hostile) [] demo_scope)"


text \<open>Leaving a scope closes every handle it opened.\<close>

lemma close_handles_open: "wn_open (fold close_handle hs W) = filter (\<lambda>e. fst e \<notin> set hs) (wn_open W)"
  by (induction hs arbitrary: W) (auto simp: close_handle_def conj_commute)

lemma scope_close_all:
  assumes "scope_ok S"
  shows "wn_open (snd (scope_close S)) = []"
proof -
  obtain sc W where S: "S = (sc, W)" by (cases S)
  have "fst e \<in> set (rs_handles sc)" if "e \<in> set (wn_open W)" for e
    using assms that unfolding S scope_ok_def by (cases e) auto
  then show ?thesis by (auto simp: S scope_close_def close_handles_open filter_empty_conv)
qed

text \<open>A file that is refused after it was opened stays open until the scope is left.\<close>

lemma refused_file_stays_open:
  assumes "wn_names (meanwhile env W) p False = Opened n" and "check_object False n = Inl e"
  shows "\<exists>sc' W'. scope_open env p False (sc, W) = (Inl e, sc', W') \<and> (wn_next W, p, False, n) \<in> set (wn_open W')"
  using assms by (simp add: scope_open_def Let_def)

end
