(* ===== verification/Read_Scoped.thy ===== *)
theory Read_Scoped
  imports Read_Search Read_Scope
begin

text \<open>
  Reads below an approved directory (\<open>agent/src/codito_agent/scoped_read_tools.py\<close>) and the worker
  of the device read tool (\<open>DeviceReadService._read\<close> of \<open>device_read.py\<close>).  Every directory is
  pinned by the scope before it is listed and every file is read through a handle of it, so an
  operation is a function of the scope and of Windows; \<open>check\<close>, which raises when the request was
  cancelled or its consent withdrawn, is a plan over the places where it is called.
\<close>

section \<open>Operations on a scope\<close>

type_synonym 'a scoped = "read_scope \<times> windows \<Rightarrow> 'a res \<times> read_scope \<times> windows"

definition liftS :: "'a res \<Rightarrow> 'a scoped" where
  "liftS r = Pair r"

definition bindS :: "'a scoped \<Rightarrow> ('a \<Rightarrow> 'b scoped) \<Rightarrow> 'b scoped" where
  "bindS f g S = (case f S of (Inl e, S') \<Rightarrow> (Inl e, S') | (Inr a, S') \<Rightarrow> g a S')"

text \<open>An exception handler: what the handler has no answer for goes on.\<close>

definition handleS :: "'a scoped \<Rightarrow> (exn \<Rightarrow> 'a res option) \<Rightarrow> 'a scoped" where
  "handleS f h S = (case f S of (Inl e, S') \<Rightarrow> (case h e of Some r \<Rightarrow> (r, S') | None \<Rightarrow> (Inl e, S')) | ok \<Rightarrow> ok)"

lemma bindS_cong [fundef_cong]:
  "f = f' \<Longrightarrow> (\<And>a S S'. f' S = (Inr a, S') \<Longrightarrow> g a = g' a) \<Longrightarrow> bindS f g = bindS f' g'"
  by (auto simp: bindS_def fun_eq_iff split: prod.split sum.split)

text \<open>
  An entry of \<open>os.scandir\<close> on a pinned directory: its name and, unless \<open>stat\<close> fails, its attributes,
  whether it is a directory or a regular file, its links and its size.
\<close>

record entry_stat =
  es_attributes :: nat
  es_directory :: bool
  es_regular :: bool
  es_links :: nat
  es_size :: nat

type_synonym listing = "(pystr \<times> entry_stat option) list"

datatype check_point =
    Started
  | Popped nat nat
  | Scanned nat
  | Block pystr nat
  | Read_lines
  | At_line nat nat
  | At_file nat
  | Finished

text \<open>
  What an operation meets: the other processes, the listing of a pinned directory, the blocks that
  \<open>ReadFile\<close> cannot read, and the outcomes of \<open>check\<close>.
\<close>

record reading =
  rg_others :: others
  rg_listing :: "windows \<Rightarrow> abspath \<Rightarrow> listing res"
  rg_broken :: "pystr \<Rightarrow> nat \<Rightarrow> bool"
  rg_check :: "check_point \<Rightarrow> unit res"

definition checkS :: "reading \<Rightarrow> check_point \<Rightarrow> unit scoped" where
  "checkS R c = liftS (rg_check R c)"

definition directory_entries :: "reading \<Rightarrow> pystr \<Rightarrow> listing scoped" where
  "directory_entries R rel = bindS (scope_directory (rg_others R) rel) (\<lambda>p S. (rg_listing R (snd S) p, S))"

definition size_of :: "reading \<Rightarrow> pystr \<Rightarrow> nat scoped" where
  "size_of R = scope_file_size (rg_others R)"

definition bytes_of :: "reading \<Rightarrow> pystr \<Rightarrow> bool \<Rightarrow> nat \<Rightarrow> bytes scoped" where
  "bytes_of R rel release_file maximum =
     scope_read_bytes (rg_others R) (\<lambda>k. rg_check R (Block rel k)) (rg_broken R rel) rel release_file (int maximum)"

section \<open>Walking\<close>

record scoped_entry =
  se_path :: pystr
  se_directory :: bool
  se_size :: "nat option"

definition MAX_DEPTH :: nat where
  "MAX_DEPTH = 128"

definition child_path :: "pystr \<Rightarrow> pystr \<Rightarrow> pystr" where
  "child_path directory name = (if directory = [46] then name else directory @ [47] @ name)"

definition err_is :: "string list \<Rightarrow> exn \<Rightarrow> bool" where
  "err_is codes e = (case e of AgentError c _ _ \<Rightarrow> c \<in> set codes | _ \<Rightarrow> False)"

text \<open>The size of a listed file, or nothing when the scope refuses it.\<close>

definition listed_size :: "reading \<Rightarrow> pystr \<Rightarrow> nat option scoped" where
  "listed_size R child =
     handleS (bindS (size_of R child) (\<lambda>n. liftS (Inr (Some n))))
       (\<lambda>e. if err_is [''unsafe_path'', ''read_failed''] e then Some (Inr None) else None)"

text \<open>One entry: what is listed for it.\<close>

definition scan_entry :: "reading \<Rightarrow> pystr \<Rightarrow> pystr \<times> entry_stat option \<Rightarrow> scoped_entry option scoped" where
  "scan_entry R directory entry =
     (case (validate_relative_path (child_path directory (fst entry)) False, snd entry) of
        (Inr child, Some s) \<Rightarrow>
          if blocked_attributes (es_attributes s) then liftS (Inr None)
          else if es_directory s then liftS (Inr (Some \<lparr>se_path = child, se_directory = True, se_size = None\<rparr>))
          else if es_regular s then
            bindS (listed_size R child) (\<lambda>found.
              liftS (Inr (map_option (\<lambda>n. \<lparr>se_path = child, se_directory = False, se_size = Some n\<rparr>) found)))
          else liftS (Inr None)
      | _ \<Rightarrow> liftS (Inr None))"

fun scan_directory :: "reading \<Rightarrow> pystr \<Rightarrow> listing \<Rightarrow> nat \<Rightarrow> (nat \<times> scoped_entry list) scoped" where
  "scan_directory R directory [] scanned = liftS (Inr (scanned, []))"
| "scan_directory R directory (entry # es) scanned =
     bindS (checkS R (Scanned scanned)) (\<lambda>_.
       if MAX_DIRECTORY_SCANNED < Suc scanned then liftS (Inl (raise ''result_limit''))
       else
         bindS (scan_entry R directory entry) (\<lambda>found.
         bindS (scan_directory R directory es (Suc scanned)) (\<lambda>(n, xs).
           liftS (Inr (n, (case found of None \<Rightarrow> xs | Some x \<Rightarrow> x # xs))))))"

lemma liftS_result: "liftS r S = (r', S') \<longleftrightarrow> r' = r \<and> S' = S"
  by (auto simp: liftS_def)

lemma bindS_ok: "bindS f g S = (Inr b, S') \<longleftrightarrow> (\<exists>a T. f S = (Inr a, T) \<and> g a T = (Inr b, S'))"
  by (auto simp: bindS_def split: prod.split sum.split)

lemma scan_directory_scanned:
  "scan_directory R directory es scanned S = (Inr (n, xs), S') \<Longrightarrow>
     n = scanned + length es \<and> length xs \<le> length es \<and> (es \<noteq> [] \<longrightarrow> n \<le> MAX_DIRECTORY_SCANNED)"
proof (induction es arbitrary: scanned n xs S S')
  case (Cons entry es)
  have room: "\<not> MAX_DIRECTORY_SCANNED < Suc scanned"
    using Cons.prems by (auto simp: bindS_ok liftS_result split: if_splits)
  then obtain T T' xs' where rest: "scan_directory R directory es (Suc scanned) T = (Inr (n, xs'), T')" and l: "length xs \<le> Suc (length xs')"
    using Cons.prems by (auto simp: bindS_ok liftS_result split: option.splits)
  show ?case using Cons.IH [OF rest] l room rest by (cases es) (auto simp: liftS_result)
qed (simp add: liftS_result)

text \<open>
  The stack of pending directories, its top the head of the list.  The measure is what is left of
  the scan limit, then the stack.
\<close>

function scoped_walk :: "reading \<Rightarrow> bool \<Rightarrow> (pystr \<times> nat) list \<Rightarrow> nat \<Rightarrow> scoped_entry list scoped" where
  "scoped_walk R recursive [] scanned = liftS (Inr [])"
| "scoped_walk R recursive ((directory, depth) # pending) scanned =
     bindS (checkS R (Popped scanned (length pending))) (\<lambda>_.
       if MAX_DEPTH < depth then liftS (Inl (raise ''result_limit''))
       else
         bindS (directory_entries R directory) (\<lambda>es.
         bindS (scan_directory R directory es scanned) (\<lambda>(scanned', found).
         let deeper = (if recursive then map (\<lambda>e. (se_path e, Suc depth)) (filter se_directory found) else []) in
         bindS (scoped_walk R recursive (rev deeper @ pending) scanned') (\<lambda>later.
           liftS (Inr (found @ later))))))"
  by pat_completeness auto
termination
proof (relation "measures [\<lambda>(R, recursive, pending, scanned). MAX_DIRECTORY_SCANNED - scanned, \<lambda>(R, recursive, pending, scanned). length pending]", goal_cases)
  case (2 R recursive directory depth pending scanned u S0 S1 es S2 S3 r S4 S5 scanned' found deeper)
  then have "scan_directory R directory es scanned S4 = (Inr (scanned', found), S5)" by simp
  from scan_directory_scanned [OF this] 2(6) show ?case by (cases es) auto
qed simp

section \<open>Listing\<close>

text \<open>A path below the base, as the caller named it and relative to the base.\<close>

definition scoped_matches :: "pystr \<Rightarrow> pystr \<Rightarrow> pystr \<Rightarrow> bool" where
  "scoped_matches path base pattern \<longleftrightarrow>
     glob_matches path pattern \<or> glob_matches (if base = [46] then path else drop (Suc (length base)) path) pattern"

record scoped_page =
  sg_path :: pystr
  sg_entries :: "scoped_entry list"
  sg_continuation :: "pystr option"

definition scoped_pattern :: "string \<Rightarrow> pystr option \<Rightarrow> pystr res" where
  "scoped_pattern otherwise glob =
     (let pattern = (case glob of Some g \<Rightarrow> g | None \<Rightarrow> lit otherwise) in bindE (validate_glob pattern) (\<lambda>_. Inr pattern))"

text \<open>The checks before the walk: the path, the pattern and the offset.\<close>

definition check_scoped_list :: "list_request \<Rightarrow> (pystr \<times> pystr \<times> nat) res" where
  "check_scoped_list q =
     bindE (validate_relative_path (lq_path q) True) (\<lambda>path.
     if \<not> (1 \<le> lq_limit q \<and> lq_limit q \<le> int MAX_DIRECTORY_RESULTS) then Inl invalid_request
     else
       bindE (scoped_pattern ''*'' (lq_glob q)) (\<lambda>pattern.
       bindE (decode_cursor (lq_cursor q)) (\<lambda>offset.
       if MAX_DIRECTORY_SCANNED < offset then Inl invalid_cursor else Inr (path, pattern, offset))))"

definition page_of :: "pystr \<Rightarrow> nat \<Rightarrow> nat \<Rightarrow> scoped_entry list \<Rightarrow> scoped_page res" where
  "page_of path limit offset entries =
     (if length entries < offset then Inl invalid_cursor
      else
        let page = take limit (drop offset entries); next_offset = offset + length page in
        Inr \<lparr>sg_path = path, sg_entries = page,
              sg_continuation = (if next_offset < length entries then Some (encode_cursor next_offset) else None)\<rparr>)"

definition scoped_list_directory :: "(pystr \<Rightarrow> pystr) \<Rightarrow> reading \<Rightarrow> list_request \<Rightarrow> scoped_page scoped" where
  "scoped_list_directory cf R q =
     bindS (liftS (check_scoped_list q)) (\<lambda>(path, pattern, offset).
     bindS (scoped_walk R (lq_recursive q) [(path, 0)] 0) (\<lambda>walked.
       liftS (page_of path (nat (lq_limit q)) offset
         (sort_key (\<lambda>e. (\<not> se_directory e, cf (se_path e), se_path e))
           (filter (\<lambda>e. scoped_matches (se_path e) path pattern) walked)))))"

section \<open>Reading a file\<close>

definition check_scoped_read :: "read_file_request \<Rightarrow> unit res" where
  "check_scoped_read q =
     (if \<not> (1 \<le> rq_max_bytes q \<and> rq_max_bytes q \<le> int MAX_READ_BYTES) then Inl invalid_request
      else if cursor_given (rq_cursor q) \<and> rq_end q \<noteq> None then Inl invalid_request
      else if (case rq_start q of None \<Rightarrow> False | Some n \<Rightarrow> n < 1) then Inl invalid_request
      else if (case rq_end q of None \<Rightarrow> False | Some n \<Rightarrow> n < (case rq_start q of None \<Rightarrow> 1 | Some s \<Rightarrow> s)) then Inl invalid_request
      else if (case rq_max_lines q of None \<Rightarrow> False | Some n \<Rightarrow> n < 1) then Inl invalid_request
      else Inr ())"

definition check_position :: "pystr list \<Rightarrow> nat \<Rightarrow> nat \<Rightarrow> unit res" where
  "check_position lines line character =
     (if length lines < line \<or> line = length lines \<and> 0 < character then Inl invalid_cursor
      else if line < length lines \<and> length (lines ! line) < character then Inl invalid_cursor
      else Inr ())"

text \<open>The loop over the lines; it fails when not even the first character fits.\<close>

fun scoped_page_loop ::
  "(nat \<Rightarrow> unit res) \<Rightarrow> encoding \<Rightarrow> nat \<Rightarrow> nat \<Rightarrow> nat \<Rightarrow> bool \<Rightarrow> pystr list \<Rightarrow> nat \<times> nat \<Rightarrow> (pystr list \<times> nat \<times> nat) res" where
  "scoped_page_loop check e remaining index offset none_yet [] nxt = Inr ([], nxt)"
| "scoped_page_loop check e remaining index offset none_yet (line # lines) nxt =
     bindE (check index) (\<lambda>_.
     let part = drop offset line; encoded = payload e part in
     if length encoded \<le> remaining then
       bindE (scoped_page_loop check e (remaining - length encoded) (Suc index) 0 False lines (Suc index, 0))
         (\<lambda>(selected, n). Inr (part # selected, n))
     else
       let low = bisect (\<lambda>k. length (payload e (take k part)) \<le> remaining) 0 (length part) in
       if 0 < low then Inr ([take low part], (index, offset + low))
       else if none_yet then Inl (raise ''result_limit'')
       else Inr ([], nxt))"

text \<open>The line limit ends the page, but not the range.\<close>

definition scoped_page_at ::
  "(bytes \<Rightarrow> pystr) \<Rightarrow> (check_point \<Rightarrow> unit res) \<Rightarrow> read_file_request \<Rightarrow> pystr \<Rightarrow> bytes \<Rightarrow> pystr \<Rightarrow> encoding \<Rightarrow> nat \<Rightarrow> nat
     \<Rightarrow> file_page res" where
  "scoped_page_at sha check q path raw all_text e line character =
     (let lines = splitlines_keep all_text;
          requested_stop = end_index (rq_end q) lines;
          stop = (case rq_max_lines q of None \<Rightarrow> requested_stop | Some n \<Rightarrow> min requested_stop (line + nat n)) in
      bindE (scoped_page_loop (\<lambda>i. check (At_line 0 i)) e (nat (rq_max_bytes q)) line character True
               (page_lines lines line stop) (line, character))
        (\<lambda>(selected, next_line, next_character).
           let text = concat selected; truncated = (next_line < requested_stop \<or> 0 < next_character) in
           Inr \<lparr>fp_path = path, fp_text = text, fp_numbered = numbered_lines (Suc line) text, fp_encoding = e,
             fp_newline = newline_style all_text, fp_size = length raw, fp_sha = sha raw, fp_first = Suc line,
             fp_last = (if text = [] then 0 else line + length (splitlines text)), fp_truncated = truncated,
             fp_continuation = (if truncated then Some (encode_read_cursor next_line next_character) else None)\<rparr>))"

definition scoped_text :: "(bytes \<Rightarrow> pystr) \<Rightarrow> (check_point \<Rightarrow> unit res) \<Rightarrow> read_file_request \<Rightarrow> pystr \<Rightarrow> bytes \<Rightarrow> file_page res" where
  "scoped_text sha check q path raw =
     bindE (detect_text raw) (\<lambda>(all_text, e).
     bindE (start_position q) (\<lambda>(line, character).
     bindE (check_position (splitlines_keep all_text) line character) (\<lambda>_.
       scoped_page_at sha check q path raw all_text e line character)))"

definition scoped_read_file :: "(bytes \<Rightarrow> pystr) \<Rightarrow> reading \<Rightarrow> read_file_request \<Rightarrow> file_page scoped" where
  "scoped_read_file sha R q =
     bindS (liftS (validate_relative_path (rq_path q) False)) (\<lambda>path.
     bindS (liftS (check_scoped_read q)) (\<lambda>_.
     bindS (bytes_of R path True MAX_SCOPE_READ) (\<lambda>raw.
     bindS (checkS R Read_lines) (\<lambda>_.
       liftS (scoped_text sha (rg_check R) q path raw)))))"

section \<open>Searching\<close>

text \<open>An expression that does not match has no column here.\<close>

definition scoped_column :: "(pystr \<Rightarrow> pystr) \<Rightarrow> (pystr \<Rightarrow> regex_answer) option \<Rightarrow> bool \<Rightarrow> pystr \<Rightarrow> pystr \<Rightarrow> nat option res" where
  "scoped_column cf expression case_sensitive query line =
     (case expression of
        Some f \<Rightarrow> (case f line of Timed_out \<Rightarrow> Inl (raise ''search_timeout'') | Match n \<Rightarrow> Inr (Some n) | No_match \<Rightarrow> Inr None)
      | None \<Rightarrow> Inr (if case_sensitive then find_text query line else find_text (cf query) (cf line)))"

fun scoped_search_lines ::
  "(nat \<Rightarrow> unit res) \<Rightarrow> (pystr \<Rightarrow> nat option res) \<Rightarrow> nat \<Rightarrow> nat \<Rightarrow> pystr \<Rightarrow> nat \<Rightarrow> pystr list \<Rightarrow> search_match list
     \<Rightarrow> (search_match list \<times> nat option) res" where
  "scoped_search_lines check column limit preview path i [] ms = Inr (ms, None)"
| "scoped_search_lines check column limit preview path i (line # ls) ms =
     bindE (check i) (\<lambda>_.
     bindE (column line) (\<lambda>found.
       case found of
         None \<Rightarrow> scoped_search_lines check column limit preview path (Suc i) ls ms
       | Some c \<Rightarrow>
           let ms' = ms @ [match_at preview path i line c] in
           if limit \<le> length ms' then Inr (ms', Some i)
           else scoped_search_lines check column limit preview path (Suc i) ls ms'))"

text \<open>
  What a candidate is read to: its bytes, nothing when it is passed over, or the end of the page
  when its bytes no longer fit the budget of this call.
\<close>

datatype candidate_read = Passed_over | Budget_spent | Got bytes

definition read_candidate :: "reading \<Rightarrow> nat \<Rightarrow> scoped_entry \<Rightarrow> candidate_read scoped" where
  "read_candidate R scanned entry =
     (let n = (case se_size entry of Some n \<Rightarrow> n | None \<Rightarrow> 0) in
      if MAX_SEARCH_FILE_BYTES < n then liftS (Inr Passed_over)
      else if 0 < scanned \<and> MAX_SEARCH_SCANNED_BYTES < scanned + n then liftS (Inr Budget_spent)
      else
        handleS (bindS (bytes_of R (se_path entry) True (min MAX_SEARCH_FILE_BYTES (MAX_SEARCH_SCANNED_BYTES - scanned))) (\<lambda>raw. liftS (Inr (Got raw))))
          (\<lambda>e. if err_is [''file_too_large''] e then Some (Inr (if 0 < scanned then Budget_spent else Passed_over))
            else if err_is [''unsafe_path''] e then Some (Inr Passed_over) else None))"

definition candidate_lines :: "bytes \<Rightarrow> pystr list option res" where
  "candidate_lines raw =
     (if MAX_SEARCH_FILE_BYTES < length raw then Inr None
      else case detect_text raw of
        Inr (t, _) \<Rightarrow> Inr (Some (splitlines t))
      | Inl e \<Rightarrow> if skipped_error e then Inr None else Inl e)"

fun scoped_search_loop ::
  "reading \<Rightarrow> (pystr \<Rightarrow> nat option res) \<Rightarrow> nat \<Rightarrow> nat \<Rightarrow> nat \<Rightarrow> nat \<Rightarrow> scoped_entry list \<Rightarrow> search_match list \<Rightarrow> nat \<Rightarrow> search_page scoped" where
  "scoped_search_loop R column limit preview i offset [] ms scanned =
     liftS (Inr \<lparr>sp_matches = ms, sp_continuation = None, sp_scanned = scanned\<rparr>)"
| "scoped_search_loop R column limit preview i offset (entry # es) ms scanned =
     bindS (checkS R (At_file i)) (\<lambda>_.
     bindS (read_candidate R scanned entry) (\<lambda>got.
       case got of
         Passed_over \<Rightarrow> scoped_search_loop R column limit preview (Suc i) 0 es ms scanned
       | Budget_spent \<Rightarrow> liftS (Inr \<lparr>sp_matches = ms, sp_continuation = Some (encode_read_cursor i 0), sp_scanned = scanned\<rparr>)
       | Got raw \<Rightarrow>
           bindS (liftS (candidate_lines raw)) (\<lambda>content.
             case content of
               None \<Rightarrow> scoped_search_loop R column limit preview (Suc i) 0 es ms (scanned + length raw)
             | Some lines \<Rightarrow>
                 if length lines < offset then liftS (Inl invalid_cursor)
                 else
                   bindS (liftS (scoped_search_lines (\<lambda>k. rg_check R (At_line i k)) column limit preview (se_path entry) offset (drop offset lines) ms))
                     (\<lambda>(ms', hit).
                        case hit of
                          None \<Rightarrow> scoped_search_loop R column limit preview (Suc i) 0 es ms' (scanned + length raw)
                        | Some l \<Rightarrow>
                            liftS (Inr \<lparr>sp_matches = ms', sp_continuation =
                              (if Suc l < length lines then Some (encode_read_cursor i (Suc l))
                               else if es \<noteq> [] then Some (encode_read_cursor (Suc i) 0) else None),
                              sp_scanned = scanned + length raw\<rparr>)))))"

definition check_scoped_search :: "pystr option \<Rightarrow> search_request \<Rightarrow> (pystr \<times> pystr \<times> nat \<times> nat) res" where
  "check_scoped_search glob q =
     bindE (validate_relative_path (sq_path q) True) (\<lambda>path.
     if \<not> (1 \<le> length (sq_query q) \<and> length (sq_query q) \<le> 4096) then Inl invalid_request
     else if \<not> (1 \<le> sq_limit q \<and> sq_limit q \<le> int MAX_SEARCH_RESULTS) \<or> \<not> (128 \<le> sq_preview q \<and> sq_preview q \<le> 16384)
     then Inl invalid_request
     else
       bindE (scoped_pattern ''**/*'' glob) (\<lambda>pattern.
       bindE (if cursor_given (sq_cursor q) then decode_read_cursor (the (sq_cursor q)) else Inr (0, 0)) (\<lambda>(file_index, start_line).
         Inr (path, pattern, file_index, start_line))))"

definition scoped_search_text ::
  "(pystr \<Rightarrow> pystr) \<Rightarrow> (pystr \<Rightarrow> bool \<Rightarrow> (pystr \<Rightarrow> regex_answer) option) \<Rightarrow> reading \<Rightarrow> pystr option \<Rightarrow> search_request
     \<Rightarrow> search_page scoped" where
  "scoped_search_text cf compile R glob q =
     bindS (liftS (check_scoped_search glob q)) (\<lambda>(path, pattern, file_index, start_line).
     bindS (scoped_walk R True [(path, 0)] 0) (\<lambda>walked.
     let entries = sort_key (\<lambda>e. (cf (se_path e), se_path e))
                     (filter (\<lambda>e. \<not> se_directory e \<and> scoped_matches (se_path e) path pattern) walked);
         expression = (if sq_regex q then compile (sq_query q) (sq_case_sensitive q) else None) in
     if length entries < file_index \<or> file_index = length entries \<and> 0 < start_line then liftS (Inl invalid_cursor)
     else if sq_regex q \<and> expression = None then liftS (Inl invalid_request)
     else scoped_search_loop R (scoped_column cf expression (sq_case_sensitive q) (sq_query q)) (nat (sq_limit q)) (nat (sq_preview q))
            file_index start_line (drop file_index entries) [] 0))"

section \<open>Dispatch\<close>

datatype scoped_request = Scoped_list list_request | Scoped_read read_file_request | Scoped_search "pystr option" search_request | Unsupported

datatype scoped_answer = Scoped_listing scoped_page | Scoped_page file_page | Scoped_found search_page

definition scoped_operation ::
  "(bytes \<Rightarrow> pystr) \<Rightarrow> (pystr \<Rightarrow> pystr) \<Rightarrow> (pystr \<Rightarrow> bool \<Rightarrow> (pystr \<Rightarrow> regex_answer) option) \<Rightarrow> reading \<Rightarrow> scoped_request \<Rightarrow> scoped_answer scoped" where
  "scoped_operation sha cf compile R r =
     (case r of
        Scoped_list q \<Rightarrow> bindS (scoped_list_directory cf R q) (liftS \<circ> Inr \<circ> Scoped_listing)
      | Scoped_read q \<Rightarrow> bindS (scoped_read_file sha R q) (liftS \<circ> Inr \<circ> Scoped_page)
      | Scoped_search glob q \<Rightarrow> bindS (scoped_search_text cf compile R glob q) (liftS \<circ> Inr \<circ> Scoped_found)
      | Unsupported \<Rightarrow> liftS (Inl invalid_request))"

definition os_failure :: "exn \<Rightarrow> 'a res option" where
  "os_failure e = (case e of OSError \<Rightarrow> Some (Inl (raise ''read_failed'')) | _ \<Rightarrow> None)"

definition read_scoped_files ::
  "(bytes \<Rightarrow> pystr) \<Rightarrow> (pystr \<Rightarrow> pystr) \<Rightarrow> (pystr \<Rightarrow> bool \<Rightarrow> (pystr \<Rightarrow> regex_answer) option) \<Rightarrow> reading \<Rightarrow> scoped_request \<Rightarrow> scoped_answer scoped" where
  "read_scoped_files sha cf compile R r =
     bindS (checkS R Started) (\<lambda>_.
     bindS (handleS (scoped_operation sha cf compile R r) os_failure) (\<lambda>result.
     bindS (checkS R Finished) (\<lambda>_. liftS (Inr result))))"

section \<open>The device read tool\<close>

record device_listed =
  dl_name :: pystr
  dl_kind :: pystr
  dl_size :: "nat option"

definition device_entry :: "pystr \<times> entry_stat option \<Rightarrow> device_listed" where
  "device_entry entry =
     (let blocked = \<lparr>dl_name = fst entry, dl_kind = lit ''blocked'', dl_size = None\<rparr> in
      case snd entry of
        None \<Rightarrow> blocked
      | Some s \<Rightarrow>
          if blocked_attributes (es_attributes s) then blocked
          else if es_directory s then blocked\<lparr>dl_kind := lit ''directory''\<rparr>
          else if es_regular s \<and> es_links s = 1 then blocked\<lparr>dl_kind := lit ''file'', dl_size := Some (es_size s)\<rparr>
          else blocked)"

text \<open>The entries taken, whether the listing was cut, and the offset to go on from.\<close>

fun device_scan ::
  "(nat \<Rightarrow> unit res) \<Rightarrow> nat \<Rightarrow> nat \<Rightarrow> nat \<Rightarrow> listing \<Rightarrow> device_listed list \<Rightarrow> (device_listed list \<times> bool \<times> nat option) res" where
  "device_scan check offset limit i [] taken = Inr (taken, False, None)"
| "device_scan check offset limit i (entry # es) taken =
     bindE (check i) (\<lambda>_.
       if 10000 \<le> i then Inr (taken, True, None)
       else if i < offset then device_scan check offset limit (Suc i) es taken
       else if limit \<le> length taken then Inr (taken, True, Some i)
       else device_scan check offset limit (Suc i) es (taken @ [device_entry entry]))"

text \<open>Whole numbered lines as long as they fit; the index of the first line that was not taken.\<close>

definition device_line :: "nat \<Rightarrow> pystr \<Rightarrow> pystr" where
  "device_line i line = py_str_nat (Suc i) @ lit '': '' @ line @ [10]"

fun device_lines ::
  "(nat \<Rightarrow> unit res) \<Rightarrow> nat \<Rightarrow> nat \<Rightarrow> nat \<Rightarrow> pystr list \<Rightarrow> bool \<Rightarrow> (pystr list \<times> nat) res" where
  "device_lines check remaining max_lines i [] none_yet = Inr ([], i)"
| "device_lines check remaining max_lines i (line # ls) none_yet =
     (if max_lines = 0 then Inr ([], i)
      else bindE (check i) (\<lambda>_.
        let numbered = device_line i line; n = length (utf8_encode numbered) in
        if remaining < n then (if none_yet then Inl (raise ''result_limit'') else Inr ([], i))
        else bindE (device_lines check (remaining - n) (max_lines - 1) (Suc i) ls False)
               (\<lambda>(selected, j). Inr (numbered # selected, j))))"

record device_request =
  dq_scope :: pystr
  dq_path :: pystr
  dq_project :: "pystr option"
  dq_list :: bool
  dq_offset :: nat
  dq_limit :: nat
  dq_start :: nat
  dq_max_lines :: nat
  dq_max_bytes :: nat

datatype device_answer =
    Device_listing "device_listed list" bool "nat option"
  | Device_text pystr encoding newline_kind nat pystr "nat option"

definition device_text :: "(bytes \<Rightarrow> pystr) \<Rightarrow> (nat \<Rightarrow> unit res) \<Rightarrow> device_request \<Rightarrow> bytes \<Rightarrow> device_answer res" where
  "device_text sha check q raw =
     bindE (detect_text raw) (\<lambda>(text, e).
     let lines = splitlines text; start = dq_start q - 1 in
     bindE (device_lines check (dq_max_bytes q) (dq_max_lines q) start (drop start lines) True) (\<lambda>(selected, i).
       Inr (Device_text (concat selected) e (newline_style text) (length raw) (sha raw)
         (if i < length lines then Some (Suc i) else None))))"

definition device_read :: "(bytes \<Rightarrow> pystr) \<Rightarrow> reading \<Rightarrow> device_request \<Rightarrow> device_answer scoped" where
  "device_read sha R q =
     (if dq_list q then
        bindS (directory_entries R (dq_path q)) (\<lambda>es.
        bindS (liftS (device_scan (\<lambda>i. rg_check R (Scanned i)) (dq_offset q) (dq_limit q) 0 es [])) (\<lambda>(taken, cut, nxt).
          liftS (Inr (Device_listing taken cut nxt))))
      else
        bindS (bytes_of R (dq_path q) False MAX_SCOPE_READ) (\<lambda>raw.
          liftS (device_text sha (\<lambda>i. rg_check R (At_line 0 i)) q raw)))"

end
