(* ===== verification/Read_Scoped_Laws.thy ===== *)
theory Read_Scoped_Laws
  imports Read_Scoped
begin

text \<open>
  What the tools on a pinned scope guarantee: they touch Windows only through the scope's own
  operations, so the invariant of the scope holds throughout and nothing stays open behind it; and
  the pages of a scoped read make up the whole text, also under a line limit.
\<close>

section \<open>Only operations of the scope\<close>

definition through_scope :: "reading \<Rightarrow> 'a scoped \<Rightarrow> bool" where
  "through_scope R f \<longleftrightarrow> (\<forall>S. \<exists>calls. snd (f S) = fold (scope_step (rg_others R)) calls S)"

named_theorems scoped_calls

lemma through_scopeI: "(\<And>S. \<exists>calls. snd (f S) = fold (scope_step (rg_others R)) calls S) \<Longrightarrow> through_scope R f"
  by (simp add: through_scope_def)

lemma through_scopeD: "through_scope R f \<Longrightarrow> \<exists>calls. snd (f S) = fold (scope_step (rg_others R)) calls S"
  unfolding through_scope_def by blast

lemma through_liftS [scoped_calls]: "through_scope R (liftS r)"
  by (intro through_scopeI exI [of _ "[]"]) (simp add: liftS_def)

lemma through_checkS [scoped_calls]: "through_scope R (checkS R c)"
  by (simp add: checkS_def through_liftS)

lemma through_bindS [scoped_calls]:
  assumes "through_scope R f" and "\<And>a T T'. f T = (Inr a, T') \<Longrightarrow> through_scope R (g a)"
  shows "through_scope R (bindS f g)"
proof (rule through_scopeI)
  fix S
  obtain calls where c: "snd (f S) = fold (scope_step (rg_others R)) calls S" using through_scopeD [OF assms(1)] by blast
  show "\<exists>calls. snd (bindS f g S) = fold (scope_step (rg_others R)) calls S"
  proof (cases "fst (f S)")
    case (Inl e)
    then have "snd (bindS f g S) = snd (f S)" by (cases "f S") (simp add: bindS_def)
    then show ?thesis using c by auto
  next
    case (Inr a)
    then have "f S = (Inr a, snd (f S))" by (simp add: prod_eq_iff)
    from assms(2) [OF this] obtain more_calls where "snd (g a (snd (f S))) = fold (scope_step (rg_others R)) more_calls (snd (f S))"
      using through_scopeD by blast
    then have "snd (bindS f g S) = fold (scope_step (rg_others R)) (calls @ more_calls) S"
      using Inr c by (cases "f S") (simp add: bindS_def)
    then show ?thesis by blast
  qed
qed

lemma through_handleS [scoped_calls]: "through_scope R f \<Longrightarrow> through_scope R (handleS f h)"
  by (auto simp: through_scope_def handleS_def split: prod.split sum.split option.split) (metis snd_conv)+

lemma through_directory [scoped_calls]: "through_scope R (directory_entries R rel)"
proof (rule through_scopeI)
  fix S
  have "snd (directory_entries R rel S) = fold (scope_step (rg_others R)) [Directory_call rel] S"
    by (auto simp: directory_entries_def bindS_def split: prod.split sum.split)
  then show "\<exists>calls. snd (directory_entries R rel S) = fold (scope_step (rg_others R)) calls S" by blast
qed

lemma through_size [scoped_calls]: "through_scope R (size_of R rel)"
  by (rule through_scopeI, rule exI [of _ "[Size_call rel]"]) (simp add: size_of_def)

lemma through_bytes [scoped_calls]: "through_scope R (bytes_of R rel rf n)"
  by (rule through_scopeI, rule exI [of _ "[Read_call (\<lambda>k. rg_check R (Block rel k)) (rg_broken R rel) rel rf (int n)]"])
    (simp add: bytes_of_def)

lemma through_if [scoped_calls]: "(b \<Longrightarrow> through_scope R f) \<Longrightarrow> (\<not> b \<Longrightarrow> through_scope R g) \<Longrightarrow> through_scope R (if b then f else g)"
  by simp

lemma through_entry [scoped_calls]: "through_scope R (scan_entry R directory entry)"
  unfolding scan_entry_def listed_size_def
  by (auto split: sum.split option.split intro!: scoped_calls)

lemma through_scan [scoped_calls]: "through_scope R (scan_directory R directory es n)"
  by (induction es arbitrary: n) (auto simp: split_def intro!: scoped_calls)

lemma through_walk [scoped_calls]: "through_scope R (scoped_walk R recursive pending n)"
proof (induction R recursive pending n rule: scoped_walk.induct)
  case (2 R recursive directory depth pending n)
  show ?case
    unfolding scoped_walk.simps
    by (intro through_bindS through_if through_checkS through_liftS through_directory through_scan)
      (auto simp: Let_def intro!: through_bindS through_liftS "2.IH")
qed (simp add: through_liftS)

lemma through_candidate [scoped_calls]: "through_scope R (read_candidate R n entry)"
  unfolding read_candidate_def Let_def by (intro scoped_calls)

lemma through_search [scoped_calls]: "through_scope R (scoped_search_loop R column limit preview i offset es ms n)"
  by (induction es arbitrary: i offset ms n) (auto split: candidate_read.split option.split intro!: scoped_calls)

lemma through_list [scoped_calls]: "through_scope R (scoped_list_directory cf R q)"
  unfolding scoped_list_directory_def by (auto intro!: scoped_calls)

lemma through_read [scoped_calls]: "through_scope R (scoped_read_file sha R q)"
  unfolding scoped_read_file_def by (auto intro!: scoped_calls)

lemma through_search_text [scoped_calls]: "through_scope R (scoped_search_text cf compile R glob q)"
  unfolding scoped_search_text_def Let_def by (auto intro!: scoped_calls)

lemma through_files [scoped_calls]: "through_scope R (read_scoped_files sha cf compile R r)"
  unfolding read_scoped_files_def scoped_operation_def
  by (auto split: scoped_request.split intro!: scoped_calls simp: comp_def)

lemma through_device_read [scoped_calls]: "through_scope R (device_read sha R q)"
  unfolding device_read_def by (auto intro!: scoped_calls)

lemma through_scope_keeps:
  assumes "through_scope R f" and "keeps_pins (rg_others R)" and "entered S"
  shows "scope_keeps S (snd (f S))"
  using scope_calls_keep [OF assms(2,3)] through_scopeD [OF assms(1), of S] by auto

section \<open>Following the cursor\<close>

lemma scoped_page_loop_eq:
  assumes "\<And>i. check i = Inr ()"
  shows "scoped_page_loop check e n index offset none_yet lines nxt =
    (case page_loop e n index offset lines nxt of
       (selected, m) \<Rightarrow> if none_yet \<and> lines \<noteq> [] \<and> selected = [] then Inl (raise ''result_limit'') else Inr (selected, m))"
proof (induction lines arbitrary: n index offset none_yet nxt)
  case (Cons line lines)
  show ?case using Cons.IH by (auto simp: assms Let_def bindE_def split: prod.split)
qed simp

lemma unread_append: "c = 0 \<or> xs \<noteq> [] \<Longrightarrow> unread c (xs @ ys) = unread c xs @ concat ys"
  by (cases xs) (auto simp: unread_def split: list.split)

text \<open>
  A request with byte budget \<open>n\<close> and line limit \<open>m\<close>, its page, and the pages of a file that stays
  the same and whose request is never cancelled.
\<close>

definition limited_file :: "pystr \<Rightarrow> nat \<Rightarrow> nat option \<Rightarrow> pystr option \<Rightarrow> read_file_request" where
  "limited_file path n m cursor = whole_file [] path n cursor\<lparr>rq_max_lines := map_option int m\<rparr>"

definition scoped_pages :: "(bytes \<Rightarrow> pystr) \<Rightarrow> pystr \<Rightarrow> bytes \<Rightarrow> nat \<Rightarrow> nat option \<Rightarrow> pystr option \<Rightarrow> exn + pystr \<times> pystr option option" where
  "scoped_pages sha path raw n m cursor =
     bindE (check_scoped_read (limited_file path n m cursor)) (\<lambda>_.
     bindE (scoped_text sha (\<lambda>_. Inr ()) (limited_file path n m cursor) path raw) (Inr \<circ> text_page))"

definition limits :: "nat \<Rightarrow> nat option \<Rightarrow> bool" where
  "limits n m \<longleftrightarrow> 4 \<le> n \<and> n \<le> MAX_READ_BYTES \<and> m \<noteq> Some 0"

definition lines_in_page :: "nat option \<Rightarrow> pystr list \<Rightarrow> pystr list" where
  "lines_in_page m lines = (case m of None \<Rightarrow> lines | Some k \<Rightarrow> take k lines)"

lemma lines_in_page_split: "\<exists>rest. lines = lines_in_page m lines @ rest"
  by (auto simp: lines_in_page_def split: option.split) (metis append_take_drop_id)

lemma lines_in_page_none: "limits n m \<Longrightarrow> lines_in_page m lines = [] \<longleftrightarrow> lines = []"
  by (auto simp: lines_in_page_def limits_def split: option.splits)

lemma scoped_pages_eq:
  assumes "limits n m" and "detect_text raw = Inr (t, e)" and "at_position t (l, c) cursor"
    and "page_loop e n l c (lines_in_page m (drop l (splitlines_keep t))) (l, c) = (selected, i, k)"
    and "drop l (splitlines_keep t) = [] \<or> selected \<noteq> []"
  shows "scoped_pages sha path raw n m cursor =
    Inr (concat selected, if i < length (splitlines_keep t) \<or> 0 < k then Some (Some (encode_read_cursor i k)) else None)"
proof -
  let ?lines = "splitlines_keep t"
  have q: "check_scoped_read (limited_file path n m cursor) = Inr ()"
    using assms(1) by (cases m) (simp_all add: check_scoped_read_def limited_file_def whole_file_def limits_def)
  have start: "start_position (limited_file path n m cursor) = Inr (l, c)"
    using assms(3) start_position_cursor [of "(l, c)" cursor "[]" path n]
    by (simp add: start_position_def limited_file_def at_position_def split: if_splits)
  have pos: "position ?lines (l, c)" using assms(3) by (simp add: at_position_def)
  then have inside: "check_position ?lines l c = Inr ()" by (auto simp: check_position_def position_def)
  have chosen: "page_lines ?lines l (case map_option int m of None \<Rightarrow> length ?lines | Some n \<Rightarrow> min (length ?lines) (l + nat n))
      = lines_in_page m (drop l ?lines)"
    by (cases m) (auto simp: page_lines_def lines_in_page_def min_def)
  have "lines_in_page m (drop l ?lines) = [] \<or> selected \<noteq> []" using assms(5) by (auto simp: lines_in_page_none [OF assms(1)])
  then have "scoped_page_loop (\<lambda>i. Inr ()) e n l c True (lines_in_page m (drop l ?lines)) (l, c) = Inr (selected, i, k)"
    using assms(4) by (auto simp: scoped_page_loop_eq)
  moreover have "rq_max_lines (limited_file path n m cursor) = map_option int m" "rq_end (limited_file path n m cursor) = None"
      "nat (rq_max_bytes (limited_file path n m cursor)) = n"
    by (simp_all add: limited_file_def whole_file_def)
  ultimately show ?thesis
    using assms(2) start inside chosen q
    by (simp add: scoped_pages_def scoped_text_def scoped_page_at_def end_index_def text_page_def Let_def)
qed

lemma scoped_page_step:
  assumes "limits n m" and "detect_text raw = Inr (t, e)" and "at_position t p cursor"
  obtains xs nxt where "scoped_pages sha path raw n m cursor = Inr (xs, nxt)"
    "nxt = None \<Longrightarrow> unread_from (splitlines_keep t) p = xs"
    "\<And>c'. nxt = Some c' \<Longrightarrow> \<exists>p'. at_position t p' c' \<and> unread_from (splitlines_keep t) p = xs @ unread_from (splitlines_keep t) p' \<and> xs \<noteq> []"
proof -
  define lines where "lines = splitlines_keep t"
  obtain l c where p: "p = (l, c)" by (cases p)
  have pos: "position lines (l, c)" using assms(3) p by (simp add: at_position_def lines_def)
  define chosen where "chosen = lines_in_page m (drop l lines)"
  obtain rest where rest: "drop l lines = chosen @ rest" using lines_in_page_split chosen_def by blast
  obtain selected i k where pl: "page_loop e n l c chosen (l, c) = (selected, i, k)" by (metis prod_cases3)
  have ne: "list_all (\<lambda>x. x \<noteq> []) chosen"
    using lines_nonempty [of t] rest by (metis append_take_drop_id list_all_append lines_def)
  have none: "chosen = [] \<longleftrightarrow> drop l lines = []" unfolding chosen_def by (rule lines_in_page_none [OF assms(1)])
  have hd: "chosen \<noteq> [] \<Longrightarrow> c < length (hd chosen)"
    using pos rest none by (cases chosen) (auto simp: position_def hd_drop_conv_nth [symmetric])
  obtain j where j: "i = l + j" "j \<le> length chosen" "unread c chosen = concat selected @ unread k (drop j chosen)"
      "j = length chosen \<Longrightarrow> chosen \<noteq> [] \<Longrightarrow> k = 0" "j < length chosen \<Longrightarrow> k < length (chosen ! j)"
    using page_loop_split [OF pl ne hd] by metis
  have sel: "concat selected \<noteq> []" if "chosen \<noteq> []"
    using page_loop_progress [OF pl] hd that assms(1) by (auto simp: limits_def)
  have page: "scoped_pages sha path raw n m cursor =
      Inr (concat selected, if i < length lines \<or> 0 < k then Some (Some (encode_read_cursor i k)) else None)"
    unfolding lines_def
    by (rule scoped_pages_eq [OF assms(1,2) assms(3) [unfolded p]]) (use pl sel none in \<open>auto simp: chosen_def lines_def\<close>)
  have c0: "chosen = [] \<Longrightarrow> c = 0" using none pos by (auto simp: position_def)
  have k0: "k = 0" if "\<not> j < length chosen" using j(2,4) that pl c0 by (cases "chosen = []") auto
  have all: "unread_from lines p = concat selected @ unread_from lines (i, k)"
  proof -
    have "unread c (drop l lines) = unread c chosen @ concat rest" unfolding rest using c0 by (intro unread_append) auto
    moreover have "drop i lines = drop j chosen @ rest" using j(1,2) rest by (metis add.commute append_Nil2 diff_is_0_eq drop_0 drop_append drop_drop)
    moreover have "unread k (drop j chosen @ rest) = unread k (drop j chosen) @ concat rest"
      using k0 by (intro unread_append) auto
    ultimately show ?thesis using j(3) by (simp add: unread_from_def p)
  qed
  have len: "length lines = l + length chosen + length rest \<or> drop l lines = []"
    using arg_cong [OF rest, of length] by auto
  show ?thesis
  proof (cases "i < length lines \<or> 0 < k")
    case True
    have "chosen \<noteq> []" using True j(1,2) k0 none pos by (auto simp: position_def)
    have "j < length chosen \<Longrightarrow> lines ! i = chosen ! j" using j(1) rest len by (metis \<open>chosen \<noteq> []\<close> append_is_Nil_conv drop_eq_Nil leI less_imp_le_nat nth_append nth_drop)
    moreover have "i < length lines" using True k0 j(1,2) len none \<open>chosen \<noteq> []\<close> by fastforce
    ultimately have "position lines (i, k)"
      using k0 j(5) lines_nonempty [of t] by (cases "j < length chosen") (auto simp: position_def lines_def list_all_iff)
    then have "at_position t (i, k) (Some (encode_read_cursor i k))" by (simp add: at_position_def at_cursor_def lines_def)
    then show ?thesis using that page sel [OF \<open>chosen \<noteq> []\<close>] True all unfolding lines_def [symmetric] by auto
  next
    case False
    then have "unread_from lines (i, k) = []" by (simp add: unread_from_def)
    then show ?thesis using that page False all unfolding lines_def [symmetric] by auto
  qed
qed

interpretation scoped_reading: paged "scoped_pages sha path raw n m"
  "\<lambda>cursor. limits n m \<and> (\<exists>e. detect_text raw = Inr (t, e)) \<and> (\<exists>p. at_position t p cursor)"
  "\<lambda>cursor. unread_from (splitlines_keep t) (position_of cursor)"
  "\<lambda>cursor. length (unread_from (splitlines_keep t) (position_of cursor))" for sha path raw n m t
proof unfold_locales
  fix cursor assume a: "limits n m \<and> (\<exists>e. detect_text raw = Inr (t, e)) \<and> (\<exists>p. at_position t p cursor)"
  then obtain e p where p: "limits n m" "detect_text raw = Inr (t, e)" "at_position t p cursor" by blast
  obtain xs nxt where s: "scoped_pages sha path raw n m cursor = Inr (xs, nxt)"
    "nxt = None \<Longrightarrow> unread_from (splitlines_keep t) p = xs"
    "\<And>c'. nxt = Some c' \<Longrightarrow> \<exists>p'. at_position t p' c' \<and> unread_from (splitlines_keep t) p = xs @ unread_from (splitlines_keep t) p' \<and> xs \<noteq> []"
    using scoped_page_step [OF p] by metis
  show "\<exists>xs k. scoped_pages sha path raw n m cursor = Inr (xs, k)" using s(1) by blast
  show "unread_from (splitlines_keep t) (position_of cursor) = ys" if "scoped_pages sha path raw n m cursor = Inr (ys, None)" for ys
    using s(1,2) that at_position_of [OF p(3)] by simp
  show "(limits n m \<and> (\<exists>e. detect_text raw = Inr (t, e)) \<and> (\<exists>p. at_position t p c'))
      \<and> unread_from (splitlines_keep t) (position_of cursor) = ys @ unread_from (splitlines_keep t) (position_of c')
      \<and> length (unread_from (splitlines_keep t) (position_of c')) < length (unread_from (splitlines_keep t) (position_of cursor))"
    if b: "scoped_pages sha path raw n m cursor = Inr (ys, Some c')" for ys c'
  proof -
    obtain p' where p': "at_position t p' c'" "unread_from (splitlines_keep t) p = ys @ unread_from (splitlines_keep t) p'" "ys \<noteq> []"
      using s(1,3) b by auto
    then have "\<exists>p. at_position t p c'" by blast
    then show ?thesis using a at_position_of [OF p(3)] at_position_of [OF p'(1)] p'(2,3) by simp
  qed
qed

lemma scoped_read_completely:
  assumes "limits n m" and "detect_text raw = Inr (t, e)"
  shows "follow (scoped_pages sha path raw n m) (Suc (length t)) None = Some t"
proof -
  have "at_position t (0, 0) None"
    using lines_nonempty [of t] by (cases "splitlines_keep t") (auto simp: at_position_def at_cursor_def position_def)
  moreover have "unread_from (splitlines_keep t) (position_of None) = t"
    by (simp add: position_of_def unread_from_def concat_splitlines_keep)
  ultimately show ?thesis
    using scoped_reading.follow_complete [of n m raw t None "Suc (length t)"] assms by auto
qed

end
