(* ===== verification/File_Operations.thy ===== *)
theory File_Operations
  imports Read_Scoped_Laws Project_Management Relay_Store
begin

text \<open>
  The read tools behind the device's trust boundary: the wire contract of a read
  (\<open>packages/protocol/src/codito_protocol/read.py\<close>), \<open>_file_operation\<close>, \<open>_read\<close> and
  \<open>_normalize_read_response\<close> of \<open>agent/src/codito_agent/protocol_adapter.py\<close>, \<open>resolve_file_target\<close> of
  \<open>file_targets.py\<close>, and \<open>DeviceReadService.execute\<close> of \<open>device_read.py\<close>.  A read pins its external
  directory, asks for consent, reads in a worker and releases the result only if nothing it was
  authorized by has changed; the pins are closed on every way out.
\<close>

section \<open>The wire contract of a read\<close>

datatype wire_operation =
    Wire_list pystr pystr bool "pystr option" int
  | Wire_read pystr int "int option" "int option" int "pystr option"
  | Wire_search pystr pystr pystr bool bool int int "pystr option"

record wire_request =
  wr_project :: pystr
  wr_scope :: "pystr option"
  wr_purpose :: "pystr option"
  wr_operation :: wire_operation

definition short_cursor :: "pystr option \<Rightarrow> bool" where
  "short_cursor c \<longleftrightarrow> (case c of None \<Rightarrow> True | Some s \<Rightarrow> length s \<le> 512)"

text \<open>The field constraints of \<open>ListDirectoryInput\<close>, \<open>ReadFileInput\<close> and \<open>SearchTextInput\<close>.\<close>

definition validate_operation :: "wire_operation \<Rightarrow> wire_operation res" where
  "validate_operation w =
     (case w of
        Wire_list path glob recursive cursor limit \<Rightarrow>
          bindE (protocol_relative_path path) (\<lambda>p.
          if \<not> wire_glob glob \<or> \<not> short_cursor cursor \<or> limit < 1 \<or> 1000 < limit then Inl ValueError
          else Inr (Wire_list p glob recursive cursor limit))
      | Wire_read path start max_lines end_line max_bytes continuation \<Rightarrow>
          bindE (protocol_relative_path path) (\<lambda>p.
          if start < 1 \<or> (case max_lines of None \<Rightarrow> False | Some n \<Rightarrow> n < 1 \<or> 2000 < n)
             \<or> (case end_line of None \<Rightarrow> False | Some n \<Rightarrow> n < 1) \<or> max_bytes < 1 \<or> 2 * 1024 * 1024 < max_bytes
             \<or> \<not> short_cursor continuation
          then Inl ValueError
          else Inr (Wire_read p start max_lines end_line max_bytes continuation))
      | Wire_search query path glob case_sensitive regex max_results max_preview continuation \<Rightarrow>
          bindE (protocol_relative_path path) (\<lambda>p.
          if query = [] \<or> 4096 < length query \<or> \<not> wire_glob glob \<or> max_results < 1 \<or> 500 < max_results
             \<or> max_preview < 128 \<or> 16 * 1024 < max_preview \<or> \<not> short_cursor continuation
          then Inl ValueError
          else Inr (Wire_search query p glob case_sensitive regex max_results max_preview continuation)))"

text \<open>\<open>validate_project_read\<close>: the fields, then the rule that an external read needs a purpose.\<close>

definition validate_project_read :: "wire_request \<Rightarrow> wire_request res" where
  "validate_project_read q =
     bindE (case wr_scope q of None \<Rightarrow> Inr None | Some s \<Rightarrow> bindE (normalize_read_scope s) (Inr \<circ> Some)) (\<lambda>scope.
     if \<not> opaque_id (wr_project q) \<or> (case wr_purpose q of None \<Rightarrow> False | Some p \<Rightarrow> p = [] \<or> 1000 < length p) then Inl ValueError
     else
       bindE (validate_operation (wr_operation q)) (\<lambda>w.
       if scope \<noteq> None \<and> wr_purpose q = None then Inl ValueError
       else Inr (q\<lparr>wr_scope := scope, wr_operation := w\<rparr>)))"

text \<open>\<open>model_dump\<close> without the absent fields, which the approval's digest is taken of.\<close>

definition field :: "string \<Rightarrow> ('a \<Rightarrow> json) \<Rightarrow> 'a option \<Rightarrow> (pystr \<times> json) list" where
  "field k f v = (case v of None \<Rightarrow> [] | Some x \<Rightarrow> [(lit k, f x)])"

definition operation_json :: "wire_operation \<Rightarrow> (pystr \<times> json) list" where
  "operation_json w =
     (case w of
        Wire_list path glob recursive cursor limit \<Rightarrow>
          [(lit ''operation'', JStr (lit ''list_directory'')), (lit ''path'', JStr path), (lit ''glob'', JStr glob),
           (lit ''recursive'', JBool recursive)] @ field ''cursor'' JStr cursor @ [(lit ''limit'', JInt limit)]
      | Wire_read path start max_lines end_line max_bytes continuation \<Rightarrow>
          [(lit ''operation'', JStr (lit ''read_file'')), (lit ''path'', JStr path), (lit ''start_line'', JInt start)]
          @ field ''max_lines'' JInt max_lines @ field ''end_line'' JInt end_line
          @ [(lit ''max_bytes'', JInt max_bytes)] @ field ''continuation'' JStr continuation
      | Wire_search query path glob case_sensitive regex max_results max_preview continuation \<Rightarrow>
          [(lit ''operation'', JStr (lit ''search_text'')), (lit ''query'', JStr query), (lit ''path'', JStr path), (lit ''glob'', JStr glob),
           (lit ''case_sensitive'', JBool case_sensitive), (lit ''regex'', JBool regex), (lit ''max_results'', JInt max_results),
           (lit ''max_bytes_per_match'', JInt max_preview)] @ field ''continuation'' JStr continuation)"

definition wire_json :: "wire_request \<Rightarrow> json" where
  "wire_json q = JObj ([(lit ''project_id'', JStr (wr_project q))] @ field ''scope_path'' JStr (wr_scope q)
     @ field ''purpose'' JStr (wr_purpose q) @ operation_json (wr_operation q))"

definition wire_name :: "wire_operation \<Rightarrow> pystr" where
  "wire_name w = (case w of Wire_list _ _ _ _ _ \<Rightarrow> lit ''list_directory'' | Wire_read _ _ _ _ _ _ \<Rightarrow> lit ''read_file''
     | Wire_search _ _ _ _ _ _ _ _ \<Rightarrow> lit ''search_text'')"

definition wire_path :: "wire_operation \<Rightarrow> pystr" where
  "wire_path w = (case w of Wire_list p _ _ _ _ \<Rightarrow> p | Wire_read p _ _ _ _ _ \<Rightarrow> p | Wire_search _ p _ _ _ _ _ _ \<Rightarrow> p)"

text \<open>
  The requests of the two readers.  A read that resumes has no line range; the scoped reader drops
  the keys, the project reader gets them as absent.
\<close>

definition read_request :: "pystr \<Rightarrow> pystr \<Rightarrow> int \<Rightarrow> int option \<Rightarrow> int option \<Rightarrow> int \<Rightarrow> pystr option \<Rightarrow> read_file_request" where
  "read_request pid path start max_lines end_line max_bytes continuation =
     (let resumed = cursor_given continuation in
      \<lparr>rq_project = pid, rq_path = path, rq_start = (if resumed then None else Some start),
       rq_end = (if resumed then None else end_line), rq_max_bytes = max_bytes, rq_max_lines = max_lines, rq_cursor = continuation\<rparr>)"

definition scoped_of :: "wire_request \<Rightarrow> scoped_request" where
  "scoped_of q =
     (case wr_operation q of
        Wire_list path glob recursive cursor limit \<Rightarrow>
          Scoped_list \<lparr>lq_project = wr_project q, lq_path = path, lq_limit = limit, lq_cursor = cursor, lq_glob = Some glob, lq_recursive = recursive\<rparr>
      | Wire_read path start max_lines end_line max_bytes continuation \<Rightarrow>
          Scoped_read (read_request (wr_project q) path start max_lines end_line max_bytes continuation)
      | Wire_search query path glob case_sensitive regex max_results max_preview continuation \<Rightarrow>
          Scoped_search (Some glob) \<lparr>sq_project = wr_project q, sq_query = query, sq_path = path, sq_globs = Some [glob],
            sq_case_sensitive = case_sensitive, sq_regex = regex, sq_preview = max_preview, sq_limit = max_results, sq_cursor = continuation\<rparr>)"

definition operation_of :: "wire_request \<Rightarrow> read_operation" where
  "operation_of q =
     (case scoped_of q of
        Scoped_list l \<Rightarrow> List_directory l
      | Scoped_read r \<Rightarrow> Read_file r
      | Scoped_search _ s \<Rightarrow> Search_text s
      | Unsupported \<Rightarrow> List_projects)"

section \<open>The normalized response\<close>

datatype wire_answer =
    Wire_listing pystr "(pystr \<times> bool \<times> nat option) list" "pystr option"
  | Wire_page pystr pystr encoding newline_kind nat pystr nat nat bool "pystr option"
  | Wire_matches "search_match list" bool "pystr option"

definition normal_path :: "pystr \<Rightarrow> pystr" where
  "normal_path p = (if p = [46] then [] else p)"

definition normalize_scoped :: "scoped_answer \<Rightarrow> wire_answer" where
  "normalize_scoped a =
     (case a of
        Scoped_listing p \<Rightarrow> Wire_listing (normal_path (sg_path p)) (map (\<lambda>e. (se_path e, se_directory e, se_size e)) (sg_entries p)) (sg_continuation p)
      | Scoped_page p \<Rightarrow> Wire_page (normal_path (fp_path p)) (fp_numbered p) (fp_encoding p) (fp_newline p) (fp_size p) (fp_sha p)
          (fp_first p) (fp_last p) (fp_truncated p) (fp_continuation p)
      | Scoped_found p \<Rightarrow> Wire_matches (sp_matches p) (sp_continuation p \<noteq> None) (sp_continuation p))"

definition normalize_read :: "read_answer \<Rightarrow> wire_answer" where
  "normalize_read a =
     (case a of
        Listing p \<Rightarrow> Wire_listing (normal_path (lp_path p)) (map (\<lambda>e. (le_path e, le_directory e, le_size e)) (lp_entries p)) (lp_continuation p)
      | File_page p \<Rightarrow> normalize_scoped (Scoped_page p)
      | Found p \<Rightarrow> normalize_scoped (Scoped_found p)
      | Projects _ \<Rightarrow> Wire_matches [] False None)"

section \<open>The file target\<close>

text \<open>
  What an operation meets outside the model's state: the hash, \<open>str.casefold\<close>, the \<open>regex\<close> package, the
  text of a project root, \<open>str.lower\<close> (which Windows paths are compared by), the file system as
  project reads see it, what a scope meets, the call of \<open>request\<close>, the clock, what the rest of the
  daemon does to the manager while the worker runs, the check before the worker's first step, and
  whether the coroutine is cancelled.
\<close>

record surroundings =
  su_sha :: "bytes \<Rightarrow> pystr"
  su_casefold :: "pystr \<Rightarrow> pystr"
  su_compile :: "pystr \<Rightarrow> bool \<Rightarrow> (pystr \<Rightarrow> regex_answer) option"
  su_text :: "abspath \<Rightarrow> pystr"
  su_lower :: "pystr \<Rightarrow> pystr"
  su_disk :: filesystem
  su_scandir :: "abspath \<Rightarrow> scan"
  su_reader :: reader
  su_reading :: reading
  su_ask :: asking
  su_clock :: "nat \<times> nat \<times> nat \<times> nat"
  su_during :: "manager \<Rightarrow> manager"
  su_first_check :: "unit res"
  su_cancelled :: bool

definition lies_below :: "(pystr \<Rightarrow> pystr) \<Rightarrow> abspath \<Rightarrow> abspath \<Rightarrow> bool" where
  "lies_below lower p base \<longleftrightarrow> prefix (map lower base) (map lower p)"

definition root_parts :: "surroundings \<Rightarrow> project \<Rightarrow> abspath" where
  "root_parts X pr = (case normalize_read_scope (su_text X (root pr)) of Inr v \<Rightarrow> scope_root v | Inl _ \<Rightarrow> root pr)"

text \<open>
  An open target: the project with the root that is meant, whether that is inside the registered
  one, and the scope path when one is pinned.
\<close>

record target =
  tg_project :: project
  tg_inside :: bool
  tg_scope :: "pystr option"

definition resolve_file_target ::
  "surroundings \<Rightarrow> project \<Rightarrow> pystr option \<Rightarrow> windows \<Rightarrow> target res \<times> read_scope \<times> windows" where
  "resolve_file_target X pr scope_path W =
     (let no_scope = \<lparr>rs_root = [], rs_handles = [], rs_directories = [], rs_identity = []\<rparr> in
      if \<not> enabled pr then (Inl (raise ''project_disabled''), no_scope, W)
      else case verify_project (su_sha X) (view (su_disk X)) pr of
        Inl e \<Rightarrow> (Inl e, no_scope, W)
      | Inr _ \<Rightarrow>
          (case scope_path of
             None \<Rightarrow> (Inr \<lparr>tg_project = pr, tg_inside = True, tg_scope = None\<rparr>, no_scope, W)
           | Some s \<Rightarrow>
               (case scope_enter (rg_others (su_reading X)) s W of
                  (Inl e, S) \<Rightarrow> (Inl e, S)
                | (Inr _, S) \<Rightarrow>
                    (case root_fingerprint (su_sha X) (view (su_disk X)) (rs_root (fst S)) of
                       Inl e \<Rightarrow> (Inl e, scope_close S)
                     | Inr fp \<Rightarrow>
                         (Inr \<lparr>tg_project = pr\<lparr>root := rs_root (fst S), root_fp := fp\<rparr>,
                            tg_inside = lies_below (su_lower X) (rs_root (fst S)) (root_parts X pr),
                            tg_scope = Some (case normalize_read_scope s of Inr v \<Rightarrow> v | Inl _ \<Rightarrow> s)\<rparr>, S)))))"

section \<open>A read of a project or of an approved directory\<close>

record operation_call =
  ca_binding :: binding
  ca_epoch :: int
  ca_deadline :: nat
  ca_request_id :: pystr

definition ensure_policy :: "nat \<Rightarrow> nat \<Rightarrow> operation_call \<Rightarrow> project \<Rightarrow> manager \<Rightarrow> unit res" where
  "ensure_policy now g c pr m =
     bindE (ensure_current now g (ca_deadline c) m) (\<lambda>_.
     bindE (case am_db m of None \<Rightarrow> Inl ValueError | Some d \<Rightarrow> get_project (project_id pr) d) (\<lambda>current.
       raise_if (\<not> enabled current \<or> mode current \<noteq> mode pr) approval_expired))"

definition file_approval :: "surroundings \<Rightarrow> operation_call \<Rightarrow> wire_request \<Rightarrow> project \<Rightarrow> target \<Rightarrow> pystr \<Rightarrow> approval_request" where
  "file_approval X c q pr tg dg =
     \<lparr>ap_id = ca_request_id c, ap_binding = ca_binding c, ap_project = project_id pr, ap_title = title pr,
      ap_capability = (if tg_inside tg then lit ''files:read'' else lit ''device:read''), ap_digest = dg,
      ap_epoch = ca_epoch c, ap_deadline = ca_deadline c, ap_aware = True, ap_risk = READ,
      ap_summary = wire_name (wr_operation q) @ lit '': '' @ (case wr_purpose q of None \<Rightarrow> lit ''None'' | Some p \<Rightarrow> p)
        @ [10] @ lit ''Target root: '' @ su_text X (root (tg_project tg))
        @ [10] @ lit ''Path: '' @ (if wire_path (wr_operation q) = [] then lit ''(root)'' else wire_path (wr_operation q)),
      ap_command = None, ap_patch = None, ap_directory = None, ap_environment = None, ap_network = False,
      ap_external = (case tg_scope tg of Some s \<Rightarrow> if tg_inside tg then [] else [s] | None \<Rightarrow> []),
      ap_session = False, ap_keep_read = False, ap_keep_shell = False, ap_keep_screen = False\<rparr>"

definition file_scopes :: "target \<Rightarrow> read_scope \<Rightarrow> manager \<Rightarrow> scopes" where
  "file_scopes tg sc m = no_scopes\<lparr>sc_read :=
     (case tg_scope tg of
        Some s \<Rightarrow> if \<not> tg_inside tg \<and> s \<noteq> [] \<and> rs_identity sc \<noteq> [] \<and> am_db m \<noteq> None then Some (s, rs_identity sc) else None
      | None \<Rightarrow> None)\<rparr>"

text \<open>The worker: the pinned scope, or the project through its resolver.\<close>

definition perform_read :: "surroundings \<Rightarrow> wire_request \<Rightarrow> target \<Rightarrow> db \<Rightarrow> wire_answer scoped" where
  "perform_read X q tg d =
     bindS (liftS (su_first_check X)) (\<lambda>_.
       if tg_scope tg \<noteq> None then
         bindS (read_scoped_files (su_sha X) (su_casefold X) (su_compile X) (su_reading X) (scoped_of q)) (liftS \<circ> Inr \<circ> normalize_scoped)
       else
         liftS (bindE (execute_read (su_sha X) (su_casefold X) (su_compile X) (su_scandir X) (su_disk X) (su_reader X) d None (operation_of q))
           (Inr \<circ> normalize_read)))"

text \<open>
  \<open>_drain_file_worker\<close>: the worker always runs to its end before the pins are closed; a cancelled
  call has no answer.
\<close>

datatype 'a outcome = Cancelled | Answer "'a res"

definition drained :: "bool \<Rightarrow> 'a res \<Rightarrow> 'a outcome" where
  "drained cancelled r = (if cancelled then Cancelled else Answer r)"

text \<open>The block inside \<open>with resolve_file_target(...)\<close>, from the digest to the release of the result.\<close>

definition file_operation_body ::
  "surroundings \<Rightarrow> operation_call \<Rightarrow> wire_request \<Rightarrow> nat \<Rightarrow> project \<Rightarrow> target \<Rightarrow> manager \<Rightarrow> read_scope \<times> windows
     \<Rightarrow> wire_answer outcome \<times> manager \<times> read_scope \<times> windows" where
  "file_operation_body X c q g pr tg m S =
     (case su_clock X of (t0, t1, t2, t3) \<Rightarrow>
        (case compute_action_digest (su_sha X) (wire_json q) of
           Inl e \<Rightarrow> (Answer (Inl e), m, S)
         | Inr dg \<Rightarrow>
             (case authorize_project_operation (su_ask X) t1 pr (file_approval X c q pr tg dg) (tg_inside tg) False (file_scopes tg (fst S) m) m of
                (Inl e, m1) \<Rightarrow> (Answer (Inl e), m1, S)
              | (Inr _, m1) \<Rightarrow>
                  (case bindE (ensure_current t2 g (ca_deadline c) m1) (\<lambda>_. case am_db m1 of None \<Rightarrow> Inl ValueError | Some d \<Rightarrow> Inr d) of
                     Inl e \<Rightarrow> (Answer (Inl e), m1, S)
                   | Inr d \<Rightarrow>
                       (case perform_read X q tg d S of
                          (r, S') \<Rightarrow>
                            let m2 = su_during X m1 in
                            (drained (su_cancelled X) (bindE r (\<lambda>a. bindE (ensure_policy t3 g c pr m2) (\<lambda>_. Inr a))), m2, S'))))))"

definition file_operation ::
  "surroundings \<Rightarrow> operation_call \<Rightarrow> wire_request \<Rightarrow> manager \<times> windows \<Rightarrow> wire_answer outcome \<times> manager \<times> windows" where
  "file_operation X c q = (\<lambda>(m, W).
     case bindE (case am_db m of None \<Rightarrow> Inl ValueError | Some d \<Rightarrow> get_project (wr_project q) d) (\<lambda>pr.
          bindE (ensure_current (fst (su_clock X)) (am_generation m) (ca_deadline c) m) (\<lambda>_. Inr pr)) of
       Inl e \<Rightarrow> (Answer (Inl e), m, W)
     | Inr pr \<Rightarrow>
         (case resolve_file_target X pr (wr_scope q) W of
            (Inl e, S) \<Rightarrow> (Answer (Inl e), m, snd S)
          | (Inr tg, S) \<Rightarrow>
              (case file_operation_body X c q (am_generation m) pr tg m S of
                 (r, m', S') \<Rightarrow> (r, m', snd (if tg_scope tg \<noteq> None then scope_close S' else S')))))"

section \<open>The list of projects\<close>

record projects_page =
  pp_projects :: "json list"
  pp_continuation :: "(pystr \<times> nat) option"

definition online_summary :: "pystr \<Rightarrow> bool \<Rightarrow> project \<Rightarrow> json" where
  "online_summary device online p =
     JObj [(lit ''project_id'', JStr (project_id p)), (lit ''title'', JStr (title p)), (lit ''device_id'', JStr device),
       (lit ''mode'', JStr (mode_name (mode p))), (lit ''online'', JBool online)]"

definition list_projects_page :: "pystr \<Rightarrow> bool \<Rightarrow> pystr option \<Rightarrow> nat \<Rightarrow> db \<Rightarrow> projects_page res" where
  "list_projects_page device online cursor limit d =
     (let all = list_projects True d in
      bindE (decode_cursor cursor) (\<lambda>offset.
      let page = take limit (drop offset all); next_offset = offset + length page in
      Inr \<lparr>pp_projects = map (online_summary device online) page,
            pp_continuation = (if next_offset < length all then Some (encode_cursor next_offset, length all - next_offset) else None)\<rparr>))"

section \<open>A device read\<close>

text \<open>The field constraints of \<open>DeviceReadInput\<close>.\<close>

definition validate_device_read :: "pystr \<Rightarrow> device_request \<Rightarrow> device_request res" where
  "validate_device_read purpose q =
     bindE (normalize_read_scope (dq_scope q)) (\<lambda>scope.
     bindE (protocol_relative_path (dq_path q)) (\<lambda>path.
     if (case dq_project q of None \<Rightarrow> False | Some p \<Rightarrow> \<not> opaque_id p) \<or> purpose = [] \<or> 1000 < length purpose
        \<or> 10000 < dq_offset q \<or> dq_limit q < 1 \<or> 500 < dq_limit q \<or> dq_start q < 1 \<or> 1000000 < dq_start q
        \<or> dq_max_lines q < 1 \<or> 2000 < dq_max_lines q \<or> dq_max_bytes q < 256 \<or> 262144 < dq_max_bytes q
     then Inl ValueError
     else if \<not> dq_list q \<and> path = [] then Inl ValueError
     else bindE (check_names path) (\<lambda>_. Inr (q\<lparr>dq_scope := scope, dq_path := path\<rparr>))))"

definition device_name :: "device_request \<Rightarrow> pystr" where
  "device_name q = (if dq_list q then lit ''list_directory'' else lit ''read_file'')"

definition device_json :: "pystr \<Rightarrow> device_request \<Rightarrow> json" where
  "device_json purpose q = JObj (field ''project_id'' JStr (dq_project q)
     @ [(lit ''operation'', JStr (device_name q)), (lit ''scope_path'', JStr (dq_scope q)), (lit ''path'', JStr (dq_path q)),
        (lit ''purpose'', JStr purpose), (lit ''offset'', JInt (int (dq_offset q))), (lit ''limit'', JInt (int (dq_limit q))),
        (lit ''start_line'', JInt (int (dq_start q))), (lit ''max_lines'', JInt (int (dq_max_lines q))),
        (lit ''max_bytes'', JInt (int (dq_max_bytes q)))])"

definition device_approval :: "operation_call \<Rightarrow> pystr \<Rightarrow> device_request \<Rightarrow> project option \<Rightarrow> pystr \<Rightarrow> approval_request" where
  "device_approval c purpose q pr dg =
     \<lparr>ap_id = ca_request_id c, ap_binding = ca_binding c, ap_project = (case pr of None \<Rightarrow> [] | Some p \<Rightarrow> project_id p),
      ap_title = (case pr of None \<Rightarrow> lit ''Outside projects'' | Some p \<Rightarrow> title p),
      ap_capability = lit ''device:read'', ap_digest = dg, ap_epoch = ca_epoch c, ap_deadline = ca_deadline c, ap_aware = True,
      ap_risk = READ,
      ap_summary = lit ''Read outside projects: '' @ device_name q @ [10] @ lit ''Scope: '' @ dq_scope q @ [10]
        @ lit ''Path: '' @ (if dq_path q = [] then lit ''(scope root)'' else dq_path q) @ [10] @ lit ''Purpose: '' @ purpose,
      ap_command = None, ap_patch = None, ap_directory = None, ap_environment = None, ap_network = False,
      ap_external = [dq_scope q], ap_session = False, ap_keep_read = False, ap_keep_shell = False, ap_keep_screen = False\<rparr>"

text \<open>The origin project of a request and its policy for a read outside it.\<close>

definition device_policy :: "device_request \<Rightarrow> manager \<Rightarrow> (project \<times> access_policy) option res" where
  "device_policy q m =
     (case dq_project q of
        None \<Rightarrow> Inr None
      | Some pid \<Rightarrow>
          bindE (case am_db m of None \<Rightarrow> Inl (raise ''project_unavailable'') | Some d \<Rightarrow> get_project pid d) (\<lambda>pr.
          bindE (project_access_policy pr False False) (\<lambda>pol. Inr (Some (pr, pol)))))"

definition device_consent ::
  "asking \<Rightarrow> operation_call \<Rightarrow> pystr \<Rightarrow> device_request \<Rightarrow> (project \<times> access_policy) option \<Rightarrow> pystr \<Rightarrow> pystr \<Rightarrow> manager \<Rightarrow> unit res \<times> manager" where
  "device_consent ask c purpose q pp identity dg m =
     (if (case pp of None \<Rightarrow> True | Some (_, pol) \<Rightarrow> requires_approval pol) then
        ask (device_approval c purpose q (map_option fst pp) dg) False
          (no_scopes\<lparr>sc_read := (if (case pp of None \<Rightarrow> True | Some (_, pol) \<Rightarrow> allow_saved pol) then Some (dq_scope q, identity) else None)\<rparr>) True m
      else (Inr (), m))"

definition os_failed :: "'a outcome \<Rightarrow> 'a outcome" where
  "os_failed r = (case r of Answer (Inl OSError) \<Rightarrow> Answer (Inl (raise ''read_failed'')) | _ \<Rightarrow> r)"

definition device_read_body ::
  "surroundings \<Rightarrow> operation_call \<Rightarrow> pystr \<Rightarrow> device_request \<Rightarrow> nat \<Rightarrow> (project \<times> access_policy) option \<Rightarrow> manager \<Rightarrow> read_scope \<times> windows
     \<Rightarrow> device_answer outcome \<times> manager \<times> read_scope \<times> windows" where
  "device_read_body X c purpose q g pp m S =
     (case su_clock X of (t0, t1, t2, t3) \<Rightarrow>
        (case compute_action_digest (su_sha X) (device_json purpose q) of
           Inl e \<Rightarrow> (Answer (Inl e), m, S)
         | Inr dg \<Rightarrow>
             (case device_consent (su_ask X) c purpose q pp (rs_identity (fst S)) dg m of
                (Inl e, m1) \<Rightarrow> (Answer (Inl e), m1, S)
              | (Inr _, m1) \<Rightarrow>
                  (case ensure_current t2 g (ca_deadline c) m1 of
                     Inl e \<Rightarrow> (Answer (Inl e), m1, S)
                   | Inr _ \<Rightarrow>
                       (case device_read (su_sha X) (su_reading X) q S of
                          (r, S') \<Rightarrow>
                            let m2 = su_during X m1 in
                            (drained (su_cancelled X) (bindE r (\<lambda>a. bindE (ensure_current t3 g (ca_deadline c) m2) (\<lambda>_. Inr a))), m2, S'))))))"

definition device_read_execute ::
  "surroundings \<Rightarrow> operation_call \<Rightarrow> pystr \<Rightarrow> device_request \<Rightarrow> manager \<times> windows \<Rightarrow> device_answer outcome \<times> manager \<times> windows" where
  "device_read_execute X c purpose q = (\<lambda>(m, W).
     case bindE (device_policy q m) (\<lambda>pp. bindE (ensure_current (fst (su_clock X)) (am_generation m) (ca_deadline c) m) (\<lambda>_. Inr pp)) of
       Inl e \<Rightarrow> (Answer (Inl e), m, W)
     | Inr pp \<Rightarrow>
         (case scope_enter (rg_others (su_reading X)) (dq_scope q) W of
            (Inl e, S) \<Rightarrow> (os_failed (Answer (Inl e)), m, snd S)
          | (Inr _, S) \<Rightarrow>
              (case device_read_body X c purpose q (am_generation m) pp m S of
                 (r, m', S') \<Rightarrow> (os_failed r, m', snd (scope_close S')))))"

section \<open>Following the list of projects\<close>

definition project_calls :: "pystr \<Rightarrow> bool \<Rightarrow> nat \<Rightarrow> db \<Rightarrow> pystr option \<Rightarrow> exn + json list \<times> pystr option option" where
  "project_calls device online limit d cursor =
     bindE (list_projects_page device online cursor limit d) (\<lambda>p. Inr (pp_projects p, map_option (Some \<circ> fst) (pp_continuation p)))"

interpretation project_listing: paged "project_calls device online limit d"
  "\<lambda>cursor. 0 < limit \<and> is_ok (decode_cursor cursor)"
  "\<lambda>cursor. map (online_summary device online) (drop (list_position cursor) (list_projects True d))"
  "\<lambda>cursor. length (list_projects True d) - list_position cursor" for device online limit d
proof unfold_locales
  fix cursor assume a: "0 < limit \<and> is_ok (decode_cursor cursor)"
  then obtain n where n: "decode_cursor cursor = Inr n" by (auto simp: is_ok_def split: sum.splits)
  then have p: "list_position cursor = n" by (simp add: list_position_def)
  let ?all = "list_projects True d"
  let ?page = "take limit (drop n ?all)"
  have eq: "project_calls device online limit d cursor = Inr (map (online_summary device online) ?page,
      if n + length ?page < length ?all then Some (Some (encode_cursor (n + length ?page))) else None)"
    by (simp add: project_calls_def list_projects_page_def n Let_def del: length_take length_drop)
  show "\<exists>xs m. project_calls device online limit d cursor = Inr (xs, m)" by (simp add: eq)
  show "map (online_summary device online) (drop (list_position cursor) ?all) = xs" if "project_calls device online limit d cursor = Inr (xs, None)" for xs
    using that by (auto simp: eq p split: if_splits)
  show "(0 < limit \<and> is_ok (decode_cursor c'))
      \<and> map (online_summary device online) (drop (list_position cursor) ?all) = xs @ map (online_summary device online) (drop (list_position c') ?all)
      \<and> length ?all - list_position c' < length ?all - list_position cursor"
    if "project_calls device online limit d cursor = Inr (xs, Some c')" for xs c'
  proof -
    have c: "c' = Some (encode_cursor (n + length ?page))" "xs = map (online_summary device online) ?page" "n + length ?page < length ?all"
      using that by (auto simp: eq split: if_splits)
    then have q: "list_position c' = n + length ?page" by (simp add: list_position_def)
    have "drop n ?all = ?page @ drop (n + length ?page) ?all" by (metis append_take_drop_id add.commute append_eq_conv_conj drop_drop)
    then have "map (online_summary device online) (drop n ?all) = xs @ map (online_summary device online) (drop (n + length ?page) ?all)"
      unfolding c(2) by (metis map_append)
    moreover have "0 < length ?page" using a c(3) by auto
    moreover have "is_ok (decode_cursor c')" by (simp add: c(1))
    moreover have "length ?all - (n + length ?page) < length ?all - n" using c(3) calculation(2) by linarith
    ultimately show ?thesis using a unfolding p q by blast
  qed
qed

lemma project_listing_complete:
  "0 < limit \<Longrightarrow> follow (project_calls device online limit d) (Suc (length (list_projects True d))) None
     = Some (map (online_summary device online) (list_projects True d))"
  using project_listing.follow_complete [of limit None] by (simp add: list_position_def decode_cursor_def del: follow.simps)

section \<open>No pin is left behind\<close>

lemma open_root_ok:
  assumes "keeps_pins env" and "scope_ok S" and "current \<in> known_directories S" and "open_root env current cs info S = (r, S')"
  shows "scope_ok S'"
  using assms(2-4)
proof (induction cs arbitrary: current info S)
  case (Cons c cs)
  obtain r1 S1 where o: "scope_open env (current @ [c]) True S = (r1, S1)" by (cases "scope_open env (current @ [c]) True S")
  have k: "scope_ok S1" using scope_open_keeps(1) [OF assms(1) Cons.prems(1) o] Cons.prems(2) by (simp add: scope_keeps_def)
  show ?case
  proof (cases r1)
    case (Inl e)
    then show ?thesis using Cons.prems(3) o k by simp
  next
    case (Inr hn)
    obtain h n where hn: "hn = (h, n)" by (cases hn)
    have "map_of (rs_directories (fst S1)) (current @ [c]) = Some (h, n)"
      using scope_open_keeps(2) [OF assms(1) Cons.prems(1) o, of h n] Cons.prems(2) Inr hn by simp
    then have "current @ [c] \<in> known_directories S1" using map_of_known [of S1 "current @ [c]"] by simp
    then show ?thesis using Cons.IH [OF k] Cons.prems(3) o Inr hn by simp
  qed
qed simp

lemma scope_enter_failed_closed:
  assumes "keeps_pins env" and "wn_open W = []" and "scope_enter env scope_path W = (Inl e, S)"
  shows "wn_open (snd S) = []"
proof -
  have ok: "scope_ok (sc, W)" if "rs_directories sc = []" for sc using that assms(2) by (simp add: scope_ok_def)
  show ?thesis
  proof (cases "normalize_read_scope scope_path")
    case (Inl e')
    then show ?thesis using assms(2,3) by (auto simp: scope_enter_def Let_def)
  next
    case (Inr v)
    let ?rt = "scope_root v"
    let ?S0 = "(\<lparr>rs_root = ?rt, rs_handles = [], rs_directories = [], rs_identity = []\<rparr>, W)"
    obtain r1 S1 where o: "scope_open env [hd ?rt] True ?S0 = (r1, S1)" by (cases "scope_open env [hd ?rt] True ?S0")
    have ok0: "scope_ok ?S0" by (rule ok) simp
    have ok1: "scope_ok S1" using scope_open_keeps(1) [OF assms(1) ok0 o] by (simp add: scope_keeps_def)
    have "scope_ok S2" if "r1 = Inr (h, n)" "open_root env [hd ?rt] (tl ?rt) n S1 = (r2, S2)" for h n r2 S2
    proof -
      have "[hd ?rt] \<in> known_directories S1"
        using scope_open_keeps(2) [OF assms(1) ok0 o _ that(1)] map_of_known [of S1 "[hd ?rt]"] by simp
      then show ?thesis using open_root_ok [OF assms(1) ok1 _ that(2)] by blast
    qed
    then have closed: "wn_open (snd (scope_close S2)) = []" if "r1 = Inr (h, n)" "open_root env [hd ?rt] (tl ?rt) n S1 = (r2, S2)" for h n r2 S2
      using that scope_close_all by blast
    show ?thesis
      using assms(3) Inr o scope_close_all [OF ok0] scope_close_all [OF ok1] closed
      by (auto simp: scope_enter_def Let_def split: if_splits option.splits sum.splits prod.splits)
  qed
qed

lemma through_perform: "through_scope (su_reading X) (perform_read X q tg d)"
  unfolding perform_read_def by (auto simp: comp_def intro!: scoped_calls)

lemma file_operation_body_keeps:
  assumes "file_operation_body X c q g pr tg m S = (r, m', S')" and "keeps_pins (rg_others (su_reading X))" and "entered S"
  shows "scope_ok S'"
proof -
  have refl: "scope_ok S" using assms(3) by (simp add: entered_def)
  have worked: "scope_ok (snd (perform_read X q tg d S))" for d
    using through_scope_keeps [OF through_perform assms(2,3)] by (simp add: scope_keeps_def)
  have "S' = S \<or> (\<exists>d. S' = snd (perform_read X q tg d S))"
    using assms(1) by (auto simp: file_operation_body_def Let_def split: prod.splits sum.splits) (metis snd_conv)
  then show ?thesis using refl worked by auto
qed

lemma resolve_target_pins:
  assumes "resolve_file_target X pr scope_path W = (r, S)" and "keeps_pins (rg_others (su_reading X))" and "wn_open W = []"
  shows "case r of Inl _ \<Rightarrow> wn_open (snd S) = [] | Inr tg \<Rightarrow> (if tg_scope tg = None then wn_open (snd S) = [] else entered S)"
proof (cases scope_path)
  case None
  then show ?thesis using assms(1,3) by (auto simp: resolve_file_target_def Let_def split: if_splits sum.splits)
next
  case (Some s)
  obtain r1 S1 where e: "scope_enter (rg_others (su_reading X)) s W = (r1, S1)" by (cases "scope_enter (rg_others (su_reading X)) s W")
  show ?thesis
  proof (cases r1)
    case (Inl x)
    then show ?thesis using assms(1,3) Some e scope_enter_failed_closed [OF assms(2,3)]
      by (auto simp: resolve_file_target_def Let_def split: if_splits sum.splits)
  next
    case (Inr u)
    then have "entered S1" using scope_enter_entered [OF assms(2,3)] e by simp
    moreover have "wn_open (snd (scope_close S1)) = []" using calculation scope_close_all by (simp add: entered_def)
    ultimately show ?thesis using assms(1,3) Some e Inr
      by (auto simp: resolve_file_target_def Let_def split: if_splits sum.splits)
  qed
qed

text \<open>
  C21. Nothing stays pinned: whatever way a file operation takes, refused, failed, cancelled or
  answered, and whatever other processes do meanwhile, all handles that its external directory was
  pinned by are closed when it returns.
\<close>

theorem file_operation_closes:
  assumes "keeps_pins (rg_others (su_reading X))" and "wn_open W = []" and "file_operation X c q (m, W) = (r, m', W')"
  shows "wn_open W' = []"
proof -
  consider "W' = W"
    | pr e S where "resolve_file_target X pr (wr_scope q) W = (Inl e, S)" "W' = snd S"
    | pr tg S r2 m2 S' where "resolve_file_target X pr (wr_scope q) W = (Inr tg, S)"
        "file_operation_body X c q (am_generation m) pr tg m S = (r2, m2, S')" "W' = snd (if tg_scope tg \<noteq> None then scope_close S' else S')"
    using assms(3) by (auto simp: file_operation_def split: sum.splits prod.splits)
  then show ?thesis
  proof cases
    case 1
    then show ?thesis using assms(2) by simp
  next
    case 2
    then show ?thesis using resolve_target_pins [OF 2(1) assms(1,2)] by simp
  next
    case 3
    show ?thesis
    proof (cases "tg_scope tg")
      case None
      then have "wn_open (snd S) = []" using resolve_target_pins [OF 3(1) assms(1,2)] by simp
      moreover have "S' = S" using 3(2) None
        by (auto simp: file_operation_body_def perform_read_def bindS_def liftS_def Let_def split: prod.splits sum.splits)
      ultimately show ?thesis using 3(3) None by simp
    next
      case (Some s)
      then have "entered S" using resolve_target_pins [OF 3(1) assms(1,2)] by simp
      then show ?thesis using 3(3) Some file_operation_body_keeps [OF 3(2) assms(1)] scope_close_all by simp
    qed
  qed
qed

lemma device_read_body_keeps:
  assumes "device_read_body X c purpose q g pp m S = (r, m', S')" and "keeps_pins (rg_others (su_reading X))" and "entered S"
  shows "scope_ok S'"
proof -
  have "scope_ok S" using assms(3) by (simp add: entered_def)
  moreover have "scope_ok (snd (device_read (su_sha X) (su_reading X) q S))"
    using through_scope_keeps [OF through_device_read assms(2,3)] by (simp add: scope_keeps_def)
  moreover have "S' = S \<or> S' = snd (device_read (su_sha X) (su_reading X) q S)"
    using assms(1) by (auto simp: device_read_body_def Let_def split: prod.splits sum.splits)
  ultimately show ?thesis by auto
qed

lemma device_read_closes:
  assumes "keeps_pins (rg_others (su_reading X))" and "wn_open W = []" and "device_read_execute X c purpose q (m, W) = (r, m', W')"
  shows "wn_open W' = []"
proof -
  obtain r1 S where e: "scope_enter (rg_others (su_reading X)) (dq_scope q) W = (r1, S)"
    by (cases "scope_enter (rg_others (su_reading X)) (dq_scope q) W")
  consider "W' = W" | x where "r1 = Inl x" "W' = snd S"
    | pp r2 m2 S' where "r1 = Inr ()" "device_read_body X c purpose q (am_generation m) pp m S = (r2, m2, S')" "W' = snd (scope_close S')"
    using assms(3) e by (auto simp: device_read_execute_def split: sum.splits prod.splits)
  then show ?thesis
  proof cases
    case 3
    have "entered S" using scope_enter_entered [OF assms(1,2)] e 3(1) by blast
    then show ?thesis using device_read_body_keeps [OF 3(2) assms(1)] scope_close_all 3(3) by simp
  qed (use assms(2) scope_enter_failed_closed [OF assms(1,2)] e in auto)
qed

section \<open>Only with consent\<close>

lemma external_asks:
  assumes "authorize_project_operation ask now pr rq False False sc m = (Inr (), m1)" and "mode pr \<noteq> FULL_ACCESS"
  shows "\<exists>sc' reuse. ask rq False sc' reuse m = (Inr (), m1)"
  using assms by (auto simp: authorize_project_operation_def project_access_policy_def res_simps split: sum.splits if_splits project_mode.splits)


text \<open>The same for a device read, with or without an origin project.\<close>

lemma device_read_consented:
  assumes "device_read_execute X c purpose q (m, W) = (Answer (Inr a), m', W')" and "su_clock X = (t0, t1, t2, t3)"
  shows "\<exists>pp dg identity m1. device_policy q m = Inr pp \<and> compute_action_digest (su_sha X) (device_json purpose q) = Inr dg
    \<and> device_consent (su_ask X) c purpose q pp identity dg m = (Inr (), m1)
    \<and> (dq_project q = None \<longrightarrow> (\<exists>sc. su_ask X (device_approval c purpose q None dg) False sc True m = (Inr (), m1)))
    \<and> am_generation m1 = am_generation m \<and> am_generation m' = am_generation m \<and> t3 < ca_deadline c"
proof -
  obtain pp S S' r0 where pp: "device_policy q m = Inr pp" and ok: "os_failed r0 = Answer (Inr a)"
      and body: "device_read_body X c purpose q (am_generation m) pp m S = (r0, m', S')"
    using assms(1) by (auto simp: device_read_execute_def res_simps os_failed_def split: sum.splits prod.splits exn.splits)
  have r0: "r0 = Answer (Inr a)" using ok by (auto simp: os_failed_def split: outcome.splits sum.splits exn.splits)
  obtain dg m1 r where dg: "compute_action_digest (su_sha X) (device_json purpose q) = Inr dg"
      and con: "device_consent (su_ask X) c purpose q pp (rs_identity (fst S)) dg m = (Inr (), m1)"
      and cur: "ensure_current t2 (am_generation m) (ca_deadline c) m1 = Inr ()" and m': "m' = su_during X m1"
      and out: "drained (su_cancelled X) (bindE r (\<lambda>a. bindE (ensure_current t3 (am_generation m) (ca_deadline c) m') (\<lambda>_. Inr a))) = Answer (Inr a)"
    using body r0 assms(2) by (auto simp: device_read_body_def Let_def split: sum.splits prod.splits)
  have "ensure_current t3 (am_generation m) (ca_deadline c) m' = Inr ()" using out by (auto simp: drained_def res_simps split: if_splits)
  then have fin: "am_generation m' = am_generation m" "t3 < ca_deadline c" "am_generation m1 = am_generation m"
    using cur by (auto simp: ensure_current_def raise_if_def split: if_splits)
  have "\<exists>sc. su_ask X (device_approval c purpose q None dg) False sc True m = (Inr (), m1)" if "dq_project q = None"
    using con pp that by (auto simp: device_policy_def device_consent_def)
  then show ?thesis
    by (intro exI [of _ pp] exI [of _ dg] exI [of _ "rs_identity (fst S)"] exI [of _ m1]) (simp add: pp dg con fin)
qed

section \<open>An external read\<close>

definition demo_disk :: filesystem where
  "demo_disk = reading_disk\<lparr>fs_dirs := (fs_dirs reading_disk)([lit ''C:'' @ [92], lit ''a''] \<mapsto>
     \<lparr>d_identity = \<lparr>volume_serial = 7, file_id = 5, link_count = 1\<rparr>, d_attrs = 0x10\<rparr>)\<rparr>"

definition demo_surroundings :: surroundings where
  "demo_surroundings =
     \<lparr>su_sha = (\<lambda>b. b), su_casefold = ascii_lower, su_compile = no_regex, su_text = join [92], su_lower = ascii_lower,
      su_disk = demo_disk, su_scandir = demo_scan, su_reader = demo_reader,
      su_reading = \<lparr>rg_others = hostile, rg_listing = (\<lambda>_ _. Inr []), rg_broken = (\<lambda>_ _. False), rg_check = (\<lambda>_. Inr ())\<rparr>,
      su_ask = (\<lambda>rq s sc reuse m. (Inr (), m)), su_clock = (1, 2, 3, 4), su_during = (\<lambda>m. m), su_first_check = Inr (), su_cancelled = False\<rparr>"

definition demo_call :: operation_call where
  "demo_call = \<lparr>ca_binding = \<lparr>account_id = lit ''acct'', grant_id = lit ''g'', link_id = lit ''l'', device_id = lit ''dev''\<rparr>,
     ca_epoch = 1, ca_deadline = 100, ca_request_id = lit ''approval_1''\<rparr>"

definition demo_wire :: wire_request where
  "demo_wire = \<lparr>wr_project = lit ''p1'', wr_scope = Some (lit ''C:/a''), wr_purpose = Some (lit ''look''),
     wr_operation = Wire_read (lit ''t'') 1 None None 100 None\<rparr>"

definition demo_file_operation :: "wire_answer outcome \<times> manager \<times> windows" where
  "demo_file_operation = file_operation demo_surroundings demo_call demo_wire (new_manager (Some reading_db), demo_windows)"

lemma hostile_pins: "keeps_pins hostile"
  by (auto simp: keeps_pins_def hostile_def list_ex_iff)

lemma demo_answers: "case fst demo_file_operation of Answer (Inr (Wire_page _ t _ _ _ _ _ _ _ _)) \<Rightarrow> t = lit ''     1 | hi'' | _ \<Rightarrow> False"
  by code_simp

theorem file_operation_closes_witness:
  "wn_open (snd (snd demo_file_operation)) = [] \<and> rs_handles (fst demo_scope) \<noteq> []"
proof
  show "wn_open (snd (snd demo_file_operation)) = []"
    by (rule file_operation_closes [of demo_surroundings demo_windows demo_call demo_wire "new_manager (Some reading_db)"
          "fst demo_file_operation" "fst (snd demo_file_operation)"])
      (simp_all add: demo_surroundings_def hostile_pins demo_windows_def demo_file_operation_def)
  show "rs_handles (fst demo_scope) \<noteq> []" by code_simp
qed


end
