(* ===== verification/File_Mutations.thy ===== *)
theory File_Mutations
  imports File_Operations Patch_Apply
begin

text \<open>
  \<open>project_apply_patch\<close> behind the trust boundary: the mutating half of \<open>_file_operation\<close>
  (\<open>agent/src/codito_agent/protocol_adapter.py\<close>), from the pinned target through consent to
  \<open>PatchService.apply\<close>, which the theory \<open>Patch_Service\<close> models.  The adapter and the patch service
  share the database inside the approval manager.
\<close>

section \<open>The approval of a patch\<close>

definition patch_json :: "pystr option \<Rightarrow> patch_request \<Rightarrow> json" where
  "patch_json purpose q = JObj ([(lit ''project_id'', JStr (pq_project q))] @ field ''scope_path'' JStr (pq_scope_text q)
     @ field ''purpose'' JStr purpose
     @ [(lit ''patch'', JStr (pq_patch q)), (lit ''base_hashes'', JObj (map (\<lambda>(p, h). (p, hash_json h)) (pq_base q))),
        (lit ''idempotency_key'', JStr (pq_key q)), (lit ''dry_run'', JBool (pq_dry q))])"

definition deletes :: "patch_section list \<Rightarrow> bool" where
  "deletes ss = list_ex (\<lambda>s. action s \<in> {DeleteFile, MoveFile}) ss"

definition patch_risk :: "patch_request \<Rightarrow> patch_section list \<Rightarrow> approval_risk" where
  "patch_risk q ss = (if pq_dry q then READ else if deletes ss then DELETE else WRITE)"

definition patch_approval ::
  "surroundings \<Rightarrow> operation_call \<Rightarrow> pystr option \<Rightarrow> patch_request \<Rightarrow> patch_section list \<Rightarrow> project \<Rightarrow> target \<Rightarrow> pystr \<Rightarrow> approval_request" where
  "patch_approval X c purpose q ss pr tg dg =
     \<lparr>ap_id = ca_request_id c, ap_binding = ca_binding c, ap_project = project_id pr, ap_title = title pr,
      ap_capability = (if \<not> pq_dry q then lit ''files:write'' else if tg_inside tg then lit ''files:read'' else lit ''device:read''),
      ap_digest = dg, ap_epoch = ca_epoch c, ap_deadline = ca_deadline c, ap_aware = True, ap_risk = patch_risk q ss,
      ap_summary = lit ''file_patch: '' @ (case purpose of None \<Rightarrow> lit ''None'' | Some p \<Rightarrow> p)
        @ [10] @ lit ''Target root: '' @ su_text X (root (tg_project tg)) @ [10] @ lit ''Path: (patch document)'',
      ap_command = None, ap_patch = Some (pq_patch q), ap_directory = None, ap_environment = None, ap_network = False,
      ap_external = (case tg_scope tg of Some s \<Rightarrow> if tg_inside tg then [] else [s] | None \<Rightarrow> []),
      ap_session = False, ap_keep_read = False, ap_keep_shell = False, ap_keep_screen = False\<rparr>"

section \<open>Pinning what the patch touches\<close>

definition parent_of :: "pystr \<Rightarrow> pystr" where
  "parent_of p = (case butlast (split_on 47 p) of [] \<Rightarrow> [46] | cs \<Rightarrow> join [47] cs)"

fun pin_sections :: "reading \<Rightarrow> patch_section list \<Rightarrow> unit scoped" where
  "pin_sections R [] = liftS (Inr ())"
| "pin_sections R (s # ss) =
     bindS (scope_directory (rg_others R) (parent_of (path s))) (\<lambda>_.
     bindS (case destination s of
              Some (x # xs) \<Rightarrow> bindS (scope_directory (rg_others R) (parent_of (x # xs))) (\<lambda>_. liftS (Inr ()))
            | _ \<Rightarrow> liftS (Inr ())) (\<lambda>_.
       pin_sections R ss))"

text \<open>The read pins are released before the atomic replacements, which need delete sharing.\<close>

definition release_for_mutation :: "unit scoped" where
  "release_for_mutation S = (Inr (), scope_close S)"

definition prepare_mutation :: "reading \<Rightarrow> target \<Rightarrow> patch_section list \<Rightarrow> unit scoped" where
  "prepare_mutation R tg ss =
     (if tg_scope tg \<noteq> None then bindS (pin_sections R ss) (\<lambda>_. release_for_mutation) else liftS (Inr ()))"

section \<open>The operation\<close>

text \<open>What \<open>apply\<close> is called with, and its surroundings in the theory \<open>Patch_Service\<close>.\<close>

record patching =
  pc_dumps :: "json \<Rightarrow> bytes"
  pc_ext :: "project \<Rightarrow> abspath \<Rightarrow> project res"
  pc_plan :: plan
  pc_now :: nat
  pc_journal :: pystr

definition patch_value :: "operation_call \<Rightarrow> target \<Rightarrow> patch_request \<Rightarrow> patch_request" where
  "patch_value c tg q = q\<lparr>pq_binding := ca_binding c, pq_scope := map_option (\<lambda>_. root (tg_project tg)) (tg_scope tg), pq_scope_text := tg_scope tg\<rparr>"

definition perform_patch ::
  "surroundings \<Rightarrow> patching \<Rightarrow> operation_call \<Rightarrow> target \<Rightarrow> patch_request \<Rightarrow> world \<Rightarrow> json res \<times> world" where
  "perform_patch X M c tg q V =
     (case su_first_check X of
        Inl e \<Rightarrow> (Inl e, V)
      | Inr _ \<Rightarrow>
          apply_patch (su_sha X) (pc_dumps M) (pc_ext M) (pc_plan M) (pc_now M) (pc_journal M) False
            (if tg_scope tg \<noteq> None then Some (tg_project tg) else None) (patch_value c tg q) V)"

definition patch_body ::
  "surroundings \<Rightarrow> patching \<Rightarrow> operation_call \<Rightarrow> pystr option \<Rightarrow> patch_request \<Rightarrow> nat \<Rightarrow> project \<Rightarrow> target \<Rightarrow> manager \<Rightarrow> read_scope \<times> windows \<Rightarrow> world
     \<Rightarrow> json outcome \<times> manager \<times> (read_scope \<times> windows) \<times> world" where
  "patch_body X M c purpose q g pr tg m S V =
     (case su_clock X of (t0, t1, t2, t3) \<Rightarrow>
        (case bindE (parse_patch (pq_patch q)) (\<lambda>ss. bindE (compute_action_digest (su_sha X) (patch_json purpose q)) (\<lambda>dg. Inr (ss, dg))) of
           Inl e \<Rightarrow> (Answer (Inl e), m, S, V)
         | Inr (ss, dg) \<Rightarrow>
             (case authorize_project_operation (su_ask X) t1 pr (patch_approval X c purpose q ss pr tg dg) (tg_inside tg) False no_scopes m of
                (Inl e, m1) \<Rightarrow> (Answer (Inl e), m1, S, V)
              | (Inr _, m1) \<Rightarrow>
                  (case bindE (ensure_current t2 g (ca_deadline c) m1) (\<lambda>_. case am_db m1 of None \<Rightarrow> Inl ValueError | Some d \<Rightarrow> Inr d) of
                     Inl e \<Rightarrow> (Answer (Inl e), m1, S, V)
                   | Inr d \<Rightarrow>
                       (case prepare_mutation (su_reading X) tg ss S of
                          (Inl e, S') \<Rightarrow> (Answer (Inl e), m1, S', V)
                        | (Inr _, S') \<Rightarrow>
                            (case perform_patch X M c tg q (V\<lparr>w_db := d\<rparr>) of
                               (r, V') \<Rightarrow>
                                 let m2 = su_during X (m1\<lparr>am_db := Some (w_db V')\<rparr>) in
                                 (drained (su_cancelled X) (bindE r (\<lambda>a. bindE (ensure_policy t3 g c pr m2) (\<lambda>_. Inr a))), m2, S', V')))))))"

definition patch_operation ::
  "surroundings \<Rightarrow> patching \<Rightarrow> operation_call \<Rightarrow> pystr option \<Rightarrow> patch_request \<Rightarrow> manager \<times> windows \<times> world \<Rightarrow> json outcome \<times> manager \<times> windows \<times> world" where
  "patch_operation X M c purpose q = (\<lambda>(m, W, V).
     case bindE (case am_db m of None \<Rightarrow> Inl ValueError | Some d \<Rightarrow> get_project (pq_project q) d) (\<lambda>pr.
          bindE (ensure_current (fst (su_clock X)) (am_generation m) (ca_deadline c) m) (\<lambda>_. Inr pr)) of
       Inl e \<Rightarrow> (Answer (Inl e), m, W, V)
     | Inr pr \<Rightarrow>
         (case resolve_file_target X pr (pq_scope_text q) W of
            (Inl e, S) \<Rightarrow> (Answer (Inl e), m, snd S, V)
          | (Inr tg, S) \<Rightarrow>
              (case patch_body X M c purpose q (am_generation m) pr tg m S V of
                 (r, m', S', V') \<Rightarrow> (r, m', snd (if tg_scope tg \<noteq> None then scope_close S' else S'), V'))))"

section \<open>Only the approved patch\<close>


section \<open>No pin is left behind\<close>

lemma through_pin: "through_scope R (pin_sections R ss)"
proof -
  have dir: "through_scope R (scope_directory (rg_others R) rel)" for rel
    by (rule through_scopeI, rule exI [of _ "[Directory_call rel]"]) simp
  show ?thesis by (induction ss) (auto intro!: scoped_calls dir split: option.split list.split)
qed

lemma prepare_mutation_ok:
  assumes "keeps_pins (rg_others R)" and "entered S"
  shows "scope_ok (snd (prepare_mutation R tg ss S))"
proof -
  have k: "scope_ok (snd (pin_sections R ss S))" using through_scope_keeps [OF through_pin assms] by (simp add: scope_keeps_def)
  have closed: "scope_ok (scope_close T)" if "scope_ok T" for T
    using scope_close_all [OF that] by (cases T) (auto simp: scope_ok_def scope_close_def)
  show ?thesis
    using k closed [OF k] assms(2) by (auto simp: prepare_mutation_def bindS_def liftS_def release_for_mutation_def entered_def split: prod.split sum.split)
qed

lemma patch_operation_closes:
  assumes "keeps_pins (rg_others (su_reading X))" and "wn_open W = []" and "patch_operation X M c purpose q (m, W, V) = (r, m', W', V')"
  shows "wn_open W' = []"
proof -
  consider "W' = W"
    | pr e S where "resolve_file_target X pr (pq_scope_text q) W = (Inl e, S)" "W' = snd S"
    | pr tg S r2 m2 S' V2 where "resolve_file_target X pr (pq_scope_text q) W = (Inr tg, S)"
        "patch_body X M c purpose q (am_generation m) pr tg m S V = (r2, m2, S', V2)" "W' = snd (if tg_scope tg \<noteq> None then scope_close S' else S')"
    using assms(3) by (auto simp: patch_operation_def split: sum.splits prod.splits)
  then show ?thesis
  proof cases
    case 1
    then show ?thesis using assms(2) by simp
  next
    case 2
    then show ?thesis using resolve_target_pins [OF 2(1) assms(1,2)] by simp
  next
    case 3
    have S': "S' = S \<or> (\<exists>ss. S' = snd (prepare_mutation (su_reading X) tg ss S))"
      using 3(2) by (auto simp: patch_body_def Let_def split: prod.splits sum.splits) (metis snd_conv)+
    show ?thesis
    proof (cases "tg_scope tg")
      case None
      then have "S' = S" using S' by (auto simp: prepare_mutation_def liftS_def)
      then show ?thesis using resolve_target_pins [OF 3(1) assms(1,2)] 3(3) None by simp
    next
      case (Some s)
      then have e: "entered S" using resolve_target_pins [OF 3(1) assms(1,2)] by simp
      then have "scope_ok S'" using S' prepare_mutation_ok [OF assms(1) e] by (auto simp: entered_def)
      then show ?thesis using 3(3) Some scope_close_all by simp
    qed
  qed
qed

section \<open>An approved patch\<close>

definition demo_patching :: patching where
  "demo_patching = \<lparr>pc_dumps = (\<lambda>_. []), pc_ext = (\<lambda>pr r. Inr pr), pc_plan = faulty [], pc_now = 0, pc_journal = lit ''j''\<rparr>"

definition demo_patch_operation :: "json outcome \<times> manager \<times> windows \<times> world" where
  "demo_patch_operation = patch_operation (demo_surroundings\<lparr>su_disk := example_disk\<rparr>) demo_patching demo_call None example_request
     (new_manager (Some (w_db example_world)), demo_windows, example_world)"


end
