(* ===== verification/Spec2Isabelle.thy ===== *)
theory Spec2Isabelle
  imports Patch_Apply Project_Management Tunnel_Replay Shell_Consent Relay_Findings Relay_Calls Read_Slots File_Mutations
begin

text \<open>
  \<^bold>\<open>Codito.\<close>  Codito lets a remote assistant work on a user's Windows machine.  An agent on the
  machine (\<open>agent/src/codito_agent\<close>) holds the user's projects, asks the user for consent and
  performs the operations; a relay (\<open>relay/codito_relay\<close>) authenticates the assistant and forwards
  operations over a fenced WebSocket; the contracts the two share are in
  \<open>packages/protocol/src/codito_protocol\<close>.  This development is about the agent (what
  reaches it over the tunnel, what it remembers, what it lets through, what it runs, and what it does
  to files) and about the relay's path of an operation: admission, delivery, result and answer.

  \<^bold>\<open>How the parts interact.\<close>  A tool call enters \<open>dispatch_tool\<close> of the relay, which checks the
  caller's scopes, link, project and idempotency key, inserts an operation under the device's queue
  limit, and puts its correlation on a Redis stream.  The device's WebSocket consumer reads the stream,
  marks the operation as attempted and writes its envelope to the socket; the device's messages move
  the operation through its states, and a terminal one is put on the stream the waiting call reads.
  On the device, \<open>DeviceWebSocketClient\<close> receives an envelope, checks its fence and
  its action digest, records the receipt in \<open>AgentDatabase\<close>, and starts a task that calls the
  operation handler under a time budget.  The handler routes the operation through
  \<open>ProjectAccessPolicy\<close> and \<open>ApprovalManager\<close> and then to a service: \<open>PatchService\<close> changes files
  below a registered root (through \<open>ProjectPathResolver\<close>, under the \<open>OperationGate\<close>),
  \<open>ProjectManagementService\<close> changes the registry, the shell service starts commands as jobs that
  are polled and cancelled by later operations, and the read services list, read and search.  The
  adapter in front of the services (\<open>AgentProtocolAdapter\<close>) validates the input, pins an external
  directory by open handles for as long as the prompt and the work take, holds a slot of the two
  read semaphores, and releases a result only if its authority still stands.  The result is stored,
  sent, and kept until the relay acknowledges it.

  \<^bold>\<open>Theories.\<close>
  \<^item> \<open>Codito_Base\<close>, \<open>Codito_Text\<close>: the prelude.  Python text as code points, the UTF-8 codec, the string
    methods, JSON values, results \<open>exn + 'a\<close> with the codes of \<open>errors.py\<close>, the collections
    \<open>res_simps\<close> and \<open>text_simps\<close>.
  \<^item> \<open>Paths\<close> (\<open>paths.py\<close>, \<open>file_targets.py\<close>, the path types of the protocol): lexical validation,
    resolution below a root, revalidation before a mutation.  The operating system is a record of
    its answers.  Shown: the exact language of the validator, containment of what is resolved,
    identity of what is mutated, agreement with the wire contract.
  \<^item> \<open>Operation_Gate\<close> (\<open>operation_gate.py\<close>): one owner per workspace, as the locale \<open>gate\<close> and its
    interpretation.  Shown: mutual exclusion in every interleaving, release on every exit.
  \<^item> \<open>Patch_Text\<close>, \<open>Patch_Grammar\<close> (\<open>patching.py\<close>, first half): the patch parser, hunk application and
    the text codec.  Shown: well-formedness, print/parse and decode/encode round trips, and that
    hunk application refines the specification "every hunk matches at exactly one place".
  \<^item> \<open>Disk\<close>, \<open>Patch_Service\<close>, \<open>Patch_Atomic\<close>, \<open>Patch_Apply\<close> (\<open>patching.py\<close>, second half): a file system with
    atomic primitives and a plan of faults, preflight, the journalled commit, rollback, recovery,
    and the idempotent operation.  Shown: all of the patch or nothing of it, recovery after a crash,
    fail-closed reporting, and replay of a repeated request.
  \<^item> \<open>Agent_Db\<close>, \<open>Agent_Db_Laws\<close>, \<open>Agent_Db_Inv\<close> (\<open>db.py\<close>): the tables as lists of rows and every statement
    as a function of the store; \<open>db_call\<close> and \<open>run\<close> are arbitrary sequences of statements.  Shown:
    the schema's constraints, single acceptance, final states, bound idempotency keys, settled
    registration requests, growing epochs, redacted requests.
  \<^item> \<open>Action_Digest\<close> (\<open>digest.py\<close>): canonical JSON.  Shown: two actions have one digest exactly if they
    are one JSON value.
  \<^item> \<open>Approvals\<close>, \<open>Approval_Laws\<close> (\<open>approvals.py\<close>, \<open>access_policy.py\<close>): a request is two steps with
    the prompt between them; \<open>approvals_run\<close> lets anything happen in between.  The tables of saved
    permissions share the locale \<open>permission_table\<close>.  Shown: saved permissions are authentic,
    answers are current, and what passes without asking.
  \<^item> \<open>Project_Management\<close> (\<open>project_management.py\<close>): the registry handler over the approval manager.
    Shown: a remote change is the approved one and no other.
  \<^item> \<open>Wire_Errors\<close> (\<open>wire_errors.py\<close>, \<open>errors.py\<close>): failures as they leave the device.  Shown: known
    codes, bounded texts, no local paths.
  \<^item> \<open>Agent_Tunnel\<close>, \<open>Tunnel_Laws\<close>, \<open>Tunnel_Replay\<close> (\<open>websocket_client.py\<close>, \<open>envelope.py\<close>): the tunnel
    client; \<open>tunnel_event\<close> and \<open>tunnel_run\<close> are arbitrary sequences of connections, deliveries,
    starts and ends of operations, crashes and database statements.  Shown: native actions happen
    at most once, budgets only shrink, foreign envelopes have no effect, results are sent again
    until they are acknowledged.
  \<^item> \<open>Shell_Output\<close> (\<open>shell.py\<close>, the output of a job): capturing up to a byte limit, and pages.  Shown: the
    kept text is exact up to the limit; polling ends and returns everything.
  \<^item> \<open>Shell_Policy\<close> (\<open>shell_policy.py\<close>): the review of command lines, its regular expressions written out as
    the searches they perform.  Shown: what a command without reported references cannot contain.
  \<^item> \<open>Shell_Start\<close>, \<open>Shell_Jobs\<close>, \<open>Shell_Laws\<close>, \<open>Shell_Consent\<close> (\<open>shell.py\<close>): a request for a command, its plan and
    its approval, the coroutine of a job cut at the points where it waits, cancellation and the loss
    of the connection; \<open>shell_event\<close> and \<open>shell_run\<close> are arbitrary interleavings.  Shown: a command is
    launched at most once, and only with consent to exactly this execution.
  \<^item> \<open>Relay_Store\<close> (\<open>core/models.py\<close>, \<open>core/authz.py\<close>): the relay's tables as rows and the authentication of
    a caller.
  \<^item> \<open>Relay_Dispatch\<close> (\<open>core/dispatch.py\<close>): a call as a sequence of phases cut at its awaits: checks, admission,
    publication, the wait for a result, its validation against the request, and the error when it is
    lost; and the paged project list.
  \<^item> \<open>Relay_Socket\<close> (\<open>core/websocket.py\<close>, the device pages of \<open>core/views.py\<close>, \<open>cleanup_codito.py\<close>): tickets and
    epochs, delivery and recovery, device messages, project synchronization, rotation, revocation and
    retention.  A transaction is one function that leaves the store unchanged when it raises.
  \<^item> \<open>Relay_Run\<close>: \<open>relay_event\<close> and \<open>relay_steps\<close> are arbitrary interleavings of calls, sockets, pages, stream
    trimming, abandoned calls and lost connections on one store.  \<open>Relay_Laws\<close>: every event moves the rows by
    \<open>op_move\<close> and admits at most one; the locale \<open>run_invariant\<close> carries an invariant over runs.  Shown: the
    queue is bounded and a recorded result is final.
  \<^item> \<open>Relay_Delivery\<close>: an action that must not run twice is written to a socket at most once; relay and
    device (\<open>Agent_Tunnel\<close>) accept each other's envelopes.  \<open>Relay_Fence\<close>: of two sockets of a device at most
    one acts.  \<open>Relay_Calls\<close>: operations are authorized, idempotency keys are bound, a lost action is
    reported as unknown.  \<open>Relay_Projects\<close>: synchronization is exact and paging is complete.
    \<open>Relay_Findings\<close>: runs on which the relay does not do what its messages say.

  \<^item> \<open>Read_Codec\<close>, \<open>Read_Glob\<close> (\<open>read_tools.py\<close>, \<open>types.py\<close>): base64 cursors, the detection of encodings and
    newlines, \<open>fnmatch\<close> globs.  Shown: cursors and encodings are read back as they were written.
  \<^item> \<open>Paging\<close>: the locale \<open>paged\<close> says what an operation with a continuation owes a client that follows it,
    and bounds the number of calls.  \<open>Read_Text\<close> and \<open>Read_Search\<close> (\<open>read_tools.py\<close>) interpret it for reading,
    listing and searching, \<open>Read_Scoped_Laws\<close> for scoped reading, \<open>File_Operations\<close> for the project list.
    Shown: a file, a directory and the matches of a search are returned completely and once.
  \<^item> \<open>Read_Scope\<close> (\<open>device_paths.py\<close>): a directory pinned by handles, over a Windows name space that
    other processes change between any two calls except at open paths.  Shown: what is read is a
    plain file below the approved directory.
  \<^item> \<open>Read_Scoped\<close>, \<open>Read_Scoped_Laws\<close> (\<open>scoped_read_tools.py\<close>, the worker of \<open>device_read.py\<close>): the tools on a
    pinned scope as functions of the scope and of Windows.  Shown: they touch Windows only through the
    scope's operations, so its invariant holds throughout; pages under a line limit are complete.
  \<^item> \<open>File_Operations\<close>, \<open>File_Mutations\<close> (\<open>protocol_adapter.py\<close>, \<open>file_targets.py\<close>, \<open>device_read.py\<close>, \<open>read.py\<close>): reads
    and patches from the wire contract through consent to the service.  Shown: no data leaves and no
    file changes without consent to exactly that request, and no handle stays open.
  \<^item> \<open>Read_Slots\<close> (\<open>protocol_adapter.py\<close>): the semaphores as steps of a state.  Shown: both limits hold, and
    nobody waits while nobody reads.

  \<^bold>\<open>Parameters.\<close>  The hash is a function \<open>sha\<close>; where a property needs it to be collision free it
  says so as injectivity (of \<open>sha\<close>, or on the texts concerned).  The operating system's answers,
  fault plans, clock readings, random identifiers, the user's answers, the handler's outcome, the
  text of an exception and the tools' input schemas are arguments of the definitions that use them.
  At the relay the record \<open>relay_env\<close> holds the hash, the input and result models of the tools,
  \<open>urlsplit\<close>, Django's signing, the UUID parser and the signature check; a property that needs one of
  them to behave says so (the page cursor: what was signed can be read back).
  For the read tools, \<open>str.casefold\<close>, \<open>str.lower\<close>, the \<open>regex\<close> package and the answers of \<open>os.scandir\<close> are
  parameters, and \<open>keeps_pins\<close> is the one thing Windows is relied on for: while a handle that shares
  neither writing nor deletion is open, its path names the same unchanged object.
  Instants are integers of microseconds; Python's integers are unbounded and so are the model's.
  There is no fuel: every recursion is structural or has a measure (the retry loop of a replacement
  is bounded by its list of delays).

  \<^bold>\<open>Not modelled.\<close>  Threads run one locked section at a time, so a section is one step.  A send on an
  open socket succeeds, and a connection attempt is one step up to its replay.  The identity of an
  executable (\<open>executable_identity\<close>) is read from the file system and is an argument of the steps that
  read it.  At the relay, audit events are write-only and left out, heartbeats change only the
  time of last contact, streams lose entries by an event of their own, and the epoch key that lets the
  delivery loop notice a newer socket early is left out (the store's epoch is what decides).  OAuth
  issuance, code intelligence, browser sessions, the desktop interface, credentials and the updater are
  not modelled: they are clients of external programs and user interface, and their reasons are in the
  list of components.  Of the adapter, the routing of \<open>execute\<close> to those services and the analysis
  tool are left out.  The contracts of the relay's tools stay parameters of the relay's definitions;
  those of the reading tools are written out in \<open>File_Operations\<close>.
\<close>

end
